(* ===== verification/Prelude.thy ===== *)
theory Prelude
  imports Main "HOL-Library.Word"
begin

text \<open>
  Shared vocabulary of the development: the integer types of the AVR target (\<open>int\<close> has
  16 bits, \<open>long\<close> 32, \<open>unsigned char\<close> 8), the byte-pair and byte-split operations the
  sources write with shifts and divisions, and the lemmas on lists and words the components
  share.
\<close>

unbundle bit_operations_syntax

section \<open>Types\<close>

type_synonym u8 = "8 word"
type_synonym u16 = "16 word"
type_synonym u32 = "32 word"
type_synonym bytes = "8 word list"

section \<open>Collections of facts\<close>

named_theorems cursor_simps \<open>equations of the receive cursor\<close>
named_theorems run_intros \<open>preservation lemmas of the operations\<close>

section \<open>Bytes and words\<close>

text \<open>
  \<open>(p[0]<<8) + p[1]\<close> in 16-bit arithmetic, the low byte of an \<open>unsigned int\<close> (assignment
  to an \<open>unsigned char\<close>) and its high byte (\<open>x/256\<close>).
\<close>

definition be16 :: "u8 \<Rightarrow> u8 \<Rightarrow> u16" where
  "be16 hi lo = push_bit 8 (ucast hi) + ucast lo"

definition lo8 :: "u16 \<Rightarrow> u8" where
  "lo8 w = ucast w"

definition hi8 :: "u16 \<Rightarrow> u8" where
  "hi8 w = ucast (w div 256)"

lemma unat_u8_less: "unat (w :: u8) < 256"
  using unsigned_less [of w, where ?'a = nat] by simp

lemma unat_u16_less: "unat (w :: u16) < 65536"
  using unsigned_less [of w, where ?'a = nat] by simp

lemma unat_u32_less: "unat (w :: u32) < 4294967296"
  using unsigned_less [of w, where ?'a = nat] by simp

lemma unat_ucast_u8_u16 [simp]: "unat (ucast (w :: u8) :: u16) = unat w"
  using unat_u8_less [of w] by (simp add: unsigned_ucast_eq take_bit_eq_mod)

lemma unat_ucast_u8_u32 [simp]: "unat (ucast (w :: u8) :: u32) = unat w"
  using unat_u8_less [of w] by (simp add: unsigned_ucast_eq take_bit_eq_mod)

lemma unat_ucast_u16_u32 [simp]: "unat (ucast (w :: u16) :: u32) = unat w"
  using unat_u16_less [of w] by (simp add: unsigned_ucast_eq take_bit_eq_mod)

lemma unat_be16: "unat (be16 hi lo) = unat hi * 256 + unat lo"
proof -
  have h: "unat hi < 256" and l: "unat lo < 256"
    by (rule unat_u8_less)+
  have "unat (push_bit 8 (ucast hi :: u16)) = unat hi * 256"
    using h by (simp add: push_bit_eq_mult unat_word_ariths)
  then show ?thesis
    unfolding be16_def using h l by (simp add: unat_word_ariths)
qed

lemma unat_lo8: "unat (lo8 w) = unat w mod 256"
  by (simp add: lo8_def unsigned_ucast_eq take_bit_eq_mod)

lemma unat_hi8: "unat (hi8 w) = unat w div 256"
proof -
  have "unat w div 256 < 256"
    using unat_u16_less [of w] by (simp add: less_mult_imp_div_less)
  then show ?thesis
    by (simp add: hi8_def unsigned_ucast_eq take_bit_eq_mod unat_div)
qed

lemma be16_hi_lo [simp]: "be16 (hi8 w) (lo8 w) = w"
  by (simp add: word_unat_eq_iff unat_be16 unat_hi8 unat_lo8)

lemma hi8_be16 [simp]: "hi8 (be16 hi lo) = hi"
  using unat_u8_less [of lo] by (simp add: word_unat_eq_iff unat_be16 unat_hi8)

lemma lo8_be16 [simp]: "lo8 (be16 hi lo) = lo"
  using unat_u8_less [of lo] by (simp add: word_unat_eq_iff unat_be16 unat_lo8)

lemma bytes_or: "ucast (lo :: u8) OR ucast (hi :: u8) * 256 = (ucast lo + ucast hi * 256 :: u16)"
proof -
  have h: "ucast hi * 256 = (push_bit 8 (ucast hi) :: u16)" by (simp add: push_bit_eq_mult)
  have "(ucast lo AND push_bit 8 (ucast hi) :: u16) = 0"
    by (rule bit_eqI) (auto simp: bit_simps dest: bit_imp_le_length)
  then show ?thesis
    unfolding h using word_plus_and_or [of "ucast lo :: u16" "push_bit 8 (ucast hi)"] by simp
qed

lemma unat_scast_u16:
  assumes "unat (x :: u16) \<le> 32767"
  shows "unat (scast x :: u32) = unat x"
proof -
  from assms have "int (unat x) \<le> int 32767" by (simp only: of_nat_le_iff)
  then have "uint x \<le> 32767" by simp
  moreover have "- 32768 \<le> uint x" using unsigned_greater_eq [of x, where ?'a = int] by linarith
  ultimately have s: "sint x = uint x"
    unfolding sint_uint by (subst signed_take_bit_int_eq_self) simp_all
  have "(scast x :: u32) = ucast x" unfolding scast_eq s by simp
  then show ?thesis by simp
qed

lemma unat_minus_of_nat:
  assumes "n \<le> unat (w :: u16)"
  shows "unat (w - of_nat n) = unat w - n"
proof -
  have "unat (of_nat n :: u16) = n"
    using assms unat_u16_less [of w] by (simp add: unat_of_nat)
  then show ?thesis using assms by (simp add: unat_sub word_le_nat_alt)
qed

lemma unat_half [simp]: "unat (w div 2 :: u16) = unat w div 2"
  by (simp add: unat_div)

lemma unat_half_double [simp]: "unat (w div 2 * 2 :: u16) = unat w div 2 * 2"
  using unat_u16_less [of w] by (simp add: unat_word_ariths)

lemma half_minus: "((n :: nat) - 2 * k) div 2 = n div 2 - k"
  by arith

lemma unat_and_31: "unat (w AND 31 :: u8) = unat w mod 32"
proof -
  have m: "w AND 31 = take_bit 5 w" by (simp add: take_bit_eq_mask mask_eq_exp_minus_1)
  show ?thesis unfolding m unsigned_take_bit_eq by (simp add: take_bit_eq_mod)
qed

text \<open>The code of a character constant.\<close>

definition char8 :: "char \<Rightarrow> u8" where
  "char8 c = of_nat (of_char c)"

lemma char8_keys [simp]:
  "char8 CHR ''a'' = 97" "char8 CHR ''b'' = 98" "char8 CHR ''c'' = 99" "char8 CHR ''r'' = 114"
  by (simp_all add: char8_def)

section \<open>Lists\<close>

text \<open>\<open>memcpy\<close> of a block over the front of an object.\<close>

definition overwrite :: "'a list \<Rightarrow> 'a list \<Rightarrow> 'a list" where
  "overwrite xs dst = xs @ drop (length xs) dst"

lemma length_overwrite: "length xs \<le> length dst \<Longrightarrow> length (overwrite xs dst) = length dst"
  by (simp add: overwrite_def)

lemma take_overwrite [simp]: "take (length xs) (overwrite xs dst) = xs"
  by (simp add: overwrite_def)

lemma fold_concat_map: "fold f (concat xss) s = fold (fold f) xss s"
  by (induction xss arbitrary: s) simp_all

lemma concat_replicate_Suc: "concat (replicate (Suc n) xs) = concat (replicate n xs) @ xs"
  by (induction n) simp_all

text \<open>Two nested counting loops around the same statement.\<close>

lemma fold_count: "fold (\<lambda>i. f) [0..<n] s = (f ^^ n) s"
  by (induction n) simp_all

lemma fold_count2: "fold (\<lambda>i s. fold (\<lambda>j. f) [0..<n] s) [0..<m] s = (f ^^ (m * n)) s"
proof -
  have "fold (\<lambda>i s. fold (\<lambda>j. f) [0..<n] s) [0..<m] s = ((f ^^ n) ^^ m) s"
    by (simp add: fold_count)
  then show ?thesis by (simp add: funpow_mult mult.commute)
qed

end
