(* ===== verification/UsbSerial.thy ===== *)
theory UsbSerial
  imports Prelude "HOL-Library.State_Monad"
begin

text \<open>
  \<open>LCD Test/usb_serial.c\<close>: the USB serial port. The USB controller is a parameter \<open>H\<close>: how a
  read and a write of each of its registers act on its state. The driver's own state is its
  static variables and the status register \<open>SREG\<close>, whose top bit enables interrupts. The
  functions are written in the state monad, one register access after another as in the code.

  While the program waits with interrupts enabled, interrupts run and the host acts: a list
  \<open>turns\<close> gives what happens in each turn of a waiting loop, any function of the state. A loop
  whose turns run out has the result None. Where the code polls a register with interrupts
  disabled, the number of polls is a parameter.
\<close>

section \<open>Registers\<close>

datatype reg =
    UENUM | UEINTX | UEDATX | UEBCLX | UEBCHX | UECONX | UECFG0X | UECFG1X | UESTA0X | UEIENX
  | UEINT | UERST | UDINT | UDIEN | UDCON | UDADDR | UDFNUML | UDFNUMH | PLLCSR | PLLFRQ | UHWCON
  | USBCON | USBSTA | USBINT

record 'h usb_hw =
  reg_in :: "reg \<Rightarrow> 'h \<Rightarrow> u8 \<times> 'h"
  reg_out :: "reg \<Rightarrow> u8 \<Rightarrow> 'h \<Rightarrow> 'h"

record 'h usb =
  usb_configuration :: u8
  transmit_flush_timer :: u8
  transmit_previous_timeout :: u8
  cdc_line_coding :: bytes
  cdc_line_rtsdtr :: u8
  SREG :: u8
  hw :: 'h

definition usb_boot :: "u8 \<Rightarrow> 'h \<Rightarrow> 'h usb" where
  "usb_boot sreg h =
    \<lparr>usb_configuration = 0, transmit_flush_timer = 0, transmit_previous_timeout = 0,
     cdc_line_coding = [0x00, 0xE1, 0x00, 0x00, 0x00, 0x00, 0x08], cdc_line_rtsdtr = 0,
     SREG = sreg, hw = h\<rparr>"

abbreviation (input) "RWAL \<equiv> 5 :: nat"
abbreviation (input) "RXSTPI \<equiv> 3 :: nat"
abbreviation (input) "RXOUTI \<equiv> 2 :: nat"
abbreviation (input) "TXINI \<equiv> 0 :: nat"
abbreviation (input) "STALLRQ \<equiv> 5 :: nat"
abbreviation (input) "STALLRQC \<equiv> 4 :: nat"
abbreviation (input) "RSTDT \<equiv> 3 :: nat"
abbreviation (input) "EPEN \<equiv> 0 :: nat"
abbreviation (input) "RXSTPE \<equiv> 3 :: nat"
abbreviation (input) "EORSTI \<equiv> 3 :: nat"
abbreviation (input) "SOFI \<equiv> 2 :: nat"
abbreviation (input) "ADDEN \<equiv> 7 :: nat"
abbreviation (input) "PLOCK \<equiv> 0 :: nat"

abbreviation mask_bit :: "nat \<Rightarrow> u8" where
  "mask_bit n \<equiv> push_bit n 1"

type_synonym ('h, 'a) usb_io = "('h usb, 'a) state"
type_synonym 'h turn = "'h usb \<Rightarrow> 'h usb"

definition read_reg :: "'h usb_hw \<Rightarrow> reg \<Rightarrow> ('h, u8) usb_io" where
  "read_reg H r = State (\<lambda>s. case reg_in H r (hw s) of (v, h) \<Rightarrow> (v, s\<lparr>hw := h\<rparr>))"

definition write_reg :: "'h usb_hw \<Rightarrow> reg \<Rightarrow> u8 \<Rightarrow> ('h, unit) usb_io" where
  "write_reg H r v = State (\<lambda>s. ((), s\<lparr>hw := reg_out H r v (hw s)\<rparr>))"

definition ask :: "('h usb \<Rightarrow> 'a) \<Rightarrow> ('h, 'a) usb_io" where
  "ask f = State (\<lambda>s. (f s, s))"

definition modify :: "'h turn \<Rightarrow> ('h, unit) usb_io" where
  "modify f = State (\<lambda>s. ((), f s))"

text \<open>\<open>cli()\<close> and \<open>SREG = intr_state\<close>.\<close>

definition cli :: "('h, unit) usb_io" where
  "cli = modify (\<lambda>s. s\<lparr>SREG := SREG s AND NOT (mask_bit 7)\<rparr>)"

definition sei :: "('h, unit) usb_io" where
  "sei = modify (\<lambda>s. s\<lparr>SREG := SREG s OR mask_bit 7\<rparr>)"

definition restore :: "u8 \<Rightarrow> ('h, unit) usb_io" where
  "restore intr_state = modify (\<lambda>s. s\<lparr>SREG := intr_state\<rparr>)"

definition ready_bit :: "'h usb_hw \<Rightarrow> nat \<Rightarrow> ('h, bool) usb_io" where
  "ready_bit H b = do { u \<leftarrow> read_reg H UEINTX; State_Monad.return (bit u b) }"

lemma run_reg [simp]:
  "run_state (read_reg H r) s = (case reg_in H r (hw s) of (v, h) \<Rightarrow> (v, s\<lparr>hw := h\<rparr>))"
  "run_state (write_reg H r v) s = ((), s\<lparr>hw := reg_out H r v (hw s)\<rparr>)"
  "run_state (ask f) s = (f s, s)" "run_state (modify g) s = ((), g s)"
  by (simp_all add: read_reg_def write_reg_def ask_def modify_def)

section \<open>Descriptors\<close>

definition ENDPOINT0_SIZE :: nat where "ENDPOINT0_SIZE = 16"
definition CDC_ACM_ENDPOINT :: u8 where "CDC_ACM_ENDPOINT = 2"
definition CDC_RX_ENDPOINT :: u8 where "CDC_RX_ENDPOINT = 3"
definition CDC_TX_ENDPOINT :: u8 where "CDC_TX_ENDPOINT = 4"
definition CDC_ACM_SIZE :: u8 where "CDC_ACM_SIZE = 16"
definition CDC_RX_SIZE :: u8 where "CDC_RX_SIZE = 64"
definition CDC_TX_SIZE :: u8 where "CDC_TX_SIZE = 64"
definition TRANSMIT_FLUSH_TIMEOUT :: u8 where "TRANSMIT_FLUSH_TIMEOUT = 5"
definition TRANSMIT_TIMEOUT :: u8 where "TRANSMIT_TIMEOUT = 25"
definition MAX_ENDPOINT :: u8 where "MAX_ENDPOINT = 4"
definition VENDOR_ID :: u16 where "VENDOR_ID = 0x16C0"
definition PRODUCT_ID :: u16 where "PRODUCT_ID = 0x047A"

abbreviation (input) "EP_TYPE_CONTROL \<equiv> 0x00 :: u8"
abbreviation (input) "EP_TYPE_BULK_IN \<equiv> 0x81 :: u8"
abbreviation (input) "EP_TYPE_BULK_OUT \<equiv> 0x80 :: u8"
abbreviation (input) "EP_TYPE_INTERRUPT_IN \<equiv> 0xC1 :: u8"
abbreviation (input) "EP_SINGLE_BUFFER \<equiv> 0x02 :: u8"
abbreviation (input) "EP_DOUBLE_BUFFER \<equiv> 0x06 :: u8"

definition EP_SIZE :: "u8 \<Rightarrow> u8" where
  "EP_SIZE s = (if s = 64 then 0x30 else if s = 32 then 0x20 else if s = 16 then 0x10 else 0x00)"

definition endpoint_config_table :: bytes where
  "endpoint_config_table =
    [0,
     1, EP_TYPE_INTERRUPT_IN, EP_SIZE CDC_ACM_SIZE OR EP_SINGLE_BUFFER,
     1, EP_TYPE_BULK_OUT, EP_SIZE CDC_RX_SIZE OR EP_DOUBLE_BUFFER,
     1, EP_TYPE_BULK_IN, EP_SIZE CDC_TX_SIZE OR EP_DOUBLE_BUFFER]"

definition device_descriptor :: bytes where
  "device_descriptor =
    [18, 1, 0x00, 0x02, 2, 0, 0, of_nat ENDPOINT0_SIZE, lo8 VENDOR_ID, hi8 VENDOR_ID,
     lo8 PRODUCT_ID, hi8 PRODUCT_ID, 0x00, 0x01, 1, 2, 3, 1]"

definition CONFIG1_DESC_SIZE :: u16 where
  "CONFIG1_DESC_SIZE = 9+9+5+5+4+5+7+9+7+7"

definition config1_descriptor :: bytes where
  "config1_descriptor =
    [9, 2, lo8 CONFIG1_DESC_SIZE, hi8 CONFIG1_DESC_SIZE, 2, 1, 0, 0xC0, 50,
     9, 4, 0, 0, 1, 0x02, 0x02, 0x01, 0,
     5, 0x24, 0x00, 0x10, 0x01,
     5, 0x24, 0x01, 0x01, 1,
     4, 0x24, 0x02, 0x06,
     5, 0x24, 0x06, 0, 1,
     7, 5, CDC_ACM_ENDPOINT OR 0x80, 0x03, CDC_ACM_SIZE, 0, 64,
     9, 4, 1, 0, 2, 0x0A, 0x00, 0x00, 0,
     7, 5, CDC_RX_ENDPOINT, 0x02, CDC_RX_SIZE, 0, 0,
     7, 5, CDC_TX_ENDPOINT OR 0x80, 0x02, CDC_TX_SIZE, 0, 0]"

text \<open>
  A wide string literal is its characters in two bytes each with a terminator; its size is
  the number of bytes of a string descriptor with these characters.
\<close>

definition wide :: "string \<Rightarrow> bytes" where
  "wide str = concat (map (\<lambda>c. [char8 c, 0]) str) @ [0, 0]"

definition string_descriptor :: "string \<Rightarrow> bytes" where
  "string_descriptor str = [of_nat (length (wide str)), 3] @ wide str"

definition string0 :: bytes where "string0 = [4, 3, 0x09, 0x04]"
definition string1 :: bytes where "string1 = string_descriptor ''Your Name''"
definition string2 :: bytes where "string2 = string_descriptor ''USB Serial''"
definition string3 :: bytes where "string3 = string_descriptor ''12345''"

text \<open>\<open>wValue\<close>, \<open>wIndex\<close>, the object and the length of each entry.\<close>

definition descriptor_list :: "(u16 \<times> u16 \<times> bytes \<times> nat) list" where
  "descriptor_list =
    [(0x0100, 0x0000, device_descriptor, length device_descriptor),
     (0x0200, 0x0000, config1_descriptor, length config1_descriptor),
     (0x0300, 0x0000, string0, 4),
     (0x0301, 0x0409, string1, length (wide ''Your Name'')),
     (0x0302, 0x0409, string2, length (wide ''USB Serial'')),
     (0x0303, 0x0409, string3, length (wide ''12345''))]"

section \<open>Setting up and receiving\<close>

text \<open>The ATmega32U4 values of the configuration macros; \<open>polls\<close> bounds the wait for the PLL.\<close>

fun wait_pll :: "'h usb_hw \<Rightarrow> nat \<Rightarrow> ('h, unit option) usb_io" where
  "wait_pll H polls = do {
     p \<leftarrow> read_reg H PLLCSR;
     if bit p PLOCK then State_Monad.return (Some ())
     else (case polls of 0 \<Rightarrow> State_Monad.return None | Suc polls \<Rightarrow> wait_pll H polls) }"

declare wait_pll.simps [simp del]

definition usb_init :: "'h usb_hw \<Rightarrow> nat \<Rightarrow> ('h, unit option) usb_io" where
  "usb_init H polls = do {
     write_reg H UHWCON 0x01;
     write_reg H USBCON (mask_bit 7 OR mask_bit 5);
     write_reg H PLLCSR 0x12;
     p \<leftarrow> wait_pll H polls;
     case p of None \<Rightarrow> State_Monad.return None
     | Some p \<Rightarrow> do {
         write_reg H USBCON (mask_bit 7 OR mask_bit 4);
         write_reg H UDCON 0;
         modify (\<lambda>s. s\<lparr>usb_configuration := 0, cdc_line_rtsdtr := 0\<rparr>);
         write_reg H UDIEN (mask_bit EORSTI OR mask_bit SOFI);
         sei;
         State_Monad.return (Some ()) } }"

definition usb_configured :: "('h, u8) usb_io" where
  "usb_configured = ask usb_configuration"

text \<open>
  An empty packet is released and the port looked at again; \<open>polls\<close> bounds the number of
  empty packets in a row. The result is the byte, -1, or None if the polls run out.
\<close>

fun getchar_retry :: "'h usb_hw \<Rightarrow> nat \<Rightarrow> u8 \<Rightarrow> ('h, int option) usb_io" where
  "getchar_retry H polls intr_state = do {
     c \<leftarrow> read_reg H UEINTX;
     if \<not> bit c RWAL then
       (if bit c RXOUTI then do {
          write_reg H UEINTX 0x6B;
          case polls of 0 \<Rightarrow> State_Monad.return None | Suc polls \<Rightarrow> getchar_retry H polls intr_state }
        else do { restore intr_state; State_Monad.return (Some (- 1)) })
     else do {
       c \<leftarrow> read_reg H UEDATX;
       more \<leftarrow> ready_bit H RWAL;
       (if \<not> more then write_reg H UEINTX 0x6B else State_Monad.return ());
       restore intr_state;
       State_Monad.return (Some (uint c)) } }"

declare getchar_retry.simps [simp del]

definition usb_serial_getchar :: "'h usb_hw \<Rightarrow> nat \<Rightarrow> ('h, int option) usb_io" where
  "usb_serial_getchar H polls = do {
     intr_state \<leftarrow> ask SREG;
     cli;
     conf \<leftarrow> ask usb_configuration;
     if conf = 0 then do { restore intr_state; State_Monad.return (Some (- 1)) }
     else do { write_reg H UENUM CDC_RX_ENDPOINT; getchar_retry H polls intr_state } }"

definition usb_serial_available :: "'h usb_hw \<Rightarrow> ('h, u8) usb_io" where
  "usb_serial_available H = do {
     intr_state \<leftarrow> ask SREG;
     cli;
     conf \<leftarrow> ask usb_configuration;
     n \<leftarrow> (if conf \<noteq> 0 then do {
             write_reg H UENUM CDC_RX_ENDPOINT;
             n \<leftarrow> read_reg H UEBCLX;
             (if n = 0 then do {
                i \<leftarrow> read_reg H UEINTX;
                if bit i RXOUTI \<and> \<not> bit i RWAL then write_reg H UEINTX 0x6B
                else State_Monad.return () }
              else State_Monad.return ());
             State_Monad.return n }
           else State_Monad.return 0);
     restore intr_state;
     State_Monad.return n }"

fun flush_banks :: "'h usb_hw \<Rightarrow> nat \<Rightarrow> ('h, unit option) usb_io" where
  "flush_banks H polls = do {
     more \<leftarrow> ready_bit H RWAL;
     if more then do {
       write_reg H UEINTX 0x6B;
       case polls of 0 \<Rightarrow> State_Monad.return None | Suc polls \<Rightarrow> flush_banks H polls }
     else State_Monad.return (Some ()) }"

declare flush_banks.simps [simp del]

definition usb_serial_flush_input :: "'h usb_hw \<Rightarrow> nat \<Rightarrow> ('h, unit option) usb_io" where
  "usb_serial_flush_input H polls = do {
     conf \<leftarrow> ask usb_configuration;
     if conf \<noteq> 0 then do {
       intr_state \<leftarrow> ask SREG;
       cli;
       write_reg H UENUM CDC_RX_ENDPOINT;
       r \<leftarrow> flush_banks H polls;
       case r of None \<Rightarrow> State_Monad.return None
       | Some r \<Rightarrow> do { restore intr_state; State_Monad.return (Some ()) } }
     else State_Monad.return (Some ()) }"

section \<open>Transmitting\<close>

text \<open>
  The wait for the FIFO: the result says whether the FIFO takes a byte (with the interrupt
  state to restore), the wait was given up, or the turns ran out. The turn comes where the
  code has interrupts enabled, before it looks at the frame number and the configuration.
\<close>

datatype tx_wait = Ready u8 | Failed | Waiting

fun wait_fifo :: "'h usb_hw \<Rightarrow> 'h turn list \<Rightarrow> u8 \<Rightarrow> u8 \<Rightarrow> ('h, tx_wait) usb_io" where
  "wait_fifo H turns timeout intr_state = do {
     ok \<leftarrow> ready_bit H RWAL;
     if ok then State_Monad.return (Ready intr_state)
     else do {
       restore intr_state;
       (case turns of [] \<Rightarrow> State_Monad.return Waiting
        | t # turns \<Rightarrow> do {
            modify t;
            f \<leftarrow> read_reg H UDFNUML;
            if f = timeout then do {
              modify (\<lambda>s. s\<lparr>transmit_previous_timeout := 1\<rparr>);
              State_Monad.return Failed }
            else do {
              conf \<leftarrow> ask usb_configuration;
              if conf = 0 then State_Monad.return Failed
              else do {
                intr_state \<leftarrow> ask SREG;
                cli;
                write_reg H UENUM CDC_TX_ENDPOINT;
                wait_fifo H turns timeout intr_state } } }) } }"

declare wait_fifo.simps [simp del]

text \<open>One round of the loop, as a function of the state.\<close>

definition fifo_turn :: "'h usb_hw \<Rightarrow> 'h turn \<Rightarrow> 'h usb \<Rightarrow> u8 \<times> 'h usb" where
  "fifo_turn H t s =
     (let s = t s in case reg_in H UDFNUML (hw s) of (f, h) \<Rightarrow> (f, s\<lparr>hw := h\<rparr>))"

definition fifo_again :: "'h usb_hw \<Rightarrow> 'h usb \<Rightarrow> 'h usb" where
  "fifo_again H s = s\<lparr>SREG := SREG s AND NOT (mask_bit 7), hw := reg_out H UENUM CDC_TX_ENDPOINT (hw s)\<rparr>"

lemma wait_fifo_Nil:
  "run_state (wait_fifo H [] timeout i) s =
     (case reg_in H UEINTX (hw s) of (u, h) \<Rightarrow>
        if bit u RWAL then (Ready i, s\<lparr>hw := h\<rparr>) else (Waiting, s\<lparr>hw := h, SREG := i\<rparr>))"
  by (simp add: wait_fifo.simps [of H "[]"] ready_bit_def restore_def split: prod.splits)

lemma wait_fifo_Cons:
  "run_state (wait_fifo H (t # turns) timeout i) s =
     (case reg_in H UEINTX (hw s) of (u, h) \<Rightarrow>
        if bit u RWAL then (Ready i, s\<lparr>hw := h\<rparr>)
        else (case fifo_turn H t (s\<lparr>hw := h, SREG := i\<rparr>) of (f, s) \<Rightarrow>
          if f = timeout then (Failed, s\<lparr>transmit_previous_timeout := 1\<rparr>)
          else if usb_configuration s = 0 then (Failed, s)
          else run_state (wait_fifo H turns timeout (SREG s)) (fifo_again H s)))"
  by (simp add: wait_fifo.simps [of H "t # turns"] ready_bit_def restore_def cli_def fifo_turn_def
      fifo_again_def Let_def split: prod.splits)

text \<open>Entering: after an earlier timeout a full FIFO is not waited for again.\<close>

definition tx_enter :: "'h usb_hw \<Rightarrow> ('h, u8 option) usb_io" where
  "tx_enter H = do {
     intr_state \<leftarrow> ask SREG;
     cli;
     write_reg H UENUM CDC_TX_ENDPOINT;
     prev \<leftarrow> ask transmit_previous_timeout;
     if prev \<noteq> 0 then do {
       ok \<leftarrow> ready_bit H RWAL;
       if \<not> ok then do { restore intr_state; State_Monad.return None }
       else do {
         modify (\<lambda>s. s\<lparr>transmit_previous_timeout := 0\<rparr>);
         State_Monad.return (Some intr_state) } }
     else State_Monad.return (Some intr_state) }"

fun store_bytes :: "'h usb_hw \<Rightarrow> bytes \<Rightarrow> ('h, unit) usb_io" where
  "store_bytes H [] = State_Monad.return ()"
| "store_bytes H (b # bs) = do { write_reg H UEDATX b; store_bytes H bs }"

text \<open>The end of each transmission: a full packet is released, the flush timer starts.\<close>

definition tx_leave :: "'h usb_hw \<Rightarrow> u8 \<Rightarrow> ('h, unit) usb_io" where
  "tx_leave H intr_state = do {
     more \<leftarrow> ready_bit H RWAL;
     (if \<not> more then write_reg H UEINTX 0x3A else State_Monad.return ());
     modify (\<lambda>s. s\<lparr>transmit_flush_timer := TRANSMIT_FLUSH_TIMEOUT\<rparr>);
     restore intr_state }"

definition usb_serial_putchar :: "'h usb_hw \<Rightarrow> 'h turn list \<Rightarrow> u8 \<Rightarrow> ('h, int option) usb_io" where
  "usb_serial_putchar H turns c = do {
     conf \<leftarrow> ask usb_configuration;
     if conf = 0 then State_Monad.return (Some (- 1))
     else do {
       e \<leftarrow> tx_enter H;
       case e of None \<Rightarrow> State_Monad.return (Some (- 1))
       | Some intr_state \<Rightarrow> do {
           f \<leftarrow> read_reg H UDFNUML;
           w \<leftarrow> wait_fifo H turns (f + TRANSMIT_TIMEOUT) intr_state;
           case w of Waiting \<Rightarrow> State_Monad.return None
           | Failed \<Rightarrow> State_Monad.return (Some (- 1))
           | Ready intr_state \<Rightarrow> do {
               store_bytes H [c];
               tx_leave H intr_state;
               State_Monad.return (Some 0) } } } }"

definition usb_serial_putchar_nowait :: "'h usb_hw \<Rightarrow> u8 \<Rightarrow> ('h, int) usb_io" where
  "usb_serial_putchar_nowait H c = do {
     conf \<leftarrow> ask usb_configuration;
     if conf = 0 then State_Monad.return (- 1)
     else do {
       intr_state \<leftarrow> ask SREG;
       cli;
       write_reg H UENUM CDC_TX_ENDPOINT;
       ok \<leftarrow> ready_bit H RWAL;
       if \<not> ok then do { restore intr_state; State_Monad.return (- 1) }
       else do { store_bytes H [c]; tx_leave H intr_state; State_Monad.return 0 } } }"

text \<open>
  The switch of \<open>usb_serial_write\<close> stores as many bytes as its operand says; any operand
  above 64 goes to its default label, which stores one. Each packet has turns of its own: those in
  which it waits, and one at its end, where the status register has been restored. The loop goes on
  there with interrupts enabled and does not select the endpoint again.
\<close>

definition switch_count :: "u8 \<Rightarrow> nat" where
  "switch_count write_size = (if write_size \<le> CDC_TX_SIZE then unat write_size else 1)"

fun write_packets ::
    "'h usb_hw \<Rightarrow> ('h turn list \<times> 'h turn) list \<Rightarrow> u8 \<Rightarrow> bytes \<Rightarrow> u16 \<Rightarrow> ('h, int option) usb_io"
where
  "write_packets H tss intr_state buffer sz =
     (if sz = 0 then State_Monad.return (Some 0)
      else (case tss of [] \<Rightarrow> State_Monad.return None
        | (ts, between) # tss \<Rightarrow> do {
            f \<leftarrow> read_reg H UDFNUML;
            w \<leftarrow> wait_fifo H ts (f + TRANSMIT_TIMEOUT) intr_state;
            case w of Waiting \<Rightarrow> State_Monad.return None
            | Failed \<Rightarrow> State_Monad.return (Some (- 1))
            | Ready intr_state \<Rightarrow> do {
                n \<leftarrow> read_reg H UEBCLX;
                let write_size = (if ucast (CDC_TX_SIZE - n) > sz then ucast sz else CDC_TX_SIZE - n);
                store_bytes H (take (switch_count write_size) buffer);
                tx_leave H intr_state;
                modify between;
                write_packets H tss intr_state (drop (switch_count write_size) buffer)
                  (sz - ucast write_size) } }))"

declare write_packets.simps [simp del]

definition usb_serial_write ::
    "'h usb_hw \<Rightarrow> ('h turn list \<times> 'h turn) list \<Rightarrow> bytes \<Rightarrow> u16 \<Rightarrow> ('h, int option) usb_io"
where
  "usb_serial_write H tss buffer sz = do {
     conf \<leftarrow> ask usb_configuration;
     if conf = 0 then State_Monad.return (Some (- 1))
     else do {
       e \<leftarrow> tx_enter H;
       case e of None \<Rightarrow> State_Monad.return (Some (- 1))
       | Some intr_state \<Rightarrow> write_packets H tss intr_state buffer sz } }"

definition usb_serial_flush_output :: "'h usb_hw \<Rightarrow> ('h, unit) usb_io" where
  "usb_serial_flush_output H = do {
     intr_state \<leftarrow> ask SREG;
     cli;
     t \<leftarrow> ask transmit_flush_timer;
     (if t \<noteq> 0 then do {
        write_reg H UENUM CDC_TX_ENDPOINT;
        write_reg H UEINTX 0x3A;
        modify (\<lambda>s. s\<lparr>transmit_flush_timer := 0\<rparr>) }
      else State_Monad.return ());
     restore intr_state }"

section \<open>Line settings\<close>

definition usb_serial_get_baud :: "'h usb \<Rightarrow> u32" where
  "usb_serial_get_baud s =
     (let b = cdc_line_coding s in
      ucast (b ! 0) + ucast (b ! 1) * 2 ^ 8 + ucast (b ! 2) * 2 ^ 16 + ucast (b ! 3) * 2 ^ 24)"

definition usb_serial_get_stopbits :: "'h usb \<Rightarrow> u8" where
  "usb_serial_get_stopbits s = cdc_line_coding s ! 4"

definition usb_serial_get_paritytype :: "'h usb \<Rightarrow> u8" where
  "usb_serial_get_paritytype s = cdc_line_coding s ! 5"

definition usb_serial_get_numbits :: "'h usb \<Rightarrow> u8" where
  "usb_serial_get_numbits s = cdc_line_coding s ! 6"

definition usb_serial_get_control :: "'h usb \<Rightarrow> u8" where
  "usb_serial_get_control s = cdc_line_rtsdtr s"

definition usb_serial_set_control :: "'h usb_hw \<Rightarrow> u8 \<Rightarrow> ('h, int) usb_io" where
  "usb_serial_set_control H signals = do {
     intr_state \<leftarrow> ask SREG;
     cli;
     conf \<leftarrow> ask usb_configuration;
     if conf = 0 then do { restore intr_state; State_Monad.return (- 1) }
     else do {
       write_reg H UENUM CDC_ACM_ENDPOINT;
       ok \<leftarrow> ready_bit H RWAL;
       if \<not> ok then do { restore intr_state; State_Monad.return (- 1) }
       else do {
         store_bytes H [0xA1, 0x20, 0, 0, 0, 0, 1, 0, signals];
         write_reg H UEINTX 0x3A;
         restore intr_state;
         State_Monad.return 0 } } }"

end
