(* ===== verification/UsbControl.thy ===== *)
theory UsbControl
  imports UsbSerial
begin

text \<open>
  The interrupts of \<open>LCD Test/usb_serial.c\<close>: the device interrupt, which handles bus resets
  and the flush timer, and the endpoint interrupt, which handles the requests on the control
  endpoint, one definition per request. The waits of these handlers poll the controller with
  interrupts disabled, at most \<open>polls\<close> times more often than once; None is a wait that has
  not ended.
\<close>

section \<open>The device interrupt\<close>

definition USB_GEN_reset :: "'h usb_hw \<Rightarrow> ('h, unit) usb_io" where
  "USB_GEN_reset H = do {
     write_reg H UENUM 0;
     write_reg H UECONX 1;
     write_reg H UECFG0X EP_TYPE_CONTROL;
     write_reg H UECFG1X (EP_SIZE (of_nat ENDPOINT0_SIZE) OR EP_SINGLE_BUFFER);
     write_reg H UEIENX (mask_bit RXSTPE);
     modify (\<lambda>s. s\<lparr>usb_configuration := 0, cdc_line_rtsdtr := 0\<rparr>) }"

definition USB_GEN_frame :: "'h usb_hw \<Rightarrow> ('h, unit) usb_io" where
  "USB_GEN_frame H = do {
     conf \<leftarrow> ask usb_configuration;
     if conf \<noteq> 0 then do {
       t \<leftarrow> ask transmit_flush_timer;
       if t \<noteq> 0 then do {
         modify (\<lambda>s. s\<lparr>transmit_flush_timer := t - 1\<rparr>);
         if t - 1 = 0 then do { write_reg H UENUM CDC_TX_ENDPOINT; write_reg H UEINTX 0x3A }
         else State_Monad.return () }
       else State_Monad.return () }
     else State_Monad.return () }"

definition USB_GEN_vect :: "'h usb_hw \<Rightarrow> ('h, unit) usb_io" where
  "USB_GEN_vect H = do {
     intbits \<leftarrow> read_reg H UDINT;
     write_reg H UDINT 0;
     (if bit intbits EORSTI then USB_GEN_reset H else State_Monad.return ());
     (if bit intbits SOFI then USB_GEN_frame H else State_Monad.return ()) }"

section \<open>Waiting for and acknowledging packets\<close>

fun poll :: "'h usb_hw \<Rightarrow> u8 \<Rightarrow> nat \<Rightarrow> ('h, u8 option) usb_io" where
  "poll H m polls = do {
     i \<leftarrow> read_reg H UEINTX;
     if i AND m \<noteq> 0 then State_Monad.return (Some i)
     else (case polls of 0 \<Rightarrow> State_Monad.return None | Suc polls \<Rightarrow> poll H m polls) }"

declare poll.simps [simp del]

definition usb_wait_in_ready :: "'h usb_hw \<Rightarrow> nat \<Rightarrow> ('h, u8 option) usb_io" where
  "usb_wait_in_ready H polls = poll H (mask_bit TXINI) polls"

definition usb_send_in :: "'h usb_hw \<Rightarrow> ('h, unit) usb_io" where
  "usb_send_in H = write_reg H UEINTX (NOT (mask_bit TXINI))"

definition usb_wait_receive_out :: "'h usb_hw \<Rightarrow> nat \<Rightarrow> ('h, u8 option) usb_io" where
  "usb_wait_receive_out H polls = poll H (mask_bit RXOUTI) polls"

definition usb_ack_out :: "'h usb_hw \<Rightarrow> ('h, unit) usb_io" where
  "usb_ack_out H = write_reg H UEINTX (NOT (mask_bit RXOUTI))"

text \<open>Continue after a wait that has ended.\<close>

definition after :: "('h, u8 option) usb_io \<Rightarrow> (u8 \<Rightarrow> ('h, unit option) usb_io) \<Rightarrow> ('h, unit option) usb_io"
where
  "after w f = do { i \<leftarrow> w; case i of None \<Rightarrow> State_Monad.return None | Some i \<Rightarrow> f i }"

definition finished :: "('h, unit option) usb_io" where
  "finished = State_Monad.return (Some ())"

definition stall :: "'h usb_hw \<Rightarrow> ('h, unit option) usb_io" where
  "stall H = do { write_reg H UECONX (mask_bit STALLRQ OR mask_bit EPEN); finished }"

section \<open>The requests\<close>

record usb_request =
  bmRequestType :: u8
  bRequest :: u8
  wValue :: u16
  wIndex :: u16
  wLength :: u16

abbreviation (input) "GET_STATUS \<equiv> 0 :: u8"
abbreviation (input) "CLEAR_FEATURE \<equiv> 1 :: u8"
abbreviation (input) "SET_FEATURE \<equiv> 3 :: u8"
abbreviation (input) "SET_ADDRESS \<equiv> 5 :: u8"
abbreviation (input) "GET_DESCRIPTOR \<equiv> 6 :: u8"
abbreviation (input) "GET_CONFIGURATION \<equiv> 8 :: u8"
abbreviation (input) "SET_CONFIGURATION \<equiv> 9 :: u8"
abbreviation (input) "CDC_SET_LINE_CODING \<equiv> 0x20 :: u8"
abbreviation (input) "CDC_GET_LINE_CODING \<equiv> 0x21 :: u8"
abbreviation (input) "CDC_SET_CONTROL_LINE_STATE \<equiv> 0x22 :: u8"

text \<open>The search in the descriptor table, and the packets of a descriptor.\<close>

fun find_descriptor :: "(u16 \<times> u16 \<times> bytes \<times> nat) list \<Rightarrow> u16 \<Rightarrow> u16 \<Rightarrow> (bytes \<times> nat) option" where
  "find_descriptor [] v i = None"
| "find_descriptor ((desc_v, desc_i, addr, len) # list) v i =
     (if desc_v \<noteq> v then find_descriptor list v i
      else if desc_i \<noteq> i then find_descriptor list v i
      else Some (addr, len))"

text \<open>\<open>len\<close> and \<open>n\<close> are \<open>unsigned char\<close>s; \<open>len\<close> starts at most 255 and only decreases.\<close>

function send_packets :: "'h usb_hw \<Rightarrow> nat \<Rightarrow> bytes \<Rightarrow> nat \<Rightarrow> ('h, unit option) usb_io" where
  "send_packets H polls addr len =
     after (poll H (mask_bit TXINI OR mask_bit RXOUTI) polls) (\<lambda>i.
       if bit i RXOUTI then finished
       else (let n = (if len < ENDPOINT0_SIZE then len else ENDPOINT0_SIZE) in do {
         store_bytes H (take n addr);
         usb_send_in H;
         if len - n \<noteq> 0 \<or> n = ENDPOINT0_SIZE then send_packets H polls (drop n addr) (len - n)
         else finished }))"
  by pat_completeness auto
termination
  by (relation "measure (\<lambda>(H, polls, addr, len). len)")
    (auto simp: ENDPOINT0_SIZE_def split: if_splits)

declare send_packets.simps [simp del]

definition get_descriptor :: "'h usb_hw \<Rightarrow> nat \<Rightarrow> usb_request \<Rightarrow> ('h, unit option) usb_io" where
  "get_descriptor H polls r =
     (case find_descriptor descriptor_list (wValue r) (wIndex r) of
        None \<Rightarrow> stall H
      | Some (desc_addr, desc_length) \<Rightarrow>
          (let len = (if wLength r < 256 then unat (wLength r) else 255);
               len = (if len > desc_length then desc_length else len)
           in send_packets H polls desc_addr len))"

definition set_address :: "'h usb_hw \<Rightarrow> nat \<Rightarrow> usb_request \<Rightarrow> ('h, unit option) usb_io" where
  "set_address H polls r = do {
     usb_send_in H;
     after (usb_wait_in_ready H polls) (\<lambda>i. do {
       write_reg H UDADDR (lo8 (wValue r) OR mask_bit ADDEN);
       finished }) }"

fun configure_endpoints :: "'h usb_hw \<Rightarrow> u8 list \<Rightarrow> bytes \<Rightarrow> ('h, unit) usb_io" where
  "configure_endpoints H [] cfg = State_Monad.return ()"
| "configure_endpoints H (i # eps) cfg = do {
     write_reg H UENUM i;
     let en = cfg ! 0;
     write_reg H UECONX en;
     (if en \<noteq> 0 then do {
        write_reg H UECFG0X (cfg ! 1);
        write_reg H UECFG1X (cfg ! 2);
        configure_endpoints H eps (drop 3 cfg) }
      else configure_endpoints H eps (drop 1 cfg)) }"

definition set_configuration :: "'h usb_hw \<Rightarrow> usb_request \<Rightarrow> ('h, unit option) usb_io" where
  "set_configuration H r = do {
     modify (\<lambda>s. s\<lparr>usb_configuration := lo8 (wValue r), cdc_line_rtsdtr := 0,
                   transmit_flush_timer := 0\<rparr>);
     usb_send_in H;
     configure_endpoints H [1, 2, 3, 4] endpoint_config_table;
     write_reg H UERST 0x1E;
     write_reg H UERST 0;
     finished }"

definition get_configuration :: "'h usb_hw \<Rightarrow> nat \<Rightarrow> ('h, unit option) usb_io" where
  "get_configuration H polls =
     after (usb_wait_in_ready H polls) (\<lambda>i. do {
       conf \<leftarrow> ask usb_configuration;
       write_reg H UEDATX conf;
       usb_send_in H;
       finished })"

definition get_line_coding :: "'h usb_hw \<Rightarrow> nat \<Rightarrow> ('h, unit option) usb_io" where
  "get_line_coding H polls =
     after (usb_wait_in_ready H polls) (\<lambda>i. do {
       coding \<leftarrow> ask cdc_line_coding;
       store_bytes H (take 7 coding);
       usb_send_in H;
       finished })"

fun read_bytes :: "'h usb_hw \<Rightarrow> nat \<Rightarrow> ('h, bytes) usb_io" where
  "read_bytes H 0 = State_Monad.return []"
| "read_bytes H (Suc n) = do {
     b \<leftarrow> read_reg H UEDATX;
     bs \<leftarrow> read_bytes H n;
     State_Monad.return (b # bs) }"

definition set_line_coding :: "'h usb_hw \<Rightarrow> nat \<Rightarrow> ('h, unit option) usb_io" where
  "set_line_coding H polls =
     after (usb_wait_receive_out H polls) (\<lambda>i. do {
       coding \<leftarrow> read_bytes H 7;
       modify (\<lambda>s. s\<lparr>cdc_line_coding := coding\<rparr>);
       usb_ack_out H;
       usb_send_in H;
       finished })"

definition set_control_line_state :: "'h usb_hw \<Rightarrow> nat \<Rightarrow> usb_request \<Rightarrow> ('h, unit option) usb_io" where
  "set_control_line_state H polls r = do {
     modify (\<lambda>s. s\<lparr>cdc_line_rtsdtr := lo8 (wValue r)\<rparr>);
     after (usb_wait_in_ready H polls) (\<lambda>i. do { usb_send_in H; finished }) }"

definition get_status :: "'h usb_hw \<Rightarrow> nat \<Rightarrow> usb_request \<Rightarrow> ('h, unit option) usb_io" where
  "get_status H polls r =
     after (usb_wait_in_ready H polls) (\<lambda>i. do {
       i \<leftarrow> (if bmRequestType r = 0x82 then do {
               write_reg H UENUM (lo8 (wIndex r));
               x \<leftarrow> read_reg H UECONX;
               write_reg H UENUM 0;
               State_Monad.return (if bit x STALLRQ then 1 else 0) }
             else State_Monad.return 0);
       store_bytes H [i, 0];
       usb_send_in H;
       finished })"

definition endpoint_feature :: "'h usb_hw \<Rightarrow> usb_request \<Rightarrow> ('h, unit option) usb_io" where
  "endpoint_feature H r =
     (let i = lo8 (wIndex r AND 0x7F) in
      if i \<ge> 1 \<and> i \<le> MAX_ENDPOINT then do {
        usb_send_in H;
        write_reg H UENUM i;
        (if bRequest r = SET_FEATURE then write_reg H UECONX (mask_bit STALLRQ OR mask_bit EPEN)
         else do {
           write_reg H UECONX (mask_bit STALLRQC OR mask_bit RSTDT OR mask_bit EPEN);
           write_reg H UERST (mask_bit (unat i));
           write_reg H UERST 0 });
        finished }
      else stall H)"

definition handle_setup :: "'h usb_hw \<Rightarrow> nat \<Rightarrow> usb_request \<Rightarrow> ('h, unit option) usb_io" where
  "handle_setup H polls r =
     (if bRequest r = GET_DESCRIPTOR then get_descriptor H polls r
      else if bRequest r = SET_ADDRESS then set_address H polls r
      else if bRequest r = SET_CONFIGURATION \<and> bmRequestType r = 0 then set_configuration H r
      else if bRequest r = GET_CONFIGURATION \<and> bmRequestType r = 0x80 then get_configuration H polls
      else if bRequest r = CDC_GET_LINE_CODING \<and> bmRequestType r = 0xA1 then get_line_coding H polls
      else if bRequest r = CDC_SET_LINE_CODING \<and> bmRequestType r = 0x21 then set_line_coding H polls
      else if bRequest r = CDC_SET_CONTROL_LINE_STATE \<and> bmRequestType r = 0x21
      then set_control_line_state H polls r
      else if bRequest r = GET_STATUS then get_status H polls r
      else if (bRequest r = CLEAR_FEATURE \<or> bRequest r = SET_FEATURE) \<and> bmRequestType r = 0x02 \<and>
        wValue r = 0 then endpoint_feature H r
      else stall H)"

definition read_setup :: "'h usb_hw \<Rightarrow> ('h, usb_request) usb_io" where
  "read_setup H = do {
     bs \<leftarrow> read_bytes H 8;
     State_Monad.return
       \<lparr>bmRequestType = bs ! 0, bRequest = bs ! 1, wValue = be16 (bs ! 3) (bs ! 2),
        wIndex = be16 (bs ! 5) (bs ! 4), wLength = be16 (bs ! 7) (bs ! 6)\<rparr> }"

definition USB_COM_vect :: "'h usb_hw \<Rightarrow> nat \<Rightarrow> ('h, unit option) usb_io" where
  "USB_COM_vect H polls = do {
     write_reg H UENUM 0;
     intbits \<leftarrow> read_reg H UEINTX;
     if bit intbits RXSTPI then do {
       r \<leftarrow> read_setup H;
       write_reg H UEINTX (NOT (mask_bit RXSTPI OR mask_bit RXOUTI OR mask_bit TXINI));
       handle_setup H polls r }
     else stall H }"

end
