(* ===== verification/UsbLemmas.thy ===== *)
theory UsbLemmas
  imports UsbControl
begin

text \<open>
  What the USB serial port does: its descriptors are well formed, its functions leave the
  interrupt flag as they found it, what is given to it reaches the controller in order, a
  descriptor is sent in packets the host can tell the end of, and a listener that is gone
  costs one timeout.
\<close>

section \<open>Descriptors\<close>

lemma length_wide: "length (wide str) = 2 * length str + 2"
  by (induction str) (simp_all add: wide_def)

section \<open>The interrupt flag\<close>

lemma getchar_retry_SREG:
  "run_state (getchar_retry H polls intr_state) s = (Some r, t) \<Longrightarrow> SREG t = intr_state"
proof (induction polls arbitrary: s)
  case 0
  then show ?case
    by (auto simp: getchar_retry.simps [of H 0] restore_def ready_bit_def split: prod.splits if_splits)
next
  case (Suc polls)
  then show ?case
    by (auto simp: getchar_retry.simps [of H "Suc polls"] restore_def ready_bit_def
        split: prod.splits if_splits)
qed

lemma getchar_SREG:
  "run_state (usb_serial_getchar H polls) s = (Some r, t) \<Longrightarrow> SREG t = SREG s"
  by (auto simp: usb_serial_getchar_def cli_def restore_def dest: getchar_retry_SREG split: if_splits)

definition turns_ok :: "'h turn list \<Rightarrow> bool" where
  "turns_ok turns \<longleftrightarrow> (\<forall>t \<in> set turns. \<forall>s. SREG (t s) = SREG s)"

lemma wait_fifo_SREG:
  "turns_ok turns \<Longrightarrow> run_state (wait_fifo H turns timeout i) s = (w, t) \<Longrightarrow>
     (case w of Ready j \<Rightarrow> j = i | _ \<Rightarrow> SREG t = i)"
proof (induction turns arbitrary: s i)
  case Nil
  then show ?case by (auto simp: wait_fifo_Nil split: prod.splits if_splits)
next
  case (Cons u turns)
  obtain x h where h: "reg_in H UEINTX (hw s) = (x, h)" by fastforce
  obtain f v where v: "fifo_turn H u (s\<lparr>hw := h, SREG := i\<rparr>) = (f, v)" by fastforce
  have "SREG v = i" using Cons.prems(1) v
    by (auto simp: fifo_turn_def turns_ok_def Let_def split: prod.splits)
  with Cons h v show ?case
    by (auto simp: wait_fifo_Cons turns_ok_def split: if_splits)
qed

lemma tx_enter_SREG:
  "run_state (tx_enter H) s = (e, t) \<Longrightarrow>
     (case e of None \<Rightarrow> SREG t = SREG s | Some i \<Rightarrow> i = SREG s)"
  by (auto simp: tx_enter_def restore_def ready_bit_def cli_def split: prod.splits if_splits)

lemma tx_leave_SREG: "SREG (snd (run_state (tx_leave H i) s)) = i"
  by (simp add: tx_leave_def restore_def ready_bit_def split: prod.splits)

lemma putchar_SREG:
  assumes "turns_ok turns"
  shows "SREG (snd (run_state (usb_serial_putchar H turns c) s)) = SREG s"
proof (cases "usb_configuration s = 0")
  case False
  obtain e u where e: "run_state (tx_enter H) s = (e, u)" by fastforce
  note E = tx_enter_SREG [OF e]
  show ?thesis
  proof (cases e)
    case None
    with e E False show ?thesis by (simp add: usb_serial_putchar_def)
  next
    case (Some i)
    obtain f h where f: "reg_in H UDFNUML (hw u) = (f, h)" by fastforce
    obtain w v where w: "run_state (wait_fifo H turns (f + TRANSMIT_TIMEOUT) i) (u\<lparr>hw := h\<rparr>) = (w, v)"
      by fastforce
    from wait_fifo_SREG [OF assms w] e E False Some f w show ?thesis
      by (cases w) (simp_all add: usb_serial_putchar_def split_def tx_leave_SREG)
  qed
qed (simp add: usb_serial_putchar_def)

section \<open>What is written to the controller\<close>

text \<open>
  A history of the controller: \<open>out\<close> is the list of all register writes. Any controller can
  be given one. What is written to \<open>UEDATX\<close> goes into the FIFO of the endpoint that \<open>UENUM\<close>
  has selected last, which is endpoint 0 after a reset.
\<close>

definition history :: "'h usb_hw \<Rightarrow> ('h \<Rightarrow> (reg \<times> u8) list) \<Rightarrow> bool" where
  "history H out \<longleftrightarrow> (\<forall>r h. out (snd (reg_in H r h)) = out h) \<and>
     (\<forall>r v h. out (reg_out H r v h) = out h @ [(r, v)])"

fun fifo_bytes :: "u8 \<Rightarrow> u8 \<Rightarrow> (reg \<times> u8) list \<Rightarrow> bytes" where
  "fifo_bytes ep e [] = []"
| "fifo_bytes ep e ((r, v) # log) =
     (if r = UENUM then fifo_bytes ep v log
      else (if r = UEDATX \<and> e = ep then [v] else []) @ fifo_bytes ep e log)"

fun last_selected :: "u8 \<Rightarrow> (reg \<times> u8) list \<Rightarrow> u8" where
  "last_selected e [] = e"
| "last_selected e ((r, v) # log) = last_selected (if r = UENUM then v else e) log"

definition ep_fifo :: "('h \<Rightarrow> (reg \<times> u8) list) \<Rightarrow> u8 \<Rightarrow> 'h usb \<Rightarrow> bytes" where
  "ep_fifo out ep s = fifo_bytes ep 0 (out (hw s))"

definition selected :: "('h \<Rightarrow> (reg \<times> u8) list) \<Rightarrow> 'h usb \<Rightarrow> u8" where
  "selected out s = last_selected 0 (out (hw s))"

text \<open>What the host gets from the port.\<close>

definition sent :: "('h \<Rightarrow> (reg \<times> u8) list) \<Rightarrow> 'h usb \<Rightarrow> bytes" where
  "sent out s = ep_fifo out CDC_TX_ENDPOINT s"

lemma fifo_bytes_append: "fifo_bytes ep e (l @ m) = fifo_bytes ep e l @ fifo_bytes ep (last_selected e l) m"
  by (induction ep e l rule: fifo_bytes.induct) auto

lemma last_selected_append: "last_selected e (l @ m) = last_selected (last_selected e l) m"
  by (induction e l rule: last_selected.induct) auto

lemma history_in: "history H out \<Longrightarrow> reg_in H r h = (v, h') \<Longrightarrow> out h' = out h"
  by (metis history_def snd_conv)

lemma history_out: "history H out \<Longrightarrow> out (reg_out H r v h) = out h @ [(r, v)]"
  by (simp add: history_def)

lemma fifo_same: "out (hw t) = out (hw s) \<Longrightarrow> ep_fifo out ep t = ep_fifo out ep s"
  by (simp add: ep_fifo_def)

lemma selected_same: "out (hw t) = out (hw s) \<Longrightarrow> selected out t = selected out s"
  by (simp add: selected_def)

lemma fifo_write:
  assumes "history H out" and "hw t = reg_out H r v (hw s)"
  shows "ep_fifo out ep t = ep_fifo out ep s @ (if r = UEDATX \<and> selected out s = ep then [v] else [])"
    and "selected out t = (if r = UENUM then v else selected out s)"
  by (simp_all add: ep_fifo_def selected_def history_out [OF assms(1)] assms(2) fifo_bytes_append last_selected_append)

lemmas history_simps = ep_fifo_def selected_def fifo_bytes_append last_selected_append ready_bit_def restore_def cli_def

lemma store_bytes_out:
  assumes "history H out"
  shows "out (hw (snd (run_state (store_bytes H bs) s))) = out (hw s) @ map (Pair UEDATX) bs"
  by (induction bs arbitrary: s) (simp_all add: history_out [OF assms])

lemma store_bytes_frame: "\<exists>h. run_state (store_bytes H bs) s = ((), s\<lparr>hw := h\<rparr>)"
proof (induction bs arbitrary: s)
  case Nil
  show ?case by (intro exI [of _ "hw s"]) simp
next
  case (Cons b bs)
  from Cons [of "s\<lparr>hw := reg_out H UEDATX b (hw s)\<rparr>"] show ?case by simp
qed

lemma store_bytes_fifo:
  assumes "history H out"
  shows "ep_fifo out ep (snd (run_state (store_bytes H bs) s)) = ep_fifo out ep s @ (if selected out s = ep then bs else []) \<and>
    selected out (snd (run_state (store_bytes H bs) s)) = selected out s"
proof -
  have "fifo_bytes ep e (map (Pair UEDATX) bs) = (if e = ep then bs else [])"
    "last_selected e (map (Pair UEDATX) bs) = e" for e
    by (induction bs) auto
  then show ?thesis by (simp add: history_simps store_bytes_out [OF assms])
qed

lemma tx_leave_fifo:
  assumes "history H out"
  shows "ep_fifo out ep (snd (run_state (tx_leave H i) s)) = ep_fifo out ep s \<and>
    selected out (snd (run_state (tx_leave H i) s)) = selected out s"
  using history_in [OF assms]
  by (auto simp: tx_leave_def history_simps history_out [OF assms] split: prod.splits)

lemma tx_enter_fifo:
  assumes "history H out"
  shows "ep_fifo out ep (snd (run_state (tx_enter H) s)) = ep_fifo out ep s \<and>
    selected out (snd (run_state (tx_enter H) s)) = CDC_TX_ENDPOINT"
  using history_in [OF assms]
  by (auto simp: tx_enter_def history_simps history_out [OF assms] split: prod.splits)

text \<open>
  Turns in which no interrupt handler puts data into the FIFO. In those of a wait a handler may
  select another endpoint, as the code selects its own again; after a packet it must not.
\<close>

definition quiet :: "('h \<Rightarrow> (reg \<times> u8) list) \<Rightarrow> 'h turn list \<Rightarrow> bool" where
  "quiet out turns \<longleftrightarrow> (\<forall>t \<in> set turns. \<forall>s. sent out (t s) = sent out s)"

definition calm :: "('h \<Rightarrow> (reg \<times> u8) list) \<Rightarrow> 'h turn \<Rightarrow> bool" where
  "calm out t \<longleftrightarrow> (\<forall>s. (\<forall>ep. ep_fifo out ep (t s) = ep_fifo out ep s) \<and> selected out (t s) = selected out s)"

lemma wait_fifo_sent:
  assumes "history H out"
  shows "quiet out turns \<Longrightarrow> selected out s = CDC_TX_ENDPOINT \<Longrightarrow>
    run_state (wait_fifo H turns timeout i) s = (w, t) \<Longrightarrow>
    sent out t = sent out s \<and> ((\<exists>j. w = Ready j) \<longrightarrow> selected out t = CDC_TX_ENDPOINT)"
proof (induction turns arbitrary: s i)
  case Nil
  then show ?case using history_in [OF assms]
    by (auto simp: wait_fifo_Nil sent_def ep_fifo_def selected_def split: prod.splits if_splits)
next
  case (Cons u turns)
  obtain x h where h: "reg_in H UEINTX (hw s) = (x, h)" by fastforce
  let ?s = "s\<lparr>hw := h, SREG := i\<rparr>"
  obtain f v where v: "fifo_turn H u ?s = (f, v)" by fastforce
  have s: "sent out ?s = sent out s" using history_in [OF assms h] by (simp add: sent_def ep_fifo_def)
  have "sent out v = sent out (u ?s)"
    using v history_in [OF assms] by (auto simp: fifo_turn_def Let_def sent_def ep_fifo_def split: prod.splits)
  also have "\<dots> = sent out s" using Cons.prems(1) s by (simp add: quiet_def)
  finally have v': "sent out v = sent out s" .
  have a: "sent out (fifo_again H v) = sent out v" "selected out (fifo_again H v) = CDC_TX_ENDPOINT"
    using fifo_write [OF assms, of "fifo_again H v" UENUM CDC_TX_ENDPOINT v]
    by (simp_all add: fifo_again_def sent_def)
  have q: "quiet out turns" using Cons.prems(1) by (simp add: quiet_def)
  have k: "sent out (v\<lparr>transmit_previous_timeout := 1\<rparr>) = sent out v" by (simp add: sent_def ep_fifo_def)
  show ?case
    using Cons.IH [OF q a(2), of "SREG v"] Cons.prems(2,3) h v v' a k history_in [OF assms h]
    by (auto simp: wait_fifo_Cons sent_def ep_fifo_def selected_def split: if_splits)
qed

text \<open>A buffer is sent from its front, and completely if the result is 0.\<close>

lemma write_size:
  fixes n :: u8 and sz :: u16
  assumes "n \<le> 64"
  defines "w \<equiv> (if ucast (CDC_TX_SIZE - n) > sz then ucast sz else CDC_TX_SIZE - n)"
  shows "switch_count w = unat w \<and> unat w \<le> unat sz \<and> unat (sz - ucast w) = unat sz - unat w"
proof -
  have d: "unat (CDC_TX_SIZE - n) = 64 - unat n"
    using assms(1) by (simp add: CDC_TX_SIZE_def unat_sub word_le_nat_alt)
  have u: "unat (ucast sz :: u8) = unat sz" if "unat sz < 64"
    using that by (simp add: unsigned_ucast_eq take_bit_eq_mod)
  have le: "unat w \<le> unat sz" "unat w \<le> 64"
    using d u by (auto simp: w_def word_less_nat_alt not_less)
  then have "switch_count w = unat w" by (simp add: switch_count_def CDC_TX_SIZE_def word_le_nat_alt)
  moreover have "unat (sz - ucast w) = unat sz - unat w"
    using le by (simp add: unat_sub word_le_nat_alt)
  ultimately show ?thesis using le by simp
qed

lemma write_packets_sent:
  assumes H: "history H out" and full: "\<forall>h. fst (reg_in H UEBCLX h) \<le> 64"
  shows "\<forall>(ts, b) \<in> set tss. quiet out ts \<and> calm out b \<Longrightarrow> selected out s = CDC_TX_ENDPOINT \<Longrightarrow>
    unat sz \<le> length buffer \<Longrightarrow> run_state (write_packets H tss i buffer sz) s = (r, t) \<Longrightarrow>
    \<exists>k \<le> unat sz. sent out t = sent out s @ take k buffer \<and> (r = Some 0 \<longrightarrow> k = unat sz)"
proof (induction tss arbitrary: i buffer sz s)
  case Nil
  then show ?case
    by (intro exI [of _ 0]) (auto simp: write_packets.simps [of H "[]"] unat_eq_0 split: if_splits)
next
  case (Cons p tss)
  obtain ts b where p: "p = (ts, b)" by fastforce
  have q: "quiet out ts" "calm out b" using Cons.prems(1) by (simp_all add: p)
  show ?case
  proof (cases "sz = 0")
    case True
    with Cons.prems show ?thesis by (simp add: write_packets.simps [of H "p # tss"])
  next
    case False
    obtain f h where f: "reg_in H UDFNUML (hw s) = (f, h)" by fastforce
    obtain w u where w: "run_state (wait_fifo H ts (f + TRANSMIT_TIMEOUT) i) (s\<lparr>hw := h\<rparr>) = (w, u)"
      by fastforce
    have sh: "sent out (s\<lparr>hw := h\<rparr>) = sent out s" "selected out (s\<lparr>hw := h\<rparr>) = CDC_TX_ENDPOINT"
      using history_in [OF H f] Cons.prems(2) by (simp_all add: sent_def ep_fifo_def selected_def)
    note u = wait_fifo_sent [OF H q(1) sh(2) w, unfolded sh(1)]
    note step = Cons.prems(4) [unfolded p write_packets.simps [of H "(ts, b) # tss"]]
    show ?thesis
    proof (cases w)
      case (Ready j)
      obtain n h' where n: "reg_in H UEBCLX (hw u) = (n, h')" by fastforce
      have n64: "n \<le> 64" using full n by (metis fst_conv)
      define ws where "ws = (if ucast (CDC_TX_SIZE - n) > sz then ucast sz else CDC_TX_SIZE - n)"
      note ws = write_size [OF n64, of sz, folded ws_def]
      let ?u = "u\<lparr>hw := h'\<rparr>"
      let ?v = "snd (run_state (store_bytes H (take (unat ws) buffer)) ?u)"
      let ?l = "snd (run_state (tx_leave H j) ?v)"
      let ?x = "b ?l"
      have uu: "ep_fifo out ep ?u = ep_fifo out ep u" "selected out ?u = CDC_TX_ENDPOINT" for ep
        using history_in [OF H n] u Ready by (simp_all add: ep_fifo_def selected_def)
      have x: "sent out ?x = sent out s @ take (unat ws) buffer" "selected out ?x = CDC_TX_ENDPOINT"
        using q(2) store_bytes_fifo [OF H, of _ "take (unat ws) buffer" ?u] tx_leave_fifo [OF H, of _ j ?v] uu u
        by (simp_all add: calm_def sent_def)
      have "run_state (write_packets H tss j (drop (unat ws) buffer) (sz - ucast ws)) ?x = (r, t)"
        using step False Ready ws by (simp add: f w n ws_def [symmetric] Let_def split_def cong: if_cong)
      moreover have "unat (sz - ucast ws) \<le> length (drop (unat ws) buffer)"
        using ws Cons.prems(3) by (simp add: diff_le_mono)
      ultimately obtain k where
        k: "k \<le> unat sz - unat ws" "sent out t = sent out ?x @ take k (drop (unat ws) buffer)"
          "r = Some 0 \<longrightarrow> k = unat sz - unat ws"
        using Cons.IH [of ?x "sz - ucast ws" "drop (unat ws) buffer" j] Cons.prems(1) x(2) ws by auto
      have "sent out t = sent out s @ take (unat ws + k) buffer" using k(2) x by (simp add: take_add)
      then show ?thesis using k ws by (intro exI [of _ "unat ws + k"]) auto
    qed (use step False u in \<open>auto simp: f w intro!: exI [of _ 0]\<close>)
  qed
qed

lemma usb_write_sent:
  assumes H: "history H out" and full: "\<forall>h. fst (reg_in H UEBCLX h) \<le> 64"
    and q: "\<forall>(ts, b) \<in> set tss. quiet out ts \<and> calm out b" and l: "unat sz \<le> length buffer"
    and run: "run_state (usb_serial_write H tss buffer sz) s = (r, t)"
  shows "\<exists>k \<le> unat sz. sent out t = sent out s @ take k buffer \<and> (r = Some 0 \<longrightarrow> k = unat sz)"
proof (cases "usb_configuration s = 0")
  case True
  with run show ?thesis by (auto simp: usb_serial_write_def)
next
  case False
  obtain e u where e: "run_state (tx_enter H) s = (e, u)" by fastforce
  have u: "sent out u = sent out s" "selected out u = CDC_TX_ENDPOINT"
    using tx_enter_fifo [OF H, of _ s] e by (simp_all add: sent_def)
  show ?thesis
  proof (cases e)
    case None
    with run e u False show ?thesis by (auto simp: usb_serial_write_def)
  next
    case (Some i)
    with run e False have "run_state (write_packets H tss i buffer sz) u = (r, t)"
      by (simp add: usb_serial_write_def)
    from write_packets_sent [OF H full q u(2) l this] u show ?thesis by simp
  qed
qed

text \<open>
  A packet that need not wait goes to the endpoint that is selected when the loop gets there,
  whichever it is.
\<close>

definition fifo_room :: "'h usb_hw \<Rightarrow> bool" where
  "fifo_room H \<longleftrightarrow> (\<forall>h. bit (fst (reg_in H UEINTX h)) RWAL \<and> fst (reg_in H UEBCLX h) = 0)"

lemma write_packet_room:
  assumes H: "history H out" and room: "fifo_room H" and sz: "sz \<noteq> 0"
  defines "k \<equiv> min 64 (unat sz)"
  shows "\<exists>u j. run_state (write_packets H ((ts, b) # tss) i buffer sz) s =
      run_state (write_packets H tss j (drop k buffer) (sz - of_nat k)) (b u) \<and>
    (\<forall>ep. ep_fifo out ep u = ep_fifo out ep s @ (if selected out s = ep then take k buffer else [])) \<and>
    selected out u = selected out s"
proof -
  obtain f h where f: "reg_in H UDFNUML (hw s) = (f, h)" by fastforce
  obtain x h1 where x: "reg_in H UEINTX h = (x, h1)" by fastforce
  obtain n h2 where n: "reg_in H UEBCLX h1 = (n, h2)" by fastforce
  have r: "bit x RWAL" "n = 0" using room x n unfolding fifo_room_def by (metis fst_conv)+
  define w where "w = (if ucast (CDC_TX_SIZE - n) > sz then ucast sz else CDC_TX_SIZE - n)"
  have w: "switch_count w = unat w" using write_size [of n sz] r(2) unfolding w_def by simp
  have "unat w = k"
  proof (cases "unat sz < 64")
    case True
    then show ?thesis
      by (simp add: w_def r k_def CDC_TX_SIZE_def word_less_nat_alt unsigned_ucast_eq take_bit_eq_mod)
  next
    case False
    then show ?thesis by (simp add: w_def r k_def CDC_TX_SIZE_def word_less_nat_alt)
  qed
  then have wk: "switch_count w = k" "(ucast w :: u16) = of_nat k"
    using w by (simp_all add: word_unat_eq_iff unat_of_nat k_def unsigned_ucast_eq take_bit_eq_mod)
  have wait: "run_state (wait_fifo H ts timeout i) (s\<lparr>hw := h\<rparr>) = (Ready i, s\<lparr>hw := h1\<rparr>)" for timeout
    using x r by (simp add: wait_fifo.simps [of H ts] ready_bit_def)
  let ?v = "snd (run_state (store_bytes H (take k buffer)) (s\<lparr>hw := h2\<rparr>))"
  let ?u = "snd (run_state (tx_leave H i) ?v)"
  have same: "ep_fifo out ep (s\<lparr>hw := h2\<rparr>) = ep_fifo out ep s" "selected out (s\<lparr>hw := h2\<rparr>) = selected out s" for ep
    using history_in [OF H f] history_in [OF H x] history_in [OF H n] by (simp_all add: ep_fifo_def selected_def)
  have "run_state (write_packets H ((ts, b) # tss) i buffer sz) s =
      run_state (write_packets H tss i (drop k buffer) (sz - of_nat k)) (b ?u)"
    using sz wk by (simp add: write_packets.simps [of H "(ts, b) # tss"] f wait n w_def [symmetric] Let_def split_def
        cong: if_cong)
  moreover have "ep_fifo out ep ?u = ep_fifo out ep s @ (if selected out s = ep then take k buffer else [])" for ep
    using store_bytes_fifo [OF H, of ep "take k buffer" "s\<lparr>hw := h2\<rparr>"] tx_leave_fifo [OF H, of ep i ?v] same by simp
  moreover have "selected out ?u = selected out s"
    using store_bytes_fifo [OF H, of 0 "take k buffer" "s\<lparr>hw := h2\<rparr>"] tx_leave_fifo [OF H, of 0 i ?v] same by simp
  ultimately show ?thesis by blast
qed

text \<open>So do the bytes of a second packet if an interrupt has selected the control endpoint.\<close>

definition diverts :: "('h \<Rightarrow> (reg \<times> u8) list) \<Rightarrow> 'h turn \<Rightarrow> bool" where
  "diverts out t \<longleftrightarrow> (\<forall>s. (\<forall>ep. ep_fifo out ep (t s) = ep_fifo out ep s) \<and> selected out (t s) = 0)"

lemma second_packet_diverted:
  assumes H: "history H out" and room: "fifo_room H" and u: "usb_configuration s \<noteq> 0"
    and d: "diverts out irq" and b: "calm out b" and sz: "64 < unat sz" "unat sz \<le> 128"
  shows "\<exists>t. run_state (usb_serial_write H [(ts, irq), (ts', b)] buffer sz) s = (Some 0, t) \<and>
    sent out t = sent out s @ take 64 buffer \<and> ep_fifo out 0 t = ep_fifo out 0 s @ take (unat sz - 64) (drop 64 buffer)"
proof -
  obtain i v where e: "run_state (tx_enter H) s = (Some i, v)"
  proof -
    obtain x h where x: "reg_in H UEINTX (reg_out H UENUM CDC_TX_ENDPOINT (hw s)) = (x, h)" by fastforce
    then have "bit x RWAL" using room unfolding fifo_room_def by (metis fst_conv)
    with x show ?thesis using that by (fastforce simp: tx_enter_def cli_def ready_bit_def)
  qed
  have v: "ep_fifo out ep v = ep_fifo out ep s" "selected out v = CDC_TX_ENDPOINT" for ep
    using tx_enter_fifo [OF H, of ep s] e by simp_all
  have z: "sz \<noteq> 0" "min 64 (unat sz) = 64" using sz(1) by auto
  have 64: "unat (sz - 64) = unat sz - 64" using sz by (simp add: unat_sub word_le_nat_alt)
  then have z2: "sz - 64 \<noteq> 0" "min 64 (unat (sz - 64)) = unat sz - 64" using sz by (auto simp: unat_eq_0 [symmetric])
  obtain p j where p: "run_state (write_packets H [(ts, irq), (ts', b)] i buffer sz) v =
      run_state (write_packets H [(ts', b)] j (drop 64 buffer) (sz - 64)) (irq p)"
    "\<forall>ep. ep_fifo out ep p = ep_fifo out ep v @ (if selected out v = ep then take 64 buffer else [])"
    using write_packet_room [OF H room z(1), of ts irq "[(ts', b)]" i buffer v] z(2) by auto
  obtain q k where q: "run_state (write_packets H [(ts', b)] j (drop 64 buffer) (sz - 64)) (irq p) =
      run_state (write_packets H [] k (drop (unat sz - 64) (drop 64 buffer)) (sz - 64 - of_nat (unat sz - 64))) (b q)"
    "\<forall>ep. ep_fifo out ep q = ep_fifo out ep (irq p) @ (if selected out (irq p) = ep then take (unat sz - 64) (drop 64 buffer) else [])"
    using write_packet_room [OF H room z2(1), of ts' b "[]" j "drop 64 buffer" "irq p"] z2(2) by auto
  have "sz - 64 - of_nat (unat sz - 64) = 0" unfolding 64 [symmetric] by simp
  then have "run_state (usb_serial_write H [(ts, irq), (ts', b)] buffer sz) s = (Some 0, b q)"
    using u e p(1) q(1) by (simp add: usb_serial_write_def write_packets.simps [of H "[]"])
  moreover have "CDC_TX_ENDPOINT \<noteq> 0" by (simp add: CDC_TX_ENDPOINT_def)
  ultimately show ?thesis
    using v p(2) q(2) d b by (simp add: sent_def diverts_def calm_def)
qed

section \<open>Packets on the control endpoint\<close>

text \<open>
  The packets of a transfer: 16 bytes each but the last, which is shorter and may be empty,
  so that the host can tell the end.
\<close>

fun packets :: "bytes \<Rightarrow> bytes list" where
  "packets d = (if length d < 16 then [d] else take 16 d # packets (drop 16 d))"

declare packets.simps [simp del]

lemma packets_spec:
  "concat (packets d) = d \<and> packets d \<noteq> [] \<and> length (last (packets d)) < 16 \<and>
   (\<forall>p \<in> set (butlast (packets d)). length p = 16)"
proof (induction d rule: packets.induct)
  case (1 d)
  show ?case
  proof (cases "length d < 16")
    case True
    then show ?thesis by (simp add: packets.simps [of d])
  next
    case False
    let ?p = "packets (drop 16 d)"
    have p: "packets d = take 16 d # ?p" using False by (subst packets.simps) simp
    have i: "concat ?p = drop 16 d" "?p \<noteq> []" "length (last ?p) < 16"
      "\<forall>p \<in> set (butlast ?p). length p = 16"
      using "1.IH" [OF False] by blast+
    have "concat (packets d) = d" unfolding p by (simp only: concat.simps i(1) append_take_drop_id)
    moreover have "last (packets d) = last ?p" "butlast (packets d) = take 16 d # butlast ?p"
      unfolding p using i(2) by (simp_all only: last.simps butlast.simps if_False)
    ultimately show ?thesis using i(3,4) False p by (metis length_take list.distinct(1) linorder_not_less
          min.absorb2 set_ConsD)
  qed
qed

definition packet_writes :: "bytes \<Rightarrow> (reg \<times> u8) list" where
  "packet_writes p = map (Pair UEDATX) p @ [(UEINTX, NOT (mask_bit TXINI))]"

text \<open>A host that takes every packet: the endpoint is ready and no abort is pending.\<close>

definition host_takes :: "'h usb_hw \<Rightarrow> bool" where
  "host_takes H \<longleftrightarrow> (\<forall>h. bit (fst (reg_in H UEINTX h)) TXINI \<and> \<not> bit (fst (reg_in H UEINTX h)) RXOUTI)"

lemma poll_ready:
  assumes "host_takes H" and "reg_in H UEINTX (hw s) = (i, h)" and "bit m TXINI"
  shows "run_state (poll H m polls) s = (Some i, s\<lparr>hw := h\<rparr>)"
proof -
  have "bit i TXINI" using assms(1,2) by (metis host_takes_def fst_conv)
  then have "bit (i AND m) TXINI" using assms(3) by (simp add: bit_and_iff)
  then have "i AND m \<noteq> 0" by auto
  then show ?thesis using assms(2) by (simp add: poll.simps [of H])
qed

lemma send_packets_out:
  assumes H: "history H out" and host: "host_takes H"
  shows "len \<le> length addr \<Longrightarrow>
    \<exists>h. run_state (send_packets H polls addr len) s = (Some (), s\<lparr>hw := h\<rparr>) \<and>
      out h = out (hw s) @ concat (map packet_writes (packets (take len addr)))"
proof (induction len arbitrary: addr s rule: less_induct)
  case (less len)
    let ?n = "if len < 16 then len else 16"
    obtain i h where i: "reg_in H UEINTX (hw s) = (i, h)" by fastforce
    have ni: "\<not> bit i RXOUTI" using host i by (metis host_takes_def fst_conv)
    let ?s = "s\<lparr>hw := h\<rparr>"
    obtain h1 where h1: "run_state (store_bytes H (take ?n addr)) ?s = ((), s\<lparr>hw := h1\<rparr>)"
      using store_bytes_frame [of H "take ?n addr" ?s] by auto
    have o1: "out h1 = out (hw s) @ map (Pair UEDATX) (take ?n addr)"
      using store_bytes_out [OF H, of "take ?n addr" ?s] h1 history_in [OF H i] by simp
    let ?h2 = "reg_out H UEINTX (NOT (mask_bit TXINI)) h1"
    have o2: "out ?h2 = out (hw s) @ packet_writes (take ?n addr)"
      by (simp add: history_out [OF H] o1 packet_writes_def)
    have run: "run_state (send_packets H polls addr len) s =
        (if 16 \<le> len then run_state (send_packets H polls (drop 16 addr) (len - 16)) (s\<lparr>hw := ?h2\<rparr>)
         else (Some (), s\<lparr>hw := ?h2\<rparr>))"
      using h1 ni poll_ready [OF host i, of "mask_bit TXINI OR mask_bit RXOUTI" polls]
      by (simp add: send_packets.simps [of H polls addr len] after_def finished_def usb_send_in_def
          ENDPOINT0_SIZE_def Let_def bit_simps split: if_splits)
    show ?case
    proof (cases "16 \<le> len")
      case True
      have "len - 16 < len" "len - 16 \<le> length (drop 16 addr)" using True less.prems by simp_all
      from less.IH [OF this, of "s\<lparr>hw := ?h2\<rparr>"] obtain h3 where "run_state (send_packets H polls (drop 16 addr) (len - 16)) (s\<lparr>hw := ?h2\<rparr>) =
          (Some (), s\<lparr>hw := h3\<rparr>)"
        "out h3 = out ?h2 @ concat (map packet_writes (packets (take (len - 16) (drop 16 addr))))"
        by auto
      moreover have "packets (take len addr) = take 16 addr # packets (take (len - 16) (drop 16 addr))"
        using True less.prems by (subst packets.simps) (simp add: min_def drop_take)
      ultimately show ?thesis using True run o2 by (intro exI [of _ h3]) simp
    next
      case False
      then have "packets (take len addr) = [take len addr]"
        using less.prems by (subst packets.simps) (simp add: min_def)
      with False run o2 show ?thesis by (intro exI [of _ ?h2]) simp
    qed
qed

text \<open>Every entry of the table has an object as long as its length says.\<close>

lemma find_descriptor_member:
  "find_descriptor list v i = Some (a, n) \<Longrightarrow> (v, i, a, n) \<in> set list"
  by (induction list v i rule: find_descriptor.induct) (auto split: if_splits)

lemma descriptor_objects: "(v, i, a, n) \<in> set descriptor_list \<Longrightarrow> n \<le> length a"
  by (auto simp: descriptor_list_def string0_def string1_def string2_def string3_def string_descriptor_def)

lemma get_descriptor_out:
  assumes H: "history H out" and host: "host_takes H"
    and f: "find_descriptor descriptor_list (wValue r) (wIndex r) = Some (a, n)"
  shows "\<exists>h. run_state (get_descriptor H polls r) s = (Some (), s\<lparr>hw := h\<rparr>) \<and>
    out h = out (hw s) @
      concat (map packet_writes (packets (take (min n (min 255 (unat (wLength r)))) a)))"
proof -
  have "n \<le> length a" using descriptor_objects [OF find_descriptor_member [OF f]] .
  moreover have "(if (if wLength r < 256 then unat (wLength r) else 255) > n then n
      else (if wLength r < 256 then unat (wLength r) else 255)) = min n (min 255 (unat (wLength r)))"
    by (simp add: word_less_nat_alt)
  ultimately show ?thesis
    using send_packets_out [OF H host, of "min n (min 255 (unat (wLength r)))" a polls s]
    by (simp only: get_descriptor_def f option.case prod.case Let_def)
qed

section \<open>A listener that is gone\<close>

definition fifo_full :: "'h usb_hw \<Rightarrow> bool" where
  "fifo_full H \<longleftrightarrow> (\<forall>h. \<not> bit (fst (reg_in H UEINTX h)) RWAL)"

text \<open>
  \<open>frame\<close> is the frame number of the bus. The turns of the waiting loop come with what the clock
  does in them: it moves on by one or stands still. Nothing else moves it, and no turn unconfigures the
  device.
\<close>

definition frame_clock :: "'h usb_hw \<Rightarrow> ('h \<Rightarrow> u8) \<Rightarrow> 'h turn list \<Rightarrow> bool list \<Rightarrow> bool" where
  "frame_clock H frame turns ticks \<longleftrightarrow>
     (\<forall>h. fst (reg_in H UDFNUML h) = frame h) \<and> (\<forall>r h. frame (snd (reg_in H r h)) = frame h) \<and>
     (\<forall>r v h. frame (reg_out H r v h) = frame h) \<and>
     list_all2 (\<lambda>t tick. \<forall>s. frame (hw (t s)) = frame (hw s) + (if tick then 1 else 0) \<and>
        usb_configuration (t s) = usb_configuration s) turns ticks"

lemma wait_fifo_frames:
  assumes "fifo_full H"
  shows "frame_clock H frame turns ticks \<Longrightarrow> usb_configuration s \<noteq> 0 \<Longrightarrow> 0 < k \<Longrightarrow> k < 256 \<Longrightarrow>
    timeout = frame (hw s) + of_nat k \<Longrightarrow> run_state (wait_fifo H turns timeout i) s = (w, t) \<Longrightarrow>
    usb_configuration t = usb_configuration s \<and>
    (if count_list ticks True < k then w = Waiting
     else w = Failed \<and> transmit_previous_timeout t = 1 \<and> frame (hw t) = timeout)"
proof (induction turns arbitrary: s i k ticks)
  case Nil
  obtain x h where h: "reg_in H UEINTX (hw s) = (x, h)" by fastforce
  then have "\<not> bit x RWAL" using assms by (metis fifo_full_def fst_conv)
  with Nil h show ?case by (auto simp: wait_fifo_Nil frame_clock_def)
next
  case (Cons u turns)
  from Cons.prems(1) obtain d ds where d: "ticks = d # ds" by (cases ticks) (auto simp: frame_clock_def)
  obtain x h where h: "reg_in H UEINTX (hw s) = (x, h)" by fastforce
  have x: "\<not> bit x RWAL" using assms h by (metis fifo_full_def fst_conv)
  let ?s = "s\<lparr>hw := h, SREG := i\<rparr>"
  have fh: "frame h = frame (hw s)" using Cons.prems(1) h by (metis frame_clock_def snd_conv)
  obtain f v where v: "fifo_turn H u ?s = (f, v)" by fastforce
  have c: "frame_clock H frame turns ds" using Cons.prems(1) by (simp add: frame_clock_def d)
  have u: "frame (hw (u ?s)) = frame (hw s) + (if d then 1 else 0)" "usb_configuration (u ?s) = usb_configuration s"
    using Cons.prems(1) fh by (simp_all add: frame_clock_def d)
  obtain g h' where g: "reg_in H UDFNUML (hw (u ?s)) = (g, h')" by fastforce
  then have gf: "g = frame (hw (u ?s))" "frame h' = frame (hw (u ?s))"
    using Cons.prems(1) by (metis frame_clock_def fst_conv, metis frame_clock_def snd_conv)
  have fv: "f = frame (hw s) + (if d then 1 else 0)" "v = (u ?s)\<lparr>hw := h'\<rparr>"
    using v g gf u by (simp_all add: fifo_turn_def Let_def)
  show ?case
  proof (cases "d \<and> k = 1")
    case True
    with Cons.prems h x v fv u gf show ?thesis by (auto simp: wait_fifo_Cons d)
  next
    case False
    let ?k = "if d then k - 1 else k"
    have k: "0 < ?k" "?k < 256" using Cons.prems(3,4) False by auto
    have kk: "of_nat k = ((if d then 1 else 0) + of_nat ?k :: u8)"
      using Cons.prems(3) by (simp add: of_nat_diff)
    have "(of_nat ?k :: u8) \<noteq> 0"
      using k by (simp add: word_unat_eq_iff unat_of_nat del: of_nat_diff)
    then have nf: "f \<noteq> timeout" unfolding Cons.prems(5) fv kk by (simp only: add.assoc [symmetric]) simp
    let ?w = "fifo_again H v"
    have w: "usb_configuration ?w = usb_configuration s" "frame (hw ?w) = frame (hw s) + (if d then 1 else 0)"
      using Cons.prems(1) u gf by (simp_all add: fifo_again_def fv frame_clock_def)
    have to: "timeout = frame (hw ?w) + of_nat ?k"
      unfolding Cons.prems(5) w kk by (simp only: add.assoc)
    have run: "run_state (wait_fifo H turns timeout (SREG v)) ?w = (w, t)"
      using Cons.prems(2,6) h x v nf u fv by (simp add: wait_fifo_Cons)
    have "count_list ticks True < k \<longleftrightarrow> count_list ds True < ?k" using Cons.prems(3) by (auto simp: d)
    then show ?thesis using Cons.IH [OF c _ k to run] w Cons.prems(2) by simp
  qed
qed

text \<open>
  A character that finds the FIFO full waits as long as fewer than 25 frames have passed, and is
  given up in the 25th.
\<close>

lemma putchar_times_out:
  assumes full: "fifo_full H" and clock: "frame_clock H frame turns ticks"
    and "usb_configuration s \<noteq> 0" and "transmit_previous_timeout s = 0"
  shows "if count_list ticks True < 25 then fst (run_state (usb_serial_putchar H turns c) s) = None
    else \<exists>t. run_state (usb_serial_putchar H turns c) s = (Some (- 1), t) \<and> frame (hw t) = frame (hw s) + 25 \<and>
      transmit_previous_timeout t = 1 \<and> usb_configuration t = usb_configuration s"
proof -
  obtain u where u: "run_state (tx_enter H) s = (Some (SREG s), u)" "usb_configuration u = usb_configuration s"
    "frame (hw u) = frame (hw s)"
    using assms(4) clock by (simp add: tx_enter_def cli_def frame_clock_def)
  obtain f h where f: "reg_in H UDFNUML (hw u) = (f, h)" by fastforce
  have fh: "f = frame (hw s)" "frame h = frame (hw s)"
    using clock f u(3) by (metis frame_clock_def fst_conv, metis frame_clock_def snd_conv)
  obtain w t where w: "run_state (wait_fifo H turns (f + TRANSMIT_TIMEOUT) (SREG s)) (u\<lparr>hw := h\<rparr>) = (w, t)"
    by fastforce
  have "f + TRANSMIT_TIMEOUT = frame (hw (u\<lparr>hw := h\<rparr>)) + of_nat 25" by (simp add: fh TRANSMIT_TIMEOUT_def)
  from wait_fifo_frames [OF full clock _ _ _ this w] w u f fh assms(3) show ?thesis
    by (auto simp: usb_serial_putchar_def TRANSMIT_TIMEOUT_def split: if_splits)
qed

text \<open>The next characters are then refused at once, without any turn.\<close>

lemma putchar_refused:
  assumes "fifo_full H" and "transmit_previous_timeout s \<noteq> 0" and "usb_configuration s \<noteq> 0"
  shows "\<exists>t. run_state (usb_serial_putchar H turns c) s = (Some (- 1), t) \<and>
    transmit_previous_timeout t = transmit_previous_timeout s \<and>
    usb_configuration t = usb_configuration s"
proof -
  obtain x h where h: "reg_in H UEINTX (reg_out H UENUM CDC_TX_ENDPOINT (hw s)) = (x, h)" by fastforce
  then have "\<not> bit x RWAL" using assms(1) by (metis fifo_full_def fst_conv)
  with h assms(2,3) show ?thesis
    by (simp add: usb_serial_putchar_def tx_enter_def cli_def ready_bit_def restore_def)
qed

section \<open>The flush timer\<close>

text \<open>\<open>frames n\<close>: the device interrupt of \<open>n\<close> start-of-frame events.\<close>

definition frames :: "'h usb_hw \<Rightarrow> nat \<Rightarrow> 'h usb \<Rightarrow> 'h usb" where
  "frames H n = (\<lambda>s. snd (run_state (USB_GEN_vect H) s)) ^^ n"

definition releases :: "('h \<Rightarrow> (reg \<times> u8) list) \<Rightarrow> 'h usb \<Rightarrow> nat" where
  "releases out s = length (filter (\<lambda>p. p = (UEINTX, 0x3A)) (out (hw s)))"

definition start_of_frame :: "'h usb_hw \<Rightarrow> bool" where
  "start_of_frame H \<longleftrightarrow> (\<forall>h. fst (reg_in H UDINT h) = mask_bit SOFI)"

lemma frame_step:
  assumes H: "history H out" and sof: "start_of_frame H" and c: "usb_configuration s \<noteq> 0"
  defines "t \<equiv> snd (run_state (USB_GEN_vect H) s)"
  shows "usb_configuration t = usb_configuration s \<and>
    unat (transmit_flush_timer t) = unat (transmit_flush_timer s) - 1 \<and>
    releases out t = releases out s + (if unat (transmit_flush_timer s) = 1 then 1 else 0)"
proof -
  obtain x h where h: "reg_in H UDINT (hw s) = (x, h)" by fastforce
  have x: "x = mask_bit SOFI" using sof h by (metis start_of_frame_def fst_conv)
  have b: "bit x SOFI" "\<not> bit x EORSTI" by (simp_all add: x bit_simps)
  have u: "unat (transmit_flush_timer s - 1) = unat (transmit_flush_timer s) - 1"
    if "transmit_flush_timer s \<noteq> 0"
    using that by (simp add: unat_minus_one)
  have one: "unat w = Suc 0 \<longleftrightarrow> w - 1 = 0" for w :: u8
  proof -
    have "unat w = unat (1 :: u8) \<longleftrightarrow> w = 1" by (rule word_unat_eq_iff [symmetric])
    then show ?thesis by simp
  qed
  show ?thesis
    using c b u history_in [OF H h]
    by (auto simp: t_def USB_GEN_vect_def USB_GEN_frame_def h releases_def history_out [OF H] one)
qed

lemma frames_flush:
  assumes H: "history H out" and sof: "start_of_frame H" and c: "usb_configuration s \<noteq> 0"
  defines "k \<equiv> unat (transmit_flush_timer s)"
  shows "usb_configuration (frames H n s) = usb_configuration s \<and>
    unat (transmit_flush_timer (frames H n s)) = k - n \<and>
    releases out (frames H n s) = releases out s + (if 0 < k \<and> k \<le> n then 1 else 0)"
proof (induction n)
  case (Suc n)
  have t: "frames H (Suc n) s = snd (run_state (USB_GEN_vect H) (frames H n s))"
    by (simp add: frames_def)
  show ?case
    using frame_step [OF H sof, of "frames H n s"] Suc c unfolding t by auto
qed (auto simp: frames_def k_def)

section \<open>Requests\<close>

lemma control_line_state:
  assumes "bRequest r = CDC_SET_CONTROL_LINE_STATE" and "bmRequestType r = 0x21"
  shows "usb_serial_get_control (snd (run_state (handle_setup H polls r) s)) = lo8 (wValue r)"
proof -
  have p: "cdc_line_rtsdtr (snd (run_state (poll H m n) u)) = cdc_line_rtsdtr u" for m n and u :: "'a usb"
    by (induction n arbitrary: u) (simp_all add: poll.simps [of H m] split: prod.splits)
  let ?u = "s\<lparr>cdc_line_rtsdtr := lo8 (wValue r)\<rparr>"
  obtain i v where w: "run_state (poll H (mask_bit TXINI) polls) ?u = (i, v)" by fastforce
  then have "cdc_line_rtsdtr v = lo8 (wValue r)" using p [of "mask_bit TXINI" polls ?u] by simp
  with assms w show ?thesis
    by (cases i) (simp_all add: handle_setup_def set_control_line_state_def usb_serial_get_control_def
        after_def usb_wait_in_ready_def usb_send_in_def finished_def)
qed

section \<open>A controller for examples\<close>

text \<open>It answers every read with the same value and keeps the list of all writes.\<close>

definition recorder :: "u8 \<Rightarrow> (reg \<times> u8) list usb_hw" where
  "recorder v = \<lparr>reg_in = (\<lambda>r h. (v, h)), reg_out = (\<lambda>r w h. h @ [(r, w)])\<rparr>"

lemma recorder_history: "history (recorder v) id"
  by (simp add: history_def recorder_def)

end
