(* ===== verification/BuffUart.thy ===== *)
theory BuffUart
  imports Prelude
begin

text \<open>
  \<open>LCD Test/buffuart.c\<close>: the UART with a ring buffer for each direction, filled and emptied
  by interrupts on one side and by the program on the other. A ring holds one byte less than
  its array. \<open>UDR1_out\<close> is the list of bytes the transmit interrupt has handed to the
  hardware.
\<close>

section \<open>Rings\<close>

text \<open>
  The bytes between tail and head of a ring of \<open>n\<close> cells; both indices are moved before the
  cell is used.
\<close>

definition ring :: "'a list \<Rightarrow> nat \<Rightarrow> nat \<Rightarrow> 'a list" where
  "ring buf head tail =
     (let n = length buf in map (\<lambda>i. buf ! ((tail + 1 + i) mod n)) [0..<(head + n - tail) mod n])"

lemma mod_cases: "(a :: nat) < 2 * n \<Longrightarrow> a mod n = (if a < n then a else a - n)"
  by (simp add: mod_if)

lemma ring_count:
  "head < n \<Longrightarrow> tail < n \<Longrightarrow> (head + n - tail) mod n = (if tail \<le> head then head - tail else head + n - tail)"
  for n :: nat
  by (auto simp: mod_if)

lemma length_ring:
  "head < length buf \<Longrightarrow> tail < length buf \<Longrightarrow>
     length (ring buf head tail) =
       (if tail \<le> head then head - tail else head + length buf - tail)"
  by (simp add: ring_def Let_def ring_count)

lemma ring_nil_iff:
  "head < length buf \<Longrightarrow> tail < length buf \<Longrightarrow> ring buf head tail = [] \<longleftrightarrow> head = tail"
  using length_ring [of head buf tail] by (auto split: if_splits)

lemma ring_get:
  assumes "head < length buf" and "tail < length buf" and "head \<noteq> tail"
  defines "t \<equiv> (tail + 1) mod length buf"
  shows "ring buf head tail = buf ! t # ring buf head t"
proof -
  let ?n = "length buf"
  have t: "t = (if tail + 1 < ?n then tail + 1 else 0)"
    unfolding t_def using assms(2) by (simp add: mod_if)
  then have tn: "t < ?n" using assms(2) by auto
  have c: "(head + ?n - tail) mod ?n = Suc ((head + ?n - t) mod ?n)"
    using assms(1-3) tn by (auto simp: ring_count t split: if_splits)
  have "map (\<lambda>i. buf ! ((tail + 1 + i) mod ?n)) [0..<Suc m] =
      buf ! t # map (\<lambda>i. buf ! ((t + 1 + i) mod ?n)) [0..<m]" for m
  proof -
    have "(t + (1 + i)) mod ?n = (tail + 1 + (1 + i)) mod ?n" for i
      unfolding t_def by (rule mod_add_left_eq)
    then show ?thesis
      by (simp add: upt_conv_Cons [of 0 "Suc m"] map_Suc_upt [symmetric] t_def del: upt_Suc)
  qed
  with c show ?thesis by (simp add: ring_def Let_def del: upt_Suc)
qed

lemma ring_put:
  assumes "head < length buf" and "tail < length buf"
  defines "h \<equiv> (head + 1) mod length buf"
  assumes "h \<noteq> tail"
  shows "ring (buf[h := x]) h tail = ring buf head tail @ [x]"
proof -
  let ?n = "length buf"
  let ?m = "(head + ?n - tail) mod ?n"
  have h: "h = (if head + 1 < ?n then head + 1 else 0)"
    unfolding h_def using assms(1) by (simp add: mod_if)
  then have hn: "h < ?n" using assms(1) by auto
  have c: "(h + ?n - tail) mod ?n = Suc ?m"
    using assms(1,2,4) hn by (auto simp: ring_count h split: if_splits)
  have "(tail + 1 + ?m) mod ?n = (tail + 1 + (head + ?n - tail)) mod ?n" by (rule mod_add_right_eq)
  also have "\<dots> = (head + 1 + ?n) mod ?n" using assms(2) by simp
  also have "\<dots> = h" unfolding h_def by (rule mod_add_self2)
  finally have last: "(tail + 1 + ?m) mod ?n = h" .
  have other: "(tail + 1 + i) mod ?n \<noteq> h" if "i < ?m" for i
  proof
    assume "(tail + 1 + i) mod ?n = h"
    with last have "(tail + 1 + ?m) mod ?n = (tail + 1 + i) mod ?n" by simp
    then have "?n dvd (tail + 1 + ?m) - (tail + 1 + i)" using that by (simp add: mod_eq_dvd_iff_nat)
    then have "?n dvd ?m - i" by simp
    moreover have "?m < ?n" using assms(1) by (intro mod_less_divisor) linarith
    ultimately show False using that by (simp add: nat_dvd_not_less)
  qed
  have "buf[h := x] ! ((tail + 1 + i) mod ?n) = buf ! ((tail + 1 + i) mod ?n)" if "i < ?m" for i
    using other [OF that] by (intro nth_list_update_neq) (rule not_sym)
  with c last hn show ?thesis by (simp add: ring_def Let_def)
qed

section \<open>The driver\<close>

record uart =
  UART_RxBuf :: bytes
  UART_RxHead :: u16
  UART_RxTail :: u16
  UART_TxBuf :: bytes
  UART_TxHead :: u8
  UART_TxTail :: u8
  UCSR1B :: u8
  UBRR1 :: u16
  UDR1_out :: bytes

definition UART_RX_BUFFER_SIZE :: u16 where "UART_RX_BUFFER_SIZE = 8"
definition UART_TX_BUFFER_MASK :: u8 where "UART_TX_BUFFER_MASK = 32 - 1"

text \<open>\<open>F_CPU/(UART_BAUD_RATE*16l)-1\<close> for 16 MHz and 57600 baud.\<close>

definition UART_BAUD_SELECT :: u16 where "UART_BAUD_SELECT = 16000000 div (57600 * 16) - 1"

abbreviation (input) "RXCIE1 \<equiv> 7 :: nat"
abbreviation (input) "UDRIE1 \<equiv> 5 :: nat"
abbreviation (input) "RXEN1 \<equiv> 4 :: nat"
abbreviation (input) "TXEN1 \<equiv> 3 :: nat"

definition uart_boot :: "u8 \<Rightarrow> u16 \<Rightarrow> uart" where
  "uart_boot ucsrb ubrr =
    \<lparr>UART_RxBuf = replicate 8 0, UART_RxHead = 0, UART_RxTail = 0, UART_TxBuf = replicate 32 0,
     UART_TxHead = 0, UART_TxTail = 0, UCSR1B = ucsrb, UBRR1 = ubrr, UDR1_out = []\<rparr>"

definition BuffUart_Setup :: "uart \<Rightarrow> uart" where
  "BuffUart_Setup s =
     (let s = s\<lparr>UCSR1B := push_bit RXCIE1 1 OR push_bit RXEN1 1 OR push_bit TXEN1 1\<rparr>;
          s = s\<lparr>UBRR1 := UART_BAUD_SELECT\<rparr>
      in s\<lparr>UART_RxTail := 0, UART_RxHead := 0, UART_TxTail := 0, UART_TxHead := 0\<rparr>)"

text \<open>The receive interrupt: \<open>data\<close> is the byte read from \<open>UDR1\<close>. A full ring is not kept.\<close>

definition USART1_RX_vect :: "u8 \<Rightarrow> uart \<Rightarrow> uart" where
  "USART1_RX_vect data s =
     (let tmphead = UART_RxHead s + 1;
          tmphead = (if tmphead = UART_RX_BUFFER_SIZE then 0 else tmphead)
      in s\<lparr>UART_RxHead := tmphead, UART_RxBuf := (UART_RxBuf s)[unat tmphead := data]\<rparr>)"

text \<open>The transmit interrupt: hand over the next byte, or switch the interrupt off.\<close>

definition USART1_UDRE_vect :: "uart \<Rightarrow> uart" where
  "USART1_UDRE_vect s =
     (if UART_TxHead s \<noteq> UART_TxTail s
      then (let tmptail = (UART_TxTail s + 1) AND UART_TX_BUFFER_MASK
            in s\<lparr>UART_TxTail := tmptail, UDR1_out := UDR1_out s @ [UART_TxBuf s ! unat tmptail]\<rparr>)
      else s\<lparr>UCSR1B := UCSR1B s AND NOT (push_bit UDRIE1 1)\<rparr>)"

definition BuffUart_DataInReceiveBuffer :: "uart \<Rightarrow> bool" where
  "BuffUart_DataInReceiveBuffer s \<longleftrightarrow> UART_RxHead s \<noteq> UART_RxTail s"

text \<open>
  The two functions that wait. \<open>irqs\<close> says for each turn of the waiting loop which
  interrupts came: for the receiver the bytes that arrived, for the transmitter whether the
  transmit interrupt ran. If the list ends while the loop still waits, the result is None.
\<close>

fun BuffUart_Receive :: "bytes list \<Rightarrow> uart \<Rightarrow> (u8 \<times> uart) option" where
  "BuffUart_Receive irqs s =
     (if UART_RxHead s = UART_RxTail s
      then (case irqs of [] \<Rightarrow> None | ds # irqs \<Rightarrow> BuffUart_Receive irqs (fold USART1_RX_vect ds s))
      else (let tmptail = UART_RxTail s + 1;
                tmptail = (if tmptail = UART_RX_BUFFER_SIZE then 0 else tmptail)
            in Some (UART_RxBuf s ! unat tmptail, s\<lparr>UART_RxTail := tmptail\<rparr>)))"

fun wait_space :: "bool list \<Rightarrow> u8 \<Rightarrow> uart \<Rightarrow> uart option" where
  "wait_space irqs tmphead s =
     (if tmphead = UART_TxTail s
      then (case irqs of [] \<Rightarrow> None
            | i # irqs \<Rightarrow> wait_space irqs tmphead (if i then USART1_UDRE_vect s else s))
      else Some s)"

definition BuffUart_Transmit :: "bool list \<Rightarrow> u8 \<Rightarrow> uart \<Rightarrow> uart option" where
  "BuffUart_Transmit irqs data s =
     (let tmphead = (UART_TxHead s + 1) AND UART_TX_BUFFER_MASK in
      case wait_space irqs tmphead s of None \<Rightarrow> None
      | Some s \<Rightarrow> Some (s\<lparr>UART_TxBuf := (UART_TxBuf s)[unat tmphead := data],
                          UART_TxHead := tmphead, UCSR1B := UCSR1B s OR push_bit UDRIE1 1\<rparr>))"

text \<open>A sequence of bytes, each with its own waiting loop, and the two formats sent with it.\<close>

fun transmit_all :: "(nat \<Rightarrow> bool list) \<Rightarrow> bytes \<Rightarrow> uart \<Rightarrow> uart option" where
  "transmit_all irqs [] s = Some s"
| "transmit_all irqs (b # bs) s =
     (case BuffUart_Transmit (irqs 0) b s of None \<Rightarrow> None
      | Some s \<Rightarrow> transmit_all (\<lambda>k. irqs (Suc k)) bs s)"

text \<open>
  The index into the string is one byte, so the loop comes round to its first character if
  none of the first 256 is the terminator; it then never ends and has no result.
\<close>

partial_function (option) transmit_string_loop ::
    "(nat \<Rightarrow> bool list) \<Rightarrow> nat \<Rightarrow> bytes \<Rightarrow> u8 \<Rightarrow> uart \<Rightarrow> uart option"
where
  "transmit_string_loop irqs k str index s =
     (if str ! unat index = 0 then Some s
      else (case BuffUart_Transmit (irqs k) (str ! unat index) s of None \<Rightarrow> None
            | Some s \<Rightarrow> transmit_string_loop irqs (Suc k) str (index + 1) s))"

definition BuffUart_TransmitString :: "(nat \<Rightarrow> bool list) \<Rightarrow> bytes \<Rightarrow> uart \<Rightarrow> uart option" where
  "BuffUart_TransmitString irqs str s = transmit_string_loop irqs 0 str 0 s"

definition hex_digit :: "u8 \<Rightarrow> u8" where
  "hex_digit temp = (if temp \<ge> 0x0A then 65 + temp - 0x0A else 48 + temp)"

definition BuffUart_TransmitHex :: "(nat \<Rightarrow> bool list) \<Rightarrow> u8 \<Rightarrow> uart \<Rightarrow> uart option" where
  "BuffUart_TransmitHex irqs data s =
     transmit_all irqs [hex_digit (drop_bit 4 (data AND 0xF0)), hex_digit (data AND 0x0F)] s"

section \<open>First in, first out\<close>

text \<open>
  The contract of a bounded queue, and what follows for any sequence of operations that
  respects its bounds: the bytes taken and the bytes still in the queue are the bytes that
  were in it and the bytes put, in order.
\<close>

datatype fifo_op = Put u8 | Get

locale fifo =
  fixes inv :: "'s \<Rightarrow> bool"
    and queue :: "'s \<Rightarrow> bytes"
    and room :: nat
    and put :: "u8 \<Rightarrow> 's \<Rightarrow> 's"
    and get :: "'s \<Rightarrow> u8 \<times> 's"
  assumes put: "inv s \<Longrightarrow> length (queue s) < room \<Longrightarrow> inv (put x s) \<and> queue (put x s) = queue s @ [x]"
    and get: "inv s \<Longrightarrow> queue s \<noteq> [] \<Longrightarrow>
      inv (snd (get s)) \<and> queue s = fst (get s) # queue (snd (get s))"
begin

fun operate :: "fifo_op list \<Rightarrow> 's \<Rightarrow> bytes \<times> 's" where
  "operate [] s = ([], s)"
| "operate (Put x # ops) s = operate ops (put x s)"
| "operate (Get # ops) s = (case operate ops (snd (get s)) of (out, t) \<Rightarrow> (fst (get s) # out, t))"

fun allowed :: "fifo_op list \<Rightarrow> 's \<Rightarrow> bool" where
  "allowed [] s \<longleftrightarrow> True"
| "allowed (Put x # ops) s \<longleftrightarrow> length (queue s) < room \<and> allowed ops (put x s)"
| "allowed (Get # ops) s \<longleftrightarrow> queue s \<noteq> [] \<and> allowed ops (snd (get s))"

fun inputs :: "fifo_op list \<Rightarrow> bytes" where
  "inputs [] = []"
| "inputs (Put x # ops) = x # inputs ops"
| "inputs (Get # ops) = inputs ops"

lemma in_order:
  "inv s \<Longrightarrow> allowed ops s \<Longrightarrow>
   inv (snd (operate ops s)) \<and>
   fst (operate ops s) @ queue (snd (operate ops s)) = queue s @ inputs ops"
proof (induction ops s rule: operate.induct)
  case (2 x ops s)
  then show ?case using put [of s x] by simp
next
  case (3 ops s)
  then show ?case using get [of s] by (auto split: prod.splits)
qed simp

end

definition rx_queue :: "uart \<Rightarrow> bytes" where
  "rx_queue s = ring (UART_RxBuf s) (unat (UART_RxHead s)) (unat (UART_RxTail s))"

definition tx_queue :: "uart \<Rightarrow> bytes" where
  "tx_queue s = ring (UART_TxBuf s) (unat (UART_TxHead s)) (unat (UART_TxTail s))"

definition uart_ok :: "uart \<Rightarrow> bool" where
  "uart_ok s \<longleftrightarrow> length (UART_RxBuf s) = 8 \<and> length (UART_TxBuf s) = 32 \<and>
     unat (UART_RxHead s) < 8 \<and> unat (UART_RxTail s) < 8 \<and>
     unat (UART_TxHead s) < 32 \<and> unat (UART_TxTail s) < 32"

lemma uart_ok_boot: "uart_ok (BuffUart_Setup (uart_boot a b))"
  by (simp add: uart_ok_def BuffUart_Setup_def uart_boot_def Let_def)

lemma rx_next:
  assumes "unat (i :: u16) < 8"
  shows "unat (if i + 1 = UART_RX_BUFFER_SIZE then 0 else i + 1) = (unat i + 1) mod 8"
proof -
  have u: "unat (i + 1) = unat i + 1" using assms by (simp add: unat_word_ariths)
  then have "i + 1 = UART_RX_BUFFER_SIZE \<longleftrightarrow> unat i = 7"
    by (simp add: word_unat_eq_iff UART_RX_BUFFER_SIZE_def)
  with u assms show ?thesis by auto
qed

lemma tx_next:
  assumes "unat (i :: u8) < 32"
  shows "unat ((i + 1) AND UART_TX_BUFFER_MASK) = (unat i + 1) mod 32"
proof -
  have "unat (i + 1) = unat i + 1" using assms by (simp add: unat_word_ariths)
  then show ?thesis by (simp add: UART_TX_BUFFER_MASK_def unat_and_31)
qed

definition rx_get :: "uart \<Rightarrow> u8 \<times> uart" where
  "rx_get s = the (BuffUart_Receive [] s)"

definition tx_put :: "u8 \<Rightarrow> uart \<Rightarrow> uart" where
  "tx_put x s = the (BuffUart_Transmit [] x s)"

definition tx_get :: "uart \<Rightarrow> u8 \<times> uart" where
  "tx_get s = (last (UDR1_out (USART1_UDRE_vect s)), USART1_UDRE_vect s)"

lemma rx_data_iff: "uart_ok s \<Longrightarrow> BuffUart_DataInReceiveBuffer s \<longleftrightarrow> rx_queue s \<noteq> []"
  by (simp add: BuffUart_DataInReceiveBuffer_def rx_queue_def uart_ok_def ring_nil_iff
      word_unat_eq_iff)

lemma rx_put_queue:
  assumes ok: "uart_ok s"
  shows "uart_ok (USART1_RX_vect x s) \<and> rx_queue (USART1_RX_vect x s) =
    (if length (rx_queue s) < 7 then rx_queue s @ [x] else [])"
proof -
  let ?h = "unat (UART_RxHead s)" and ?t = "unat (UART_RxTail s)"
  let ?n = "if UART_RxHead s + 1 = UART_RX_BUFFER_SIZE then 0 else UART_RxHead s + 1"
  have n: "unat ?n = (?h + 1) mod 8" using ok by (intro rx_next) (simp add: uart_ok_def)
  have l: "length (UART_RxBuf s) = 8" "?h < 8" "?t < 8" using ok by (simp_all add: uart_ok_def)
  have step: "USART1_RX_vect x s =
      s\<lparr>UART_RxHead := ?n, UART_RxBuf := (UART_RxBuf s)[unat ?n := x]\<rparr>"
    by (simp add: USART1_RX_vect_def Let_def)
  have full: "length (rx_queue s) < 7 \<longleftrightarrow> (?h + 1) mod 8 \<noteq> ?t"
    unfolding rx_queue_def using length_ring [of ?h "UART_RxBuf s" ?t] l by (auto simp: mod_if)
  have "uart_ok (USART1_RX_vect x s)"
    unfolding step using ok n by (simp add: uart_ok_def)
  moreover have "rx_queue (USART1_RX_vect x s) =
      ring ((UART_RxBuf s)[(?h + 1) mod 8 := x]) ((?h + 1) mod 8) ?t"
    unfolding rx_queue_def step n [symmetric] by simp
  moreover have "\<dots> = (if length (rx_queue s) < 7 then rx_queue s @ [x] else [])"
  proof (cases "length (rx_queue s) < 7")
    case True
    with full l show ?thesis
      using ring_put [of ?h "UART_RxBuf s" ?t x] by (simp add: rx_queue_def)
  next
    case False
    with full l show ?thesis by (simp add: ring_nil_iff)
  qed
  ultimately show ?thesis by simp
qed

lemma rx_get_queue:
  assumes ok: "uart_ok s" and ne: "rx_queue s \<noteq> []"
  shows "uart_ok (snd (rx_get s)) \<and> rx_queue s = fst (rx_get s) # rx_queue (snd (rx_get s)) \<and>
    BuffUart_Receive irqs s = Some (rx_get s)"
proof -
  let ?h = "unat (UART_RxHead s)" and ?t = "unat (UART_RxTail s)"
  let ?n = "if UART_RxTail s + 1 = UART_RX_BUFFER_SIZE then 0 else UART_RxTail s + 1"
  have n: "unat ?n = (?t + 1) mod 8" using ok by (intro rx_next) (simp add: uart_ok_def)
  have l: "length (UART_RxBuf s) = 8" "?h < 8" "?t < 8" using ok by (simp_all add: uart_ok_def)
  have d: "UART_RxHead s \<noteq> UART_RxTail s" and ht: "?h \<noteq> ?t"
    using rx_data_iff [OF ok] ne by (auto simp: BuffUart_DataInReceiveBuffer_def word_unat_eq_iff)
  have r: "BuffUart_Receive is s = Some (UART_RxBuf s ! unat ?n, s\<lparr>UART_RxTail := ?n\<rparr>)" for "is"
    using d by (simp add: Let_def)
  have g: "rx_get s = (UART_RxBuf s ! unat ?n, s\<lparr>UART_RxTail := ?n\<rparr>)"
    unfolding rx_get_def r by simp
  have "uart_ok (snd (rx_get s))" unfolding g using ok n by (simp add: uart_ok_def)
  moreover have "rx_queue s = fst (rx_get s) # rx_queue (snd (rx_get s))"
  proof -
    have "rx_queue (snd (rx_get s)) = ring (UART_RxBuf s) ?h ((?t + 1) mod 8)"
      unfolding g rx_queue_def n [symmetric] by simp
    moreover have "fst (rx_get s) = UART_RxBuf s ! ((?t + 1) mod 8)" unfolding g n by simp
    ultimately show ?thesis
      using ring_get [of ?h "UART_RxBuf s" ?t] l ht unfolding rx_queue_def [of s] by simp
  qed
  ultimately show ?thesis by (simp only: r g simp_thms)
qed

lemma tx_space:
  assumes ok: "uart_ok s"
  shows "(UART_TxHead s + 1) AND UART_TX_BUFFER_MASK = UART_TxTail s \<longleftrightarrow> \<not> length (tx_queue s) < 31"
proof -
  let ?h = "unat (UART_TxHead s)" and ?t = "unat (UART_TxTail s)"
  have l: "length (UART_TxBuf s) = 32" "?h < 32" "?t < 32" using ok by (simp_all add: uart_ok_def)
  then have "unat ((UART_TxHead s + 1) AND UART_TX_BUFFER_MASK) = (?h + 1) mod 32" by (intro tx_next)
  then show ?thesis
    unfolding tx_queue_def using length_ring [of ?h "UART_TxBuf s" ?t] l
    by (auto simp: word_unat_eq_iff mod_if)
qed

text \<open>Storing a byte when there is space, and the interrupt that takes the oldest one.\<close>

definition tx_store :: "u8 \<Rightarrow> uart \<Rightarrow> uart" where
  "tx_store x s =
     (let tmphead = (UART_TxHead s + 1) AND UART_TX_BUFFER_MASK
      in s\<lparr>UART_TxBuf := (UART_TxBuf s)[unat tmphead := x], UART_TxHead := tmphead,
           UCSR1B := UCSR1B s OR push_bit UDRIE1 1\<rparr>)"

lemma Transmit_store:
  "uart_ok s \<Longrightarrow> length (tx_queue s) < 31 \<Longrightarrow> BuffUart_Transmit irqs x s = Some (tx_store x s)"
  using tx_space [of s] by (simp add: BuffUart_Transmit_def tx_store_def Let_def)

lemma tx_store_queue:
  assumes ok: "uart_ok s" and "length (tx_queue s) < 31"
  shows "uart_ok (tx_store x s) \<and> tx_queue (tx_store x s) = tx_queue s @ [x] \<and>
    UDR1_out (tx_store x s) = UDR1_out s"
proof -
  let ?h = "unat (UART_TxHead s)" and ?t = "unat (UART_TxTail s)"
  have l: "length (UART_TxBuf s) = 32" "?h < 32" "?t < 32" using ok by (simp_all add: uart_ok_def)
  then have n: "unat ((UART_TxHead s + 1) AND UART_TX_BUFFER_MASK) = (?h + 1) mod 32" by (intro tx_next)
  have "(?h + 1) mod 32 \<noteq> ?t" using tx_space [OF ok] assms(2) n by (auto simp: word_unat_eq_iff)
  then have "tx_queue (tx_store x s) = tx_queue s @ [x]"
    using ring_put [of ?h "UART_TxBuf s" ?t x] l
    by (simp add: tx_queue_def tx_store_def Let_def n)
  moreover have "uart_ok (tx_store x s)"
    using ok n by (simp add: uart_ok_def tx_store_def Let_def)
  ultimately show ?thesis by (simp add: tx_store_def Let_def)
qed

lemma udre_queue:
  assumes ok: "uart_ok s" and ne: "tx_queue s \<noteq> []"
  shows "uart_ok (USART1_UDRE_vect s) \<and> UDR1_out (USART1_UDRE_vect s) = UDR1_out s @ [hd (tx_queue s)] \<and>
    tx_queue (USART1_UDRE_vect s) = tl (tx_queue s)"
proof -
  let ?h = "unat (UART_TxHead s)" and ?t = "unat (UART_TxTail s)"
  have l: "length (UART_TxBuf s) = 32" "?h < 32" "?t < 32" using ok by (simp_all add: uart_ok_def)
  then have n: "unat ((UART_TxTail s + 1) AND UART_TX_BUFFER_MASK) = (?t + 1) mod 32" by (intro tx_next)
  have ht: "?h \<noteq> ?t" using ne l by (simp add: tx_queue_def ring_nil_iff)
  then have "UART_TxHead s \<noteq> UART_TxTail s" by auto
  then show ?thesis
    using ring_get [of ?h "UART_TxBuf s" ?t] l ht ok n
    by (simp add: USART1_UDRE_vect_def Let_def tx_queue_def uart_ok_def)
qed

interpretation rx: fifo uart_ok rx_queue 7 USART1_RX_vect rx_get
  by unfold_locales (use rx_put_queue rx_get_queue in auto)

interpretation tx: fifo uart_ok tx_queue 31 tx_put tx_get
proof
  show "uart_ok (tx_put x s) \<and> tx_queue (tx_put x s) = tx_queue s @ [x]"
    if "uart_ok s" "length (tx_queue s) < 31" for s x
    using that tx_store_queue by (simp add: tx_put_def Transmit_store)
  show "uart_ok (snd (tx_get s)) \<and> tx_queue s = fst (tx_get s) # tx_queue (snd (tx_get s))"
    if "uart_ok s" "tx_queue s \<noteq> []" for s
    using that udre_queue [OF that] by (simp add: tx_get_def)
qed

section \<open>Sending always succeeds\<close>

text \<open>
  If the transmit interrupt runs at least once while a byte waits for space, the byte gets
  its space: everything given to the driver leaves it in order.
\<close>

lemma tx_length: "uart_ok s \<Longrightarrow> length (tx_queue s) \<le> 31"
  using length_ring [of "unat (UART_TxHead s)" "UART_TxBuf s" "unat (UART_TxTail s)"]
  by (auto simp: uart_ok_def tx_queue_def split: if_splits)

lemma udre_empty:
  "uart_ok s \<Longrightarrow> tx_queue s = [] \<Longrightarrow> tx_queue (USART1_UDRE_vect s) = [] \<and>
     uart_ok (USART1_UDRE_vect s) \<and> UDR1_out (USART1_UDRE_vect s) = UDR1_out s"
  by (auto simp: tx_queue_def uart_ok_def ring_nil_iff USART1_UDRE_vect_def word_unat_eq_iff)

lemma Transmit_sends:
  assumes "uart_ok s" and "True \<in> set irqs"
  shows "\<exists>t. BuffUart_Transmit irqs x s = Some t \<and> uart_ok t \<and>
    UDR1_out t @ tx_queue t = UDR1_out s @ tx_queue s @ [x]"
proof (cases "length (tx_queue s) < 31")
  case True
  then show ?thesis using assms(1) by (simp add: Transmit_store tx_store_queue)
next
  case False
  let ?u = "USART1_UDRE_vect s" and ?head = "(UART_TxHead s + 1) AND UART_TX_BUFFER_MASK"
  have l: "length (tx_queue s) = 31" using tx_length [OF assms(1)] False by simp
  then have ne: "tx_queue s \<noteq> []" by auto
  note u = udre_queue [OF assms(1) ne]
  have lu: "length (tx_queue ?u) < 31" using u l by simp
  have head: "UART_TxHead ?u = UART_TxHead s" by (simp add: USART1_UDRE_vect_def Let_def)
  have "?head \<noteq> UART_TxTail ?u" using tx_space [of ?u] u lu head by simp
  then have "wait_space is ?head ?u = Some ?u" for "is" by simp
  moreover have "?head = UART_TxTail s" using tx_space [OF assms(1)] False by simp
  ultimately have w: "wait_space irqs ?head s = Some ?u"
    using assms(2) by (induction irqs) auto
  then have "BuffUart_Transmit irqs x s = Some (tx_store x ?u)"
    by (simp add: BuffUart_Transmit_def tx_store_def head Let_def)
  moreover have "uart_ok (tx_store x ?u)" "tx_queue (tx_store x ?u) = tl (tx_queue s) @ [x]"
    "UDR1_out (tx_store x ?u) = UDR1_out s @ [hd (tx_queue s)]"
    using tx_store_queue [OF conjunct1 [OF u] lu, of x] u by simp_all
  ultimately show ?thesis using ne by (auto simp: neq_Nil_conv)
qed

lemma transmit_all_sends:
  "uart_ok s \<Longrightarrow> \<forall>k. True \<in> set (irqs k) \<Longrightarrow>
   \<exists>t. transmit_all irqs bs s = Some t \<and> uart_ok t \<and>
     UDR1_out t @ tx_queue t = UDR1_out s @ tx_queue s @ bs"
proof (induction bs arbitrary: irqs s)
  case (Cons b bs)
  from Cons.prems obtain u where u: "BuffUart_Transmit (irqs 0) b s = Some u" "uart_ok u"
    "UDR1_out u @ tx_queue u = UDR1_out s @ tx_queue s @ [b]"
    using Transmit_sends by blast
  obtain t where "transmit_all (\<lambda>k. irqs (Suc k)) bs u = Some t" "uart_ok t"
    "UDR1_out t @ tx_queue t = UDR1_out u @ tx_queue u @ bs"
    using Cons.IH [of u "\<lambda>k. irqs (Suc k)"] Cons.prems(2) u(2) by blast
  with u show ?case by (simp flip: append_assoc)
qed simp

text \<open>A string shorter than 256 is sent as its characters.\<close>

lemma transmit_string_from:
  assumes "0 \<notin> set cs" and "length cs < 256"
  shows "i + length ds = length cs \<Longrightarrow> drop i cs = ds \<Longrightarrow>
    transmit_string_loop irqs k (cs @ 0 # rest) (of_nat i) s = transmit_all (\<lambda>j. irqs (k + j)) ds s"
proof (induction ds arbitrary: i k s)
  case Nil
  then have "unat (of_nat i :: u8) = i" using assms(2) by (simp add: unat_of_nat)
  with Nil show ?case by (subst transmit_string_loop.simps) simp
next
  case (Cons d ds)
  then have i: "unat (of_nat i :: u8) = i" "i < length cs" using assms(2) by (simp_all add: unat_of_nat)
  have d: "cs ! i = d" using Cons.prems(2) i(2) by (metis nth_via_drop)
  then have "d \<noteq> 0" using assms(1) i(2) nth_mem by force
  have n: "drop (Suc i) cs = ds" using Cons.prems(2) by (metis drop_Suc list.sel(3) tl_drop)
  have "of_nat i + 1 = (of_nat (Suc i) :: u8)" by simp
  then show ?case
    using Cons.IH [of "Suc i" "Suc k"] Cons.prems(1) n i d \<open>d \<noteq> 0\<close>
    by (subst transmit_string_loop.simps) (simp add: nth_append add.commute [of 1] split: option.split)
qed

lemma TransmitString_sends:
  "0 \<notin> set cs \<Longrightarrow> length cs < 256 \<Longrightarrow>
     BuffUart_TransmitString irqs (cs @ 0 # rest) s = transmit_all irqs cs s"
  using transmit_string_from [of cs 0 cs irqs 0 rest s]
  by (simp add: BuffUart_TransmitString_def)

text \<open>The two characters of a byte in hexadecimal.\<close>

lemma hex_digit_ascii:
  "unat d < 16 \<Longrightarrow> hex_digit d = of_nat (of_char (''0123456789ABCDEF'' ! unat d))"
proof -
  assume "unat d < 16"
  then have "unat d = 0 \<or> unat d = 1 \<or> unat d = 2 \<or> unat d = 3 \<or> unat d = 4 \<or> unat d = 5 \<or>
      unat d = 6 \<or> unat d = 7 \<or> unat d = 8 \<or> unat d = 9 \<or> unat d = 10 \<or> unat d = 11 \<or>
      unat d = 12 \<or> unat d = 13 \<or> unat d = 14 \<or> unat d = 15"
    by arith
  moreover have "d = of_nat (unat d)" by simp
  ultimately show ?thesis by (elim disjE) (simp_all add: hex_digit_def word_le_nat_alt)
qed

end
