(* ===== verification/RingBuffer.thy ===== *)
theory RingBuffer
  imports BuffUart
begin

text \<open>
  \<open>Drivers/Misc/RingBuffer.h\<close> of the LUFA library, which the serial link over that library
  keeps two of. \<open>In\<close> and \<open>Out\<close> are pointers into the buffer, here indices; \<open>Start\<close> is index 0
  and \<open>End\<close> the index \<open>Size\<close>. The count is changed with interrupts disabled and the interrupt
  flag restored, so each function is one step.
\<close>

section \<open>The functions\<close>

record ring_buffer =
  Ring_Data :: bytes
  Ring_In :: nat
  Ring_Out :: nat
  Ring_Size :: u16
  Ring_Count :: u16

definition RingBuffer_InitBuffer :: "bytes \<Rightarrow> u16 \<Rightarrow> ring_buffer" where
  "RingBuffer_InitBuffer DataPtr Size =
     \<lparr>Ring_Data = DataPtr, Ring_In = 0, Ring_Out = 0, Ring_Size = Size, Ring_Count = 0\<rparr>"

definition RingBuffer_GetCount :: "ring_buffer \<Rightarrow> u16" where
  "RingBuffer_GetCount b = Ring_Count b"

definition RingBuffer_GetFreeCount :: "ring_buffer \<Rightarrow> u16" where
  "RingBuffer_GetFreeCount b = Ring_Size b - RingBuffer_GetCount b"

definition RingBuffer_IsEmpty :: "ring_buffer \<Rightarrow> bool" where
  "RingBuffer_IsEmpty b \<longleftrightarrow> RingBuffer_GetCount b = 0"

definition RingBuffer_IsFull :: "ring_buffer \<Rightarrow> bool" where
  "RingBuffer_IsFull b \<longleftrightarrow> RingBuffer_GetCount b = Ring_Size b"

definition RingBuffer_Insert :: "ring_buffer \<Rightarrow> u8 \<Rightarrow> ring_buffer" where
  "RingBuffer_Insert b Data =
     (let b = b\<lparr>Ring_Data := (Ring_Data b)[Ring_In b := Data]\<rparr>;
          b = b\<lparr>Ring_In := Ring_In b + 1\<rparr>;
          b = (if Ring_In b = unat (Ring_Size b) then b\<lparr>Ring_In := 0\<rparr> else b)
      in b\<lparr>Ring_Count := Ring_Count b + 1\<rparr>)"

definition RingBuffer_Remove :: "ring_buffer \<Rightarrow> u8 \<times> ring_buffer" where
  "RingBuffer_Remove b =
     (let Data = Ring_Data b ! Ring_Out b;
          b = b\<lparr>Ring_Out := Ring_Out b + 1\<rparr>;
          b = (if Ring_Out b = unat (Ring_Size b) then b\<lparr>Ring_Out := 0\<rparr> else b)
      in (Data, b\<lparr>Ring_Count := Ring_Count b - 1\<rparr>))"

definition RingBuffer_Peek :: "ring_buffer \<Rightarrow> u8" where
  "RingBuffer_Peek b = Ring_Data b ! Ring_Out b"

section \<open>The queue\<close>

definition ring_inv :: "u16 \<Rightarrow> ring_buffer \<Rightarrow> bool" where
  "ring_inv cap b \<longleftrightarrow> 0 < cap \<and> Ring_Size b = cap \<and> length (Ring_Data b) = unat cap \<and>
     Ring_Out b < unat cap \<and> unat (Ring_Count b) \<le> unat cap \<and>
     Ring_In b = (Ring_Out b + unat (Ring_Count b)) mod unat cap"

definition ring_queue :: "ring_buffer \<Rightarrow> bytes" where
  "ring_queue b =
     map (\<lambda>i. Ring_Data b ! ((Ring_Out b + i) mod unat (Ring_Size b))) [0..<unat (Ring_Count b)]"

lemma ring_inv_init: "0 < cap \<Longrightarrow> length data = unat cap \<Longrightarrow> ring_inv cap (RingBuffer_InitBuffer data cap)"
  by (simp add: ring_inv_def RingBuffer_InitBuffer_def word_less_nat_alt)

lemma ring_queue_init [simp]: "ring_queue (RingBuffer_InitBuffer data cap) = []"
  by (simp add: ring_queue_def RingBuffer_InitBuffer_def)

lemma length_ring_queue [simp]: "length (ring_queue b) = unat (Ring_Count b)"
  by (simp add: ring_queue_def)

lemma next_index: "i < n \<Longrightarrow> (if Suc i = n then 0 else Suc i) = Suc i mod n"
  by (simp add: mod_if)

lemma add_mod_distinct:
  fixes o' :: nat
  assumes "i < c" and "c < n"
  shows "(o' + i) mod n \<noteq> (o' + c) mod n"
proof
  assume "(o' + i) mod n = (o' + c) mod n"
  then have "(o' + c) mod n = (o' + i) mod n" ..
  then have "n dvd (o' + c) - (o' + i)" using assms(1) by (subst (asm) mod_eq_dvd_iff_nat) auto
  then show False using assms by (simp add: nat_dvd_not_less)
qed

lemma ring_insert:
  assumes "ring_inv cap b" and "length (ring_queue b) < unat cap"
  shows "ring_inv cap (RingBuffer_Insert b x)" and
    "ring_queue (RingBuffer_Insert b x) = ring_queue b @ [x]"
proof -
  let ?n = "unat cap" and ?c = "unat (Ring_Count b)"
  have n: "0 < ?n" and c: "?c < ?n" and I: "Ring_In b = (Ring_Out b + ?c) mod ?n"
    and l: "length (Ring_Data b) = ?n" and S: "Ring_Size b = cap"
    using assms by (simp_all add: ring_inv_def word_less_nat_alt)
  then have In: "Ring_In b < ?n" by simp
  have count: "unat (Ring_Count b + 1) = Suc ?c"
    using c unat_u16_less [of cap] by (simp add: unat_word_ariths)
  have idx: "(if Suc (Ring_In b) = ?n then 0 else Suc (Ring_In b)) = (Ring_Out b + Suc ?c) mod ?n"
    by (subst next_index [OF In]) (simp add: I mod_Suc_eq)
  have b': "RingBuffer_Insert b x =
      b\<lparr>Ring_Data := (Ring_Data b)[Ring_In b := x], Ring_In := (Ring_Out b + Suc ?c) mod ?n,
        Ring_Count := Ring_Count b + 1\<rparr>"
    using idx S by (auto simp: RingBuffer_Insert_def Let_def split: if_splits)
  show "ring_inv cap (RingBuffer_Insert b x)"
    using assms(1) c by (simp add: ring_inv_def b' count)
  show "ring_queue (RingBuffer_Insert b x) = ring_queue b @ [x]"
    using l In add_mod_distinct [of _ ?c ?n "Ring_Out b", THEN not_sym] c
    by (simp add: ring_queue_def b' count S I)
qed

lemma ring_remove:
  assumes "ring_inv cap b" and "ring_queue b \<noteq> []"
  shows "ring_inv cap (snd (RingBuffer_Remove b))" and
    "ring_queue b = fst (RingBuffer_Remove b) # ring_queue (snd (RingBuffer_Remove b))"
proof -
  let ?n = "unat cap" and ?c = "unat (Ring_Count b)"
  have n: "0 < ?n" and c: "?c \<le> ?n" and O: "Ring_Out b < ?n" and S: "Ring_Size b = cap"
    using assms by (simp_all add: ring_inv_def word_less_nat_alt)
  have "?c \<noteq> 0" using assms(2) by (simp add: ring_queue_def)
  then obtain m where m: "?c = Suc m" using not0_implies_Suc by blast
  have count: "unat (Ring_Count b - 1) = m"
    using m by (metis One_nat_def Suc_not_Zero diff_Suc_1 unat_1 unat_0 unat_minus_one word_neq_0_conv unat_gt_0)
  have b': "RingBuffer_Remove b = (Ring_Data b ! Ring_Out b,
      b\<lparr>Ring_Out := Suc (Ring_Out b) mod ?n, Ring_Count := Ring_Count b - 1\<rparr>)"
    using next_index [OF O] S by (auto simp: RingBuffer_Remove_def Let_def split: if_splits)
  have shift: "(Suc (Ring_Out b) mod ?n + i) mod ?n = (Ring_Out b + Suc i) mod ?n" for i
    by (simp add: mod_add_left_eq)
  show "ring_inv cap (snd (RingBuffer_Remove b))"
    using assms(1) n m c shift [of m] by (simp add: ring_inv_def b' count)
  show "ring_queue b = fst (RingBuffer_Remove b) # ring_queue (snd (RingBuffer_Remove b))"
    using O by (simp add: ring_queue_def b' count S m shift upt_conv_Cons [of 0 "Suc m"]
        map_Suc_upt [symmetric] del: upt_Suc)
qed

interpretation lufa_ring: fifo "ring_inv cap" ring_queue "unat cap"
    "\<lambda>x b. RingBuffer_Insert b x" RingBuffer_Remove for cap
  by unfold_locales (use ring_insert ring_remove in auto)

text \<open>
  An insertion into a full buffer is not refused: the oldest byte is overwritten and the count
  exceeds the cap.
\<close>

lemma ring_overflow:
  assumes "ring_inv cap b" and "RingBuffer_IsFull b" and "unat cap < 65535"
  shows "RingBuffer_GetCount (RingBuffer_Insert b x) = cap + 1"
    and "Ring_Data (RingBuffer_Insert b x) ! Ring_Out b = x"
proof -
  have "Ring_Count b = cap" and "Ring_In b = Ring_Out b" and "Ring_Out b < length (Ring_Data b)"
    using assms by (auto simp: ring_inv_def RingBuffer_IsFull_def RingBuffer_GetCount_def)
  then show "RingBuffer_GetCount (RingBuffer_Insert b x) = cap + 1"
    and "Ring_Data (RingBuffer_Insert b x) ! Ring_Out b = x"
    by (simp_all add: RingBuffer_Insert_def RingBuffer_GetCount_def Let_def)
qed

end
