(* ===== verification/LufaEndpoint.thy ===== *)
theory LufaEndpoint
  imports UsbControl "HOL-Library.Monad_Syntax"
begin

text \<open>
  The device side of the LUFA USB library below the requests: the state it keeps, the
  endpoint functions of \<open>Core/AVR8/Endpoint_AVR8.h\<close> and \<open>Endpoint_AVR8.c\<close>, and the streams
  of \<open>EndpointStream_AVR8.c\<close> with their templates. The options are those of
  \<open>Projects/USBtoSerial/makefile\<close>, from which the serial link of \<open>LCD Test\<close> was taken, the
  controller is that of its microcontroller (ATmega32U4).

  The registers are those of \<^theory_text>\<open>UsbSerial\<close>. A \<open>platform\<close> is what is not part of the program:
  the controller, what happens between two rounds of a waiting loop (\<open>turn\<close>: interrupts and
  the host, any function of the state), the number of rounds waited before a loop is given up
  with the result None (\<open>patience\<close>), and the bytes of the chip's signature row.
\<close>

section \<open>State\<close>

datatype device_state =
    DEVICE_STATE_Unattached | DEVICE_STATE_Powered | DEVICE_STATE_Default
  | DEVICE_STATE_Addressed | DEVICE_STATE_Configured | DEVICE_STATE_Suspended

record line_encoding =
  BaudRateBPS :: u32
  CharFormat :: u8
  ParityType :: u8
  DataBits :: u8

record 'h lufa =
  USB_DeviceState :: device_state
  USB_ControlRequest :: usb_request
  USB_Device_ConfigurationNumber :: u8
  USB_Device_CurrentlySelfPowered :: bool
  USB_Device_RemoteWakeupEnabled :: bool
  USB_IsInitialized :: bool
  LineEncoding :: line_encoding
  HostToDevice :: u16
  DeviceToHost :: u16
  usbConnectionReset :: bool
  GlobalInt :: u8
  lhw :: 'h

record 'h platform =
  controller :: "'h usb_hw"
  turn :: "'h lufa \<Rightarrow> 'h lufa"
  patience :: nat
  boot_signature_byte_get :: "u8 \<Rightarrow> u8"

section \<open>Registers\<close>

definition reg_get :: "'h platform \<Rightarrow> reg \<Rightarrow> 'h lufa \<Rightarrow> u8 \<times> 'h lufa" where
  "reg_get P r s = (case reg_in (controller P) r (lhw s) of (v, h) \<Rightarrow> (v, s\<lparr>lhw := h\<rparr>))"

definition reg_put :: "'h platform \<Rightarrow> reg \<Rightarrow> u8 \<Rightarrow> 'h lufa \<Rightarrow> 'h lufa" where
  "reg_put P r v s = s\<lparr>lhw := reg_out (controller P) r v (lhw s)\<rparr>"

text \<open>\<open>reg |= m\<close>, \<open>reg &= ~m\<close> and a test of one bit.\<close>

definition set_bits :: "'h platform \<Rightarrow> reg \<Rightarrow> u8 \<Rightarrow> 'h lufa \<Rightarrow> 'h lufa" where
  "set_bits P r m s = (case reg_get P r s of (v, s) \<Rightarrow> reg_put P r (v OR m) s)"

definition clear_bits :: "'h platform \<Rightarrow> reg \<Rightarrow> u8 \<Rightarrow> 'h lufa \<Rightarrow> 'h lufa" where
  "clear_bits P r m s = (case reg_get P r s of (v, s) \<Rightarrow> reg_put P r (v AND NOT m) s)"

definition reg_bit :: "'h platform \<Rightarrow> reg \<Rightarrow> nat \<Rightarrow> 'h lufa \<Rightarrow> bool \<times> 'h lufa" where
  "reg_bit P r b s = (case reg_get P r s of (v, s) \<Rightarrow> (bit v b, s))"

abbreviation (input) "FIFOCON \<equiv> 7 :: nat"
abbreviation (input) "CFGOK \<equiv> 7 :: nat"
abbreviation (input) "EPDIR \<equiv> 0 :: nat"
abbreviation (input) "EPTYPE0 \<equiv> 6 :: nat"
abbreviation (input) "ALLOC \<equiv> 1 :: nat"
abbreviation (input) "EPSIZE0 \<equiv> 4 :: nat"
abbreviation (input) "ENDPOINT_CONTROLEP \<equiv> 0 :: u8"
abbreviation (input) "ENDPOINT_DIR_OUT \<equiv> 0x00 :: u8"
abbreviation (input) "ENDPOINT_DIR_IN \<equiv> 0x80 :: u8"
abbreviation (input) "ENDPOINT_BANK_SINGLE \<equiv> 0 :: u8"
abbreviation (input) "ENDPOINT_BANK_DOUBLE \<equiv> 0x04 :: u8"
abbreviation (input) "ENDPOINT_EPNUM_MASK \<equiv> 0x0F :: u8"
abbreviation (input) "ENDPOINT_TOTAL_ENDPOINTS \<equiv> 7 :: u8"

section \<open>Endpoints\<close>

text \<open>
  \<open>Endpoint_BytesToEPSizeMask\<close>: \<open>CheckBytes\<close> is doubled in 16 bits, so the loop has no end for
  more than 32768 bytes.
\<close>

partial_function (option) size_mask :: "u8 \<Rightarrow> u16 \<Rightarrow> u16 \<Rightarrow> u8 option" where
  "size_mask MaskVal CheckBytes Bytes =
     (if CheckBytes < Bytes then size_mask (MaskVal + 1) (push_bit 1 CheckBytes) Bytes
      else Some (push_bit EPSIZE0 MaskVal))"

definition Endpoint_BytesToEPSizeMask :: "u16 \<Rightarrow> u8 option" where
  "Endpoint_BytesToEPSizeMask Bytes = size_mask 0 8 Bytes"

definition Endpoint_SelectEndpoint :: "'h platform \<Rightarrow> u8 \<Rightarrow> 'h lufa \<Rightarrow> 'h lufa" where
  "Endpoint_SelectEndpoint P n = reg_put P UENUM n"

definition Endpoint_GetCurrentEndpoint :: "'h platform \<Rightarrow> 'h lufa \<Rightarrow> u8 \<times> 'h lufa" where
  "Endpoint_GetCurrentEndpoint P s =
     (case reg_get P UENUM s of (v, s) \<Rightarrow> (v AND ENDPOINT_EPNUM_MASK, s))"

definition Endpoint_BytesInEndpoint :: "'h platform \<Rightarrow> 'h lufa \<Rightarrow> u16 \<times> 'h lufa" where
  "Endpoint_BytesInEndpoint P s =
     (case reg_get P UEBCHX s of (h, s) \<Rightarrow> case reg_get P UEBCLX s of (l, s) \<Rightarrow>
        (push_bit 8 (ucast h) OR ucast l, s))"

definition Endpoint_ResetEndpoint :: "'h platform \<Rightarrow> u8 \<Rightarrow> 'h lufa \<Rightarrow> 'h lufa" where
  "Endpoint_ResetEndpoint P n s = reg_put P UERST 0 (reg_put P UERST (push_bit (unat n) 1) s)"

definition Endpoint_EnableEndpoint :: "'h platform \<Rightarrow> 'h lufa \<Rightarrow> 'h lufa" where
  "Endpoint_EnableEndpoint P = set_bits P UECONX (mask_bit EPEN)"

definition Endpoint_DisableEndpoint :: "'h platform \<Rightarrow> 'h lufa \<Rightarrow> 'h lufa" where
  "Endpoint_DisableEndpoint P = clear_bits P UECONX (mask_bit EPEN)"

definition Endpoint_IsEnabled :: "'h platform \<Rightarrow> 'h lufa \<Rightarrow> bool \<times> 'h lufa" where
  "Endpoint_IsEnabled P = reg_bit P UECONX EPEN"

definition Endpoint_IsReadWriteAllowed :: "'h platform \<Rightarrow> 'h lufa \<Rightarrow> bool \<times> 'h lufa" where
  "Endpoint_IsReadWriteAllowed P = reg_bit P UEINTX RWAL"

definition Endpoint_IsConfigured :: "'h platform \<Rightarrow> 'h lufa \<Rightarrow> bool \<times> 'h lufa" where
  "Endpoint_IsConfigured P = reg_bit P UESTA0X CFGOK"

definition Endpoint_IsINReady :: "'h platform \<Rightarrow> 'h lufa \<Rightarrow> bool \<times> 'h lufa" where
  "Endpoint_IsINReady P = reg_bit P UEINTX TXINI"

definition Endpoint_IsOUTReceived :: "'h platform \<Rightarrow> 'h lufa \<Rightarrow> bool \<times> 'h lufa" where
  "Endpoint_IsOUTReceived P = reg_bit P UEINTX RXOUTI"

definition Endpoint_IsSETUPReceived :: "'h platform \<Rightarrow> 'h lufa \<Rightarrow> bool \<times> 'h lufa" where
  "Endpoint_IsSETUPReceived P = reg_bit P UEINTX RXSTPI"

definition Endpoint_ClearSETUP :: "'h platform \<Rightarrow> 'h lufa \<Rightarrow> 'h lufa" where
  "Endpoint_ClearSETUP P = clear_bits P UEINTX (mask_bit RXSTPI)"

definition Endpoint_ClearIN :: "'h platform \<Rightarrow> 'h lufa \<Rightarrow> 'h lufa" where
  "Endpoint_ClearIN P = clear_bits P UEINTX (mask_bit TXINI OR mask_bit FIFOCON)"

definition Endpoint_ClearOUT :: "'h platform \<Rightarrow> 'h lufa \<Rightarrow> 'h lufa" where
  "Endpoint_ClearOUT P = clear_bits P UEINTX (mask_bit RXOUTI OR mask_bit FIFOCON)"

definition Endpoint_StallTransaction :: "'h platform \<Rightarrow> 'h lufa \<Rightarrow> 'h lufa" where
  "Endpoint_StallTransaction P = set_bits P UECONX (mask_bit STALLRQ)"

definition Endpoint_ClearStall :: "'h platform \<Rightarrow> 'h lufa \<Rightarrow> 'h lufa" where
  "Endpoint_ClearStall P = set_bits P UECONX (mask_bit STALLRQC)"

definition Endpoint_IsStalled :: "'h platform \<Rightarrow> 'h lufa \<Rightarrow> bool \<times> 'h lufa" where
  "Endpoint_IsStalled P = reg_bit P UECONX STALLRQ"

definition Endpoint_ResetDataToggle :: "'h platform \<Rightarrow> 'h lufa \<Rightarrow> 'h lufa" where
  "Endpoint_ResetDataToggle P = set_bits P UECONX (mask_bit RSTDT)"

definition Endpoint_GetEndpointDirection :: "'h platform \<Rightarrow> 'h lufa \<Rightarrow> u8 \<times> 'h lufa" where
  "Endpoint_GetEndpointDirection P s =
     (case reg_get P UECFG0X s of (v, s) \<Rightarrow> (if bit v EPDIR then ENDPOINT_DIR_IN else ENDPOINT_DIR_OUT, s))"

definition Endpoint_Read_8 :: "'h platform \<Rightarrow> 'h lufa \<Rightarrow> u8 \<times> 'h lufa" where
  "Endpoint_Read_8 P = reg_get P UEDATX"

definition Endpoint_Write_8 :: "'h platform \<Rightarrow> u8 \<Rightarrow> 'h lufa \<Rightarrow> 'h lufa" where
  "Endpoint_Write_8 P v = reg_put P UEDATX v"

definition Endpoint_Write_16_LE :: "'h platform \<Rightarrow> u16 \<Rightarrow> 'h lufa \<Rightarrow> 'h lufa" where
  "Endpoint_Write_16_LE P v s =
     reg_put P UEDATX (ucast (drop_bit 8 v)) (reg_put P UEDATX (ucast (v AND 0xFF)) s)"

definition Endpoint_Read_32_LE :: "'h platform \<Rightarrow> 'h lufa \<Rightarrow> u32 \<times> 'h lufa" where
  "Endpoint_Read_32_LE P s =
     (case reg_get P UEDATX s of (a, s) \<Rightarrow> case reg_get P UEDATX s of (b, s) \<Rightarrow>
      case reg_get P UEDATX s of (c, s) \<Rightarrow> case reg_get P UEDATX s of (d, s) \<Rightarrow>
        (ucast a OR push_bit 8 (ucast b) OR push_bit 16 (ucast c) OR push_bit 24 (ucast d), s))"

definition Endpoint_Write_32_LE :: "'h platform \<Rightarrow> u32 \<Rightarrow> 'h lufa \<Rightarrow> 'h lufa" where
  "Endpoint_Write_32_LE P v s =
     (let s = reg_put P UEDATX (ucast (v AND 0xFF)) s;
          s = reg_put P UEDATX (ucast (drop_bit 8 v)) s;
          s = reg_put P UEDATX (ucast (drop_bit 16 v)) s
      in reg_put P UEDATX (ucast (drop_bit 24 v)) s)"

text \<open>\<open>ORDERED_EP_CONFIG\<close> selects the first half of \<open>Endpoint_ConfigureEndpoint_Prv\<close>.\<close>

definition Endpoint_ConfigureEndpoint_Prv ::
    "'h platform \<Rightarrow> u8 \<Rightarrow> u8 \<Rightarrow> u8 \<Rightarrow> 'h lufa \<Rightarrow> bool \<times> 'h lufa"
where
  "Endpoint_ConfigureEndpoint_Prv P Number UECFG0XData UECFG1XData s =
     (let s = Endpoint_SelectEndpoint P Number s;
          s = Endpoint_EnableEndpoint P s;
          s = reg_put P UECFG1X 0 s;
          s = reg_put P UECFG0X UECFG0XData s;
          s = reg_put P UECFG1X UECFG1XData s
      in Endpoint_IsConfigured P s)"

definition Endpoint_ConfigureEndpoint ::
    "'h platform \<Rightarrow> u8 \<Rightarrow> u8 \<Rightarrow> u8 \<Rightarrow> u16 \<Rightarrow> u8 \<Rightarrow> 'h lufa \<Rightarrow> (bool \<times> 'h lufa) option"
where
  "Endpoint_ConfigureEndpoint P Number Type Direction Size Banks s =
     (case Endpoint_BytesToEPSizeMask Size of None \<Rightarrow> None
      | Some epsize \<Rightarrow>
          Some (Endpoint_ConfigureEndpoint_Prv P Number
            (push_bit EPTYPE0 Type OR (if Direction \<noteq> 0 then mask_bit EPDIR else 0))
            (mask_bit ALLOC OR Banks OR epsize) s))"

section \<open>Waiting\<close>

text \<open>
  \<open>while (!ready()) { if (leave) return; }\<close>: the result says whether the loop ended because
  \<open>ready\<close> held.
\<close>

fun wait_until ::
    "'h platform \<Rightarrow> ('h lufa \<Rightarrow> bool \<times> 'h lufa) \<Rightarrow> ('h lufa \<Rightarrow> bool) \<Rightarrow> nat \<Rightarrow> 'h lufa
      \<Rightarrow> (bool \<times> 'h lufa) option"
where
  "wait_until P ready leave n s =
     (case ready s of (ok, s) \<Rightarrow>
        if ok then Some (True, s)
        else if leave s then Some (False, s)
        else (case n of 0 \<Rightarrow> None | Suc n \<Rightarrow> wait_until P ready leave n (turn P s)))"

declare wait_until.simps [simp del]

definition spin :: "'h platform \<Rightarrow> ('h lufa \<Rightarrow> bool \<times> 'h lufa) \<Rightarrow> 'h lufa \<Rightarrow> 'h lufa option" where
  "spin P ready s = map_option snd (wait_until P ready (\<lambda>s. False) (patience P) s)"

definition Endpoint_ClearStatusStage :: "'h platform \<Rightarrow> 'h lufa \<Rightarrow> 'h lufa option" where
  "Endpoint_ClearStatusStage P s =
     (let unattached = (\<lambda>s. USB_DeviceState s = DEVICE_STATE_Unattached) in
      if bit (bmRequestType (USB_ControlRequest s)) 7 then
        (case wait_until P (Endpoint_IsOUTReceived P) unattached (patience P) s of None \<Rightarrow> None
         | Some (ok, s) \<Rightarrow> Some (if ok then Endpoint_ClearOUT P s else s))
      else
        (case wait_until P (Endpoint_IsINReady P) unattached (patience P) s of None \<Rightarrow> None
         | Some (ok, s) \<Rightarrow> Some (if ok then Endpoint_ClearIN P s else s)))"

abbreviation (input) "ENDPOINT_READYWAIT_NoError \<equiv> 0 :: u8"
abbreviation (input) "ENDPOINT_READYWAIT_EndpointStalled \<equiv> 1 :: u8"
abbreviation (input) "ENDPOINT_READYWAIT_DeviceDisconnected \<equiv> 2 :: u8"
abbreviation (input) "ENDPOINT_READYWAIT_BusSuspended \<equiv> 3 :: u8"
abbreviation (input) "ENDPOINT_READYWAIT_Timeout \<equiv> 4 :: u8"
abbreviation (input) "ENDPOINT_RWSTREAM_NoError \<equiv> 0 :: u8"
abbreviation (input) "ENDPOINT_RWSTREAM_DeviceDisconnected \<equiv> 2 :: u8"
abbreviation (input) "ENDPOINT_RWCSTREAM_NoError \<equiv> 0 :: u8"
abbreviation (input) "ENDPOINT_RWCSTREAM_HostAborted \<equiv> 1 :: u8"
abbreviation (input) "ENDPOINT_RWCSTREAM_DeviceDisconnected \<equiv> 2 :: u8"
abbreviation (input) "ENDPOINT_RWCSTREAM_BusSuspended \<equiv> 3 :: u8"

definition USB_STREAM_TIMEOUT_MS :: u8 where "USB_STREAM_TIMEOUT_MS = 100"

definition USB_Device_GetFrameNumber :: "'h platform \<Rightarrow> 'h lufa \<Rightarrow> u16 \<times> 'h lufa" where
  "USB_Device_GetFrameNumber P s =
     (case reg_get P UDFNUML s of (l, s) \<Rightarrow> case reg_get P UDFNUMH s of (h, s) \<Rightarrow>
        (ucast l OR push_bit 8 (ucast h), s))"

text \<open>One look at the endpoint and the device: an error code, or the loop goes on.\<close>

definition look_ready :: "'h platform \<Rightarrow> 'h lufa \<Rightarrow> u8 option \<times> 'h lufa" where
  "look_ready P s =
     (case Endpoint_GetEndpointDirection P s of (dir, s) \<Rightarrow>
      case (if dir = ENDPOINT_DIR_IN then Endpoint_IsINReady P s else Endpoint_IsOUTReceived P s) of (ok, s) \<Rightarrow>
        if ok then (Some ENDPOINT_READYWAIT_NoError, s)
        else if USB_DeviceState s = DEVICE_STATE_Unattached then
          (Some ENDPOINT_READYWAIT_DeviceDisconnected, s)
        else if USB_DeviceState s = DEVICE_STATE_Suspended then
          (Some ENDPOINT_READYWAIT_BusSuspended, s)
        else (case Endpoint_IsStalled P s of (stalled, s) \<Rightarrow>
          (if stalled then Some ENDPOINT_READYWAIT_EndpointStalled else None, s)))"

fun wait_ready :: "'h platform \<Rightarrow> nat \<Rightarrow> u8 \<Rightarrow> u16 \<Rightarrow> 'h lufa \<Rightarrow> (u8 \<times> 'h lufa) option" where
  "wait_ready P n TimeoutMSRem PreviousFrameNumber s =
     (case look_ready P s of
        (Some code, s) \<Rightarrow> Some (code, s)
      | (None, s) \<Rightarrow>
          (case USB_Device_GetFrameNumber P s of (CurrentFrameNumber, s) \<Rightarrow>
             if CurrentFrameNumber \<noteq> PreviousFrameNumber \<and> TimeoutMSRem = 0 then
               Some (ENDPOINT_READYWAIT_Timeout, s)
             else (case n of 0 \<Rightarrow> None | Suc n \<Rightarrow>
               wait_ready P n
                 (if CurrentFrameNumber \<noteq> PreviousFrameNumber then TimeoutMSRem - 1 else TimeoutMSRem)
                 CurrentFrameNumber (turn P s))))"

declare wait_ready.simps [simp del]

definition Endpoint_WaitUntilReady :: "'h platform \<Rightarrow> 'h lufa \<Rightarrow> (u8 \<times> 'h lufa) option" where
  "Endpoint_WaitUntilReady P s =
     (case USB_Device_GetFrameNumber P s of (f, s) \<Rightarrow>
        wait_ready P (patience P) USB_STREAM_TIMEOUT_MS f s)"

section \<open>Streams\<close>

text \<open>
  \<open>Template_Endpoint_RW.c\<close> as \<open>Endpoint_Write_Stream_LE\<close> with \<open>BytesProcessed\<close> NULL, the only
  use the class driver makes of it.
\<close>

fun write_stream :: "'h platform \<Rightarrow> nat \<Rightarrow> bytes \<Rightarrow> 'h lufa \<Rightarrow> (u8 \<times> 'h lufa) option" where
  "write_stream P n [] s = Some (ENDPOINT_RWSTREAM_NoError, s)"
| "write_stream P n (b # bs) s =
     (case Endpoint_IsReadWriteAllowed P s of (ok, s) \<Rightarrow>
        if ok then write_stream P (patience P) bs (Endpoint_Write_8 P b s)
        else (case Endpoint_WaitUntilReady P (Endpoint_ClearIN P s) of None \<Rightarrow> None
          | Some (e, s) \<Rightarrow>
              if e \<noteq> 0 then Some (e, s)
              else (case n of 0 \<Rightarrow> None | Suc n \<Rightarrow> write_stream P n (b # bs) s)))"

definition Endpoint_Write_Stream_LE :: "'h platform \<Rightarrow> bytes \<Rightarrow> 'h lufa \<Rightarrow> (u8 \<times> 'h lufa) option" where
  "Endpoint_Write_Stream_LE P Buffer s =
     (case Endpoint_WaitUntilReady P s of None \<Rightarrow> None
      | Some (e, s) \<Rightarrow> if e \<noteq> 0 then Some (e, s) else write_stream P (patience P) Buffer s)"

text \<open>
  \<open>Template_Endpoint_Control_W.c\<close>. The inner loop fills the bank up to the size of the control
  endpoint; the outer loop has one \<open>turn\<close> per round. Its result is a code that ends the
  function, or that the loop has ended and the status stage is waited for.
\<close>

definition FIXED_CONTROL_ENDPOINT_SIZE :: u8 where "FIXED_CONTROL_ENDPOINT_SIZE = 8"

fun fill_bank :: "'h platform \<Rightarrow> bytes \<Rightarrow> u16 \<Rightarrow> 'h lufa \<Rightarrow> bytes \<times> u16 \<times> 'h lufa" where
  "fill_bank P [] n s = ([], n, s)"
| "fill_bank P (b # bs) n s =
     (if n < ucast FIXED_CONTROL_ENDPOINT_SIZE then fill_bank P bs (n + 1) (Endpoint_Write_8 P b s)
      else (b # bs, n, s))"

fun control_packets ::
    "'h platform \<Rightarrow> nat \<Rightarrow> bytes \<Rightarrow> bool \<Rightarrow> 'h lufa \<Rightarrow> (u8 option \<times> 'h lufa) option"
where
  "control_packets P n bs LastPacketFull s =
     (if bs = [] \<and> \<not> LastPacketFull then Some (None, s)
      else if USB_DeviceState s = DEVICE_STATE_Unattached then
        Some (Some ENDPOINT_RWCSTREAM_DeviceDisconnected, s)
      else if USB_DeviceState s = DEVICE_STATE_Suspended then
        Some (Some ENDPOINT_RWCSTREAM_BusSuspended, s)
      else (case Endpoint_IsSETUPReceived P s of (setup_packet, s) \<Rightarrow>
        if setup_packet then Some (Some ENDPOINT_RWCSTREAM_HostAborted, s)
        else (case Endpoint_IsOUTReceived P s of (out_packet, s) \<Rightarrow>
          if out_packet then Some (None, s)
          else (case Endpoint_IsINReady P s of (ready, s) \<Rightarrow>
            case (if ready then
                    (case Endpoint_BytesInEndpoint P s of (k, s) \<Rightarrow>
                     case fill_bank P bs k s of (bs, k, s) \<Rightarrow>
                       (bs, k = ucast FIXED_CONTROL_ENDPOINT_SIZE, Endpoint_ClearIN P s))
                  else (bs, LastPacketFull, s)) of (bs, LastPacketFull, s) \<Rightarrow>
            (case n of 0 \<Rightarrow> None
             | Suc n \<Rightarrow> control_packets P n bs LastPacketFull (turn P s))))))"

declare control_packets.simps [simp del]

definition control_status :: "'h platform \<Rightarrow> 'h lufa \<Rightarrow> (u8 \<times> 'h lufa) option" where
  "control_status P s =
     (case wait_until P (Endpoint_IsOUTReceived P)
             (\<lambda>s. USB_DeviceState s \<in> {DEVICE_STATE_Unattached, DEVICE_STATE_Suspended})
             (patience P) s of
        None \<Rightarrow> None
      | Some (ok, s) \<Rightarrow>
          Some (if ok then ENDPOINT_RWCSTREAM_NoError
                else if USB_DeviceState s = DEVICE_STATE_Unattached
                then ENDPOINT_RWCSTREAM_DeviceDisconnected else ENDPOINT_RWCSTREAM_BusSuspended, s))"

text \<open>
  \<open>Buffer\<close> is the object the pointer points to, of which \<open>Length\<close> bytes are sent.
\<close>

definition Endpoint_Write_Control_PStream_LE ::
    "'h platform \<Rightarrow> bytes \<Rightarrow> u16 \<Rightarrow> 'h lufa \<Rightarrow> (u8 \<times> 'h lufa) option"
where
  "Endpoint_Write_Control_PStream_LE P Buffer Length s =
     (case (if Length > wLength (USB_ControlRequest s) then (wLength (USB_ControlRequest s), s)
            else if Length = 0 then (Length, Endpoint_ClearIN P s)
            else (Length, s)) of (Length, s) \<Rightarrow>
      case control_packets P (patience P) (take (unat Length) Buffer) False s of
        None \<Rightarrow> None
      | Some (Some code, s) \<Rightarrow> Some (code, s)
      | Some (None, s) \<Rightarrow> control_status P s)"

end
