(* ===== verification/LufaDescriptors.thy ===== *)
theory LufaDescriptors
  imports LufaEndpoint UsbLemmas
begin

text \<open>
  \<open>LCD Test/Descriptors.c\<close> and \<open>Descriptors.h\<close>: the descriptors of the serial link over the
  LUFA library and the callback that finds them. A packed structure is the list of its bytes,
  built by one function per structure of \<open>StdDescriptors.h\<close> and \<open>CDCClassCommon.h\<close>.
\<close>

section \<open>Structures\<close>

definition word_le :: "u16 \<Rightarrow> bytes" where
  "word_le w = [lo8 w, hi8 w]"

text \<open>\<open>VERSION_BCD\<close> of a version given in hundredths.\<close>

definition VERSION_BCD :: "nat \<Rightarrow> u16" where
  "VERSION_BCD n =
     of_nat (n div 1000 mod 10 * 4096 + n div 100 mod 10 * 256 + n div 10 mod 10 * 16 + n mod 10)"

abbreviation (input) "DTYPE_Device \<equiv> 0x01 :: u8"
abbreviation (input) "DTYPE_Configuration \<equiv> 0x02 :: u8"
abbreviation (input) "DTYPE_String \<equiv> 0x03 :: u8"
abbreviation (input) "DTYPE_Interface \<equiv> 0x04 :: u8"
abbreviation (input) "DTYPE_Endpoint \<equiv> 0x05 :: u8"
abbreviation (input) "DTYPE_CSInterface \<equiv> 0x24 :: u8"
abbreviation (input) "CDC_CSCP_CDCClass \<equiv> 0x02 :: u8"
abbreviation (input) "CDC_CSCP_NoSpecificSubclass \<equiv> 0x00 :: u8"
abbreviation (input) "CDC_CSCP_ACMSubclass \<equiv> 0x02 :: u8"
abbreviation (input) "CDC_CSCP_ATCommandProtocol \<equiv> 0x01 :: u8"
abbreviation (input) "CDC_CSCP_NoSpecificProtocol \<equiv> 0x00 :: u8"
abbreviation (input) "CDC_CSCP_CDCDataClass \<equiv> 0x0A :: u8"
abbreviation (input) "CDC_CSCP_NoDataSubclass \<equiv> 0x00 :: u8"
abbreviation (input) "CDC_CSCP_NoDataProtocol \<equiv> 0x00 :: u8"
abbreviation (input) "CDC_DSUBTYPE_CSInterface_Header \<equiv> 0x00 :: u8"
abbreviation (input) "CDC_DSUBTYPE_CSInterface_ACM \<equiv> 0x02 :: u8"
abbreviation (input) "CDC_DSUBTYPE_CSInterface_Union \<equiv> 0x06 :: u8"
abbreviation (input) "NO_DESCRIPTOR \<equiv> 0 :: u8"
abbreviation (input) "EP_TYPE_BULK \<equiv> 0x02 :: u8"
abbreviation (input) "EP_TYPE_INTERRUPT \<equiv> 0x03 :: u8"
abbreviation (input) "ENDPOINT_ATTR_NO_SYNC \<equiv> 0x00 :: u8"
abbreviation (input) "ENDPOINT_USAGE_DATA \<equiv> 0x00 :: u8"
abbreviation (input) "USB_CONFIG_ATTR_RESERVED \<equiv> 0x80 :: u8"
abbreviation (input) "USB_CONFIG_ATTR_SELFPOWERED \<equiv> 0x40 :: u8"

definition USB_Descriptor_Configuration_Header ::
    "u16 \<Rightarrow> u8 \<Rightarrow> u8 \<Rightarrow> u8 \<Rightarrow> u8 \<Rightarrow> u8 \<Rightarrow> bytes"
where
  "USB_Descriptor_Configuration_Header TotalConfigurationSize TotalInterfaces ConfigurationNumber
     ConfigurationStrIndex ConfigAttributes MaxPowerConsumption =
     [9, DTYPE_Configuration] @ word_le TotalConfigurationSize @
     [TotalInterfaces, ConfigurationNumber, ConfigurationStrIndex, ConfigAttributes, MaxPowerConsumption]"

definition USB_Descriptor_Interface :: "u8 \<Rightarrow> u8 \<Rightarrow> u8 \<Rightarrow> u8 \<Rightarrow> u8 \<Rightarrow> u8 \<Rightarrow> u8 \<Rightarrow> bytes" where
  "USB_Descriptor_Interface InterfaceNumber AlternateSetting TotalEndpoints Class SubClass Protocol
     InterfaceStrIndex =
     [9, DTYPE_Interface, InterfaceNumber, AlternateSetting, TotalEndpoints, Class, SubClass, Protocol,
      InterfaceStrIndex]"

definition USB_Descriptor_Endpoint :: "u8 \<Rightarrow> u8 \<Rightarrow> u16 \<Rightarrow> u8 \<Rightarrow> bytes" where
  "USB_Descriptor_Endpoint EndpointAddress Attributes EndpointSize PollingIntervalMS =
     [7, DTYPE_Endpoint, EndpointAddress, Attributes] @ word_le EndpointSize @ [PollingIntervalMS]"

definition USB_CDC_Descriptor_FunctionalHeader :: "u8 \<Rightarrow> u16 \<Rightarrow> bytes" where
  "USB_CDC_Descriptor_FunctionalHeader Subtype CDCSpecification =
     [5, DTYPE_CSInterface, Subtype] @ word_le CDCSpecification"

definition USB_CDC_Descriptor_FunctionalACM :: "u8 \<Rightarrow> u8 \<Rightarrow> bytes" where
  "USB_CDC_Descriptor_FunctionalACM Subtype Capabilities = [4, DTYPE_CSInterface, Subtype, Capabilities]"

definition USB_CDC_Descriptor_FunctionalUnion :: "u8 \<Rightarrow> u8 \<Rightarrow> u8 \<Rightarrow> bytes" where
  "USB_CDC_Descriptor_FunctionalUnion Subtype MasterInterfaceNumber SlaveInterfaceNumber =
     [5, DTYPE_CSInterface, Subtype, MasterInterfaceNumber, SlaveInterfaceNumber]"

section \<open>The descriptors\<close>

definition CDC_NOTIFICATION_EPNUM :: u8 where "CDC_NOTIFICATION_EPNUM = 2"
definition CDC_TX_EPNUM :: u8 where "CDC_TX_EPNUM = 3"
definition CDC_RX_EPNUM :: u8 where "CDC_RX_EPNUM = 4"
definition CDC_NOTIFICATION_EPSIZE :: u16 where "CDC_NOTIFICATION_EPSIZE = 8"
definition CDC_TXRX_EPSIZE :: u16 where "CDC_TXRX_EPSIZE = 16"
definition FIXED_NUM_CONFIGURATIONS :: u8 where "FIXED_NUM_CONFIGURATIONS = 1"
definition USE_INTERNAL_SERIAL :: u8 where "USE_INTERNAL_SERIAL = 0xDC"

definition DeviceDescriptor :: bytes where
  "DeviceDescriptor =
     [18, DTYPE_Device] @ word_le (VERSION_BCD 110) @
     [CDC_CSCP_CDCClass, CDC_CSCP_NoSpecificSubclass, CDC_CSCP_NoSpecificProtocol,
      FIXED_CONTROL_ENDPOINT_SIZE] @
     word_le 0x03EB @ word_le 0x204B @ word_le (VERSION_BCD 1) @
     [0x01, 0x02, USE_INTERNAL_SERIAL, FIXED_NUM_CONFIGURATIONS]"

definition ConfigurationDescriptor_parts :: "u16 \<Rightarrow> bytes list" where
  "ConfigurationDescriptor_parts TotalConfigurationSize =
    [USB_Descriptor_Configuration_Header TotalConfigurationSize 2 1 NO_DESCRIPTOR
       (USB_CONFIG_ATTR_RESERVED OR USB_CONFIG_ATTR_SELFPOWERED) (drop_bit 1 100),
     USB_Descriptor_Interface 0 0 1 CDC_CSCP_CDCClass CDC_CSCP_ACMSubclass CDC_CSCP_ATCommandProtocol
       NO_DESCRIPTOR,
     USB_CDC_Descriptor_FunctionalHeader CDC_DSUBTYPE_CSInterface_Header (VERSION_BCD 110),
     USB_CDC_Descriptor_FunctionalACM CDC_DSUBTYPE_CSInterface_ACM 0x06,
     USB_CDC_Descriptor_FunctionalUnion CDC_DSUBTYPE_CSInterface_Union 0 1,
     USB_Descriptor_Endpoint (ENDPOINT_DIR_IN OR CDC_NOTIFICATION_EPNUM)
       (EP_TYPE_INTERRUPT OR ENDPOINT_ATTR_NO_SYNC OR ENDPOINT_USAGE_DATA) CDC_NOTIFICATION_EPSIZE 0xFF,
     USB_Descriptor_Interface 1 0 2 CDC_CSCP_CDCDataClass CDC_CSCP_NoDataSubclass
       CDC_CSCP_NoDataProtocol NO_DESCRIPTOR,
     USB_Descriptor_Endpoint (ENDPOINT_DIR_OUT OR CDC_RX_EPNUM)
       (EP_TYPE_BULK OR ENDPOINT_ATTR_NO_SYNC OR ENDPOINT_USAGE_DATA) CDC_TXRX_EPSIZE 0x01,
     USB_Descriptor_Endpoint (ENDPOINT_DIR_IN OR CDC_TX_EPNUM)
       (EP_TYPE_BULK OR ENDPOINT_ATTR_NO_SYNC OR ENDPOINT_USAGE_DATA) CDC_TXRX_EPSIZE 0x01]"

text \<open>\<open>sizeof\<close> of the structure does not depend on what it holds.\<close>

definition sizeof_Configuration :: nat where
  "sizeof_Configuration = length (concat (ConfigurationDescriptor_parts 0))"

definition ConfigurationDescriptor :: bytes where
  "ConfigurationDescriptor = concat (ConfigurationDescriptor_parts (of_nat sizeof_Configuration))"

text \<open>A string descriptor: the length it announces and the characters of its wide literal.\<close>

definition USB_STRING_LEN :: "nat \<Rightarrow> u8" where
  "USB_STRING_LEN UnicodeChars = 2 + of_nat (2 * UnicodeChars)"

definition LanguageString :: bytes where
  "LanguageString = [USB_STRING_LEN 1, DTYPE_String] @ word_le 0x0409"

definition ManufacturerString :: bytes where
  "ManufacturerString = [USB_STRING_LEN 11, DTYPE_String] @ wide ''Dean Camera''"

definition ProductString :: bytes where
  "ProductString = [USB_STRING_LEN 23, DTYPE_String] @ wide ''LUFA USB-RS232 Adapter''"

text \<open>The descriptor (None is the null pointer) and the size to send; \<open>wIndex\<close> is not used. The arguments are \<open>v\<close> (\<open>wValue\<close>) and \<open>i\<close> (\<open>wIndex\<close>).\<close>

definition CALLBACK_USB_GetDescriptor :: "u16 \<Rightarrow> u8 \<Rightarrow> bytes option \<times> u16" where
  "CALLBACK_USB_GetDescriptor v i =
     (let DescriptorType = ucast (drop_bit 8 v) :: u8;
          DescriptorNumber = ucast (v AND 0xFF) :: u8 in
      if DescriptorType = DTYPE_Device then (Some DeviceDescriptor, of_nat (length DeviceDescriptor))
      else if DescriptorType = DTYPE_Configuration then
        (Some ConfigurationDescriptor, of_nat sizeof_Configuration)
      else if DescriptorType = DTYPE_String then
        (if DescriptorNumber = 0x00 then (Some LanguageString, ucast (hd LanguageString))
         else if DescriptorNumber = 0x01 then (Some ManufacturerString, ucast (hd ManufacturerString))
         else if DescriptorNumber = 0x02 then (Some ProductString, ucast (hd ProductString))
         else (None, ucast NO_DESCRIPTOR))
      else (None, ucast NO_DESCRIPTOR))"

section \<open>Facts\<close>

lemmas struct_defs =
  USB_Descriptor_Configuration_Header_def USB_Descriptor_Interface_def USB_Descriptor_Endpoint_def
  USB_CDC_Descriptor_FunctionalHeader_def USB_CDC_Descriptor_FunctionalACM_def
  USB_CDC_Descriptor_FunctionalUnion_def word_le_def VERSION_BCD_def CDC_NOTIFICATION_EPNUM_def
  CDC_TX_EPNUM_def CDC_RX_EPNUM_def CDC_NOTIFICATION_EPSIZE_def CDC_TXRX_EPSIZE_def

lemma sizeof_Configuration [simp]: "sizeof_Configuration = 62"
  by (simp add: sizeof_Configuration_def ConfigurationDescriptor_parts_def struct_defs)

lemma length_ConfigurationDescriptor: "length ConfigurationDescriptor = 62"
  by (simp add: ConfigurationDescriptor_def ConfigurationDescriptor_parts_def struct_defs)

lemma length_DeviceDescriptor: "length DeviceDescriptor = 18"
  by (simp add: DeviceDescriptor_def word_le_def)

lemma string_sizes:
  "length LanguageString = 4" "unat (hd LanguageString) = 4"
  "length ManufacturerString = 26" "unat (hd ManufacturerString) = 24"
  "length ProductString = 48" "unat (hd ProductString) = 48"
  by (simp_all add: LanguageString_def ManufacturerString_def ProductString_def length_wide
      USB_STRING_LEN_def word_le_def)

text \<open>The size never reaches behind the object, and it is 0 exactly without an object.\<close>

lemma callback_object:
  assumes "CALLBACK_USB_GetDescriptor v i = (a, n)"
  shows "(case a of None \<Rightarrow> n = 0 | Some obj \<Rightarrow> n \<noteq> 0 \<and> unat n \<le> length obj)"
  using assms string_sizes length_DeviceDescriptor length_ConfigurationDescriptor
  by (auto simp: CALLBACK_USB_GetDescriptor_def Let_def word_unat_eq_iff split: if_splits)

end
