(* ===== verification/LufaDevice.thy ===== *)
theory LufaDevice
  imports LufaDescriptors
begin

text \<open>
  The control endpoint of the serial link over the LUFA library: the class requests of
  \<open>Class/Device/CDCClassDevice.c\<close>, the event handlers of \<open>LCD Test/VncServerComms.c\<close>, the
  standard requests of \<open>Core/DeviceStandardReq.c\<close>, and the tasks and interrupts that serve
  them (\<open>USBTask.c\<close>, \<open>USBInterrupt_AVR8.c\<close>). A function whose waits do not end is None.
\<close>

section \<open>The interface\<close>

record cdc_config =
  ControlInterfaceNumber :: u8
  DataINEndpointNumber :: u8
  DataINEndpointSize :: u16
  DataINEndpointDoubleBank :: bool
  DataOUTEndpointNumber :: u8
  DataOUTEndpointSize :: u16
  DataOUTEndpointDoubleBank :: bool
  NotificationEndpointNumber :: u8
  NotificationEndpointSize :: u16
  NotificationEndpointDoubleBank :: bool

definition VirtualSerial_CDC_Interface :: cdc_config where
  "VirtualSerial_CDC_Interface =
    \<lparr>ControlInterfaceNumber = 0,
     DataINEndpointNumber = CDC_TX_EPNUM, DataINEndpointSize = CDC_TXRX_EPSIZE,
     DataINEndpointDoubleBank = False,
     DataOUTEndpointNumber = CDC_RX_EPNUM, DataOUTEndpointSize = CDC_TXRX_EPSIZE,
     DataOUTEndpointDoubleBank = False,
     NotificationEndpointNumber = CDC_NOTIFICATION_EPNUM,
     NotificationEndpointSize = CDC_NOTIFICATION_EPSIZE, NotificationEndpointDoubleBank = False\<rparr>"

abbreviation (input) "REQDIR_HOSTTODEVICE \<equiv> 0x00 :: u8"
abbreviation (input) "REQDIR_DEVICETOHOST \<equiv> 0x80 :: u8"
abbreviation (input) "REQTYPE_STANDARD \<equiv> 0x00 :: u8"
abbreviation (input) "REQTYPE_CLASS \<equiv> 0x20 :: u8"
abbreviation (input) "REQREC_DEVICE \<equiv> 0x00 :: u8"
abbreviation (input) "REQREC_INTERFACE \<equiv> 0x01 :: u8"
abbreviation (input) "REQREC_ENDPOINT \<equiv> 0x02 :: u8"
abbreviation (input) "CONTROL_REQTYPE_RECIPIENT \<equiv> 0x1F :: u8"
abbreviation (input) "CDC_REQ_SetLineEncoding \<equiv> 0x20 :: u8"
abbreviation (input) "CDC_REQ_GetLineEncoding \<equiv> 0x21 :: u8"
abbreviation (input) "CDC_REQ_SetControlLineState \<equiv> 0x22 :: u8"
abbreviation (input) "CDC_REQ_SendBreak \<equiv> 0x23 :: u8"

section \<open>Class requests\<close>

definition cdc_get_line_encoding :: "'h platform \<Rightarrow> 'h lufa \<Rightarrow> 'h lufa option" where
  "cdc_get_line_encoding P s = do {
     s \<leftarrow> spin P (Endpoint_IsINReady P) (Endpoint_ClearSETUP P s);
     let s = Endpoint_Write_32_LE P (BaudRateBPS (LineEncoding s)) s;
     let s = Endpoint_Write_8 P (CharFormat (LineEncoding s)) s;
     let s = Endpoint_Write_8 P (ParityType (LineEncoding s)) s;
     let s = Endpoint_Write_8 P (DataBits (LineEncoding s)) s;
     Endpoint_ClearStatusStage P (Endpoint_ClearIN P s) }"

definition cdc_set_line_encoding :: "'h platform \<Rightarrow> 'h lufa \<Rightarrow> 'h lufa option" where
  "cdc_set_line_encoding P s = do {
     s \<leftarrow> spin P (Endpoint_IsOUTReceived P) (Endpoint_ClearSETUP P s);
     let (v, s) = Endpoint_Read_32_LE P s;
     let s = s\<lparr>LineEncoding := (LineEncoding s)\<lparr>BaudRateBPS := v\<rparr>\<rparr>;
     let (b, s) = Endpoint_Read_8 P s;
     let s = s\<lparr>LineEncoding := (LineEncoding s)\<lparr>CharFormat := b\<rparr>\<rparr>;
     let (b, s) = Endpoint_Read_8 P s;
     let s = s\<lparr>LineEncoding := (LineEncoding s)\<lparr>ParityType := b\<rparr>\<rparr>;
     let (b, s) = Endpoint_Read_8 P s;
     let s = s\<lparr>LineEncoding := (LineEncoding s)\<lparr>DataBits := b\<rparr>\<rparr>;
     Endpoint_ClearStatusStage P (Endpoint_ClearOUT P s) }"

definition EVENT_CDC_Device_ControLineStateChanged :: "'h lufa \<Rightarrow> 'h lufa" where
  "EVENT_CDC_Device_ControLineStateChanged s = s\<lparr>usbConnectionReset := True\<rparr>"

definition cdc_set_control_line_state :: "'h platform \<Rightarrow> 'h lufa \<Rightarrow> 'h lufa option" where
  "cdc_set_control_line_state P s = do {
     s \<leftarrow> Endpoint_ClearStatusStage P (Endpoint_ClearSETUP P s);
     let s = s\<lparr>HostToDevice := wValue (USB_ControlRequest s)\<rparr>;
     Some (EVENT_CDC_Device_ControLineStateChanged s) }"

text \<open>The other two events of the class have empty handlers.\<close>

definition CDC_Device_ProcessControlRequest :: "'h platform \<Rightarrow> cdc_config \<Rightarrow> 'h lufa \<Rightarrow> 'h lufa option" where
  "CDC_Device_ProcessControlRequest P C s =
     (case Endpoint_IsSETUPReceived P s of (received, s) \<Rightarrow>
      let r = USB_ControlRequest s;
          to_host = REQDIR_DEVICETOHOST OR REQTYPE_CLASS OR REQREC_INTERFACE;
          to_device = REQDIR_HOSTTODEVICE OR REQTYPE_CLASS OR REQREC_INTERFACE in
      if \<not> received then Some s
      else if wIndex r \<noteq> ucast (ControlInterfaceNumber C) then Some s
      else if bRequest r = CDC_REQ_GetLineEncoding then
        (if bmRequestType r = to_host then cdc_get_line_encoding P s else Some s)
      else if bRequest r = CDC_REQ_SetLineEncoding then
        (if bmRequestType r = to_device then cdc_set_line_encoding P s else Some s)
      else if bRequest r = CDC_REQ_SetControlLineState then
        (if bmRequestType r = to_device then cdc_set_control_line_state P s else Some s)
      else if bRequest r = CDC_REQ_SendBreak then
        (if bmRequestType r = to_device then Endpoint_ClearStatusStage P (Endpoint_ClearSETUP P s)
         else Some s)
      else Some s)"

definition cdc_endpoint :: "cdc_config \<Rightarrow> u8 \<Rightarrow> (u8 \<times> u8 \<times> u16 \<times> bool) option" where
  "cdc_endpoint C EndpointNum =
     (if EndpointNum = DataINEndpointNumber C then
        Some (EP_TYPE_BULK, ENDPOINT_DIR_IN, DataINEndpointSize C, DataINEndpointDoubleBank C)
      else if EndpointNum = DataOUTEndpointNumber C then
        Some (EP_TYPE_BULK, ENDPOINT_DIR_OUT, DataOUTEndpointSize C, DataOUTEndpointDoubleBank C)
      else if EndpointNum = NotificationEndpointNumber C then
        Some (EP_TYPE_INTERRUPT, ENDPOINT_DIR_IN, NotificationEndpointSize C,
              NotificationEndpointDoubleBank C)
      else None)"

fun configure_from :: "'h platform \<Rightarrow> cdc_config \<Rightarrow> nat \<Rightarrow> u8 \<Rightarrow> 'h lufa \<Rightarrow> (bool \<times> 'h lufa) option" where
  "configure_from P C 0 EndpointNum s = Some (True, s)"
| "configure_from P C (Suc n) EndpointNum s =
     (case cdc_endpoint C EndpointNum of
        None \<Rightarrow> configure_from P C n (EndpointNum + 1) s
      | Some (Type, Direction, Size, DoubleBanked) \<Rightarrow> do {
          (ok, s) \<leftarrow> Endpoint_ConfigureEndpoint P EndpointNum Type Direction Size
            (if DoubleBanked then ENDPOINT_BANK_DOUBLE else ENDPOINT_BANK_SINGLE) s;
          (if ok then configure_from P C n (EndpointNum + 1) s else Some (False, s)) })"

text \<open>\<open>memset\<close> of the state and the loop over the endpoints from 1.\<close>

definition CDC_Device_ConfigureEndpoints :: "'h platform \<Rightarrow> cdc_config \<Rightarrow> 'h lufa \<Rightarrow> (bool \<times> 'h lufa) option"
where
  "CDC_Device_ConfigureEndpoints P C s =
     configure_from P C (unat (ENDPOINT_TOTAL_ENDPOINTS - 1)) 1
       (s\<lparr>LineEncoding := \<lparr>BaudRateBPS = 0, CharFormat = 0, ParityType = 0, DataBits = 0\<rparr>,
          HostToDevice := 0, DeviceToHost := 0\<rparr>)"

section \<open>Event handlers of the program\<close>

definition EVENT_USB_Device_ConfigurationChanged :: "'h platform \<Rightarrow> 'h lufa \<Rightarrow> 'h lufa option" where
  "EVENT_USB_Device_ConfigurationChanged P s =
     map_option snd (CDC_Device_ConfigureEndpoints P VirtualSerial_CDC_Interface s)"

definition EVENT_USB_Device_ControlRequest :: "'h platform \<Rightarrow> 'h lufa \<Rightarrow> 'h lufa option" where
  "EVENT_USB_Device_ControlRequest P s =
     CDC_Device_ProcessControlRequest P VirtualSerial_CDC_Interface s"

section \<open>Standard requests\<close>

abbreviation (input) "REQ_GetStatus \<equiv> 0 :: u8"
abbreviation (input) "REQ_ClearFeature \<equiv> 1 :: u8"
abbreviation (input) "REQ_SetFeature \<equiv> 3 :: u8"
abbreviation (input) "REQ_SetAddress \<equiv> 5 :: u8"
abbreviation (input) "REQ_GetDescriptor \<equiv> 6 :: u8"
abbreviation (input) "REQ_GetConfiguration \<equiv> 8 :: u8"
abbreviation (input) "REQ_SetConfiguration \<equiv> 9 :: u8"
abbreviation (input) "FEATURE_SEL_EndpointHalt \<equiv> 0x00 :: u8"
abbreviation (input) "FEATURE_SEL_DeviceRemoteWakeup \<equiv> 0x01 :: u8"

definition USB_Device_SetDeviceAddress :: "'h platform \<Rightarrow> u8 \<Rightarrow> 'h lufa \<Rightarrow> 'h lufa" where
  "USB_Device_SetDeviceAddress P Address s =
     (case reg_get P UDADDR s of (v, s) \<Rightarrow>
      let Temp = (v AND mask_bit ADDEN) OR (Address AND 0x7F);
          s = reg_put P UDADDR Temp s
      in reg_put P UDADDR (Temp OR mask_bit ADDEN) s)"

definition USB_Device_IsAddressSet :: "'h platform \<Rightarrow> 'h lufa \<Rightarrow> bool \<times> 'h lufa" where
  "USB_Device_IsAddressSet P = reg_bit P UDADDR ADDEN"

definition USB_Device_SetAddress :: "'h platform \<Rightarrow> 'h lufa \<Rightarrow> 'h lufa option" where
  "USB_Device_SetAddress P s = do {
     let DeviceAddress = (ucast (wValue (USB_ControlRequest s) AND 0x7F) :: u8);
     let CurrentGlobalInt = GlobalInt s;
     let s = s\<lparr>GlobalInt := GlobalInt s AND NOT (mask_bit 7)\<rparr>;
     s \<leftarrow> Endpoint_ClearStatusStage P (Endpoint_ClearSETUP P s);
     s \<leftarrow> spin P (Endpoint_IsINReady P) s;
     let s = USB_Device_SetDeviceAddress P DeviceAddress s;
     let s = s\<lparr>USB_DeviceState :=
       (if DeviceAddress \<noteq> 0 then DEVICE_STATE_Addressed else DEVICE_STATE_Default)\<rparr>;
     Some (s\<lparr>GlobalInt := CurrentGlobalInt\<rparr>) }"

text \<open>The state after the configuration changed or the device woke up.\<close>

definition configured_state :: "'h platform \<Rightarrow> 'h lufa \<Rightarrow> 'h lufa" where
  "configured_state P s =
     (if USB_Device_ConfigurationNumber s \<noteq> 0 then s\<lparr>USB_DeviceState := DEVICE_STATE_Configured\<rparr>
      else (case USB_Device_IsAddressSet P s of (set_, s) \<Rightarrow>
        s\<lparr>USB_DeviceState := (if set_ then DEVICE_STATE_Configured else DEVICE_STATE_Powered)\<rparr>))"

definition USB_Device_SetConfiguration :: "'h platform \<Rightarrow> 'h lufa \<Rightarrow> 'h lufa option" where
  "USB_Device_SetConfiguration P s =
     (if ucast (wValue (USB_ControlRequest s)) > FIXED_NUM_CONFIGURATIONS then Some s
      else do {
        let s = Endpoint_ClearSETUP P s;
        let s = s\<lparr>USB_Device_ConfigurationNumber := ucast (wValue (USB_ControlRequest s))\<rparr>;
        s \<leftarrow> Endpoint_ClearStatusStage P s;
        EVENT_USB_Device_ConfigurationChanged P (configured_state P s) })"

definition USB_Device_GetConfiguration :: "'h platform \<Rightarrow> 'h lufa \<Rightarrow> 'h lufa option" where
  "USB_Device_GetConfiguration P s =
     (let s = Endpoint_ClearSETUP P s;
          s = Endpoint_Write_8 P (USB_Device_ConfigurationNumber s) s
      in Endpoint_ClearStatusStage P (Endpoint_ClearIN P s))"

text \<open>
  \<open>USB_Device_GetSerialString\<close>: two characters per byte of the signature row, the low nibble
  first. The loop variable counts up to \<open>INTERNAL_SERIAL_LENGTH_BITS / 4\<close>, which is 20.
\<close>

definition serial_char :: "u8 \<Rightarrow> u16" where
  "serial_char SerialByte =
     (if SerialByte \<ge> 10 then ucast (char8 CHR ''A'') - 10 + ucast SerialByte
      else ucast (char8 CHR ''0'') + ucast SerialByte)"

fun serial_chars :: "(u8 \<Rightarrow> u8) \<Rightarrow> nat \<Rightarrow> u8 \<Rightarrow> u8 \<Rightarrow> u16 list" where
  "serial_chars sig 0 SerialCharNum SigReadAddress = []"
| "serial_chars sig (Suc n) SerialCharNum SigReadAddress =
     (let SerialByte = sig SigReadAddress;
          odd_char = (SerialCharNum AND 1 \<noteq> 0);
          SerialByte = (if odd_char then drop_bit 4 SerialByte else SerialByte)
      in serial_char (SerialByte AND 0x0F) #
         serial_chars sig n (SerialCharNum + 1)
           (if odd_char then SigReadAddress + 1 else SigReadAddress))"

definition SignatureDescriptor :: "'h platform \<Rightarrow> bytes" where
  "SignatureDescriptor P =
     [USB_STRING_LEN 20, DTYPE_String] @
     concat (map word_le (serial_chars (boot_signature_byte_get P) 20 0 0x0E))"

definition USB_Device_GetInternalSerialDescriptor :: "'h platform \<Rightarrow> 'h lufa \<Rightarrow> 'h lufa option" where
  "USB_Device_GetInternalSerialDescriptor P s = do {
     (e, s) \<leftarrow> Endpoint_Write_Control_PStream_LE P (SignatureDescriptor P)
       (of_nat (length (SignatureDescriptor P))) (Endpoint_ClearSETUP P s);
     Some (Endpoint_ClearOUT P s) }"

definition USB_Device_GetDescriptor :: "'h platform \<Rightarrow> 'h lufa \<Rightarrow> 'h lufa option" where
  "USB_Device_GetDescriptor P s =
     (let r = USB_ControlRequest s in
      if wValue r = push_bit 8 (ucast DTYPE_String) OR ucast USE_INTERNAL_SERIAL then
        USB_Device_GetInternalSerialDescriptor P s
      else (case CALLBACK_USB_GetDescriptor (wValue r) (ucast (wIndex r)) of
          (None, DescriptorSize) \<Rightarrow> Some s
        | (Some obj, DescriptorSize) \<Rightarrow>
            if DescriptorSize = ucast NO_DESCRIPTOR then Some s
            else do {
              (e, s) \<leftarrow> Endpoint_Write_Control_PStream_LE P obj DescriptorSize (Endpoint_ClearSETUP P s);
              Some (Endpoint_ClearOUT P s) }))"

definition USB_Device_GetStatus :: "'h platform \<Rightarrow> 'h lufa \<Rightarrow> 'h lufa option" where
  "USB_Device_GetStatus P s =
     (let t = bmRequestType (USB_ControlRequest s);
          reply = (\<lambda>CurrentStatus s.
            let s = Endpoint_Write_16_LE P CurrentStatus (Endpoint_ClearSETUP P s)
            in Endpoint_ClearStatusStage P (Endpoint_ClearIN P s)) in
      if t = REQDIR_DEVICETOHOST OR REQTYPE_STANDARD OR REQREC_DEVICE then
        reply ((if USB_Device_CurrentlySelfPowered s then 1 else 0) OR
               (if USB_Device_RemoteWakeupEnabled s then 2 else 0)) s
      else if t = REQDIR_DEVICETOHOST OR REQTYPE_STANDARD OR REQREC_ENDPOINT then
        (let s = Endpoint_SelectEndpoint P (ucast (wIndex (USB_ControlRequest s)) AND ENDPOINT_EPNUM_MASK) s
         in case Endpoint_IsStalled P s of (stalled, s) \<Rightarrow>
           reply (if stalled then 1 else 0) (Endpoint_SelectEndpoint P ENDPOINT_CONTROLEP s))
      else Some s)"

definition halt_endpoint :: "'h platform \<Rightarrow> u8 \<Rightarrow> bool \<Rightarrow> 'h lufa \<Rightarrow> 'h lufa" where
  "halt_endpoint P EndpointIndex halt s =
     (case Endpoint_IsEnabled P (Endpoint_SelectEndpoint P EndpointIndex s) of (enabled, s) \<Rightarrow>
        if \<not> enabled then s
        else if halt then Endpoint_StallTransaction P s
        else (let s = Endpoint_ClearStall P s; s = Endpoint_ResetEndpoint P EndpointIndex s
              in Endpoint_ResetDataToggle P s))"

definition USB_Device_ClearSetFeature :: "'h platform \<Rightarrow> 'h lufa \<Rightarrow> 'h lufa option" where
  "USB_Device_ClearSetFeature P s =
     (let r = USB_ControlRequest s;
          recipient = bmRequestType r AND CONTROL_REQTYPE_RECIPIENT;
          feature = ucast (wValue r) :: u8;
          EndpointIndex = ucast (wIndex r) AND ENDPOINT_EPNUM_MASK;
          acknowledge = (\<lambda>s. Endpoint_ClearStatusStage P
            (Endpoint_ClearSETUP P (Endpoint_SelectEndpoint P ENDPOINT_CONTROLEP s))) in
      if recipient = REQREC_DEVICE then
        (if feature = FEATURE_SEL_DeviceRemoteWakeup then
           acknowledge (s\<lparr>USB_Device_RemoteWakeupEnabled := (bRequest r = REQ_SetFeature)\<rparr>)
         else Some s)
      else if recipient = REQREC_ENDPOINT then
        (if feature = FEATURE_SEL_EndpointHalt then
           (if EndpointIndex = ENDPOINT_CONTROLEP then Some s
            else acknowledge (halt_endpoint P EndpointIndex (bRequest r = REQ_SetFeature) s))
         else acknowledge s)
      else Some s)"

text \<open>The switch over the request, and the whole of \<open>USB_Device_ProcessControlRequest\<close>.\<close>

definition standard_request :: "'h platform \<Rightarrow> 'h lufa \<Rightarrow> 'h lufa option" where
  "standard_request P s =
     (let r = USB_ControlRequest s; t = bmRequestType r;
          in_device = REQDIR_DEVICETOHOST OR REQTYPE_STANDARD OR REQREC_DEVICE;
          in_interface = REQDIR_DEVICETOHOST OR REQTYPE_STANDARD OR REQREC_INTERFACE;
          in_endpoint = REQDIR_DEVICETOHOST OR REQTYPE_STANDARD OR REQREC_ENDPOINT;
          out_device = REQDIR_HOSTTODEVICE OR REQTYPE_STANDARD OR REQREC_DEVICE;
          out_endpoint = REQDIR_HOSTTODEVICE OR REQTYPE_STANDARD OR REQREC_ENDPOINT in
      if bRequest r = REQ_GetStatus then
        (if t = in_device \<or> t = in_endpoint then USB_Device_GetStatus P s else Some s)
      else if bRequest r = REQ_ClearFeature \<or> bRequest r = REQ_SetFeature then
        (if t = out_device \<or> t = out_endpoint then USB_Device_ClearSetFeature P s else Some s)
      else if bRequest r = REQ_SetAddress then
        (if t = out_device then USB_Device_SetAddress P s else Some s)
      else if bRequest r = REQ_GetDescriptor then
        (if t = in_device \<or> t = in_interface then USB_Device_GetDescriptor P s else Some s)
      else if bRequest r = REQ_GetConfiguration then
        (if t = in_device then USB_Device_GetConfiguration P s else Some s)
      else if bRequest r = REQ_SetConfiguration then
        (if t = out_device then USB_Device_SetConfiguration P s else Some s)
      else Some s)"

fun read_header :: "'h platform \<Rightarrow> nat \<Rightarrow> 'h lufa \<Rightarrow> bytes \<times> 'h lufa" where
  "read_header P 0 s = ([], s)"
| "read_header P (Suc n) s =
     (case Endpoint_Read_8 P s of (b, s) \<Rightarrow> case read_header P n s of (bs, s) \<Rightarrow> (b # bs, s))"

definition request_of :: "bytes \<Rightarrow> usb_request" where
  "request_of h =
     \<lparr>bmRequestType = h ! 0, bRequest = h ! 1, wValue = be16 (h ! 3) (h ! 2),
      wIndex = be16 (h ! 5) (h ! 4), wLength = be16 (h ! 7) (h ! 6)\<rparr>"

definition USB_Device_ProcessControlRequest :: "'h platform \<Rightarrow> 'h lufa \<Rightarrow> 'h lufa option" where
  "USB_Device_ProcessControlRequest P s = do {
     let (h, s) = read_header P 8 s;
     s \<leftarrow> EVENT_USB_Device_ControlRequest P (s\<lparr>USB_ControlRequest := request_of h\<rparr>);
     let (received, s) = Endpoint_IsSETUPReceived P s;
     s \<leftarrow> (if received then standard_request P s else Some s);
     let (received, s) = Endpoint_IsSETUPReceived P s;
     Some (if received then Endpoint_ClearSETUP P (Endpoint_StallTransaction P s) else s) }"

section \<open>Tasks and interrupts\<close>

definition USB_DeviceTask :: "'h platform \<Rightarrow> 'h lufa \<Rightarrow> 'h lufa option" where
  "USB_DeviceTask P s =
     (if USB_DeviceState s = DEVICE_STATE_Unattached then Some s
      else do {
        let (PrevEndpoint, s) = Endpoint_GetCurrentEndpoint P s;
        let (received, s) = Endpoint_IsSETUPReceived P (Endpoint_SelectEndpoint P ENDPOINT_CONTROLEP s);
        s \<leftarrow> (if received then USB_Device_ProcessControlRequest P s else Some s);
        Some (Endpoint_SelectEndpoint P PrevEndpoint s) })"

definition lufa_COM_vect :: "'h platform \<Rightarrow> 'h lufa \<Rightarrow> 'h lufa option" where
  "lufa_COM_vect P s = do {
     let (PrevSelectedEndpoint, s) = Endpoint_GetCurrentEndpoint P s;
     let s = Endpoint_SelectEndpoint P ENDPOINT_CONTROLEP s;
     let s = clear_bits P UEIENX (mask_bit RXSTPE) s;
     let s = s\<lparr>GlobalInt := GlobalInt s OR mask_bit 7\<rparr>;
     s \<leftarrow> USB_Device_ProcessControlRequest P s;
     let s = Endpoint_SelectEndpoint P ENDPOINT_CONTROLEP s;
     let s = set_bits P UEIENX (mask_bit RXSTPE) s;
     Some (Endpoint_SelectEndpoint P PrevSelectedEndpoint s) }"

end
