(* ===== verification/LufaController.thy ===== *)
theory LufaController
  imports LufaDevice
begin

text \<open>
  Start-up and the interrupt of the USB controller (\<open>Core/AVR8/USBController_AVR8.c\<close> and
  \<open>.h\<close>, \<open>USBInterrupt_AVR8.c\<close> and \<open>.h\<close>), for a device on an ATmega32U4 with the static
  options full speed, regulator on and automatic PLL. The handlers of the events for connection,
  disconnection, suspension, wake-up, reset and start of frame do nothing in this program.
\<close>

section \<open>Interrupt sources\<close>

datatype usb_int =
  USB_INT_VBUSTI | USB_INT_WAKEUPI | USB_INT_SUSPI | USB_INT_EORSTI | USB_INT_SOFI | USB_INT_RXSTPI

fun int_enable :: "usb_int \<Rightarrow> reg \<times> nat" where
  "int_enable USB_INT_VBUSTI = (USBCON, 0)"
| "int_enable USB_INT_WAKEUPI = (UDIEN, 4)"
| "int_enable USB_INT_SUSPI = (UDIEN, 0)"
| "int_enable USB_INT_EORSTI = (UDIEN, 3)"
| "int_enable USB_INT_SOFI = (UDIEN, 2)"
| "int_enable USB_INT_RXSTPI = (UEIENX, 3)"

fun int_flag :: "usb_int \<Rightarrow> reg \<times> nat" where
  "int_flag USB_INT_VBUSTI = (USBINT, 0)"
| "int_flag USB_INT_WAKEUPI = (UDINT, 4)"
| "int_flag USB_INT_SUSPI = (UDINT, 0)"
| "int_flag USB_INT_EORSTI = (UDINT, 3)"
| "int_flag USB_INT_SOFI = (UDINT, 2)"
| "int_flag USB_INT_RXSTPI = (UEINTX, 3)"

definition USB_INT_Enable :: "'h platform \<Rightarrow> usb_int \<Rightarrow> 'h lufa \<Rightarrow> 'h lufa" where
  "USB_INT_Enable P i s = (case int_enable i of (r, b) \<Rightarrow> set_bits P r (mask_bit b) s)"

definition USB_INT_Disable :: "'h platform \<Rightarrow> usb_int \<Rightarrow> 'h lufa \<Rightarrow> 'h lufa" where
  "USB_INT_Disable P i s = (case int_enable i of (r, b) \<Rightarrow> clear_bits P r (mask_bit b) s)"

definition USB_INT_Clear :: "'h platform \<Rightarrow> usb_int \<Rightarrow> 'h lufa \<Rightarrow> 'h lufa" where
  "USB_INT_Clear P i s = (case int_flag i of (r, b) \<Rightarrow> clear_bits P r (mask_bit b) s)"

definition USB_INT_IsEnabled :: "'h platform \<Rightarrow> usb_int \<Rightarrow> 'h lufa \<Rightarrow> bool \<times> 'h lufa" where
  "USB_INT_IsEnabled P i s = (case int_enable i of (r, b) \<Rightarrow> reg_bit P r b s)"

definition USB_INT_HasOccurred :: "'h platform \<Rightarrow> usb_int \<Rightarrow> 'h lufa \<Rightarrow> bool \<times> 'h lufa" where
  "USB_INT_HasOccurred P i s = (case int_flag i of (r, b) \<Rightarrow> reg_bit P r b s)"

definition USB_INT_DisableAllInterrupts :: "'h platform \<Rightarrow> 'h lufa \<Rightarrow> 'h lufa" where
  "USB_INT_DisableAllInterrupts P s = reg_put P UDIEN 0 (clear_bits P USBCON (mask_bit 0) s)"

definition USB_INT_ClearAllInterrupts :: "'h platform \<Rightarrow> 'h lufa \<Rightarrow> 'h lufa" where
  "USB_INT_ClearAllInterrupts P s = reg_put P UDINT 0 (reg_put P USBINT 0 s)"

section \<open>The controller\<close>

abbreviation (input) "PINDIV \<equiv> 4 :: nat"
abbreviation (input) "PLLE \<equiv> 1 :: nat"
abbreviation (input) "UVREGE \<equiv> 0 :: nat"
abbreviation (input) "USBE \<equiv> 7 :: nat"
abbreviation (input) "FRZCLK \<equiv> 5 :: nat"
abbreviation (input) "OTGPADE \<equiv> 4 :: nat"
abbreviation (input) "DETACH \<equiv> 0 :: nat"
abbreviation (input) "RMWKUP \<equiv> 1 :: nat"
abbreviation (input) "LSM \<equiv> 2 :: nat"
abbreviation (input) "PDIV2 \<equiv> 2 :: nat"

definition USB_PLL_On :: "'h platform \<Rightarrow> 'h lufa \<Rightarrow> 'h lufa" where
  "USB_PLL_On P s =
     reg_put P PLLCSR (mask_bit PINDIV OR mask_bit PLLE) (reg_put P PLLCSR (mask_bit PINDIV) s)"

definition USB_PLL_Off :: "'h platform \<Rightarrow> 'h lufa \<Rightarrow> 'h lufa" where
  "USB_PLL_Off P s = reg_put P PLLCSR 0 s"

definition USB_PLL_IsReady :: "'h platform \<Rightarrow> 'h lufa \<Rightarrow> bool \<times> 'h lufa" where
  "USB_PLL_IsReady P = reg_bit P PLLCSR PLOCK"

definition USB_REG_On :: "'h platform \<Rightarrow> 'h lufa \<Rightarrow> 'h lufa" where
  "USB_REG_On P = set_bits P UHWCON (mask_bit UVREGE)"

definition USB_REG_Off :: "'h platform \<Rightarrow> 'h lufa \<Rightarrow> 'h lufa" where
  "USB_REG_Off P = clear_bits P UHWCON (mask_bit UVREGE)"

definition USB_OTGPAD_On :: "'h platform \<Rightarrow> 'h lufa \<Rightarrow> 'h lufa" where
  "USB_OTGPAD_On P = set_bits P USBCON (mask_bit OTGPADE)"

definition USB_OTGPAD_Off :: "'h platform \<Rightarrow> 'h lufa \<Rightarrow> 'h lufa" where
  "USB_OTGPAD_Off P = clear_bits P USBCON (mask_bit OTGPADE)"

definition USB_CLK_Freeze :: "'h platform \<Rightarrow> 'h lufa \<Rightarrow> 'h lufa" where
  "USB_CLK_Freeze P = set_bits P USBCON (mask_bit FRZCLK)"

definition USB_CLK_Unfreeze :: "'h platform \<Rightarrow> 'h lufa \<Rightarrow> 'h lufa" where
  "USB_CLK_Unfreeze P = clear_bits P USBCON (mask_bit FRZCLK)"

definition USB_Controller_Disable :: "'h platform \<Rightarrow> 'h lufa \<Rightarrow> 'h lufa" where
  "USB_Controller_Disable P = clear_bits P USBCON (mask_bit USBE)"

definition USB_Controller_Reset :: "'h platform \<Rightarrow> 'h lufa \<Rightarrow> 'h lufa" where
  "USB_Controller_Reset P s = set_bits P USBCON (mask_bit USBE) (clear_bits P USBCON (mask_bit USBE) s)"

definition USB_Detach :: "'h platform \<Rightarrow> 'h lufa \<Rightarrow> 'h lufa" where
  "USB_Detach P = set_bits P UDCON (mask_bit DETACH)"

definition USB_Attach :: "'h platform \<Rightarrow> 'h lufa \<Rightarrow> 'h lufa" where
  "USB_Attach P = clear_bits P UDCON (mask_bit DETACH)"

definition USB_VBUS_GetStatus :: "'h platform \<Rightarrow> 'h lufa \<Rightarrow> bool \<times> 'h lufa" where
  "USB_VBUS_GetStatus P = reg_bit P USBSTA 0"

definition USB_Device_SendRemoteWakeup :: "'h platform \<Rightarrow> 'h lufa \<Rightarrow> 'h lufa option" where
  "USB_Device_SendRemoteWakeup P s = do {
     s \<leftarrow> spin P (USB_PLL_IsReady P) (USB_PLL_On P s);
     let s = set_bits P UDCON (mask_bit RMWKUP) (USB_CLK_Unfreeze P s);
     spin P (\<lambda>s. case reg_bit P UDCON RMWKUP s of (b, s) \<Rightarrow> (\<not> b, s)) s }"

text \<open>The control endpoint, as it is configured at start-up and at each reset of the bus.\<close>

definition configure_control :: "'h platform \<Rightarrow> 'h lufa \<Rightarrow> 'h lufa option" where
  "configure_control P s =
     map_option snd (Endpoint_ConfigureEndpoint P ENDPOINT_CONTROLEP EP_TYPE_CONTROL ENDPOINT_DIR_OUT
       (ucast FIXED_CONTROL_ENDPOINT_SIZE) ENDPOINT_BANK_SINGLE s)"

definition USB_Init_Device :: "'h platform \<Rightarrow> 'h lufa \<Rightarrow> 'h lufa option" where
  "USB_Init_Device P s = do {
     let s = s\<lparr>USB_DeviceState := DEVICE_STATE_Unattached, USB_Device_ConfigurationNumber := 0,
               USB_Device_RemoteWakeupEnabled := False, USB_Device_CurrentlySelfPowered := False\<rparr>;
     let s = clear_bits P UDCON (mask_bit LSM) s;
     let s = USB_INT_Enable P USB_INT_VBUSTI s;
     s \<leftarrow> configure_control P s;
     let s = USB_INT_Clear P USB_INT_SUSPI s;
     let s = USB_INT_Enable P USB_INT_SUSPI s;
     let s = USB_INT_Enable P USB_INT_EORSTI s;
     Some (USB_Attach P s) }"

definition USB_ResetInterface :: "'h platform \<Rightarrow> 'h lufa \<Rightarrow> 'h lufa option" where
  "USB_ResetInterface P s = do {
     let s = USB_INT_ClearAllInterrupts P (USB_INT_DisableAllInterrupts P s);
     let s = USB_CLK_Unfreeze P (USB_Controller_Reset P s);
     s \<leftarrow> USB_Init_Device P (USB_PLL_Off P s);
     Some (USB_OTGPAD_On P s) }"

definition USB_Init :: "'h platform \<Rightarrow> 'h lufa \<Rightarrow> 'h lufa option" where
  "USB_Init P s =
     (let s = reg_put P PLLFRQ (mask_bit PDIV2) (USB_REG_On P s)
      in USB_ResetInterface P (s\<lparr>USB_IsInitialized := True\<rparr>))"

definition USB_Disable :: "'h platform \<Rightarrow> 'h lufa \<Rightarrow> 'h lufa" where
  "USB_Disable P s =
     (let s = USB_INT_ClearAllInterrupts P (USB_INT_DisableAllInterrupts P s);
          s = USB_Controller_Disable P (USB_Detach P s);
          s = USB_REG_Off P (USB_PLL_Off P s);
          s = USB_OTGPAD_Off P s
      in s\<lparr>USB_IsInitialized := False\<rparr>)"

section \<open>The interrupt\<close>

definition int_pending :: "'h platform \<Rightarrow> usb_int \<Rightarrow> 'h lufa \<Rightarrow> bool \<times> 'h lufa" where
  "int_pending P i s =
     (case USB_INT_HasOccurred P i s of (occurred, s) \<Rightarrow>
        if occurred then USB_INT_IsEnabled P i s else (False, s))"

definition on_vbus :: "'h platform \<Rightarrow> 'h lufa \<Rightarrow> 'h lufa option" where
  "on_vbus P s =
     (case USB_VBUS_GetStatus P (USB_INT_Clear P USB_INT_VBUSTI s) of (powered, s) \<Rightarrow>
        if powered then do {
          s \<leftarrow> spin P (USB_PLL_IsReady P) (USB_PLL_On P s);
          Some (s\<lparr>USB_DeviceState := DEVICE_STATE_Powered\<rparr>) }
        else Some ((USB_PLL_Off P s)\<lparr>USB_DeviceState := DEVICE_STATE_Unattached\<rparr>))"

definition on_suspend :: "'h platform \<Rightarrow> 'h lufa \<Rightarrow> 'h lufa" where
  "on_suspend P s =
     (let s = USB_INT_Enable P USB_INT_WAKEUPI (USB_INT_Disable P USB_INT_SUSPI s);
          s = USB_PLL_Off P (USB_CLK_Freeze P s)
      in s\<lparr>USB_DeviceState := DEVICE_STATE_Suspended\<rparr>)"

definition on_wakeup :: "'h platform \<Rightarrow> 'h lufa \<Rightarrow> 'h lufa option" where
  "on_wakeup P s = do {
     s \<leftarrow> spin P (USB_PLL_IsReady P) (USB_PLL_On P s);
     let s = USB_INT_Clear P USB_INT_WAKEUPI (USB_CLK_Unfreeze P s);
     let s = USB_INT_Enable P USB_INT_SUSPI (USB_INT_Disable P USB_INT_WAKEUPI s);
     Some (configured_state P s) }"

definition on_reset :: "'h platform \<Rightarrow> 'h lufa \<Rightarrow> 'h lufa option" where
  "on_reset P s = do {
     let s = USB_INT_Clear P USB_INT_EORSTI s;
     let s = s\<lparr>USB_DeviceState := DEVICE_STATE_Default, USB_Device_ConfigurationNumber := 0\<rparr>;
     let s = USB_INT_Disable P USB_INT_SUSPI (USB_INT_Clear P USB_INT_SUSPI s);
     s \<leftarrow> configure_control P (USB_INT_Enable P USB_INT_WAKEUPI s);
     Some (USB_INT_Enable P USB_INT_RXSTPI s) }"

definition on_int ::
    "'h platform \<Rightarrow> usb_int \<Rightarrow> ('h lufa \<Rightarrow> 'h lufa option) \<Rightarrow> 'h lufa \<Rightarrow> 'h lufa option"
where
  "on_int P i handler s = (case int_pending P i s of (p, s) \<Rightarrow> if p then handler s else Some s)"

definition lufa_GEN_vect :: "'h platform \<Rightarrow> 'h lufa \<Rightarrow> 'h lufa option" where
  "lufa_GEN_vect P s = do {
     s \<leftarrow> on_int P USB_INT_SOFI (\<lambda>s. Some (USB_INT_Clear P USB_INT_SOFI s)) s;
     s \<leftarrow> on_int P USB_INT_VBUSTI (on_vbus P) s;
     s \<leftarrow> on_int P USB_INT_SUSPI (\<lambda>s. Some (on_suspend P s)) s;
     s \<leftarrow> on_int P USB_INT_WAKEUPI (on_wakeup P) s;
     on_int P USB_INT_EORSTI (on_reset P) s }"

end
