(* ===== verification/LufaCdc.thy ===== *)
theory LufaCdc
  imports LufaController
begin

text \<open>
  The data functions of the CDC class (\<open>Class/Device/CDCClassDevice.c\<close>), with those that make
  a \<open>stdio\<close> stream of it.
\<close>

text \<open>\<open>USB_DeviceState != DEVICE_STATE_Configured || !BaudRateBPS\<close>, negated.\<close>

definition cdc_open :: "'h lufa \<Rightarrow> bool" where
  "cdc_open s \<longleftrightarrow> USB_DeviceState s = DEVICE_STATE_Configured \<and> BaudRateBPS (LineEncoding s) \<noteq> 0"

definition CDC_Device_Flush :: "'h platform \<Rightarrow> cdc_config \<Rightarrow> 'h lufa \<Rightarrow> (u8 \<times> 'h lufa) option" where
  "CDC_Device_Flush P C s =
     (if \<not> cdc_open s then Some (ENDPOINT_RWSTREAM_DeviceDisconnected, s)
      else (case Endpoint_BytesInEndpoint P (Endpoint_SelectEndpoint P (DataINEndpointNumber C) s) of (n, s) \<Rightarrow>
        if n = 0 then Some (ENDPOINT_READYWAIT_NoError, s)
        else (case Endpoint_IsReadWriteAllowed P s of (ok, s) \<Rightarrow>
          let BankFull = (\<not> ok); s = Endpoint_ClearIN P s in
          if BankFull then
            (case Endpoint_WaitUntilReady P s of None \<Rightarrow> None
             | Some (e, s) \<Rightarrow>
                 if e \<noteq> ENDPOINT_READYWAIT_NoError then Some (e, s)
                 else Some (ENDPOINT_READYWAIT_NoError, Endpoint_ClearIN P s))
          else Some (ENDPOINT_READYWAIT_NoError, s))))"

definition CDC_Device_USBTask :: "'h platform \<Rightarrow> cdc_config \<Rightarrow> 'h lufa \<Rightarrow> 'h lufa option" where
  "CDC_Device_USBTask P C s =
     (if \<not> cdc_open s then Some s else map_option snd (CDC_Device_Flush P C s))"

definition CDC_Device_SendData :: "'h platform \<Rightarrow> cdc_config \<Rightarrow> bytes \<Rightarrow> 'h lufa \<Rightarrow> (u8 \<times> 'h lufa) option"
where
  "CDC_Device_SendData P C Buffer s =
     (if \<not> cdc_open s then Some (ENDPOINT_RWSTREAM_DeviceDisconnected, s)
      else Endpoint_Write_Stream_LE P Buffer (Endpoint_SelectEndpoint P (DataINEndpointNumber C) s))"

definition CDC_Device_SendString :: "'h platform \<Rightarrow> cdc_config \<Rightarrow> string \<Rightarrow> 'h lufa \<Rightarrow> (u8 \<times> 'h lufa) option"
where
  "CDC_Device_SendString P C str s =
     (if \<not> cdc_open s then Some (ENDPOINT_RWSTREAM_DeviceDisconnected, s)
      else Endpoint_Write_Stream_LE P (map char8 str) (Endpoint_SelectEndpoint P (DataINEndpointNumber C) s))"

definition CDC_Device_SendByte :: "'h platform \<Rightarrow> cdc_config \<Rightarrow> u8 \<Rightarrow> 'h lufa \<Rightarrow> (u8 \<times> 'h lufa) option"
where
  "CDC_Device_SendByte P C Data s =
     (if \<not> cdc_open s then Some (ENDPOINT_RWSTREAM_DeviceDisconnected, s)
      else (case Endpoint_IsReadWriteAllowed P (Endpoint_SelectEndpoint P (DataINEndpointNumber C) s) of (ok, s) \<Rightarrow>
        if ok then Some (ENDPOINT_READYWAIT_NoError, Endpoint_Write_8 P Data s)
        else (case Endpoint_WaitUntilReady P (Endpoint_ClearIN P s) of None \<Rightarrow> None
          | Some (e, s) \<Rightarrow>
              if e \<noteq> ENDPOINT_READYWAIT_NoError then Some (e, s)
              else Some (ENDPOINT_READYWAIT_NoError, Endpoint_Write_8 P Data s))))"

definition CDC_Device_BytesReceived :: "'h platform \<Rightarrow> cdc_config \<Rightarrow> 'h lufa \<Rightarrow> u16 \<times> 'h lufa" where
  "CDC_Device_BytesReceived P C s =
     (if \<not> cdc_open s then (0, s)
      else (case Endpoint_IsOUTReceived P (Endpoint_SelectEndpoint P (DataOUTEndpointNumber C) s) of (ok, s) \<Rightarrow>
        if ok then
          (case Endpoint_BytesInEndpoint P s of (n, s) \<Rightarrow>
             if n = 0 then (0, Endpoint_ClearOUT P s) else Endpoint_BytesInEndpoint P s)
        else (0, s)))"

definition CDC_Device_ReceiveByte :: "'h platform \<Rightarrow> cdc_config \<Rightarrow> 'h lufa \<Rightarrow> int \<times> 'h lufa" where
  "CDC_Device_ReceiveByte P C s =
     (if \<not> cdc_open s then (- 1, s)
      else (case Endpoint_IsOUTReceived P (Endpoint_SelectEndpoint P (DataOUTEndpointNumber C) s) of (ok, s) \<Rightarrow>
        if ok then
          (case Endpoint_BytesInEndpoint P s of (n, s) \<Rightarrow>
           case (if n \<noteq> 0 then (case Endpoint_Read_8 P s of (b, s) \<Rightarrow> (uint b, s)) else (- 1, s)) of (r, s) \<Rightarrow>
           case Endpoint_BytesInEndpoint P s of (n, s) \<Rightarrow>
             (r, if n = 0 then Endpoint_ClearOUT P s else s))
        else (- 1, s)))"

definition serial_state_header :: bytes where
  "serial_state_header =
     [REQDIR_DEVICETOHOST OR REQTYPE_CLASS OR REQREC_INTERFACE, 0x20] @ word_le 0 @ word_le 0 @ word_le 2"

text \<open>The results of the two streams are not looked at.\<close>

definition CDC_Device_SendControlLineStateChange :: "'h platform \<Rightarrow> cdc_config \<Rightarrow> 'h lufa \<Rightarrow> 'h lufa option"
where
  "CDC_Device_SendControlLineStateChange P C s =
     (if \<not> cdc_open s then Some s
      else do {
        let s = Endpoint_SelectEndpoint P (NotificationEndpointNumber C) s;
        (e, s) \<leftarrow> Endpoint_Write_Stream_LE P serial_state_header s;
        (e, s) \<leftarrow> Endpoint_Write_Stream_LE P (word_le (DeviceToHost s)) s;
        Some (Endpoint_ClearIN P s) })"

section \<open>Standard input and output\<close>

text \<open>
  A \<open>FILE\<close> is the pair of functions \<open>FDEV_SETUP_STREAM\<close> stores in it, applied to the interface
  that is its user data.
\<close>

abbreviation (input) "FDEV_ERR \<equiv> - 1 :: int"
abbreviation (input) "FDEV_EOF \<equiv> - 2 :: int"

record 'h cdc_file =
  file_put :: "u8 \<Rightarrow> 'h lufa \<Rightarrow> (int \<times> 'h lufa) option"
  file_get :: "'h lufa \<Rightarrow> (int \<times> 'h lufa) option"

definition CDC_Device_putchar :: "'h platform \<Rightarrow> cdc_config \<Rightarrow> u8 \<Rightarrow> 'h lufa \<Rightarrow> (int \<times> 'h lufa) option" where
  "CDC_Device_putchar P C c s =
     map_option (\<lambda>(e, s). (if e \<noteq> 0 then FDEV_ERR else 0, s)) (CDC_Device_SendByte P C c s)"

definition CDC_Device_getchar :: "'h platform \<Rightarrow> cdc_config \<Rightarrow> 'h lufa \<Rightarrow> (int \<times> 'h lufa) option" where
  "CDC_Device_getchar P C s =
     (case CDC_Device_ReceiveByte P C s of (r, s) \<Rightarrow> Some (if r < 0 then FDEV_EOF else r, s))"

text \<open>One turn of the controller in each round of the waiting loop.\<close>

fun getchar_wait :: "'h platform \<Rightarrow> cdc_config \<Rightarrow> nat \<Rightarrow> 'h lufa \<Rightarrow> (int \<times> 'h lufa) option" where
  "getchar_wait P C n s =
     (case CDC_Device_ReceiveByte P C s of (r, s) \<Rightarrow>
        if \<not> r < 0 then Some (r, s)
        else if USB_DeviceState s = DEVICE_STATE_Unattached then Some (FDEV_EOF, s)
        else (case CDC_Device_USBTask P C s of None \<Rightarrow> None
          | Some s \<Rightarrow> (case USB_DeviceTask P s of None \<Rightarrow> None
            | Some s \<Rightarrow> (case n of 0 \<Rightarrow> None | Suc n \<Rightarrow> getchar_wait P C n (turn P s)))))"

declare getchar_wait.simps [simp del]

definition CDC_Device_getchar_Blocking :: "'h platform \<Rightarrow> cdc_config \<Rightarrow> 'h lufa \<Rightarrow> (int \<times> 'h lufa) option" where
  "CDC_Device_getchar_Blocking P C s = getchar_wait P C (patience P) s"

definition CDC_Device_CreateStream :: "'h platform \<Rightarrow> cdc_config \<Rightarrow> 'h cdc_file" where
  "CDC_Device_CreateStream P C =
     \<lparr>file_put = CDC_Device_putchar P C, file_get = CDC_Device_getchar P C\<rparr>"

definition CDC_Device_CreateBlockingStream :: "'h platform \<Rightarrow> cdc_config \<Rightarrow> 'h cdc_file" where
  "CDC_Device_CreateBlockingStream P C =
     \<lparr>file_put = CDC_Device_putchar P C, file_get = CDC_Device_getchar_Blocking P C\<rparr>"

end
