(* ===== verification/ServerComms.thy ===== *)
theory ServerComms
  imports UsbLemmas RingBuffer LufaCdc
begin

text \<open>
  \<open>LCD Test/VncServerComms.c\<close>: how the client gets bytes from the server and sends its
  responses, in the three variants of the file: over the USB serial port of
  \<open>usb_serial.c\<close> (the one the header selects), over the UART, and over the CDC class of the
  LUFA library. The main loop relies only on the
  contract at the end.
\<close>

section \<open>The activity pin\<close>

text \<open>\<open>while(debugcounter > 64)\<close>: a pulse on pin 0 of port F for each 64 bytes received.\<close>

record activity =
  debugcounter :: u16
  DDRF :: u8
  PORTF :: u8

definition activity_boot :: "u8 \<Rightarrow> u8 \<Rightarrow> activity" where
  "activity_boot ddr port = \<lparr>debugcounter = 0, DDRF = ddr, PORTF = port\<rparr>"

definition activity_step :: "activity \<Rightarrow> activity" where
  "activity_step a =
     (let a = a\<lparr>DDRF := DDRF a OR push_bit 0 1\<rparr>;
          a = a\<lparr>PORTF := PORTF a OR push_bit 0 1\<rparr>;
          a = a\<lparr>debugcounter := debugcounter a - 64\<rparr>
      in a\<lparr>PORTF := PORTF a AND NOT (push_bit 0 1)\<rparr>)"

function activity_pulses :: "activity \<Rightarrow> activity" where
  "activity_pulses a = (if debugcounter a > 64 then activity_pulses (activity_step a) else a)"
  by pat_completeness auto
termination
  by (relation "measure (\<lambda>a. unat (debugcounter a))")
    (auto simp: activity_step_def Let_def word_less_nat_alt unat_sub word_le_nat_alt)

declare activity_pulses.simps [simp del]

definition count_byte :: "activity \<Rightarrow> activity" where
  "count_byte a = a\<lparr>debugcounter := debugcounter a + 1\<rparr>"

text \<open>
  The receiving loop of all variants: \<open>next\<close> is the attempt to get a byte, -1 if there is
  none; \<open>room\<close> is \<open>maxsize - size\<close>. None is an attempt that does not return.
\<close>

fun receive_loop ::
    "('s \<Rightarrow> (int \<times> 's) option) \<Rightarrow> nat \<Rightarrow> activity \<Rightarrow> 's \<Rightarrow> (bytes \<times> activity \<times> 's) option"
where
  "receive_loop next 0 a s = Some ([], a, s)"
| "receive_loop next (Suc room) a s =
     (case next s of None \<Rightarrow> None
      | Some (n, s) \<Rightarrow>
          (if n < 0 then Some ([], a, s)
           else (case receive_loop next room (count_byte a) s of None \<Rightarrow> None
                 | Some (bs, a, s) \<Rightarrow> Some (word_of_int n # bs, a, s))))"

text \<open>The sending loop of the variants that send every byte.\<close>

fun send_all :: "(nat \<Rightarrow> u8 \<Rightarrow> 's \<Rightarrow> 's option) \<Rightarrow> nat \<Rightarrow> bytes \<Rightarrow> 's \<Rightarrow> 's option" where
  "send_all send i [] s = Some s"
| "send_all send i (b # bs) s =
     (case send i b s of None \<Rightarrow> None | Some s \<Rightarrow> send_all send (Suc i) bs s)"

section \<open>Over the USB serial port\<close>

record 'h teensy =
  usb :: "'h usb"
  act :: activity
  lastControlState :: u16
  CLKPR :: u8

definition teensy_boot :: "'h usb \<Rightarrow> u8 \<Rightarrow> u8 \<Rightarrow> u8 \<Rightarrow> 'h teensy" where
  "teensy_boot u ddr port clkpr =
     \<lparr>usb = u, act = activity_boot ddr port, lastControlState = 0, CLKPR = clkpr\<rparr>"

abbreviation (input) "USB_SERIAL_DTR \<equiv> 0x01 :: u8"
abbreviation (input) "USB_SERIAL_DSR \<equiv> 0x02 :: u8"

text \<open>\<open>CPU_PRESCALE(0)\<close> writes the change-enable value and then the prescaler.\<close>

definition CPU_PRESCALE :: "u8 \<Rightarrow> 'h teensy \<Rightarrow> 'h teensy" where
  "CPU_PRESCALE n s = (let s = s\<lparr>CLKPR := 0x80\<rparr> in s\<lparr>CLKPR := n\<rparr>)"

definition teensy_Init :: "'h usb_hw \<Rightarrow> nat \<Rightarrow> 'h teensy \<Rightarrow> 'h teensy option" where
  "teensy_Init H polls s =
     (let s = CPU_PRESCALE 0 s in
      case run_state (usb_init H polls) (usb s) of
        (None, u) \<Rightarrow> None
      | (Some x, u) \<Rightarrow> Some (s\<lparr>usb := u\<rparr>))"

definition teensy_getchar :: "'h usb_hw \<Rightarrow> nat \<Rightarrow> 'h usb \<Rightarrow> (int \<times> 'h usb) option" where
  "teensy_getchar H polls u =
     (case run_state (usb_serial_getchar H polls) u of
        (None, u) \<Rightarrow> None | (Some n, u) \<Rightarrow> Some (n, u))"

text \<open>
  A change of the control lines is answered on the DSR line; if no line is up the server is
  gone, which is the result -1.
\<close>

definition teensy_control :: "'h usb_hw \<Rightarrow> 'h teensy \<Rightarrow> 'h teensy" where
  "teensy_control H s =
     (let s = s\<lparr>lastControlState := ucast (usb_serial_get_control (usb s))\<rparr>;
          signals = (if usb_serial_get_control (usb s) AND USB_SERIAL_DTR \<noteq> 0 then USB_SERIAL_DSR else 0)
      in s\<lparr>usb := snd (run_state (usb_serial_set_control H signals) (usb s))\<rparr>)"

definition teensy_receive ::
    "'h usb_hw \<Rightarrow> nat \<Rightarrow> u16 \<Rightarrow> 'h teensy \<Rightarrow> (int \<times> bytes \<times> 'h teensy) option"
where
  "teensy_receive H polls maxsize s =
     (case receive_loop (teensy_getchar H polls) (unat maxsize) (activity_pulses (act s)) (usb s) of
        None \<Rightarrow> None
      | Some (bs, a, u) \<Rightarrow> Some (int (length bs), bs, s\<lparr>usb := u, act := a\<rparr>))"

definition teensy_GetData ::
    "'h usb_hw \<Rightarrow> nat \<Rightarrow> u16 \<Rightarrow> 'h teensy \<Rightarrow> (int \<times> bytes \<times> 'h teensy) option"
where
  "teensy_GetData H polls maxsize s =
     (if lastControlState s \<noteq> ucast (usb_serial_get_control (usb s))
      then (let s = teensy_control H s in
            if lastControlState s = 0 then Some (- 1, [], s)
            else teensy_receive H polls maxsize s)
      else teensy_receive H polls maxsize s)"

text \<open>Each byte has the turns of its own wait; the results of the calls are ignored.\<close>

definition teensy_putchar ::
    "'h usb_hw \<Rightarrow> (nat \<Rightarrow> 'h turn list) \<Rightarrow> nat \<Rightarrow> u8 \<Rightarrow> 'h usb \<Rightarrow> 'h usb option"
where
  "teensy_putchar H turns i b u =
     (case run_state (usb_serial_putchar H (turns i) b) u of
        (None, u) \<Rightarrow> None | (Some r, u) \<Rightarrow> Some u)"

definition teensy_SendResponse ::
    "'h usb_hw \<Rightarrow> (nat \<Rightarrow> 'h turn list) \<Rightarrow> bytes \<Rightarrow> u16 \<Rightarrow> 'h teensy \<Rightarrow> (u16 \<times> 'h teensy) option"
where
  "teensy_SendResponse H turns buffer len s =
     (case send_all (teensy_putchar H turns) 0 (take (unat len) buffer) (usb s) of
        None \<Rightarrow> None | Some u \<Rightarrow> Some (len, s\<lparr>usb := u\<rparr>))"

section \<open>Over the UART\<close>

record uart_comms =
  port :: uart
  uact :: activity
  uCLKPR :: u8

definition uart_Init :: "uart_comms \<Rightarrow> uart_comms" where
  "uart_Init s =
     (let s = s\<lparr>uCLKPR := 0x80\<rparr>; s = s\<lparr>uCLKPR := 0\<rparr> in s\<lparr>port := BuffUart_Setup (port s)\<rparr>)"

definition uart_getchar :: "uart \<Rightarrow> (int \<times> uart) option" where
  "uart_getchar u =
     (if \<not> BuffUart_DataInReceiveBuffer u then Some (- 1, u)
      else (case BuffUart_Receive [] u of None \<Rightarrow> None | Some (b, u) \<Rightarrow> Some (uint b, u)))"

definition uart_GetData :: "u16 \<Rightarrow> uart_comms \<Rightarrow> (int \<times> bytes \<times> uart_comms) option" where
  "uart_GetData maxsize s =
     (case receive_loop uart_getchar (unat maxsize) (activity_pulses (uact s)) (port s) of
        None \<Rightarrow> None
      | Some (bs, a, u) \<Rightarrow> Some (int (length bs), bs, s\<lparr>port := u, uact := a\<rparr>))"

definition uart_SendResponse ::
    "(nat \<Rightarrow> bool list) \<Rightarrow> bytes \<Rightarrow> u16 \<Rightarrow> uart_comms \<Rightarrow> (u16 \<times> uart_comms) option"
where
  "uart_SendResponse irqs buffer len s =
     (case send_all (\<lambda>i. BuffUart_Transmit (irqs i)) 0 (take (unat len) buffer) (port s) of
        None \<Rightarrow> None | Some u \<Rightarrow> Some (len, s\<lparr>port := u\<rparr>))"

section \<open>Over the LUFA CDC class\<close>

record 'h lufa_comms =
  lufa_lib :: "'h lufa"
  lact :: activity
  USBtoUSART_Buffer :: ring_buffer
  USARTtoUSB_Buffer :: ring_buffer
  TCCR0B :: u8

definition lufa_Init :: "'h platform \<Rightarrow> 'h lufa_comms \<Rightarrow> 'h lufa_comms option" where
  "lufa_Init P s =
     (case USB_Init P (lufa_lib s) of None \<Rightarrow> None
      | Some l \<Rightarrow>
          Some (s\<lparr>lufa_lib := l, TCCR0B := push_bit 2 1,
            USBtoUSART_Buffer := RingBuffer_InitBuffer (Ring_Data (USBtoUSART_Buffer s)) 128,
            USARTtoUSB_Buffer := RingBuffer_InitBuffer (Ring_Data (USARTtoUSB_Buffer s)) 128\<rparr>))"

definition lufa_GetData :: "'h platform \<Rightarrow> u16 \<Rightarrow> 'h lufa_comms \<Rightarrow> (int \<times> bytes \<times> 'h lufa_comms) option"
where
  "lufa_GetData P maxsize s =
     (if usbConnectionReset (lufa_lib s)
      then Some (- 1, [], s\<lparr>lufa_lib := (lufa_lib s)\<lparr>usbConnectionReset := False\<rparr>\<rparr>)
      else (case CDC_Device_USBTask P VirtualSerial_CDC_Interface (lufa_lib s) of None \<Rightarrow> None
        | Some l \<Rightarrow>
        (case USB_DeviceTask P l of None \<Rightarrow> None
        | Some l \<Rightarrow>
        (case receive_loop (\<lambda>l. Some (CDC_Device_ReceiveByte P VirtualSerial_CDC_Interface l))
                (unat maxsize) (activity_pulses (lact s)) l of None \<Rightarrow> None
        | Some (bs, a, l) \<Rightarrow> Some (int (length bs), bs, s\<lparr>lufa_lib := l, lact := a\<rparr>)))))"

fun lufa_send :: "'h platform \<Rightarrow> bytes \<Rightarrow> 'h lufa \<Rightarrow> (nat \<times> 'h lufa) option" where
  "lufa_send P [] l = Some (0, l)"
| "lufa_send P (b # bs) l =
     (case CDC_Device_SendByte P VirtualSerial_CDC_Interface b l of None \<Rightarrow> None
      | Some (e, l) \<Rightarrow>
          if e \<noteq> ENDPOINT_READYWAIT_NoError then Some (0, l)
          else map_option (\<lambda>(n, l). (Suc n, l)) (lufa_send P bs l))"

definition lufa_SendResponse :: "'h platform \<Rightarrow> bytes \<Rightarrow> u16 \<Rightarrow> 'h lufa_comms \<Rightarrow> (u16 \<times> 'h lufa_comms) option"
where
  "lufa_SendResponse P buffer len s =
     (case lufa_send P (take (unat len) buffer) (lufa_lib s) of None \<Rightarrow> None
      | Some (i, l) \<Rightarrow> Some (of_nat i, s\<lparr>lufa_lib := l\<rparr>))"

text \<open>The receive interrupt of the UART in this variant; nothing takes the bytes out again.\<close>

definition lufa_RX_vect :: "u8 \<Rightarrow> 'h lufa_comms \<Rightarrow> 'h lufa_comms" where
  "lufa_RX_vect ReceivedByte s =
     (if USB_DeviceState (lufa_lib s) = DEVICE_STATE_Configured
      then s\<lparr>USARTtoUSB_Buffer := RingBuffer_Insert (USARTtoUSB_Buffer s) ReceivedByte\<rparr> else s)"

section \<open>The contract\<close>

text \<open>
  What the main loop relies on: data is at most what was asked for and its length is the
  result, or the result is -1; not more bytes are sent than given. Two of the variants send
  them all.
\<close>

locale server_comms =
  fixes GetData :: "u16 \<Rightarrow> 's \<Rightarrow> (int \<times> bytes \<times> 's) option"
    and SendResponse :: "bytes \<Rightarrow> u16 \<Rightarrow> 's \<Rightarrow> (u16 \<times> 's) option"
  assumes data_fits: "GetData m s = Some (r, bs, t) \<Longrightarrow>
      length bs \<le> unat m \<and> (r = int (length bs) \<or> r = - 1 \<and> bs = [])"
    and sent_fits: "SendResponse buf n s = Some (k, t) \<Longrightarrow> k \<le> n"

locale reliable_comms = server_comms +
  assumes sends_all: "SendResponse buf n s = Some (k, t) \<Longrightarrow> k = n"

lemma receive_loop_length:
  "receive_loop f n a s = Some (bs, b, t) \<Longrightarrow> length bs \<le> n"
  by (induction f n a s arbitrary: bs b t rule: receive_loop.induct)
    (fastforce split: option.splits prod.splits if_splits)+

interpretation teensy: reliable_comms "teensy_GetData H polls" "teensy_SendResponse H turns"
  for H :: "'h usb_hw" and polls and turns
  by unfold_locales
    (auto simp: teensy_GetData_def teensy_receive_def teensy_SendResponse_def Let_def
      dest: receive_loop_length split: option.splits if_splits)

interpretation uart: reliable_comms uart_GetData "uart_SendResponse irqs" for irqs
  by unfold_locales
    (auto simp: uart_GetData_def uart_SendResponse_def dest: receive_loop_length split: option.splits)

lemma lufa_send_length: "lufa_send P bs l = Some (n, l') \<Longrightarrow> n \<le> length bs"
  by (induction P bs l arbitrary: n l' rule: lufa_send.induct)
    (fastforce split: prod.splits option.splits if_splits)+

interpretation lufa: server_comms "lufa_GetData P" "lufa_SendResponse P" for P :: "'h platform"
proof
  fix m s r bs t
  show "length bs \<le> unat m \<and> (r = int (length bs) \<or> r = - 1 \<and> bs = [])"
    if "lufa_GetData P m s = Some (r, bs, t)"
    using that by (auto simp: lufa_GetData_def dest: receive_loop_length split: option.splits if_splits)
next
  fix buf n s k t
  assume "lufa_SendResponse P buf n s = Some (k, t)"
  then obtain i l where "lufa_send P (take (unat n) buf) (lufa_lib s) = Some (i, l)" and k: "k = of_nat i"
    by (auto simp: lufa_SendResponse_def split: option.splits)
  then have "i \<le> unat n" using lufa_send_length by fastforce
  then show "k \<le> n" using unat_u16_less [of n] by (simp add: k word_le_nat_alt unat_of_nat)
qed

text \<open>The pulses stop with at most 64 bytes counted; they leave the pin low.\<close>

lemma activity_pulses_bound: "debugcounter (activity_pulses a) \<le> 64"
proof (induction a rule: activity_pulses.induct)
  case (1 a)
  then show ?case by (subst activity_pulses.simps) auto
qed

text \<open>A closed connection is reported once, when the control lines go down.\<close>

lemma teensy_disconnect:
  assumes "lastControlState s \<noteq> 0" and "usb_serial_get_control (usb s) = 0"
  shows "\<exists>t. teensy_GetData H polls m s = Some (- 1, [], t) \<and> lastControlState t = 0"
  using assms by (simp add: teensy_GetData_def teensy_control_def Let_def)

end
