(* ===== verification/Buttons.thy ===== *)
theory Buttons
  imports Prelude
begin

text \<open>
  \<open>LCD Test/Buttons.c\<close>: three buttons that pull their pins low, and a debouncer that
  takes one key press and then waits until all are released. Every occurrence of
  \<open>BUTTON_PINS\<close> is a read of the port of its own: \<open>pins k\<close> is the value at the \<open>k\<close>-th
  occurrence in the text of \<open>Buttons_Handler\<close>.
\<close>

record buttons =
  BUTTON_PORT :: u8
  oneshot :: int
  keypress :: u8

abbreviation (input) "BUTTON_1_PIN \<equiv> 1 :: nat"
abbreviation (input) "BUTTON_2_PIN \<equiv> 4 :: nat"
abbreviation (input) "BUTTON_3_PIN \<equiv> 5 :: nat"

definition buttons_boot :: "u8 \<Rightarrow> buttons" where
  "buttons_boot port = \<lparr>BUTTON_PORT = port, oneshot = 0, keypress = 0\<rparr>"

definition pressed :: "u8 \<Rightarrow> nat \<Rightarrow> bool" where
  "pressed pins pin \<longleftrightarrow> pins AND push_bit pin 1 = 0"

definition press :: "u8 \<Rightarrow> buttons \<Rightarrow> buttons" where
  "press key s = s\<lparr>oneshot := 1, keypress := key\<rparr>"

definition Buttons_Handler :: "(nat \<Rightarrow> u8) \<Rightarrow> buttons \<Rightarrow> buttons" where
  "Buttons_Handler pins s =
     (if oneshot s \<noteq> 0 \<and> (pressed (pins 0) BUTTON_1_PIN \<or> pressed (pins 1) BUTTON_2_PIN \<or>
           pressed (pins 2) BUTTON_3_PIN)
      then s
      else (let s = (if oneshot s \<noteq> 0 then s\<lparr>oneshot := 0\<rparr> else s);
                s = (if pressed (pins 3) BUTTON_1_PIN then press 97 s else s);
                s = (if pressed (pins 4) BUTTON_2_PIN then press 98 s else s)
            in if pressed (pins 5) BUTTON_3_PIN then press 99 s else s))"

definition Buttons_Init :: "buttons \<Rightarrow> buttons" where
  "Buttons_Init s =
     s\<lparr>BUTTON_PORT := BUTTON_PORT s OR
         (push_bit BUTTON_1_PIN 1 OR push_bit BUTTON_2_PIN 1 OR push_bit BUTTON_3_PIN 1)\<rparr>"

section \<open>One key press per press of the buttons\<close>

text \<open>
  With pins that do not change within a call, a sequence of calls is a list of port values.
  \<open>strokes\<close> is the list of key presses the handler reports, each taken (and cleared) before
  the next call.
\<close>

definition handle :: "u8 \<Rightarrow> buttons \<Rightarrow> buttons" where
  "handle p s = Buttons_Handler (\<lambda>k. p) s"

definition take_key :: "buttons \<Rightarrow> buttons" where
  "take_key s = s\<lparr>keypress := 0\<rparr>"

fun strokes :: "u8 list \<Rightarrow> buttons \<Rightarrow> u8 list" where
  "strokes [] s = []"
| "strokes (p # ps) s =
     (let t = handle p s in
      (if keypress t \<noteq> 0 then [keypress t] else []) @ strokes ps (take_key t))"

text \<open>
  The reference: \<open>held\<close> says whether a press is being waited out. A press counts when no
  button was down at the call before; of several buttons the last one counts.
\<close>

definition any_pressed :: "u8 \<Rightarrow> bool" where
  "any_pressed p \<longleftrightarrow> pressed p BUTTON_1_PIN \<or> pressed p BUTTON_2_PIN \<or> pressed p BUTTON_3_PIN"

definition key_of :: "u8 \<Rightarrow> u8" where
  "key_of p = (if pressed p BUTTON_3_PIN then 99 else if pressed p BUTTON_2_PIN then 98 else 97)"

fun edges :: "bool \<Rightarrow> u8 list \<Rightarrow> u8 list" where
  "edges held [] = []"
| "edges held (p # ps) =
     (if any_pressed p \<and> \<not> held then [key_of p] else []) @ edges (any_pressed p) ps"

lemma handle_cases:
  "handle p s =
     (if any_pressed p
      then (if oneshot s \<noteq> 0 then s else press (key_of p) s)
      else s\<lparr>oneshot := 0\<rparr>)"
  by (auto simp: handle_def Buttons_Handler_def any_pressed_def key_of_def press_def Let_def)

lemma key_of_nonzero [simp]: "key_of p \<noteq> 0"
  by (simp add: key_of_def)

theorem strokes_edges: "keypress s = 0 \<Longrightarrow> strokes ps s = edges (oneshot s \<noteq> 0) ps"
  by (induction ps arbitrary: s) (simp_all add: handle_cases press_def take_key_def Let_def)

end
