(* ===== verification/RxCursor.thy ===== *)
theory RxCursor
  imports Prelude
begin

text \<open>
  The receive cursor of \<open>vnc.c\<close>: the object \<open>dataPtr\<close> points into, the offset of
  \<open>dataPtr\<close> in it and the 16-bit count \<open>dataSize\<close> of the bytes left. An access outside
  the object sets the flag \<open>oob\<close> and never clears it, so memory safety is a statement
  about that flag. \<open>view\<close> is the list of unread bytes, and \<open>feeds ys c d\<close> says that
  \<open>d\<close> holds the unread bytes of \<open>c\<close> followed by \<open>ys\<close>, wherever both lie in memory:
  what the main loop does when it moves the remainder to the front of its buffer and
  appends what has arrived since.

  The second part is the interface every receive routine of \<open>vnc.c\<close> satisfies: a routine
  that returns 0 because bytes are missing can be called again when they have arrived, as
  though they had been there from the start.
\<close>

section \<open>The cursor\<close>

record cursor =
  cbuf :: bytes
  dataPtr :: nat
  dataSize :: u16
  oob :: bool

definition peek :: "cursor \<Rightarrow> nat \<Rightarrow> u8" where
  "peek c k = (if dataPtr c + k < length (cbuf c) then cbuf c ! (dataPtr c + k) else 0)"

definition touch :: "nat \<Rightarrow> cursor \<Rightarrow> cursor" where
  "touch n c = c\<lparr>oob := oob c \<or> length (cbuf c) < dataPtr c + n\<rparr>"

definition advance :: "nat \<Rightarrow> cursor \<Rightarrow> cursor" where
  "advance n c = c\<lparr>dataPtr := dataPtr c + n, dataSize := dataSize c - of_nat n\<rparr>"

definition retreat :: "nat \<Rightarrow> cursor \<Rightarrow> cursor" where
  "retreat n c = c\<lparr>dataPtr := dataPtr c - n, dataSize := dataSize c + of_nat n\<rparr>"

text \<open>The bytes at and after \<open>dataPtr\<close>, as a callee that is passed the pointer sees them.\<close>

definition pointee :: "cursor \<Rightarrow> bytes" where
  "pointee c = drop (dataPtr c) (cbuf c)"

definition view :: "cursor \<Rightarrow> bytes" where
  "view c = take (unat (dataSize c)) (drop (dataPtr c) (cbuf c))"

definition cwf :: "cursor \<Rightarrow> bool" where
  "cwf c \<longleftrightarrow> dataPtr c + unat (dataSize c) \<le> length (cbuf c)"

definition feeds :: "bytes \<Rightarrow> cursor \<Rightarrow> cursor \<Rightarrow> bool" where
  "feeds ys c d \<longleftrightarrow> cwf c \<and> cwf d \<and> oob d = oob c \<and> view d = view c @ ys"

lemma length_view [cursor_simps]: "cwf c \<Longrightarrow> length (view c) = unat (dataSize c)"
  by (simp add: view_def cwf_def)

lemma peek_view: "cwf c \<Longrightarrow> k < unat (dataSize c) \<Longrightarrow> peek c k = view c ! k"
  by (simp add: peek_def view_def cwf_def)

lemma pointee_view: "cwf c \<Longrightarrow> n \<le> unat (dataSize c) \<Longrightarrow> take n (pointee c) = take n (view c)"
  by (simp add: pointee_def view_def min_absorb1)

lemma length_pointee: "cwf c \<Longrightarrow> unat (dataSize c) \<le> length (pointee c)"
  by (simp add: pointee_def cwf_def)

lemma touch_safe [cursor_simps]: "cwf c \<Longrightarrow> n \<le> unat (dataSize c) \<Longrightarrow> touch n c = c"
  by (simp add: touch_def cwf_def)

lemma dataSize_advance [cursor_simps]:
  "n \<le> unat (dataSize c) \<Longrightarrow> unat (dataSize (advance n c)) = unat (dataSize c) - n"
  by (simp add: advance_def unat_minus_of_nat)

lemma dataSize_touch [simp]: "dataSize (touch n c) = dataSize c"
  by (simp add: touch_def)

lemma peek_touch [simp]: "peek (touch n c) k = peek c k"
  by (simp add: peek_def touch_def)

lemma pointee_touch [simp]: "pointee (touch n c) = pointee c"
  by (simp add: pointee_def touch_def)

lemma oob_advance [simp]: "oob (advance n c) = oob c"
  by (simp add: advance_def)

lemma oob_retreat [simp]: "oob (retreat n c) = oob c"
  by (simp add: retreat_def)

lemma cbuf_advance [simp]: "cbuf (advance n c) = cbuf c"
  by (simp add: advance_def)

lemma cwf_advance [cursor_simps]: "cwf c \<Longrightarrow> n \<le> unat (dataSize c) \<Longrightarrow> cwf (advance n c)"
  by (simp add: cwf_def advance_def unat_minus_of_nat)

lemma view_advance [cursor_simps]:
  "cwf c \<Longrightarrow> n \<le> unat (dataSize c) \<Longrightarrow> view (advance n c) = drop n (view c)"
  by (simp add: view_def advance_def unat_minus_of_nat drop_take add.commute)

lemma peek_advance [simp]: "peek (advance n c) k = peek c (n + k)"
  by (simp add: peek_def advance_def add.assoc)

lemma advance_advance [simp]: "advance m (advance n c) = advance (n + m) c"
  by (simp add: advance_def add.assoc)

lemma advance_0 [simp]: "advance 0 c = c"
  by (simp add: advance_def)

lemma retreat_advance [simp]: "retreat n (advance n c) = c"
  by (simp add: retreat_def advance_def)

section \<open>More bytes behind the same position\<close>

lemma feeds_cwf: "feeds ys c d \<Longrightarrow> cwf c" "feeds ys c d \<Longrightarrow> cwf d"
  by (simp_all add: feeds_def)

lemma feeds_oob: "feeds ys c d \<Longrightarrow> oob d = oob c"
  by (simp add: feeds_def)

lemma feeds_size:
  assumes "feeds ys c d"
  shows "unat (dataSize d) = unat (dataSize c) + length ys"
  using assms length_view [of c] length_view [of d] by (simp add: feeds_def)

lemma feeds_peek:
  assumes "feeds ys c d" and "k < unat (dataSize c)"
  shows "peek d k = peek c k"
  using assms feeds_size [OF assms(1)] length_view [of c]
  by (simp add: feeds_def peek_view nth_append)

lemma feeds_advance:
  assumes "feeds ys c d" and "n \<le> unat (dataSize c)"
  shows "feeds ys (advance n c) (advance n d)"
  using assms feeds_size [OF assms(1)] length_view [of c]
  by (simp add: feeds_def cwf_advance view_advance)

lemma feeds_refl: "cwf c \<Longrightarrow> feeds [] c c"
  by (simp add: feeds_def)

lemma feeds_sym0: "feeds [] c d \<Longrightarrow> feeds [] d c"
  by (simp add: feeds_def)

lemma feeds_trans: "feeds xs c d \<Longrightarrow> feeds ys d e \<Longrightarrow> feeds (xs @ ys) c e"
  by (simp add: feeds_def)

lemma feeds_advance0:
  assumes "feeds ys c d" and "feeds ys (advance n c) e" and "n \<le> unat (dataSize c)"
  shows "feeds [] (advance n d) e"
  using feeds_advance [OF assms(1,3)] assms(2) by (simp add: feeds_def)

lemma feeds_same_size: "feeds [] c d \<Longrightarrow> dataSize d = dataSize c"
  using feeds_size [of "[]" c d] by (simp add: word_unat_eq_iff)

lemmas feeds_facts = feeds_cwf feeds_oob feeds_size feeds_peek

section \<open>Incremental receive routines\<close>

text \<open>
  \<open>ext ys s t\<close>: \<open>t\<close> is \<open>s\<close> with \<open>ys\<close> behind its unread bytes. \<open>f\<close> is one call of a
  receive routine, which returns its result and the new state; \<open>loop\<close> is
  \<open>do r = f(); while (r > 0)\<close>. A call either does with more bytes what it did without
  them (its result and the new state, with the bytes still behind), or it has stopped for
  lack of bytes, and then calling it again once they are there gives what calling it with
  all of them would have given.
\<close>

definition same_result :: "(bytes \<Rightarrow> 's \<Rightarrow> 's \<Rightarrow> bool) \<Rightarrow> int \<times> 's \<Rightarrow> int \<times> 's \<Rightarrow> bool" where
  "same_result ext p q \<longleftrightarrow> fst p = fst q \<and> ext [] (snd p) (snd q)"

definition resumes :: "(bytes \<Rightarrow> 's \<Rightarrow> 's \<Rightarrow> bool) \<Rightarrow> ('s \<Rightarrow> int \<times> 's) \<Rightarrow> bytes \<Rightarrow> 's \<Rightarrow> 's \<Rightarrow> bool"
where
  "resumes ext f ys s t \<longleftrightarrow>
     (fst (f t) = fst (f s) \<and> ext ys (snd (f s)) (snd (f t))) \<or>
     (fst (f s) = 0 \<and> (\<forall>u. ext ys (snd (f s)) u \<longrightarrow> same_result ext (f t) (f u)))"

text \<open>A routine that changes the state further when \<open>f\<close> made progress.\<close>

definition post :: "('s \<Rightarrow> int \<times> 's) \<Rightarrow> ('s \<Rightarrow> 's) \<Rightarrow> 's \<Rightarrow> int \<times> 's" where
  "post f h s = (fst (f s), if fst (f s) = 0 then snd (f s) else h (snd (f s)))"

lemma same_result_post:
  assumes "same_result ext (f s) (f t)" and "\<And>a b. ext [] a b \<Longrightarrow> ext [] (h a) (h b)"
  shows "same_result ext (post f h s) (post f h t)"
  using assms by (simp add: same_result_def post_def)

lemma resumes_post:
  assumes "resumes ext f ys s t" and h: "\<And>zs a b. ext zs a b \<Longrightarrow> ext zs (h a) (h b)"
  shows "resumes ext (post f h) ys s t"
  using assms(1) unfolding resumes_def [of _ f]
proof (elim disjE conjE)
  assume "fst (f t) = fst (f s)" and "ext ys (snd (f s)) (snd (f t))"
  then show ?thesis by (simp add: resumes_def post_def h)
next
  assume "fst (f s) = 0" and "\<forall>u. ext ys (snd (f s)) u \<longrightarrow> same_result ext (f t) (f u)"
  moreover from this have "\<forall>u. ext ys (snd (f s)) u \<longrightarrow> same_result ext (post f h t) (post f h u)"
    by (simp add: same_result_post h)
  moreover from \<open>fst (f s) = 0\<close> have "post f h s = (0, snd (f s))" by (simp add: post_def)
  ultimately show ?thesis by (simp add: resumes_def)
qed

text \<open>A routine that returned 0 and left the state as it was can simply be called again.\<close>

lemma resumes_idle:
  assumes "f s = (0, s)" and "\<And>u. ext ys s u \<Longrightarrow> same_result ext (f t) (f u)"
  shows "resumes ext f ys s t"
  using assms by (simp add: resumes_def)

locale incremental =
  fixes ext :: "bytes \<Rightarrow> 's \<Rightarrow> 's \<Rightarrow> bool"
    and f :: "'s \<Rightarrow> int \<times> 's"
    and loop :: "'s \<Rightarrow> int \<times> 's"
  assumes ext_sym0: "ext [] s t \<Longrightarrow> ext [] t s"
    and ext_trans: "ext xs s t \<Longrightarrow> ext ys t u \<Longrightarrow> ext (xs @ ys) s u"
    and step_resumes: "ext ys s t \<Longrightarrow> resumes ext f ys s t"
    and step_ext0: "ext [] s t \<Longrightarrow> same_result ext (f s) (f t)"
    and loop_unfold: "loop s = (if fst (f s) > 0 then loop (snd (f s)) else f s)"
    and loop_terminates: "wf {(s', s). fst (f s) > 0 \<and> s' = snd (f s)}"
begin

lemma loop_ext0: "ext [] s t \<Longrightarrow> same_result ext (loop s) (loop t)"
proof (induction s arbitrary: t rule: wf_induct_rule [OF loop_terminates])
  case (1 s)
  have st: "same_result ext (f s) (f t)" using 1(2) by (rule step_ext0)
  show ?case
  proof (cases "fst (f s) > 0")
    case True
    with 1(1) st show ?thesis
      by (simp add: loop_unfold [of s] loop_unfold [of t] same_result_def)
  next
    case False
    with st show ?thesis
      by (simp add: loop_unfold [of s] loop_unfold [of t] same_result_def)
  qed
qed

lemma loop_of_same:
  assumes "same_result ext (f s) (f t)"
  shows "same_result ext (loop s) (loop t)"
proof (cases "fst (f s) > 0")
  case True
  with assms show ?thesis
    using loop_ext0 [of "snd (f s)" "snd (f t)"]
    by (simp add: loop_unfold [of s] loop_unfold [of t] same_result_def)
next
  case False
  with assms show ?thesis
    by (simp add: loop_unfold [of s] loop_unfold [of t] same_result_def)
qed

theorem loop_resumes: "ext ys s t \<Longrightarrow> resumes ext loop ys s t"
proof (induction s arbitrary: t rule: wf_induct_rule [OF loop_terminates])
  case (1 s)
  show ?case
  proof (cases "fst (f s) > 0")
    case True
    then have "resumes ext f ys s t" using 1(2) step_resumes by blast
    with True have r: "fst (f t) = fst (f s)" and e: "ext ys (snd (f s)) (snd (f t))"
      by (auto simp: resumes_def)
    from 1(1) True e have "resumes ext loop ys (snd (f s)) (snd (f t))" by simp
    then show ?thesis
      using True r by (simp add: resumes_def loop_unfold [of s] loop_unfold [of t])
  next
    case False
    then have s: "loop s = f s" by (simp add: loop_unfold [of s])
    from 1(2) have "resumes ext f ys s t" by (rule step_resumes)
    then show ?thesis
    proof (unfold resumes_def, elim disjE conjE)
      assume "fst (f t) = fst (f s)" and "ext ys (snd (f s)) (snd (f t))"
      with False show "fst (loop t) = fst (loop s) \<and> ext ys (snd (loop s)) (snd (loop t)) \<or>
          fst (loop s) = 0 \<and> (\<forall>u. ext ys (snd (loop s)) u \<longrightarrow> same_result ext (loop t) (loop u))"
        by (simp add: s loop_unfold [of t])
    next
      assume "fst (f s) = 0" and "\<forall>u. ext ys (snd (f s)) u \<longrightarrow> same_result ext (f t) (f u)"
      then show "fst (loop t) = fst (loop s) \<and> ext ys (snd (loop s)) (snd (loop t)) \<or>
          fst (loop s) = 0 \<and> (\<forall>u. ext ys (snd (loop s)) u \<longrightarrow> same_result ext (loop t) (loop u))"
        by (simp add: s loop_of_same)
    qed
  qed
qed

text \<open>
  A loop that leaves the phase \<open>W\<close> does so in a call that had all the bytes it wanted, so
  its outcome is the same with more bytes behind.
\<close>

lemma loop_leaves:
  assumes keep: "\<And>s. W s \<Longrightarrow> fst (f s) > 0 \<Longrightarrow> W (snd (f s))"
    and leave: "\<And>s t. ext ys s t \<Longrightarrow> W s \<Longrightarrow> \<not> W (snd (f s)) \<Longrightarrow>
      fst (f t) = fst (f s) \<and> ext ys (snd (f s)) (snd (f t))"
  shows "ext ys s t \<Longrightarrow> W s \<Longrightarrow> \<not> W (snd (loop s)) \<Longrightarrow>
    fst (loop t) = fst (loop s) \<and> ext ys (snd (loop s)) (snd (loop t))"
proof (induction s arbitrary: t rule: wf_induct_rule [OF loop_terminates])
  case (1 s)
  show ?case
  proof (cases "fst (f s) > 0")
    case True
    then have "resumes ext f ys s t" using 1(2) step_resumes by blast
    with True have "fst (f t) = fst (f s)" and e: "ext ys (snd (f s)) (snd (f t))"
      by (auto simp: resumes_def)
    with True 1 keep show ?thesis
      by (simp add: loop_unfold [of s] loop_unfold [of t])
  next
    case False
    with 1 leave [OF 1(2,3)] show ?thesis
      by (simp add: loop_unfold [of s] loop_unfold [of t])
  qed
qed

end

end
