(* ===== verification/DisplayIface.thy ===== *)
theory DisplayIface
  imports Prelude
begin

text \<open>
  The interface between \<open>vnc.c\<close> and the display driver that \<open>VncDisplay.h\<close> selects at
  compile time (\<open>SpiLcd.h\<close> or \<open>ParallelLcd.h\<close>): three drawing calls over a driver
  state. \<open>vnc.c\<close> is modelled over a record of these calls, so that one model serves both
  drivers; the locale states what the receive side relies on.

  A buffer argument is the object the pointer points into, from the pointer on.
\<close>

record 'd display =
  SetupTile :: "u16 \<Rightarrow> u16 \<Rightarrow> u8 \<Rightarrow> u8 \<Rightarrow> 'd \<Rightarrow> 'd"
  DrawRawTile :: "u16 \<Rightarrow> u8 \<Rightarrow> bytes \<Rightarrow> 'd \<Rightarrow> 'd"
  DrawHextile :: "u8 \<Rightarrow> u8 \<Rightarrow> u8 \<Rightarrow> bytes \<Rightarrow> 'd \<Rightarrow> 'd"

section \<open>Pixel buffers\<close>

text \<open>
  \<open>buf[i] + buf[i+1]*256\<close> as a 16-bit value. The index of the drawing loops runs over
  \<open>i < pixelCount * bytes_per_pixel\<close> in steps of \<open>bytes_per_pixel\<close>, which is 1 or 2, so
  that it never wraps: \<open>step_indices\<close> lists its values.
\<close>

definition le16 :: "bytes \<Rightarrow> nat \<Rightarrow> u16" where
  "le16 buf i = ucast (buf ! i) + ucast (buf ! (i + 1)) * 256"

definition step_indices :: "nat \<Rightarrow> nat \<Rightarrow> nat list" where
  "step_indices limit step = map (\<lambda>k. k * step) [0..<(limit + step - 1) div step]"

definition pixels_of :: "bytes \<Rightarrow> nat \<Rightarrow> u16 list" where
  "pixels_of buf n = map (\<lambda>k. le16 buf (2 * k)) [0..<n]"

lemma step_indices_2: "step_indices (n * 2) 2 = map (\<lambda>k. 2 * k) [0..<n]"
  by (simp add: step_indices_def mult.commute)

lemma le16_be16: "le16 buf i = be16 (buf ! (i + 1)) (buf ! i)"
  by (simp add: le16_def be16_def push_bit_eq_mult)

lemma length_pixels_of [simp]: "length (pixels_of buf n) = n"
  by (simp add: pixels_of_def)

lemma pixels_of_cong:
  assumes "take (2 * n) xs = take (2 * n) ys"
  shows "pixels_of xs n = pixels_of ys n"
proof -
  have "xs ! i = ys ! i" if "i < 2 * n" for i
    using that assms by (metis nth_take)
  then show ?thesis by (simp add: pixels_of_def le16_def)
qed

lemma pixels_of_append:
  assumes "length xs = 2 * m"
  shows "pixels_of (xs @ ys) (m + n) = pixels_of xs m @ pixels_of ys n"
proof (rule nth_equalityI)
  show "length (pixels_of (xs @ ys) (m + n)) = length (pixels_of xs m @ pixels_of ys n)"
    by simp
  fix k
  assume "k < length (pixels_of (xs @ ys) (m + n))"
  then have k: "k < m + n" by simp
  show "pixels_of (xs @ ys) (m + n) ! k = (pixels_of xs m @ pixels_of ys n) ! k"
  proof (cases "k < m")
    case True
    with k assms show ?thesis
      unfolding nth_append pixels_of_def le16_def by simp
  next
    case False
    then have "2 * k - length xs = 2 * (k - m)" "2 * k + 1 - length xs = 2 * (k - m) + 1"
      "\<not> 2 * k < length xs" "\<not> 2 * k + 1 < length xs"
      using assms by simp_all
    with k False show ?thesis
      unfolding nth_append pixels_of_def le16_def by simp
  qed
qed

section \<open>The contract\<close>

text \<open>
  Raw pixels may be handed over in pieces: drawing \<open>m\<close> pixels and then \<open>n\<close> more is
  drawing the \<open>m + n\<close> pixels at once, and a call reads only the pixels it is asked to draw.
\<close>

locale raw_display =
  fixes D :: "'d display"
  assumes raw_reads_only:
      "take (2 * unat n) xs = take (2 * unat n) ys \<Longrightarrow> 2 * unat n \<le> length xs \<Longrightarrow>
       2 * unat n \<le> length ys \<Longrightarrow> unat n \<le> 32767 \<Longrightarrow>
       DrawRawTile D n 2 xs d = DrawRawTile D n 2 ys d"
    and raw_split:
      "unat m + unat n \<le> 32767 \<Longrightarrow> length xs = 2 * unat m \<Longrightarrow> 2 * unat n \<le> length ys \<Longrightarrow>
       DrawRawTile D (m + n) 2 (xs @ ys) d = DrawRawTile D n 2 ys (DrawRawTile D m 2 xs d)"
begin

lemma raw_resume:
  assumes "unat m + unat n \<le> 32767" and "2 * (unat m + unat n) \<le> length xs"
    and "2 * unat m \<le> length us" and "take (2 * unat m) us = take (2 * unat m) xs"
    and "2 * unat n \<le> length vs" and "take (2 * unat n) vs = take (2 * unat n) (drop (2 * unat m) xs)"
  shows "DrawRawTile D (m + n) 2 xs d = DrawRawTile D n 2 vs (DrawRawTile D m 2 us d)"
proof -
  let ?a = "take (2 * unat m) xs" and ?b = "drop (2 * unat m) xs"
  have mn: "DrawRawTile D (m + n) 2 (?a @ ?b) d = DrawRawTile D n 2 ?b (DrawRawTile D m 2 ?a d)"
    using assms(1,2) by (intro raw_split) auto
  have "DrawRawTile D m 2 ?a d = DrawRawTile D m 2 us d"
    using assms by (intro raw_reads_only) (simp_all add: min_def)
  moreover have "DrawRawTile D n 2 ?b (DrawRawTile D m 2 us d)
      = DrawRawTile D n 2 vs (DrawRawTile D m 2 us d)"
    using assms by (intro raw_reads_only) simp_all
  ultimately show ?thesis using mn by simp
qed

end

text \<open>
  The same calls as they look from outside: \<open>log\<close> is what the driver has put on its bus,
  \<open>win\<close> what it puts there to select a tile and \<open>pix\<close> what it puts there for a pixel,
  in the states \<open>ready\<close> that initialisation establishes. A tile leaves the driver row by row.
\<close>

definition row_major :: "(nat \<Rightarrow> nat \<Rightarrow> 'a) \<Rightarrow> nat \<Rightarrow> nat \<Rightarrow> 'a list" where
  "row_major f w h = concat (map (\<lambda>y. map (\<lambda>x. f x y) [0..<w]) [0..<h])"

lemma row_major_cong:
  "(\<And>x y. x < w \<Longrightarrow> y < h \<Longrightarrow> f x y = g x y) \<Longrightarrow> row_major f w h = row_major g w h"
  by (auto simp: row_major_def intro!: arg_cong [of _ _ concat])

lemma length_row_major: "length (row_major f w h) = w * h"
  by (induction h) (simp_all add: row_major_def)

locale tile_display = raw_display D for D :: "'d display" +
  fixes ready :: "'d \<Rightarrow> bool"
    and log :: "'d \<Rightarrow> 'e list"
    and win :: "u16 \<Rightarrow> u16 \<Rightarrow> u8 \<Rightarrow> u8 \<Rightarrow> 'e list"
    and pix :: "u16 \<Rightarrow> 'e list"
  assumes log_setup: "ready d \<Longrightarrow> log (SetupTile D x y w h d) = log d @ win x y w h"
    and log_raw: "ready d \<Longrightarrow> unat n \<le> 32767 \<Longrightarrow>
      log (DrawRawTile D n 2 xs d) = log d @ concat (map pix (pixels_of xs (unat n)))"
    and log_hextile: "ready d \<Longrightarrow> unat w \<le> 16 \<Longrightarrow> unat h \<le> 16 \<Longrightarrow> length buf = 512 \<Longrightarrow>
      log (DrawHextile D w h 2 buf d) =
        log d @ concat (map pix (row_major (\<lambda>x y. le16 buf (y * 32 + 2 * x)) (unat w) (unat h)))"
    and ready_setup: "ready d \<Longrightarrow> ready (SetupTile D x y w h d)"
    and ready_raw: "ready d \<Longrightarrow> unat n \<le> 32767 \<Longrightarrow> ready (DrawRawTile D n 2 xs d)"
    and ready_hextile: "ready d \<Longrightarrow> ready (DrawHextile D w h 2 buf d)"
begin

lemma log_tile:
  assumes "ready d" and "unat w \<le> 16" and "unat h \<le> 16" and "length buf = 512"
    and "\<forall>i < 16. \<forall>j < 16. le16 buf (j * 32 + 2 * i) = f i j"
  shows "log (DrawHextile D w h 2 buf (SetupTile D x y w h d)) =
    log d @ win x y w h @ concat (map pix (row_major f (unat w) (unat h)))"
proof -
  have "row_major (\<lambda>x y. le16 buf (y * 32 + 2 * x)) (unat w) (unat h) = row_major f (unat w) (unat h)"
    using assms by (intro row_major_cong) simp
  then show ?thesis using assms by (simp add: log_hextile log_setup ready_setup)
qed

end

end
