(* ===== verification/SpiLcd.thy ===== *)
theory SpiLcd
  imports DisplayIface
begin

text \<open>
  The SPI driver of the ST7735R panel, \<open>LCD Test/SpiLcd.c\<close> (the driver \<open>VncDisplay.h\<close>
  selects). The state holds the AVR port and SPI registers the driver writes and the
  \<open>wire\<close>: what leaves the processor, in order. Every transfer is recorded with the levels
  of the A0 (data/command) and chip-select lines at the moment \<open>SPDR\<close> is written, and
  every \<open>_delay_ms\<close> with its length. The wait for \<open>SPIF\<close> ends when the hardware has
  shifted the byte out; it changes no state of the program and is not modelled.
\<close>

section \<open>Registers and wire\<close>

datatype lcd_event = Transfer bool bool u8 | Delay nat

record spi_lcd =
  DDRB :: u8
  PORTB :: u8
  DDRD :: u8
  PORTD :: u8
  SPCR :: u8
  SPSR :: u8
  SPDR :: u8
  wire :: "lcd_event list"

text \<open>The registers after a reset of the processor.\<close>

definition spi_boot :: spi_lcd where
  "spi_boot = \<lparr>DDRB = 0, PORTB = 0, DDRD = 0, PORTD = 0, SPCR = 0, SPSR = 0, SPDR = 0, wire = []\<rparr>"

abbreviation (input) "PB0 \<equiv> 0 :: nat"
abbreviation (input) "PB1 \<equiv> 1 :: nat"
abbreviation (input) "PB2 \<equiv> 2 :: nat"
abbreviation (input) "PD4 \<equiv> 4 :: nat"
abbreviation (input) "PD5 \<equiv> 5 :: nat"
abbreviation (input) "PD6 \<equiv> 6 :: nat"
abbreviation (input) "DD_MOSI \<equiv> PB2"
abbreviation (input) "DD_SCK \<equiv> PB1"
abbreviation (input) "DD_LCD_CS \<equiv> PD4"
abbreviation (input) "DD_A0 \<equiv> PD5"
abbreviation (input) "DD_RES \<equiv> PD6"
abbreviation (input) "DD_SPI_SS \<equiv> PB0"
abbreviation (input) "SPE \<equiv> 6 :: nat"
abbreviation (input) "MSTR \<equiv> 4 :: nat"
abbreviation (input) "SPI2X \<equiv> 0 :: nat"

definition delay_ms :: "nat \<Rightarrow> spi_lcd \<Rightarrow> spi_lcd" where
  "delay_ms n s = s\<lparr>wire := wire s @ [Delay n]\<rparr>"

section \<open>The driver\<close>

definition SPI_MasterTransmit :: "u8 \<Rightarrow> spi_lcd \<Rightarrow> spi_lcd" where
  "SPI_MasterTransmit cData s =
     s\<lparr>SPDR := cData,
       wire := wire s @ [Transfer (bit (PORTD s) DD_A0) (bit (PORTD s) DD_LCD_CS) cData]\<rparr>"

definition SpiLcdSetup :: "spi_lcd \<Rightarrow> spi_lcd" where
  "SpiLcdSetup s =
     (let s = s\<lparr>PORTD := PORTD s OR push_bit DD_A0 1\<rparr>;
          s = s\<lparr>PORTD := PORTD s OR push_bit DD_LCD_CS 1\<rparr>;
          s = s\<lparr>DDRD := DDRD s OR push_bit DD_A0 1\<rparr>;
          s = s\<lparr>DDRD := DDRD s OR push_bit DD_LCD_CS 1\<rparr>;
          s = s\<lparr>DDRB := DDRB s OR push_bit DD_MOSI 1\<rparr>;
          s = s\<lparr>DDRB := DDRB s OR push_bit DD_SCK 1\<rparr>;
          s = s\<lparr>PORTB := PORTB s OR push_bit DD_SPI_SS 1\<rparr>;
          s = s\<lparr>SPCR := push_bit SPE 1 OR push_bit MSTR 1\<rparr>
      in s\<lparr>SPSR := push_bit SPI2X 1\<rparr>)"

definition write_command :: "u8 \<Rightarrow> spi_lcd \<Rightarrow> spi_lcd" where
  "write_command c s =
     (let s = s\<lparr>PORTD := PORTD s AND NOT (push_bit DD_A0 1)\<rparr>;
          s = s\<lparr>PORTD := PORTD s AND NOT (push_bit DD_LCD_CS 1)\<rparr>;
          s = SPI_MasterTransmit c s
      in s\<lparr>PORTD := PORTD s OR push_bit DD_LCD_CS 1\<rparr>)"

definition write_data :: "u8 \<Rightarrow> spi_lcd \<Rightarrow> spi_lcd" where
  "write_data d s =
     (let s = s\<lparr>PORTD := PORTD s OR push_bit DD_A0 1\<rparr>;
          s = s\<lparr>PORTD := PORTD s AND NOT (push_bit DD_LCD_CS 1)\<rparr>;
          s = SPI_MasterTransmit d s
      in s\<lparr>PORTD := PORTD s OR push_bit DD_LCD_CS 1\<rparr>)"

definition LCD_DataWrite :: "u8 \<Rightarrow> u8 \<Rightarrow> spi_lcd \<Rightarrow> spi_lcd" where
  "LCD_DataWrite h l s = write_data l (write_data h s)"

definition dsp_single_colour :: "u8 \<Rightarrow> u8 \<Rightarrow> spi_lcd \<Rightarrow> spi_lcd" where
  "dsp_single_colour DH DL s =
     fold (\<lambda>i s. fold (\<lambda>j s. LCD_DataWrite DH DL s) [0..<128] s) [0..<160] s"

definition SlowLoadDisplay :: "spi_lcd \<Rightarrow> spi_lcd" where
  "SlowLoadDisplay s =
     fold (\<lambda>i s. fold (\<lambda>j s. delay_ms 25 (LCD_DataWrite 0 0 s)) [0..<128] s) [0..<160] s"

text \<open>
  \<open>lcd_initial\<close> is a straight line of command and data writes. \<open>send_seq\<close> runs such a
  line; \<open>Cmd\<close>, \<open>Dat\<close> and \<open>Wait\<close> are its three kinds of statement.
\<close>

datatype lcd_stmt = Cmd u8 | Dat u8 | Wait nat

primrec lcd_stmt_run :: "lcd_stmt \<Rightarrow> spi_lcd \<Rightarrow> spi_lcd" where
  "lcd_stmt_run (Cmd c) s = write_command c s"
| "lcd_stmt_run (Dat d) s = write_data d s"
| "lcd_stmt_run (Wait n) s = delay_ms n s"

definition send_seq :: "lcd_stmt list \<Rightarrow> spi_lcd \<Rightarrow> spi_lcd" where
  "send_seq prog s = fold lcd_stmt_run prog s"

definition lcd_initial_power :: "lcd_stmt list" where
  "lcd_initial_power =
    [Wait 120, Cmd 0x11, Wait 120,
     Cmd 0xB1, Dat 0x01, Dat 0x2C, Dat 0x2D,
     Cmd 0xB2, Dat 0x01, Dat 0x2C, Dat 0x2D,
     Cmd 0xB3, Dat 0x01, Dat 0x2C, Dat 0x2D, Dat 0x01, Dat 0x2C, Dat 0x2D,
     Cmd 0xB4, Dat 0x07,
     Cmd 0xC0, Dat 0xA2, Dat 0x02, Dat 0x84,
     Cmd 0xC1, Dat 0xC5,
     Cmd 0xC2, Dat 0x0A, Dat 0x00,
     Cmd 0xC3, Dat 0x8A, Dat 0x2A,
     Cmd 0xC4, Dat 0x8A, Dat 0xEE,
     Cmd 0xC5, Dat 0x0E,
     Cmd 0x36, Dat 0xC8]"

definition lcd_initial_gamma :: "lcd_stmt list" where
  "lcd_initial_gamma =
    [Cmd 0xE0, Dat 0x02, Dat 0x1C, Dat 0x07, Dat 0x12, Dat 0x37, Dat 0x32, Dat 0x29, Dat 0x2D,
     Dat 0x29, Dat 0x25, Dat 0x2B, Dat 0x39, Dat 0x00, Dat 0x01, Dat 0x03, Dat 0x10,
     Cmd 0xE1, Dat 0x03, Dat 0x1D, Dat 0x07, Dat 0x06, Dat 0x2E, Dat 0x2C, Dat 0x29, Dat 0x2D,
     Dat 0x2E, Dat 0x2E, Dat 0x37, Dat 0x3F, Dat 0x00, Dat 0x00, Dat 0x02, Dat 0x10]"

definition lcd_initial_window :: "lcd_stmt list" where
  "lcd_initial_window =
    [Cmd 0x2A, Dat 0x00, Dat 0x00, Dat 0x00, Dat 0x7F,
     Cmd 0x2B, Dat 0x00, Dat 0x00, Dat 0x00, Dat 0x9F,
     Cmd 0x3A, Dat 0x05,
     Cmd 0x29]"

definition lcd_initial :: "spi_lcd \<Rightarrow> spi_lcd" where
  "lcd_initial s =
     (let s = s\<lparr>DDRD := DDRD s OR push_bit DD_RES 1\<rparr>;
          s = delay_ms 1 s;
          s = s\<lparr>PORTD := PORTD s OR push_bit DD_RES 1\<rparr>
      in send_seq (lcd_initial_power @ lcd_initial_gamma @ lcd_initial_window) s)"

definition ClearDisplay :: "spi_lcd \<Rightarrow> spi_lcd" where
  "ClearDisplay s = dsp_single_colour 0xFF 0xFF (write_command 0x2C s)"

definition Write8bitPixel :: "u8 \<Rightarrow> spi_lcd \<Rightarrow> spi_lcd" where
  "Write8bitPixel pixel s =
     (let pixel16 = 0 :: u16;
          pixel16 = pixel16 OR push_bit 13 (ucast pixel AND 0x07);
          pixel16 = pixel16 OR push_bit 5 (ucast pixel AND push_bit 3 0x07);
          pixel16 = pixel16 OR push_bit 3 (ucast pixel AND push_bit 6 0x03)
      in LCD_DataWrite (ucast (pixel16 div 256)) (ucast pixel16) s)"

definition WritePixel :: "u16 \<Rightarrow> spi_lcd \<Rightarrow> spi_lcd" where
  "WritePixel pixel s = LCD_DataWrite (hi8 pixel) (lo8 pixel) s"

text \<open>\<open>tileX + tileW - 1\<close> is 16-bit unsigned arithmetic; the row and column offsets are 0.\<close>

definition spi_SetupTile :: "u16 \<Rightarrow> u16 \<Rightarrow> u8 \<Rightarrow> u8 \<Rightarrow> spi_lcd \<Rightarrow> spi_lcd" where
  "spi_SetupTile tileX tileY tileW tileH s =
     (let low = 0 + tileX;
          high = 0 + tileX + ucast tileW - 1;
          s = write_command 0x2A s;
          s = write_data (hi8 low) s;
          s = write_data (lo8 low) s;
          s = write_data (hi8 high) s;
          s = write_data (lo8 high) s;
          low = 0 + tileY;
          high = 0 + tileY + ucast tileH - 1;
          s = write_command 0x2B s;
          s = write_data (hi8 low) s;
          s = write_data (lo8 low) s;
          s = write_data (hi8 high) s;
          s = write_data (lo8 high) s
      in write_command 0x2C s)"

definition spi_DrawRawTile :: "u16 \<Rightarrow> u8 \<Rightarrow> bytes \<Rightarrow> spi_lcd \<Rightarrow> spi_lcd" where
  "spi_DrawRawTile pixelCount bpp pixelBuffer s =
     fold (\<lambda>i s. if bpp = 1 then Write8bitPixel (pixelBuffer ! i) s
                 else WritePixel (le16 pixelBuffer i) s)
       (step_indices (unat (pixelCount * ucast bpp)) (unat bpp)) s"

text \<open>\<open>hextileBuffer\<close> is the 16 by \<open>16*bpp\<close> array, row after row.\<close>

definition spi_DrawHextile :: "u8 \<Rightarrow> u8 \<Rightarrow> u8 \<Rightarrow> bytes \<Rightarrow> spi_lcd \<Rightarrow> spi_lcd" where
  "spi_DrawHextile tileW tileH bpp hextileBuffer s =
     fold (\<lambda>j s. fold (\<lambda>i s.
         if bpp = 1 then Write8bitPixel (hextileBuffer ! (j * (16 * unat bpp) + i)) s
         else WritePixel (le16 hextileBuffer (j * (16 * unat bpp) + i)) s)
       (step_indices (unat tileW * unat bpp) (unat bpp)) s) [0..<unat tileH] s"

definition LcdInit :: "spi_lcd \<Rightarrow> spi_lcd" where
  "LcdInit s =
     (let s = SpiLcdSetup s;
          s = lcd_initial s;
          s = write_command 0x2C s;
          s = dsp_single_colour 0xAA 0xAA s
      in ClearDisplay s)"

definition spi_display :: "spi_lcd display" where
  "spi_display = \<lparr>SetupTile = spi_SetupTile, DrawRawTile = spi_DrawRawTile,
                  DrawHextile = spi_DrawHextile\<rparr>"

section \<open>What reaches the wire\<close>

text \<open>
  Events of one command and one data byte: chip select low, A0 low for a command and high
  for data. Chip select is high again between transfers.
\<close>

definition cmd_event :: "u8 \<Rightarrow> lcd_event" where
  "cmd_event c = Transfer False False c"

definition dat_event :: "u8 \<Rightarrow> lcd_event" where
  "dat_event d = Transfer True False d"

definition pixel_events :: "u16 \<Rightarrow> lcd_event list" where
  "pixel_events p = [dat_event (hi8 p), dat_event (lo8 p)]"

definition idle :: "spi_lcd \<Rightarrow> bool" where
  "idle s \<longleftrightarrow> bit (PORTD s) DD_LCD_CS"

lemma wire_write_command: "wire (write_command c s) = wire s @ [cmd_event c]"
  by (simp add: write_command_def SPI_MasterTransmit_def cmd_event_def Let_def bit_simps)

lemma wire_write_data: "wire (write_data d s) = wire s @ [dat_event d]"
  by (simp add: write_data_def SPI_MasterTransmit_def dat_event_def Let_def bit_simps)

lemma idle_write_command: "idle (write_command c s)"
  by (simp add: idle_def write_command_def Let_def bit_simps)

lemma idle_write_data: "idle (write_data d s)"
  by (simp add: idle_def write_data_def Let_def bit_simps)

lemma wire_delay_ms: "wire (delay_ms n s) = wire s @ [Delay n]"
  by (simp add: delay_ms_def)

lemmas wire_simps = wire_write_command wire_write_data wire_delay_ms

lemma wire_LCD_DataWrite: "wire (LCD_DataWrite h l s) = wire s @ [dat_event h, dat_event l]"
  by (simp add: LCD_DataWrite_def wire_simps)

lemma wire_WritePixel: "wire (WritePixel p s) = wire s @ pixel_events p"
  by (simp add: WritePixel_def wire_LCD_DataWrite pixel_events_def)

lemma wire_fold:
  assumes "\<And>x s. wire (f x s) = wire s @ g x"
  shows "wire (fold f xs s) = wire s @ concat (map g xs)"
  by (induction xs arbitrary: s) (simp_all add: assms)

lemma wire_repeat:
  fixes f :: "spi_lcd \<Rightarrow> spi_lcd"
  assumes "\<And>s. wire (f s) = wire s @ g"
  shows "wire ((f ^^ n) s) = wire s @ concat (replicate n g)"
  by (induction n) (simp_all add: assms concat_replicate_Suc del: replicate_Suc)

lemma wire_dsp_single_colour:
  "wire (dsp_single_colour h l s) = wire s @ concat (replicate (160 * 128) [dat_event h, dat_event l])"
  unfolding dsp_single_colour_def fold_count2 by (rule wire_repeat) (rule wire_LCD_DataWrite)

lemma wire_ClearDisplay:
  "wire (ClearDisplay s) =
     wire s @ cmd_event 0x2C # concat (replicate (160 * 128) [dat_event 0xFF, dat_event 0xFF])"
  unfolding ClearDisplay_def wire_dsp_single_colour wire_write_command by (simp only: append_assoc append_Cons append_Nil)

lemma wire_send_seq:
  "wire (send_seq prog s) = wire s @
     map (\<lambda>x. case x of Cmd c \<Rightarrow> cmd_event c | Dat d \<Rightarrow> dat_event d | Wait n \<Rightarrow> Delay n) prog"
  by (induction prog arbitrary: s)
    (auto simp: send_seq_def wire_simps split: lcd_stmt.splits)

lemma spi_raw_pixels:
  "unat n \<le> 32767 \<Longrightarrow> spi_DrawRawTile n 2 xs s = fold WritePixel (pixels_of xs (unat n)) s"
  by (simp add: spi_DrawRawTile_def step_indices_2 unat_word_ariths pixels_of_def fold_map comp_def)

lemma wire_pixels: "wire (fold WritePixel ps s) = wire s @ concat (map pixel_events ps)"
  by (rule wire_fold) (rule wire_WritePixel)

lemma spi_hextile_rows:
  "spi_DrawHextile w h 2 buf s =
     fold WritePixel
       (concat (map (\<lambda>j. map (\<lambda>i. le16 buf (j * 32 + 2 * i)) [0..<unat w]) [0..<unat h])) s"
  by (simp add: spi_DrawHextile_def step_indices_2 fold_concat_map fold_map comp_def mult.commute)

definition window_events :: "u16 \<Rightarrow> u16 \<Rightarrow> u8 \<Rightarrow> u8 \<Rightarrow> lcd_event list" where
  "window_events x y w h =
     (let x1 = x + ucast w - 1; y1 = y + ucast h - 1 in
      [cmd_event 0x2A, dat_event (hi8 x), dat_event (lo8 x), dat_event (hi8 x1), dat_event (lo8 x1),
       cmd_event 0x2B, dat_event (hi8 y), dat_event (lo8 y), dat_event (hi8 y1), dat_event (lo8 y1),
       cmd_event 0x2C])"

lemma wire_SetupTile: "wire (spi_SetupTile x y w h s) = wire s @ window_events x y w h"
  by (simp add: spi_SetupTile_def window_events_def Let_def wire_simps)

lemma wire_hextile:
  "wire (spi_DrawHextile w h 2 buf s) =
     wire s @ concat (map pixel_events (row_major (\<lambda>x y. le16 buf (y * 32 + 2 * x)) (unat w) (unat h)))"
  by (simp add: spi_hextile_rows wire_pixels row_major_def)

section \<open>The driver keeps the display contract\<close>

interpretation spi: tile_display spi_display "\<lambda>d. True" wire window_events pixel_events
proof
  fix n m :: u16 and xs ys :: bytes and d
  show "DrawRawTile spi_display n 2 xs d = DrawRawTile spi_display n 2 ys d"
    if "take (2 * unat n) xs = take (2 * unat n) ys" "2 * unat n \<le> length xs"
      "2 * unat n \<le> length ys" "unat n \<le> 32767"
    using that pixels_of_cong [of "unat n" xs ys] by (simp add: spi_display_def spi_raw_pixels)
  show "DrawRawTile spi_display (m + n) 2 (xs @ ys) d
      = DrawRawTile spi_display n 2 ys (DrawRawTile spi_display m 2 xs d)"
    if "unat m + unat n \<le> 32767" "length xs = 2 * unat m" "2 * unat n \<le> length ys"
    using that
    by (simp add: spi_display_def spi_raw_pixels unat_word_ariths pixels_of_append)
  fix x y :: u16 and w h :: u8 and buf :: bytes
  show "wire (SetupTile spi_display x y w h d) = wire d @ window_events x y w h"
    by (simp add: spi_display_def wire_SetupTile)
  show "wire (DrawRawTile spi_display n 2 xs d) =
      wire d @ concat (map pixel_events (pixels_of xs (unat n)))" if "unat n \<le> 32767"
    using that by (simp add: spi_display_def spi_raw_pixels wire_pixels)
  show "wire (DrawHextile spi_display w h 2 buf d) =
      wire d @ concat (map pixel_events
        (row_major (\<lambda>x y. le16 buf (y * 32 + 2 * x)) (unat w) (unat h)))"
    by (simp add: spi_display_def wire_hextile)
qed simp_all

end
