(* ===== verification/ParallelLcd.thy ===== *)
theory ParallelLcd
  imports DisplayIface
begin

text \<open>
  The driver of the panel on the parallel bus, \<open>LCD Test/ParallelLcd.c\<close>, the other choice
  of \<open>VncDisplay.h\<close>. The panel latches the data port at each rising edge of the write
  strobe; \<open>bus\<close> is the list of these latches, with the levels of register-select and
  chip-select at that moment, and of the delays. The debug text of the pixel depth the
  driver does not support is not recorded.
\<close>

section \<open>Ports and bus\<close>

datatype bus_event = Latch bool bool u8 | Pause nat

record parallel_lcd =
  PLCD_DATA_DDR :: u8
  PLCD_DATA_PORT :: u8
  PLCD_CONTROL_DDR :: u8
  PLCD_CONTROL_PORT :: u8
  bus :: "bus_event list"

definition parallel_boot :: parallel_lcd where
  "parallel_boot = \<lparr>PLCD_DATA_DDR = 0, PLCD_DATA_PORT = 0, PLCD_CONTROL_DDR = 0,
                    PLCD_CONTROL_PORT = 0, bus = []\<rparr>"

abbreviation (input) "PLCD_RESET \<equiv> 4 :: nat"
abbreviation (input) "PLCD_CS \<equiv> 1 :: nat"
abbreviation (input) "PLCD_RD \<equiv> 7 :: nat"
abbreviation (input) "PLCD_WR \<equiv> 6 :: nat"
abbreviation (input) "PLCD_RS \<equiv> 5 :: nat"

definition plcd_low :: "nat \<Rightarrow> parallel_lcd \<Rightarrow> parallel_lcd" where
  "plcd_low pin s = s\<lparr>PLCD_CONTROL_PORT := PLCD_CONTROL_PORT s AND NOT (push_bit pin 1)\<rparr>"

definition plcd_high :: "nat \<Rightarrow> parallel_lcd \<Rightarrow> parallel_lcd" where
  "plcd_high pin s = s\<lparr>PLCD_CONTROL_PORT := PLCD_CONTROL_PORT s OR push_bit pin 1\<rparr>"

text \<open>\<open>PLCD_DRIVE_WR_HIGH\<close>: a rising edge makes the panel latch the data port.\<close>

definition plcd_wr_high :: "parallel_lcd \<Rightarrow> parallel_lcd" where
  "plcd_wr_high s =
     (let t = plcd_high PLCD_WR s in
      if bit (PLCD_CONTROL_PORT s) PLCD_WR then t
      else t\<lparr>bus := bus t @ [Latch (bit (PLCD_CONTROL_PORT t) PLCD_RS)
               (bit (PLCD_CONTROL_PORT t) PLCD_CS) (PLCD_DATA_PORT t)]\<rparr>)"

definition plcd_delay_ms :: "nat \<Rightarrow> parallel_lcd \<Rightarrow> parallel_lcd" where
  "plcd_delay_ms n s = s\<lparr>bus := bus s @ [Pause n]\<rparr>"

section \<open>The driver\<close>

definition Lcd_Write_Data :: "u16 \<Rightarrow> parallel_lcd \<Rightarrow> parallel_lcd" where
  "Lcd_Write_Data DH s =
     (let s = s\<lparr>PLCD_DATA_PORT := ucast (drop_bit 8 DH)\<rparr>;
          s = plcd_low PLCD_WR s;
          s = plcd_wr_high s;
          s = s\<lparr>PLCD_DATA_PORT := ucast DH\<rparr>;
          s = plcd_low PLCD_WR s
      in plcd_wr_high s)"

definition Lcd_Write_Com :: "u16 \<Rightarrow> parallel_lcd \<Rightarrow> parallel_lcd" where
  "Lcd_Write_Com DH s =
     (let s = plcd_low PLCD_RS s;
          s = s\<lparr>PLCD_DATA_PORT := ucast (drop_bit 8 DH)\<rparr>;
          s = plcd_low PLCD_WR s;
          s = plcd_wr_high s;
          s = s\<lparr>PLCD_DATA_PORT := ucast DH\<rparr>;
          s = plcd_low PLCD_WR s;
          s = plcd_wr_high s
      in plcd_high PLCD_RS s)"

definition Lcd_Write_Com_Data :: "u16 \<Rightarrow> u16 \<Rightarrow> parallel_lcd \<Rightarrow> parallel_lcd" where
  "Lcd_Write_Com_Data com1 dat1 s = Lcd_Write_Data dat1 (Lcd_Write_Com com1 s)"

definition Address_set :: "u16 \<Rightarrow> u16 \<Rightarrow> u16 \<Rightarrow> u16 \<Rightarrow> parallel_lcd \<Rightarrow> parallel_lcd" where
  "Address_set x1 y1 x2 y2 s =
     (let s = Lcd_Write_Com_Data 0x0002 0x0000 s;
          s = Lcd_Write_Com_Data 0x0003 x1 s;
          s = Lcd_Write_Com_Data 0x0004 0x0000 s;
          s = Lcd_Write_Com_Data 0x0005 x2 s;
          s = Lcd_Write_Com_Data 0x0006 0x0000 s;
          s = Lcd_Write_Com_Data 0x0007 y1 s;
          s = Lcd_Write_Com_Data 0x0008 0x0000 s;
          s = Lcd_Write_Com_Data 0x0009 y2 s
      in Lcd_Write_Com 0x22 s)"

definition Pant :: "u16 \<Rightarrow> parallel_lcd \<Rightarrow> parallel_lcd" where
  "Pant color s =
     fold (\<lambda>i s. fold (\<lambda>j s. Lcd_Write_Data color s) [0..<176] s) [0..<220]
       (Address_set 0 0 175 219 s)"

definition par_SetupTile :: "u16 \<Rightarrow> u16 \<Rightarrow> u8 \<Rightarrow> u8 \<Rightarrow> parallel_lcd \<Rightarrow> parallel_lcd" where
  "par_SetupTile tileX tileY tileW tileH s =
     Address_set tileX tileY (tileX + ucast tileW - 1) (tileY + ucast tileH - 1) s"

definition par_DrawRawTile :: "u16 \<Rightarrow> u8 \<Rightarrow> bytes \<Rightarrow> parallel_lcd \<Rightarrow> parallel_lcd" where
  "par_DrawRawTile pixelCount bpp pixelBuffer s =
     fold (\<lambda>i s. if bpp = 1 then s else Lcd_Write_Data (le16 pixelBuffer i) s)
       (step_indices (unat (pixelCount * ucast bpp)) (unat bpp)) s"

definition par_DrawHextile :: "u8 \<Rightarrow> u8 \<Rightarrow> u8 \<Rightarrow> bytes \<Rightarrow> parallel_lcd \<Rightarrow> parallel_lcd" where
  "par_DrawHextile tileW tileH bpp hextileBuffer s =
     fold (\<lambda>j s. fold (\<lambda>i s.
         if bpp = 1 then s
         else Lcd_Write_Data (le16 hextileBuffer (j * (16 * unat bpp) + i)) s)
       (step_indices (unat tileW * unat bpp) (unat bpp)) s) [0..<unat tileH] s"

text \<open>
  \<open>LcdInit\<close> is a line of register writes and delays, between the reset pulse and the
  three fills of the screen.
\<close>

datatype plcd_stmt = ComData u16 u16 | Com u16 | Sleep nat

primrec plcd_run :: "plcd_stmt \<Rightarrow> parallel_lcd \<Rightarrow> parallel_lcd" where
  "plcd_run (ComData c d) s = Lcd_Write_Com_Data c d s"
| "plcd_run (Com c) s = Lcd_Write_Com c s"
| "plcd_run (Sleep n) s = plcd_delay_ms n s"

definition plcd_display_on :: "plcd_stmt list" where
  "plcd_display_on =
    [ComData 0x0026 0x0084, Sleep 40, ComData 0x0026 0x00B8, Sleep 40, ComData 0x0026 0x00BC,
     Sleep 20]"

definition plcd_driving :: "plcd_stmt list" where
  "plcd_driving =
    [ComData 0x0060 0x0000, ComData 0x0061 0x0006, ComData 0x0062 0x0000, ComData 0x0063 0x00C8,
     Sleep 20]"

definition plcd_gamma :: "plcd_stmt list" where
  "plcd_gamma =
    [ComData 0x0073 0x0070, ComData 0x0040 0x0000, ComData 0x0041 0x0040, ComData 0x0042 0x0045,
     ComData 0x0043 0x0001, ComData 0x0044 0x0060, ComData 0x0045 0x0005, ComData 0x0046 0x000C,
     ComData 0x0047 0x00D1, ComData 0x0048 0x0005, ComData 0x0050 0x0075, ComData 0x0051 0x0001,
     ComData 0x0052 0x0067, ComData 0x0053 0x0014, ComData 0x0054 0x00F2, ComData 0x0055 0x0007,
     ComData 0x0056 0x0003, ComData 0x0057 0x0049, Sleep 20]"

definition plcd_power :: "plcd_stmt list" where
  "plcd_power =
    [ComData 0x001F 0x0003, ComData 0x0020 0x0000, ComData 0x0024 0x0024, ComData 0x0025 0x0034,
     ComData 0x0023 0x002F, Sleep 20, ComData 0x0018 0x0044, ComData 0x0021 0x0001,
     ComData 0x0001 0x0000, ComData 0x001C 0x0003, ComData 0x0019 0x0006, Sleep 20]"

definition plcd_gram_area :: "plcd_stmt list" where
  "plcd_gram_area =
    [ComData 0x0002 0x0000, ComData 0x0003 0x0000, ComData 0x0004 0x0000, ComData 0x0005 0x00AF,
     ComData 0x0006 0x0000, ComData 0x0007 0x0000, ComData 0x0008 0x0000, ComData 0x0009 0x00DB,
     Sleep 20, ComData 0x0016 0x0008, ComData 0x0005 0x00DB, ComData 0x0009 0x00AF,
     ComData 0x0017 0x0005, Com 0x0021, Com 0x0022]"

definition plcd_reset :: "parallel_lcd \<Rightarrow> parallel_lcd" where
  "plcd_reset s =
     (let lines = push_bit PLCD_RESET 1 OR push_bit PLCD_CS 1 OR push_bit PLCD_RD 1 OR
                  push_bit PLCD_WR 1 OR push_bit PLCD_RS 1;
          s = s\<lparr>PLCD_CONTROL_PORT := PLCD_CONTROL_PORT s OR lines\<rparr>;
          s = s\<lparr>PLCD_CONTROL_DDR := PLCD_CONTROL_DDR s OR lines\<rparr>;
          s = s\<lparr>PLCD_DATA_DDR := 0xFF\<rparr>;
          s = plcd_delay_ms 5 s;
          s = plcd_low PLCD_RESET s;
          s = plcd_delay_ms 10 s;
          s = plcd_high PLCD_RESET s;
          s = plcd_delay_ms 20 s
      in plcd_low PLCD_CS s)"

definition par_LcdInit :: "parallel_lcd \<Rightarrow> parallel_lcd" where
  "par_LcdInit s =
     (let s = plcd_reset s;
          s = fold plcd_run (plcd_display_on @ plcd_driving @ plcd_gamma @ plcd_power @
                plcd_display_on @ plcd_gram_area) s;
          s = Pant 0xf800 s;
          s = Pant 0x07E0 s
      in Pant 0x001f s)"

definition parallel_display :: "parallel_lcd display" where
  "parallel_display = \<lparr>SetupTile = par_SetupTile, DrawRawTile = par_DrawRawTile,
                       DrawHextile = par_DrawHextile\<rparr>"

section \<open>What reaches the bus\<close>

text \<open>
  The driver never changes chip-select after its initialisation and leaves
  register-select high, so the levels on the bus are a property of the state: \<open>ready\<close>.
  What the panel takes, apart from these levels, is \<open>latched\<close>.
\<close>

definition ready :: "parallel_lcd \<Rightarrow> bool" where
  "ready s \<longleftrightarrow> bit (PLCD_CONTROL_PORT s) PLCD_RS \<and> \<not> bit (PLCD_CONTROL_PORT s) PLCD_CS"

definition data_events :: "u16 \<Rightarrow> bus_event list" where
  "data_events d = [Latch True False (hi8 d), Latch True False (lo8 d)]"

definition com_events :: "u16 \<Rightarrow> bus_event list" where
  "com_events c = [Latch False False (hi8 c), Latch False False (lo8 c)]"

lemma hi8_drop: "ucast (drop_bit 8 w :: u16) = hi8 w"
  by (simp add: hi8_def drop_bit_eq_div)

lemma bus_Lcd_Write_Data:
  "ready s \<Longrightarrow> bus (Lcd_Write_Data d s) = bus s @ data_events d \<and> ready (Lcd_Write_Data d s)"
  by (simp add: Lcd_Write_Data_def Let_def plcd_low_def plcd_high_def plcd_wr_high_def ready_def
      data_events_def bit_simps hi8_drop lo8_def)

lemma bus_Lcd_Write_Com:
  "ready s \<Longrightarrow> bus (Lcd_Write_Com d s) = bus s @ com_events d \<and> ready (Lcd_Write_Com d s)"
  by (simp add: Lcd_Write_Com_def Let_def plcd_low_def plcd_high_def plcd_wr_high_def ready_def
      com_events_def bit_simps hi8_drop lo8_def)

lemma bus_Lcd_Write_Com_Data:
  "ready s \<Longrightarrow> bus (Lcd_Write_Com_Data c d s) = bus s @ com_events c @ data_events d \<and>
     ready (Lcd_Write_Com_Data c d s)"
  by (simp add: Lcd_Write_Com_Data_def bus_Lcd_Write_Com bus_Lcd_Write_Data)

lemmas bus_simps = bus_Lcd_Write_Data bus_Lcd_Write_Com bus_Lcd_Write_Com_Data

lemma bus_fold:
  assumes "\<And>x s. ready s \<Longrightarrow> bus (f x s) = bus s @ g x \<and> ready (f x s)"
  shows "ready s \<Longrightarrow> bus (fold f xs s) = bus s @ concat (map g xs) \<and> ready (fold f xs s)"
  by (induction xs arbitrary: s) (simp_all add: assms)

definition address_events :: "u16 \<Rightarrow> u16 \<Rightarrow> u16 \<Rightarrow> u16 \<Rightarrow> bus_event list" where
  "address_events x1 y1 x2 y2 =
     concat (map (\<lambda>(c, d). com_events c @ data_events d)
       [(2, 0), (3, x1), (4, 0), (5, x2), (6, 0), (7, y1), (8, 0), (9, y2)]) @ com_events 0x22"

lemma bus_Address_set:
  "ready s \<Longrightarrow> bus (Address_set x1 y1 x2 y2 s) = bus s @ address_events x1 y1 x2 y2 \<and>
     ready (Address_set x1 y1 x2 y2 s)"
  by (simp add: Address_set_def Let_def bus_simps address_events_def)

definition par_window :: "u16 \<Rightarrow> u16 \<Rightarrow> u8 \<Rightarrow> u8 \<Rightarrow> bus_event list" where
  "par_window x y w h = address_events x y (x + ucast w - 1) (y + ucast h - 1)"

lemma par_raw_pixels:
  "unat n \<le> 32767 \<Longrightarrow> par_DrawRawTile n 2 xs s = fold Lcd_Write_Data (pixels_of xs (unat n)) s"
  by (simp add: par_DrawRawTile_def step_indices_2 unat_word_ariths pixels_of_def fold_map comp_def)

lemma bus_pixels:
  "ready s \<Longrightarrow> bus (fold Lcd_Write_Data ps s) = bus s @ concat (map data_events ps) \<and>
     ready (fold Lcd_Write_Data ps s)"
  by (rule bus_fold) (rule bus_Lcd_Write_Data)

lemma par_hextile_rows:
  "par_DrawHextile w h 2 buf s =
     fold Lcd_Write_Data (row_major (\<lambda>x y. le16 buf (y * 32 + 2 * x)) (unat w) (unat h)) s"
  by (simp add: par_DrawHextile_def step_indices_2 fold_concat_map fold_map comp_def row_major_def
      mult.commute)

section \<open>The driver keeps the display contract\<close>

interpretation par: tile_display parallel_display ready bus par_window data_events
proof
  fix n m :: u16 and xs ys :: bytes and d
  show "DrawRawTile parallel_display n 2 xs d = DrawRawTile parallel_display n 2 ys d"
    if "take (2 * unat n) xs = take (2 * unat n) ys" "2 * unat n \<le> length xs"
      "2 * unat n \<le> length ys" "unat n \<le> 32767"
    using that pixels_of_cong [of "unat n" xs ys]
    by (simp add: parallel_display_def par_raw_pixels)
  show "DrawRawTile parallel_display (m + n) 2 (xs @ ys) d
      = DrawRawTile parallel_display n 2 ys (DrawRawTile parallel_display m 2 xs d)"
    if "unat m + unat n \<le> 32767" "length xs = 2 * unat m" "2 * unat n \<le> length ys"
    using that
    by (simp add: parallel_display_def par_raw_pixels unat_word_ariths pixels_of_append)
qed (simp_all add: parallel_display_def par_SetupTile_def par_window_def bus_Address_set
      par_raw_pixels bus_pixels par_hextile_rows)

text \<open>After \<open>LcdInit\<close> the driver is ready, whatever the ports held before.\<close>

lemma ready_plcd_run: "ready s \<Longrightarrow> ready (plcd_run st s)"
  by (cases st) (simp_all add: bus_simps plcd_delay_ms_def, simp add: ready_def)

lemma ready_fold: "(\<And>x s. ready s \<Longrightarrow> ready (f x s)) \<Longrightarrow> ready s \<Longrightarrow> ready (fold f xs s)"
  by (induction xs arbitrary: s) simp_all

lemma ready_Pant: "ready s \<Longrightarrow> ready (Pant c s)"
  unfolding Pant_def by (intro ready_fold) (simp_all add: bus_simps bus_Address_set)

lemma ready_reset: "ready (plcd_reset s)"
  by (simp add: ready_def plcd_reset_def Let_def plcd_low_def plcd_high_def plcd_delay_ms_def
      bit_simps)

lemma ready_LcdInit: "ready (par_LcdInit s)"
  unfolding par_LcdInit_def Let_def
  by (intro ready_Pant ready_fold [of plcd_run] ready_plcd_run ready_reset)

lemma bus_repeat:
  "ready s \<Longrightarrow> bus ((Lcd_Write_Data c ^^ n) s) = bus s @ concat (replicate n (data_events c)) \<and>
     ready ((Lcd_Write_Data c ^^ n) s)"
  by (induction n) (simp_all add: bus_simps concat_replicate_Suc del: replicate_Suc)

lemma bus_Pant:
  assumes "ready s"
  shows "bus (Pant c s) =
    bus s @ address_events 0 0 175 219 @ concat (replicate (220 * 176) (data_events c))"
proof -
  note a = bus_Address_set [OF assms, of 0 0 175 219]
  show ?thesis
    unfolding Pant_def fold_count2 conjunct1 [OF bus_repeat [OF conjunct2 [OF a]]] conjunct1 [OF a]
    by (rule append_assoc)
qed

end
