(* ===== verification/VncDisplay.thy ===== *)
theory VncDisplay
  imports SpiLcd ParallelLcd
begin

text \<open>
  \<open>LCD Test/VncDisplay.h\<close> and \<open>VncDisplay.c\<close>: the choice between the two panel drivers. The
  choice is made when the program is compiled, so the code that draws is parameterised by a
  \<open>display\<close>, and the two drivers are its two instances; the sources at hand select the SPI
  panel.
\<close>

datatype lcd_selection = VNC_LCD_SPI | VNC_LCD_PARALLEL

definition VNC_LCD_SELECTION :: lcd_selection where
  "VNC_LCD_SELECTION = VNC_LCD_SPI"

definition VncDisplayInit :: "('d \<Rightarrow> 'd) \<Rightarrow> 'd \<Rightarrow> 'd" where
  "VncDisplayInit lcdInit d = lcdInit d"

end
