(* ===== verification/VncTypes.thy ===== *)
theory VncTypes
  imports RxCursor VncDisplay
begin

text \<open>
  The data of \<open>LCD Test/vnc.c\<close>: its enumerations, its constants and its static variables.
  The four state variables of the file are \<open>unsigned char\<close>s holding the enumerations; the
  code compares two of them with \<open><\<close> and \<open>>\<close>, so those two are linear orders here, in
  the order of the C declaration.
\<close>

section \<open>Enumerations\<close>

datatype vncstate =
    VNCSTATE_DEAD
  | VNCSTATE_AUTHFAILED
  | VNCSTATE_NOTCONNECTED
  | VNCSTATE_WAITFORAUTHTYPE
  | VNCSTATE_WAITFORVNCAUTHWORD
  | VNCSTATE_WAITFORVNCAUTHRESPONSE
  | VNCSTATE_SENTCLIENTINITMESSAGE
  | VNCSTATE_WAITFORSERVERNAME
  | VNCSTATE_CONNECTED
  | VNCSTATE_CONNECTED_REFRESH
  | VNCSTATE_WAITFORUPDATE
  | VNCSTATE_PROCESSINGUPDATE
  | VNCSTATE_PROCESSDONE

datatype vncsendstate =
    VNCSENDSTATE_INIT
  | VNCSENDSTATE_VERSIONSENT
  | VNCSENDSTATE_AUTHWORDSENT
  | VNCSENDSTATE_CLIENTINITMESSAGESENT
  | VNCSENDSTATE_PIXELFORMATSENT
  | VNCSENDSTATE_ENCODINGTYPESENT
  | VNCSENDSTATE_PARTIALREFRESHSENT

datatype vncppstate =
    VNCPPSTATE_IDLE
  | VNCPPSTATE_OUTBOUNDS
  | VNCPPSTATE_HEXTILE
  | VNCPPSTATE_COPYRECT

datatype hextilestate =
    HEXTILESTATE_INIT
  | HEXTILESTATE_DONE
  | HEXTILESTATE_PARSEHEADER
  | HEXTILESTATE_DRAWRAW
  | HEXTILESTATE_DROPRAW
  | HEXTILESTATE_FILLBUFFER
  | HEXTILESTATE_DRAWTILE

primrec vncstate_code :: "vncstate \<Rightarrow> nat" where
  "vncstate_code VNCSTATE_DEAD = 0"
| "vncstate_code VNCSTATE_AUTHFAILED = 1"
| "vncstate_code VNCSTATE_NOTCONNECTED = 2"
| "vncstate_code VNCSTATE_WAITFORAUTHTYPE = 3"
| "vncstate_code VNCSTATE_WAITFORVNCAUTHWORD = 4"
| "vncstate_code VNCSTATE_WAITFORVNCAUTHRESPONSE = 5"
| "vncstate_code VNCSTATE_SENTCLIENTINITMESSAGE = 6"
| "vncstate_code VNCSTATE_WAITFORSERVERNAME = 7"
| "vncstate_code VNCSTATE_CONNECTED = 8"
| "vncstate_code VNCSTATE_CONNECTED_REFRESH = 9"
| "vncstate_code VNCSTATE_WAITFORUPDATE = 10"
| "vncstate_code VNCSTATE_PROCESSINGUPDATE = 11"
| "vncstate_code VNCSTATE_PROCESSDONE = 12"

primrec vncsendstate_code :: "vncsendstate \<Rightarrow> nat" where
  "vncsendstate_code VNCSENDSTATE_INIT = 0"
| "vncsendstate_code VNCSENDSTATE_VERSIONSENT = 1"
| "vncsendstate_code VNCSENDSTATE_AUTHWORDSENT = 2"
| "vncsendstate_code VNCSENDSTATE_CLIENTINITMESSAGESENT = 3"
| "vncsendstate_code VNCSENDSTATE_PIXELFORMATSENT = 4"
| "vncsendstate_code VNCSENDSTATE_ENCODINGTYPESENT = 5"
| "vncsendstate_code VNCSENDSTATE_PARTIALREFRESHSENT = 6"

lemma vncstate_code_inject [simp]: "vncstate_code a = vncstate_code b \<longleftrightarrow> a = b"
  by (cases a; cases b) simp_all

lemma vncsendstate_code_inject [simp]: "vncsendstate_code a = vncsendstate_code b \<longleftrightarrow> a = b"
  by (cases a; cases b) simp_all

instantiation vncstate :: linorder
begin

definition less_eq_vncstate :: "vncstate \<Rightarrow> vncstate \<Rightarrow> bool" where
  "less_eq_vncstate a b \<longleftrightarrow> vncstate_code a \<le> vncstate_code b"

definition less_vncstate :: "vncstate \<Rightarrow> vncstate \<Rightarrow> bool" where
  "less_vncstate a b \<longleftrightarrow> vncstate_code a < vncstate_code b"

instance
  by standard (auto simp: less_eq_vncstate_def less_vncstate_def)

end

instantiation vncsendstate :: linorder
begin

definition less_eq_vncsendstate :: "vncsendstate \<Rightarrow> vncsendstate \<Rightarrow> bool" where
  "less_eq_vncsendstate a b \<longleftrightarrow> vncsendstate_code a \<le> vncsendstate_code b"

definition less_vncsendstate :: "vncsendstate \<Rightarrow> vncsendstate \<Rightarrow> bool" where
  "less_vncsendstate a b \<longleftrightarrow> vncsendstate_code a < vncsendstate_code b"

instance
  by standard (auto simp: less_eq_vncsendstate_def less_vncsendstate_def)

end

lemmas state_order = less_eq_vncstate_def less_vncstate_def
  less_eq_vncsendstate_def less_vncsendstate_def

section \<open>Constants\<close>

abbreviation (input) "HEXTILE_RAW_MASK \<equiv> 0x01 :: u8"
abbreviation (input) "HEXTILE_BACKGROUND_MASK \<equiv> 0x02 :: u8"
abbreviation (input) "HEXTILE_FOREGROUND_MASK \<equiv> 0x04 :: u8"
abbreviation (input) "HEXTILE_SUBRECT_MASK \<equiv> 0x08 :: u8"
abbreviation (input) "HEXTILE_SUBRECTCOLOR_MASK \<equiv> 0x10 :: u8"

definition SCREEN_WIDTH :: u16 where "SCREEN_WIDTH = 128"
definition SCREEN_HEIGHT :: u16 where "SCREEN_HEIGHT = 160"

text \<open>
  \<open>BYTES_PER_PIXEL\<close> is 2, so the code under \<open>if(BYTES_PER_PIXEL == 2)\<close> is always compiled
  in. The display window variables are initialised and never assigned.
\<close>

abbreviation (input) "BYTES_PER_PIXEL \<equiv> 2"

definition windowX0 :: u16 where "windowX0 = 0"
definition windowY0 :: u16 where "windowY0 = 0"
definition windowX1 :: u16 where "windowX1 = SCREEN_WIDTH"
definition windowY1 :: u16 where "windowY1 = SCREEN_HEIGHT"

section \<open>Static variables\<close>

text \<open>
  \<open>cur\<close> holds \<open>dataPtr\<close>, \<open>dataSize\<close> and the object they point into; \<open>hextileBuffer\<close> is
  the 16 by 32 byte array, row after row, and \<open>hoob\<close> records a store outside it. \<open>panel\<close> is
  the state of the display driver. The output of the debug macros is not recorded, but for
  \<open>rejected\<close>, which is set where the code prints the mark \<open>'R'\<close> for a rectangle it cannot
  decode.
\<close>

record 'd vnc =
  rectangleCount :: u16
  interPixelCount :: u32
  updateWindowX0 :: u16
  updateWindowY0 :: u16
  updateWindowX1 :: u16
  updateWindowY1 :: u16
  VNCstate :: vncstate
  VNCsendState :: vncsendstate
  VNCpixelProcessorState :: vncppstate
  hextileState :: hextilestate
  cur :: cursor
  tileX :: u16
  tileY :: u16
  tileW :: u8
  tileH :: u8
  background :: u16
  foreground :: u16
  subencodingByte :: u8
  numSubrects :: u8
  hextileBuffer :: bytes
  hoob :: bool
  rejected :: bool
  panel :: 'd

text \<open>Static storage at start-up: zero, or the initialiser of the declaration.\<close>

definition vnc_boot :: "'d \<Rightarrow> 'd vnc" where
  "vnc_boot d =
    \<lparr>rectangleCount = 0, interPixelCount = 0, updateWindowX0 = 0, updateWindowY0 = 0,
     updateWindowX1 = 0, updateWindowY1 = 0, VNCstate = VNCSTATE_NOTCONNECTED,
     VNCsendState = VNCSENDSTATE_INIT, VNCpixelProcessorState = VNCPPSTATE_IDLE,
     hextileState = HEXTILESTATE_INIT,
     cur = \<lparr>cbuf = [], dataPtr = 0, dataSize = 0, oob = False\<rparr>,
     tileX = 0, tileY = 0, tileW = 0, tileH = 0, background = 0, foreground = 0,
     subencodingByte = 0, numSubrects = 0, hextileBuffer = replicate 512 0, hoob = False,
     rejected = False, panel = d\<rparr>"

abbreviation unread :: "'d vnc \<Rightarrow> nat" where
  "unread s \<equiv> unat (dataSize (cur s))"

definition fault :: "'d vnc \<Rightarrow> bool" where
  "fault s \<longleftrightarrow> oob (cur s) \<or> hoob s"

text \<open>\<open>ext ys s t\<close>: \<open>t\<close> is \<open>s\<close> with \<open>ys\<close> behind its unread bytes.\<close>

definition ext :: "bytes \<Rightarrow> 'd vnc \<Rightarrow> 'd vnc \<Rightarrow> bool" where
  "ext ys s t \<longleftrightarrow> t = s\<lparr>cur := cur t\<rparr> \<and> feeds ys (cur s) (cur t)"

lemma extI [intro]: "feeds ys (cur s) c \<Longrightarrow> ext ys s (s\<lparr>cur := c\<rparr>)"
  by (simp add: ext_def)

lemma extE:
  assumes "ext ys s t"
  obtains d where "t = s\<lparr>cur := d\<rparr>" and "feeds ys (cur s) d"
  using assms by (auto simp: ext_def)

lemma ext_sym0: "ext [] s t \<Longrightarrow> ext [] t s"
proof (elim extE)
  fix d
  assume "t = s\<lparr>cur := d\<rparr>" "feeds [] (cur s) d"
  then show "ext [] t s" by (simp add: ext_def feeds_sym0)
qed

lemma ext_trans: "ext xs s t \<Longrightarrow> ext ys t u \<Longrightarrow> ext (xs @ ys) s u"
proof (elim extE)
  fix d e
  assume "t = s\<lparr>cur := d\<rparr>" "feeds xs (cur s) d" "u = t\<lparr>cur := e\<rparr>" "feeds ys (cur t) e"
  then have "u = s\<lparr>cur := e\<rparr>" "feeds (xs @ ys) (cur s) e"
    by (auto intro: feeds_trans)
  then show "ext (xs @ ys) s u" by auto
qed

lemma ext_refl: "cwf (cur s) \<Longrightarrow> ext [] s s"
  by (simp add: ext_def feeds_refl)

end
