(* ===== verification/Hextile.thy ===== *)
theory Hextile
  imports VncTypes
begin

text \<open>
  The hextile decoder of \<open>LCD Test/vnc.c\<close>: \<open>dropOutOfViewPixels\<close> and \<open>processHextile\<close>,
  one definition per case of its switch, and the loop \<open>while( processHextile() )\<close>. A result
  0 means that bytes are missing or that the rectangle is done, 1 that the call made
  progress.
\<close>

section \<open>Dropping pixels\<close>

definition dropOutOfViewPixels :: "'d vnc \<Rightarrow> int \<times> 'd vnc" where
  "dropOutOfViewPixels s =
     (let need = interPixelCount s * BYTES_PER_PIXEL in
      if need \<le> ucast (dataSize (cur s))
      then (1, s\<lparr>cur := advance (unat need) (cur s), interPixelCount := 0\<rparr>)
      else if ucast (dataSize (cur s)) < need \<and> dataSize (cur s) \<noteq> 0
      then (let pixelsToRemove = dataSize (cur s) div BYTES_PER_PIXEL
            in (0, s\<lparr>cur := advance (unat (pixelsToRemove * BYTES_PER_PIXEL)) (cur s),
                     interPixelCount := interPixelCount s - ucast pixelsToRemove\<rparr>))
      else (0, s))"

section \<open>The cases of processHextile\<close>

text \<open>\<open>tileW\<close> and \<open>tileH\<close> are \<open>unsigned char\<close>: the 16-bit extent is truncated.\<close>

definition hextile_init :: "'d vnc \<Rightarrow> int \<times> 'd vnc" where
  "hextile_init s =
     (let s = s\<lparr>tileX := updateWindowX0 s, tileY := updateWindowY0 s\<rparr>;
          s = s\<lparr>tileW := if updateWindowX1 s < updateWindowX0 s + 16
                          then ucast (updateWindowX1 s - updateWindowX0 s) else 16,
                tileH := if updateWindowY1 s < updateWindowY0 s + 16
                          then ucast (updateWindowY1 s - updateWindowY0 s) else 16\<rparr>
      in (1, s\<lparr>hextileState := HEXTILESTATE_PARSEHEADER\<rparr>))"

definition hextile_done :: "'d vnc \<Rightarrow> int \<times> 'd vnc" where
  "hextile_done s =
     (let s = s\<lparr>tileX := tileX s + ucast (tileW s)\<rparr> in
      if tileX s = updateWindowX1 s \<and> tileY s + ucast (tileH s) = updateWindowY1 s
      then (0, s\<lparr>VNCpixelProcessorState := VNCPPSTATE_IDLE, hextileState := HEXTILESTATE_INIT\<rparr>)
      else (let s = (if tileX s = updateWindowX1 s
                     then (let s = s\<lparr>tileX := updateWindowX0 s,
                                     tileY := tileY s + ucast (tileH s)\<rparr>
                           in s\<lparr>tileH := if updateWindowY1 s < tileY s + 16
                                          then ucast (updateWindowY1 s - tileY s) else 16\<rparr>)
                     else s);
                s = s\<lparr>tileW := if updateWindowX1 s < tileX s + 16
                                then ucast (updateWindowX1 s - tileX s) else 16\<rparr>
            in (1, s\<lparr>hextileState := HEXTILESTATE_PARSEHEADER\<rparr>)))"

text \<open>The test that keeps a tile that only partly overlaps the display from being drawn.\<close>

definition tile_outside :: "'d vnc \<Rightarrow> bool" where
  "tile_outside s \<longleftrightarrow> tileX s < windowX0 \<or> tileX s + ucast (tileW s) > windowX1 \<or>
     tileY s < windowY0 \<or> tileY s + ucast (tileH s) > windowY1"

text \<open>
  A store of a 16-bit pixel at row \<open>j\<close>, byte column \<open>i\<close> of \<open>hextileBuffer\<close>, and the
  two nested loops that store a rectangle of them.
\<close>

definition put_pixel :: "nat \<Rightarrow> nat \<Rightarrow> u16 \<Rightarrow> 'd vnc \<Rightarrow> 'd vnc" where
  "put_pixel j i c s =
     s\<lparr>hextileBuffer := (hextileBuffer s)[j * 32 + i := lo8 c, j * 32 + i + 1 := hi8 c],
       hoob := hoob s \<or> length (hextileBuffer s) \<le> j * 32 + i + 1\<rparr>"

definition put_rect :: "nat \<Rightarrow> nat \<Rightarrow> nat \<Rightarrow> nat \<Rightarrow> u16 \<Rightarrow> 'd vnc \<Rightarrow> 'd vnc" where
  "put_rect x0 x1 y0 y1 c s =
     fold (\<lambda>j s. fold (\<lambda>i s. put_pixel j i c s)
       (map (\<lambda>x. x * BYTES_PER_PIXEL) [x0..<Suc x1]) s) [y0..<Suc y1] s"

definition read_pixel :: "'d vnc \<Rightarrow> u16 \<times> 'd vnc" where
  "read_pixel s =
     (let c = touch 2 (cur s)
      in (ucast (peek c 0) OR ucast (peek c 1) * 256, s\<lparr>cur := advance 2 c\<rparr>))"

definition header_rest :: "u8 \<Rightarrow> u8" where
  "header_rest sb =
     (if sb AND HEXTILE_BACKGROUND_MASK \<noteq> 0 then BYTES_PER_PIXEL else 0) +
     (if sb AND HEXTILE_FOREGROUND_MASK \<noteq> 0 then BYTES_PER_PIXEL else 0) +
     (if sb AND HEXTILE_SUBRECT_MASK \<noteq> 0 then BYTES_PER_PIXEL else 0)"

definition parse_raw_tile :: "'d display \<Rightarrow> 'd vnc \<Rightarrow> int \<times> 'd vnc" where
  "parse_raw_tile D s =
     (let s = s\<lparr>interPixelCount := scast (ucast (tileW s) * ucast (tileH s) :: u16)\<rparr> in
      if tile_outside s then (1, s\<lparr>hextileState := HEXTILESTATE_DROPRAW\<rparr>)
      else (1, s\<lparr>panel := SetupTile D (tileX s) (tileY s) (tileW s) (tileH s) (panel s),
                 hextileState := HEXTILESTATE_DRAWRAW\<rparr>))"

definition parse_background :: "'d vnc \<Rightarrow> 'd vnc" where
  "parse_background s =
     (if subencodingByte s AND HEXTILE_BACKGROUND_MASK \<noteq> 0
      then (case read_pixel s of (p, s) \<Rightarrow> s\<lparr>background := p\<rparr>) else s)"

definition parse_foreground :: "'d vnc \<Rightarrow> 'd vnc" where
  "parse_foreground s =
     (if subencodingByte s AND HEXTILE_FOREGROUND_MASK \<noteq> 0
      then (case read_pixel s of (p, s) \<Rightarrow> s\<lparr>foreground := p\<rparr>) else s)"

definition parse_numSubrects :: "'d vnc \<Rightarrow> 'd vnc" where
  "parse_numSubrects s =
     (if subencodingByte s AND HEXTILE_SUBRECT_MASK \<noteq> 0
      then (let c = touch 1 (cur s) in s\<lparr>cur := advance 1 c, numSubrects := peek c 0\<rparr>)
      else s\<lparr>numSubrects := 0\<rparr>)"

definition parse_tile :: "'d display \<Rightarrow> 'd vnc \<Rightarrow> int \<times> 'd vnc" where
  "parse_tile D s =
     (if subencodingByte s AND HEXTILE_RAW_MASK \<noteq> 0 then parse_raw_tile D s
      else (let s = parse_background s;
                s = parse_foreground s;
                s = parse_numSubrects s;
                s = put_rect 0 15 0 15 (background s) s
            in (1, s\<lparr>hextileState := HEXTILESTATE_FILLBUFFER\<rparr>)))"

definition hextile_parseheader :: "'d display \<Rightarrow> 'd vnc \<Rightarrow> int \<times> 'd vnc" where
  "hextile_parseheader D s =
     (if dataSize (cur s) < 1 then (0, s)
      else (let c = touch 1 (cur s);
                s = s\<lparr>cur := advance 1 c, subencodingByte := peek c 0\<rparr>;
                temp3 = header_rest (subencodingByte s)
            in if dataSize (cur s) < ucast temp3 then (0, s\<lparr>cur := retreat 1 (cur s)\<rparr>)
               else parse_tile D s))"

definition hextile_dropraw :: "'d vnc \<Rightarrow> int \<times> 'd vnc" where
  "hextile_dropraw s =
     (case dropOutOfViewPixels s of (r, s) \<Rightarrow>
        if r = 0 then (0, s)
        else if interPixelCount s = 0 then (1, s\<lparr>hextileState := HEXTILESTATE_DONE\<rparr>)
        else (1, s))"

definition hextile_drawraw :: "'d display \<Rightarrow> 'd vnc \<Rightarrow> int \<times> 'd vnc" where
  "hextile_drawraw D s =
     (if interPixelCount s * BYTES_PER_PIXEL > ucast (dataSize (cur s))
      then (let pixelsToDraw = dataSize (cur s) div BYTES_PER_PIXEL;
                c = touch (2 * unat pixelsToDraw) (cur s)
            in (0, s\<lparr>panel := DrawRawTile D pixelsToDraw BYTES_PER_PIXEL (pointee c) (panel s),
                     interPixelCount := interPixelCount s - ucast pixelsToDraw,
                     cur := advance (unat (pixelsToDraw * BYTES_PER_PIXEL)) c\<rparr>))
      else (let c = touch (2 * unat (ucast (interPixelCount s) :: u16)) (cur s)
            in (1, s\<lparr>panel := DrawRawTile D (ucast (interPixelCount s)) BYTES_PER_PIXEL
                                (pointee c) (panel s),
                     cur := advance (unat (interPixelCount s * BYTES_PER_PIXEL)) c,
                     interPixelCount := 0,
                     hextileState := HEXTILESTATE_DONE\<rparr>)))"

text \<open>
  One round of the subrectangle loop. \<open>x1\<close> and \<open>y1\<close> are the last column and row, and
  nothing checks them against the 16 by 16 buffer.
\<close>

definition draw_subrect :: "u16 \<Rightarrow> u8 \<Rightarrow> u8 \<Rightarrow> 'd vnc \<Rightarrow> 'd vnc" where
  "draw_subrect rectangleColor temp1 temp2 s =
     (let x0 = drop_bit 4 (temp1 AND 0xF0);
          x1 = x0 + drop_bit 4 (temp2 AND 0xF0);
          y0 = temp1 AND 0x0F;
          y1 = y0 + (temp2 AND 0x0F)
      in put_rect (unat x0) (unat x1) (unat y0) (unat y1) rectangleColor s)"

definition hextile_subrect :: "'d vnc \<Rightarrow> int \<times> 'd vnc" where
  "hextile_subrect s =
     (let colored = subencodingByte s AND HEXTILE_SUBRECTCOLOR_MASK \<noteq> 0 in
      if dataSize (cur s) < (if colored then 2 + BYTES_PER_PIXEL else 2) then (0, s)
      else (case (if colored then read_pixel s else (foreground s, s)) of (rectangleColor, s) \<Rightarrow>
              (let c = touch 2 (cur s);
                   temp1 = peek c 0;
                   temp2 = peek c 1;
                   s = s\<lparr>cur := advance 2 c\<rparr>;
                   s = draw_subrect rectangleColor temp1 temp2 s
               in (1, s\<lparr>numSubrects := numSubrects s - 1\<rparr>))))"

text \<open>
  The stores of the decoder leave everything but the buffer and its flag alone; the frame
  facts below are what the termination arguments and the client proofs need.
\<close>

lemma put_pixel_frame [simp]:
  "cur (put_pixel j i c s) = cur s" "numSubrects (put_pixel j i c s) = numSubrects s"
  "hextileState (put_pixel j i c s) = hextileState s"
  "VNCpixelProcessorState (put_pixel j i c s) = VNCpixelProcessorState s"
  "VNCstate (put_pixel j i c s) = VNCstate s" "VNCsendState (put_pixel j i c s) = VNCsendState s"
  "panel (put_pixel j i c s) = panel s" "length (hextileBuffer (put_pixel j i c s)) = length (hextileBuffer s)"
  "put_pixel j i c (s\<lparr>cur := k\<rparr>) = (put_pixel j i c s)\<lparr>cur := k\<rparr>"
  by (simp_all add: put_pixel_def)

lemma fold_frame:
  assumes "\<And>x s. g (h x s) = g s"
  shows "g (fold h xs s) = g s"
  by (induction xs arbitrary: s) (simp_all add: assms)

lemma fold_commute_upd:
  assumes "\<And>x s. h x (g s) = g (h x s)"
  shows "fold h xs (g s) = g (fold h xs s)"
  by (induction xs arbitrary: s) (simp_all add: assms)

lemma put_rect_frame [simp]:
  "cur (put_rect x0 x1 y0 y1 c s) = cur s"
  "numSubrects (put_rect x0 x1 y0 y1 c s) = numSubrects s"
  "hextileState (put_rect x0 x1 y0 y1 c s) = hextileState s"
  "VNCpixelProcessorState (put_rect x0 x1 y0 y1 c s) = VNCpixelProcessorState s"
  "VNCstate (put_rect x0 x1 y0 y1 c s) = VNCstate s"
  "VNCsendState (put_rect x0 x1 y0 y1 c s) = VNCsendState s"
  "panel (put_rect x0 x1 y0 y1 c s) = panel s"
  "put_rect x0 x1 y0 y1 c (s\<lparr>cur := k\<rparr>) = (put_rect x0 x1 y0 y1 c s)\<lparr>cur := k\<rparr>"
  unfolding put_rect_def by (intro fold_frame fold_commute_upd; simp)+

lemma draw_subrect_frame [simp]:
  "cur (draw_subrect c a b s) = cur s" "numSubrects (draw_subrect c a b s) = numSubrects s"
  "hextileState (draw_subrect c a b s) = hextileState s"
  "VNCpixelProcessorState (draw_subrect c a b s) = VNCpixelProcessorState s"
  "VNCstate (draw_subrect c a b s) = VNCstate s" "VNCsendState (draw_subrect c a b s) = VNCsendState s"
  "panel (draw_subrect c a b s) = panel s"
  "draw_subrect c a b (s\<lparr>cur := k\<rparr>) = (draw_subrect c a b s)\<lparr>cur := k\<rparr>"
  by (simp_all add: draw_subrect_def Let_def)

lemma unat_pred: "n \<noteq> 0 \<Longrightarrow> unat (n - 1 :: u8) < unat n"
  by (metis less_not_refl unat_0_iff unat_minus_one diff_less zero_less_one neq0_conv)

lemma hextile_subrect_numSubrects:
  "hextile_subrect s = (r, t) \<Longrightarrow> r \<noteq> 0 \<Longrightarrow> numSubrects t = numSubrects s - 1"
  by (auto simp: hextile_subrect_def read_pixel_def Let_def split: if_splits)

text \<open>The loop over the subrectangles, and what follows it.\<close>

function hextile_fillbuffer :: "'d vnc \<Rightarrow> int \<times> 'd vnc" where
  "hextile_fillbuffer s =
     (if numSubrects s \<noteq> 0
      then (case hextile_subrect s of (r, t) \<Rightarrow>
              if r = 0 then (0, t) else hextile_fillbuffer t)
      else (1, s\<lparr>hextileState := HEXTILESTATE_DRAWTILE\<rparr>))"
  by pat_completeness auto
termination
  by (relation "measure (\<lambda>s. unat (numSubrects s))")
    (auto dest!: hextile_subrect_numSubrects [OF sym] simp: unat_pred)

declare hextile_fillbuffer.simps [simp del]

definition hextile_drawtile :: "'d display \<Rightarrow> 'd vnc \<Rightarrow> int \<times> 'd vnc" where
  "hextile_drawtile D s =
     (if tile_outside s then (1, s\<lparr>hextileState := HEXTILESTATE_DONE\<rparr>)
      else (let s = s\<lparr>panel := SetupTile D (tileX s) (tileY s) (tileW s) (tileH s) (panel s)\<rparr>;
                s = s\<lparr>panel := DrawHextile D (tileW s) (tileH s) BYTES_PER_PIXEL
                                 (hextileBuffer s) (panel s)\<rparr>
            in (1, s\<lparr>hextileState := HEXTILESTATE_DONE\<rparr>)))"

section \<open>processHextile and its loop\<close>

definition processHextile :: "'d display \<Rightarrow> 'd vnc \<Rightarrow> int \<times> 'd vnc" where
  "processHextile D s =
     (case hextileState s of
        HEXTILESTATE_INIT \<Rightarrow> hextile_init s
      | HEXTILESTATE_DONE \<Rightarrow> hextile_done s
      | HEXTILESTATE_PARSEHEADER \<Rightarrow> hextile_parseheader D s
      | HEXTILESTATE_DROPRAW \<Rightarrow> hextile_dropraw s
      | HEXTILESTATE_DRAWRAW \<Rightarrow> hextile_drawraw D s
      | HEXTILESTATE_FILLBUFFER \<Rightarrow> hextile_fillbuffer s
      | HEXTILESTATE_DRAWTILE \<Rightarrow> hextile_drawtile D s)"

text \<open>
  Every call that returns 1 has consumed a byte or moved to a later phase of the tile, and
  the phases run out before the next header byte is read.
\<close>

primrec hextile_rank :: "hextilestate \<Rightarrow> nat" where
  "hextile_rank HEXTILESTATE_INIT = 1"
| "hextile_rank HEXTILESTATE_PARSEHEADER = 0"
| "hextile_rank HEXTILESTATE_DONE = 1"
| "hextile_rank HEXTILESTATE_DRAWTILE = 2"
| "hextile_rank HEXTILESTATE_FILLBUFFER = 3"
| "hextile_rank HEXTILESTATE_DRAWRAW = 2"
| "hextile_rank HEXTILESTATE_DROPRAW = 2"

definition hextile_order :: "('d vnc \<times> 'd vnc) set" where
  "hextile_order = measures [\<lambda>s. unread s, \<lambda>s. hextile_rank (hextileState s)]"

lemma wf_hextile_order: "wf hextile_order"
  by (simp add: hextile_order_def)

lemma header_rest_cases:
  "unat (header_rest sb) =
     (if sb AND 2 \<noteq> 0 then 2 else 0) + (if sb AND 4 \<noteq> 0 then 2 else 0) +
     (if sb AND 8 \<noteq> 0 then 2 else 0)"
  by (simp add: header_rest_def)

lemma unread_read_pixel:
  "2 \<le> unread s \<Longrightarrow> unread (snd (read_pixel s)) = unread s - 2"
  by (simp add: read_pixel_def Let_def dataSize_advance)

lemma unread_hextile_subrect:
  assumes "hextile_subrect s = (r, t)"
  shows "unread t \<le> unread s"
proof (cases "r = 0")
  case True
  then show ?thesis using assms
    by (auto simp: hextile_subrect_def Let_def split: if_splits prod.splits)
next
  case False
  then show ?thesis using assms
    by (auto simp: hextile_subrect_def read_pixel_def Let_def dataSize_advance word_less_nat_alt
        split: if_splits)
qed

lemma hextile_fillbuffer_progress:
  "hextile_fillbuffer s = (r, t) \<Longrightarrow>
     unread t \<le> unread s \<and> (r > 0 \<longrightarrow> hextileState t = HEXTILESTATE_DRAWTILE)"
proof (induction s arbitrary: r t rule: hextile_fillbuffer.induct)
  case (1 s)
  obtain q u where q: "hextile_subrect s = (q, u)" by (cases "hextile_subrect s")
  from unread_hextile_subrect [OF q] "1.IH" [OF _ q [symmetric]] "1.prems" q show ?case
    by (subst (asm) hextile_fillbuffer.simps) (fastforce split: if_splits)
qed

lemma dropOutOfViewPixels_progress:
  "dropOutOfViewPixels s = (r, t) \<Longrightarrow> unread t \<le> unread s \<and> (r \<noteq> 0 \<longrightarrow> r = 1 \<and> interPixelCount t = 0)"
  unfolding dropOutOfViewPixels_def
  by (auto simp: Let_def dataSize_advance word_le_nat_alt split: if_splits)

lemma parse_progress:
  "unread (parse_numSubrects (parse_foreground (parse_background s))) \<le> unread s"
  if "unat (header_rest (subencodingByte s)) \<le> unread s"
  using that
  by (auto simp: parse_numSubrects_def parse_foreground_def parse_background_def read_pixel_def
      Let_def header_rest_cases dataSize_advance)

lemma processHextile_progress:
  assumes "processHextile D s = (r, t)" and "r > 0"
  shows "(t, s) \<in> hextile_order"
proof (cases "hextileState s")
  case HEXTILESTATE_PARSEHEADER
  then show ?thesis using assms
    by (auto simp: processHextile_def hextile_parseheader_def parse_tile_def parse_raw_tile_def hextile_order_def
        Let_def dataSize_advance word_less_nat_alt not_less split: if_splits
        intro!: le_less_trans [OF parse_progress])
next
  case HEXTILESTATE_DONE
  then show ?thesis using assms
    by (auto simp: processHextile_def hextile_done_def hextile_order_def Let_def split: if_splits)
next
  case HEXTILESTATE_DRAWRAW
  then show ?thesis using assms
    by (auto simp: processHextile_def hextile_drawraw_def hextile_order_def Let_def
        dataSize_advance word_less_nat_alt not_less split: if_splits)
next
  case HEXTILESTATE_DROPRAW
  then show ?thesis using assms
    by (auto simp: processHextile_def hextile_dropraw_def hextile_order_def
        split: if_splits prod.splits dest!: dropOutOfViewPixels_progress)
next
  case HEXTILESTATE_FILLBUFFER
  then show ?thesis using assms hextile_fillbuffer_progress [of s r t]
    by (auto simp: processHextile_def hextile_order_def)
qed (use assms in \<open>auto simp: processHextile_def hextile_init_def hextile_drawtile_def
      hextile_order_def Let_def split: if_splits\<close>)

lemma hextile_fillbuffer_range: "hextile_fillbuffer s = (r, t) \<Longrightarrow> r = 0 \<or> r = 1"
proof (induction s arbitrary: r t rule: hextile_fillbuffer.induct)
  case (1 s)
  obtain q u where q: "hextile_subrect s = (q, u)" by (cases "hextile_subrect s")
  from "1.IH" [OF _ q [symmetric]] "1.prems" q show ?case
    by (subst (asm) hextile_fillbuffer.simps) (fastforce split: if_splits)
qed

lemma processHextile_range: "processHextile D s = (r, t) \<Longrightarrow> r = 0 \<or> r = 1"
  by (cases "hextileState s")
    (auto simp: processHextile_def hextile_parseheader_def parse_tile_def parse_raw_tile_def hextile_init_def
      hextile_done_def hextile_drawraw_def hextile_dropraw_def hextile_drawtile_def Let_def
      dest: hextile_fillbuffer_range split: if_splits prod.splits)

lemma processHextile_decreases:
  "processHextile D s = (r, t) \<Longrightarrow> r \<noteq> 0 \<Longrightarrow> (t, s) \<in> hextile_order"
  using processHextile_progress [of D s r t] processHextile_range [of D s r t] by auto

text \<open>\<open>while( processHextile() );\<close>\<close>

function hextile_loop :: "'d display \<Rightarrow> 'd vnc \<Rightarrow> int \<times> 'd vnc" where
  "hextile_loop D s =
     (case processHextile D s of (r, t) \<Rightarrow> if r \<noteq> 0 then hextile_loop D t else (r, t))"
  by pat_completeness auto
termination
  by (relation "inv_image hextile_order snd")
    (auto simp: wf_hextile_order intro: processHextile_decreases [OF sym])

declare hextile_loop.simps [simp del]

end
