(* ===== verification/VncMachine.thy ===== *)
theory VncMachine
  imports Hextile
begin

text \<open>
  The receive side of \<open>LCD Test/vnc.c\<close> above the hextile decoder: \<open>pixelProcessor\<close>, which
  walks the rectangles of a framebuffer update, \<open>Vnc_StateMachine\<close>, which walks the
  messages of the connection, their loops, and the entry points \<open>Vnc_ProcessVncBuffer\<close> and
  \<open>Vnc_ResetSystem\<close>.
\<close>

section \<open>Rectangles\<close>

definition processCopyRect :: "'d vnc \<Rightarrow> int \<times> 'd vnc" where
  "processCopyRect s =
     (if dataSize (cur s) < 4 then (0, s)
      else (1, s\<lparr>cur := advance 4 (cur s), VNCpixelProcessorState := VNCPPSTATE_IDLE\<rparr>))"

text \<open>
  The rectangle header. The count and the update window are assigned before the encoding is
  looked at; a header the code cannot decode stays unread. In the raw case the product is of
  two \<open>int\<close>s converted to \<open>unsigned long\<close>, so each factor is sign-extended.
\<close>

definition rect_assign :: "'d vnc \<Rightarrow> 'd vnc" where
  "rect_assign s =
     (let p = peek (cur s);
          s = s\<lparr>cur := touch 12 (cur s), rectangleCount := rectangleCount s - 1\<rparr>;
          s = s\<lparr>updateWindowX0 := be16 (p 0) (p 1)\<rparr>;
          s = s\<lparr>updateWindowX1 := updateWindowX0 s + be16 (p 4) (p 5)\<rparr>;
          s = s\<lparr>updateWindowY0 := be16 (p 2) (p 3)\<rparr>
      in s\<lparr>updateWindowY1 := updateWindowY0 s + be16 (p 6) (p 7)\<rparr>)"

definition rect_encoding :: "'d vnc \<Rightarrow> int \<times> 'd vnc" where
  "rect_encoding s =
     (let p = peek (cur s) in
      if p 8 \<noteq> 0x00 \<or> p 9 \<noteq> 0x00 \<or> p 10 \<noteq> 0x00 then (0, s\<lparr>rejected := True\<rparr>)
      else if p 11 = 0
      then (1, s\<lparr>interPixelCount := scast (be16 (p 4) (p 5)) * scast (be16 (p 6) (p 7)),
                 cur := advance 12 (cur s), VNCpixelProcessorState := VNCPPSTATE_OUTBOUNDS\<rparr>)
      else if p 11 = 1
      then (1, s\<lparr>cur := advance 12 (cur s), VNCpixelProcessorState := VNCPPSTATE_COPYRECT\<rparr>)
      else if p 11 = 5
      then (1, s\<lparr>cur := advance 12 (cur s), VNCpixelProcessorState := VNCPPSTATE_HEXTILE,
                 hextileState := HEXTILESTATE_INIT\<rparr>)
      else (0, s\<lparr>rejected := True\<rparr>))"

definition pixel_idle :: "'d vnc \<Rightarrow> int \<times> 'd vnc" where
  "pixel_idle s =
     (if rectangleCount s = 0 then (0, s\<lparr>VNCstate := VNCSTATE_CONNECTED_REFRESH\<rparr>)
      else if dataSize (cur s) < 12 then (0, s)
      else rect_encoding (rect_assign s))"

definition pixel_outbounds :: "'d vnc \<Rightarrow> int \<times> 'd vnc" where
  "pixel_outbounds s =
     (case dropOutOfViewPixels s of (r, s) \<Rightarrow>
        if r = 0 then (0, s)
        else if interPixelCount s = 0 then (1, s\<lparr>VNCpixelProcessorState := VNCPPSTATE_IDLE\<rparr>)
        else (1, s))"

definition pixelProcessor :: "'d display \<Rightarrow> 'd vnc \<Rightarrow> int \<times> 'd vnc" where
  "pixelProcessor D s =
     (case VNCpixelProcessorState s of
        VNCPPSTATE_IDLE \<Rightarrow> pixel_idle s
      | VNCPPSTATE_OUTBOUNDS \<Rightarrow> pixel_outbounds s
      | VNCPPSTATE_HEXTILE \<Rightarrow> (0, snd (hextile_loop D s))
      | VNCPPSTATE_COPYRECT \<Rightarrow> processCopyRect s)"

text \<open>A call that returns 1 consumes bytes or ends a rectangle.\<close>

primrec pixel_rank :: "vncppstate \<Rightarrow> nat" where
  "pixel_rank VNCPPSTATE_IDLE = 0"
| "pixel_rank VNCPPSTATE_OUTBOUNDS = 1"
| "pixel_rank VNCPPSTATE_HEXTILE = 0"
| "pixel_rank VNCPPSTATE_COPYRECT = 1"

definition pixel_order :: "('d vnc \<times> 'd vnc) set" where
  "pixel_order = measures [\<lambda>s. unread s, \<lambda>s. pixel_rank (VNCpixelProcessorState s)]"

lemma wf_pixel_order: "wf pixel_order"
  by (simp add: pixel_order_def)

lemma dropOutOfViewPixels_keeps_pixelState:
  "VNCpixelProcessorState (snd (dropOutOfViewPixels s)) = VNCpixelProcessorState s"
  by (simp add: dropOutOfViewPixels_def Let_def)

lemma pixelProcessor_decreases:
  assumes "pixelProcessor D s = (r, t)" and "r \<noteq> 0"
  shows "r = 1 \<and> (t, s) \<in> pixel_order"
proof (cases "VNCpixelProcessorState s")
  case VNCPPSTATE_IDLE
  then show ?thesis using assms
    by (auto simp: pixelProcessor_def pixel_idle_def rect_encoding_def rect_assign_def
        pixel_order_def Let_def dataSize_advance word_less_nat_alt not_less split: if_splits)
next
  case VNCPPSTATE_COPYRECT
  then show ?thesis using assms
    by (auto simp: pixelProcessor_def processCopyRect_def pixel_order_def dataSize_advance
        word_less_nat_alt not_less split: if_splits)
next
  case VNCPPSTATE_OUTBOUNDS
  then show ?thesis using assms
    by (auto simp: pixelProcessor_def pixel_outbounds_def pixel_order_def
        split: if_splits prod.splits dest!: dropOutOfViewPixels_progress)
next
  case VNCPPSTATE_HEXTILE
  then show ?thesis using assms by (simp add: pixelProcessor_def)
qed

text \<open>\<open>while( pixelProcessor() );\<close>\<close>

function pixel_loop :: "'d display \<Rightarrow> 'd vnc \<Rightarrow> int \<times> 'd vnc" where
  "pixel_loop D s =
     (case pixelProcessor D s of (r, t) \<Rightarrow> if r \<noteq> 0 then pixel_loop D t else (r, t))"
  by pat_completeness auto
termination
  by (relation "inv_image pixel_order snd")
    (auto simp: wf_pixel_order dest: pixelProcessor_decreases [OF sym])

declare pixel_loop.simps [simp del]

section \<open>Messages\<close>

text \<open>\<open>dataPtr += n; dataSize -= n\<close> with a change of \<open>VNCstate\<close>, the end of most cases.\<close>

definition consume_to :: "nat \<Rightarrow> vncstate \<Rightarrow> 'd vnc \<Rightarrow> int \<times> 'd vnc" where
  "consume_to n st s = (1, s\<lparr>VNCstate := st, cur := advance n (cur s)\<rparr>)"

definition vnc_authtype :: "'d vnc \<Rightarrow> int \<times> 'd vnc" where
  "vnc_authtype s =
     (let c = touch 4 (cur s); s = s\<lparr>cur := c\<rparr> in
      if peek c 3 = 0x02 then consume_to 4 VNCSTATE_WAITFORVNCAUTHWORD s
      else if peek c 3 = 0x01
      then consume_to 4 VNCSTATE_SENTCLIENTINITMESSAGE (s\<lparr>VNCsendState := VNCSENDSTATE_AUTHWORDSENT\<rparr>)
      else consume_to 4 VNCSTATE_AUTHFAILED s)"

definition vnc_authresponse :: "'d vnc \<Rightarrow> int \<times> 'd vnc" where
  "vnc_authresponse s =
     (let c = touch 4 (cur s); s = s\<lparr>cur := c\<rparr> in
      if peek c 3 = 0x00 then consume_to 4 VNCSTATE_SENTCLIENTINITMESSAGE s
      else consume_to 4 VNCSTATE_AUTHFAILED s)"

definition vnc_serverinit :: "'d vnc \<Rightarrow> int \<times> 'd vnc" where
  "vnc_serverinit s =
     (let c = touch 24 (cur s);
          n = ucast (peek c 20) :: u32;
          n = push_bit 8 n;
          n = n OR ucast (peek c 21);
          n = push_bit 8 n;
          n = n OR ucast (peek c 22);
          n = push_bit 8 n;
          n = n OR ucast (peek c 23)
      in consume_to 24 VNCSTATE_WAITFORSERVERNAME (s\<lparr>cur := c, interPixelCount := n\<rparr>))"

definition vnc_servername :: "'d vnc \<Rightarrow> int \<times> 'd vnc" where
  "vnc_servername s =
     (if ucast (dataSize (cur s)) \<ge> interPixelCount s
      then consume_to (unat (interPixelCount s)) VNCSTATE_CONNECTED
             (s\<lparr>cur := touch (unat (interPixelCount s)) (cur s)\<rparr>)
      else (0, s))"

definition vnc_update :: "'d vnc \<Rightarrow> int \<times> 'd vnc" where
  "vnc_update s =
     (if 4 \<le> dataSize (cur s)
      then (let c = touch 4 (cur s); s = s\<lparr>cur := c\<rparr> in
            if peek c 0 \<noteq> 0x00 then (0, s\<lparr>VNCstate := VNCSTATE_DEAD\<rparr>)
            else consume_to 4 VNCSTATE_PROCESSINGUPDATE
                   (s\<lparr>rectangleCount := be16 (peek c 2) (peek c 3),
                      VNCpixelProcessorState := VNCPPSTATE_IDLE\<rparr>))
      else (0, s))"

definition Vnc_StateMachine :: "'d display \<Rightarrow> 'd vnc \<Rightarrow> int \<times> 'd vnc" where
  "Vnc_StateMachine D s =
     (case VNCstate s of
        VNCSTATE_NOTCONNECTED \<Rightarrow>
          (if 12 \<le> dataSize (cur s) then consume_to 12 VNCSTATE_WAITFORAUTHTYPE s else (0, s))
      | VNCSTATE_WAITFORAUTHTYPE \<Rightarrow>
          (if 4 \<le> dataSize (cur s) then vnc_authtype s else (0, s))
      | VNCSTATE_WAITFORVNCAUTHWORD \<Rightarrow>
          (if 16 \<le> dataSize (cur s) then consume_to 16 VNCSTATE_WAITFORVNCAUTHRESPONSE s
           else (0, s))
      | VNCSTATE_WAITFORVNCAUTHRESPONSE \<Rightarrow>
          (if 4 \<le> dataSize (cur s) then vnc_authresponse s else (0, s))
      | VNCSTATE_SENTCLIENTINITMESSAGE \<Rightarrow>
          (if 24 \<le> dataSize (cur s) then vnc_serverinit s else (0, s))
      | VNCSTATE_WAITFORSERVERNAME \<Rightarrow> vnc_servername s
      | VNCSTATE_CONNECTED \<Rightarrow> (1, s\<lparr>VNCstate := VNCSTATE_WAITFORUPDATE\<rparr>)
      | VNCSTATE_CONNECTED_REFRESH \<Rightarrow> vnc_update s
      | VNCSTATE_WAITFORUPDATE \<Rightarrow> vnc_update s
      | VNCSTATE_PROCESSINGUPDATE \<Rightarrow> (0, snd (pixel_loop D s))
      | VNCSTATE_DEAD \<Rightarrow> (-1, s)
      | VNCSTATE_AUTHFAILED \<Rightarrow> (-1, s)
      | VNCSTATE_PROCESSDONE \<Rightarrow> (-1, s))"

primrec vnc_rank :: "vncstate \<Rightarrow> nat" where
  "vnc_rank VNCSTATE_DEAD = 0"
| "vnc_rank VNCSTATE_AUTHFAILED = 0"
| "vnc_rank VNCSTATE_NOTCONNECTED = 0"
| "vnc_rank VNCSTATE_WAITFORAUTHTYPE = 0"
| "vnc_rank VNCSTATE_WAITFORVNCAUTHWORD = 0"
| "vnc_rank VNCSTATE_WAITFORVNCAUTHRESPONSE = 0"
| "vnc_rank VNCSTATE_SENTCLIENTINITMESSAGE = 0"
| "vnc_rank VNCSTATE_WAITFORSERVERNAME = 2"
| "vnc_rank VNCSTATE_CONNECTED = 1"
| "vnc_rank VNCSTATE_CONNECTED_REFRESH = 0"
| "vnc_rank VNCSTATE_WAITFORUPDATE = 0"
| "vnc_rank VNCSTATE_PROCESSINGUPDATE = 0"
| "vnc_rank VNCSTATE_PROCESSDONE = 0"

definition vnc_order :: "('d vnc \<times> 'd vnc) set" where
  "vnc_order = measures [\<lambda>s. unread s, \<lambda>s. vnc_rank (VNCstate s)]"

lemma wf_vnc_order: "wf vnc_order"
  by (simp add: vnc_order_def)

lemmas vnc_case_defs = vnc_authtype_def vnc_authresponse_def vnc_serverinit_def
  vnc_servername_def vnc_update_def consume_to_def

lemma Vnc_StateMachine_decreases:
  assumes "Vnc_StateMachine D s = (r, t)" and "r > 0"
  shows "(t, s) \<in> vnc_order"
  using assms
  by (cases "VNCstate s")
    (auto simp: Vnc_StateMachine_def vnc_case_defs vnc_order_def Let_def dataSize_advance
      word_le_nat_alt split: if_splits)

text \<open>\<open>do retval = Vnc_StateMachine(); while( retval > 0 );\<close>\<close>

function vnc_loop :: "'d display \<Rightarrow> 'd vnc \<Rightarrow> int \<times> 'd vnc" where
  "vnc_loop D s =
     (case Vnc_StateMachine D s of (r, t) \<Rightarrow> if r > 0 then vnc_loop D t else (r, t))"
  by pat_completeness auto
termination
  by (relation "inv_image vnc_order snd")
    (auto simp: wf_vnc_order intro: Vnc_StateMachine_decreases [OF sym])

declare vnc_loop.simps [simp del]

definition start_buffer :: "bytes \<Rightarrow> u16 \<Rightarrow> 'd vnc \<Rightarrow> 'd vnc" where
  "start_buffer buffer len s =
     s\<lparr>cur := \<lparr>cbuf = buffer, dataPtr = 0, dataSize = len, oob = oob (cur s)\<rparr>\<rparr>"

definition Vnc_ProcessVncBuffer :: "'d display \<Rightarrow> bytes \<Rightarrow> u16 \<Rightarrow> 'd vnc \<Rightarrow> u16 \<times> 'd vnc" where
  "Vnc_ProcessVncBuffer D buffer len s =
     (case vnc_loop D (start_buffer buffer len s) of (retval, t) \<Rightarrow>
        (if retval = 0 then dataSize (cur t) else word_of_int retval, t))"

definition Vnc_ResetSystem :: "'d vnc \<Rightarrow> 'd vnc" where
  "Vnc_ResetSystem s = s\<lparr>VNCstate := VNCSTATE_NOTCONNECTED, VNCsendState := VNCSENDSTATE_INIT\<rparr>"

end
