(* ===== verification/VncResponse.thy ===== *)
theory VncResponse
  imports VncMachine
begin

text \<open>
  The send side of \<open>LCD Test/vnc.c\<close>: the constant messages and \<open>Vnc_LoadResponseBuffer\<close>,
  which decides from the two connection states which message is due. \<open>keypress\<close> is the
  variable of \<open>Buttons.c\<close> the function reads and clears. A message is copied over the front
  of the caller's buffer, whose other bytes stay.
\<close>

section \<open>Messages\<close>

definition versionMessage :: bytes where
  "versionMessage = map char8 ''RFB 003.003'' @ [10]"

definition VNCauthWord :: bytes where
  "VNCauthWord =
    [0x54, 0x44, 0xC7, 0x4E, 0xDE, 0xDC, 0x8C, 0xDF,
     0x97, 0xB6, 0x51, 0x93, 0x04, 0xD9, 0x9E, 0x90]"

definition pixelFormatMessage :: bytes where
  "pixelFormatMessage =
    [0x00, 0, 0, 0, 16, 16, 0, 1, 0x00, 0x1F, 0x00, 0x3F, 0x00, 0x1F, 11, 5, 0, 0, 0, 0]"

definition refreshMessage :: bytes where
  "refreshMessage =
    [0x03, 0x01, 0, 0, 0, 0, hi8 SCREEN_WIDTH, lo8 SCREEN_WIDTH,
     hi8 SCREEN_HEIGHT, lo8 SCREEN_HEIGHT]"

definition keypressMessage :: "char \<Rightarrow> bytes" where
  "keypressMessage c = [0x04, 0x01, 0, 0, 0, 0, 0, char8 c]"

definition encodingTypeMessage :: bytes where
  "encodingTypeMessage = [2, 0, 0, 2, 0, 0, 0, 1, 0, 0, 0, 5]"

section \<open>Vnc_LoadResponseBuffer\<close>

text \<open>
  The result is the number of bytes to send, with the new value of \<open>keypress\<close>, the buffer
  and the state. The key press that is sent is not the one that was pressed: button
  \<open>'a'\<close> sends \<open>'r'\<close>, \<open>'b'\<close> sends \<open>'a'\<close> and \<open>'c'\<close> sends \<open>'b'\<close>; for any other value the buffer
  is sent as it is.
\<close>

type_synonym 'd response = "u16 \<times> u8 \<times> bytes \<times> 'd vnc"

definition send_message :: "bytes \<Rightarrow> u8 \<Rightarrow> bytes \<Rightarrow> 'd vnc \<Rightarrow> 'd response" where
  "send_message msg keypress buffer s = (of_nat (length msg), keypress, overwrite msg buffer, s)"

definition load_keypress :: "u8 \<Rightarrow> bytes \<Rightarrow> 'd vnc \<Rightarrow> 'd response" where
  "load_keypress keypress buffer s =
     (let buffer = (if keypress = char8 CHR ''a'' then overwrite (keypressMessage CHR ''r'') buffer else buffer);
          buffer = (if keypress = char8 CHR ''b'' then overwrite (keypressMessage CHR ''a'') buffer else buffer);
          buffer = (if keypress = char8 CHR ''c'' then overwrite (keypressMessage CHR ''b'') buffer else buffer)
      in (of_nat (length (keypressMessage CHR ''r'')), 0, buffer, s))"

definition Vnc_LoadResponseBuffer :: "u8 \<Rightarrow> bytes \<Rightarrow> 'd vnc \<Rightarrow> 'd response" where
  "Vnc_LoadResponseBuffer keypress buffer s =
     (case VNCsendState s of
        VNCSENDSTATE_INIT \<Rightarrow>
          if VNCstate s > VNCSTATE_NOTCONNECTED
          then send_message versionMessage keypress buffer (s\<lparr>VNCsendState := VNCSENDSTATE_VERSIONSENT\<rparr>)
          else (0, keypress, buffer, s)
      | VNCSENDSTATE_VERSIONSENT \<Rightarrow>
          if VNCstate s > VNCSTATE_WAITFORVNCAUTHWORD
          then send_message VNCauthWord keypress buffer (s\<lparr>VNCsendState := VNCSENDSTATE_AUTHWORDSENT\<rparr>)
          else (0, keypress, buffer, s)
      | VNCSENDSTATE_AUTHWORDSENT \<Rightarrow>
          if VNCstate s > VNCSTATE_WAITFORVNCAUTHRESPONSE
          then (1, keypress, buffer[0 := 0],
                s\<lparr>VNCsendState := VNCSENDSTATE_CLIENTINITMESSAGESENT\<rparr>)
          else (0, keypress, buffer, s)
      | VNCSENDSTATE_CLIENTINITMESSAGESENT \<Rightarrow>
          if VNCstate s > VNCSTATE_WAITFORSERVERNAME
          then send_message pixelFormatMessage keypress buffer
                 (s\<lparr>VNCsendState := VNCSENDSTATE_PIXELFORMATSENT\<rparr>)
          else (0, keypress, buffer, s)
      | VNCSENDSTATE_PIXELFORMATSENT \<Rightarrow>
          if VNCstate s > VNCSTATE_WAITFORSERVERNAME
          then send_message encodingTypeMessage keypress buffer
                 (s\<lparr>VNCsendState := VNCSENDSTATE_ENCODINGTYPESENT\<rparr>)
          else (0, keypress, buffer, s)
      | VNCSENDSTATE_ENCODINGTYPESENT \<Rightarrow>
          if VNCstate s > VNCSTATE_WAITFORSERVERNAME
          then (of_nat (length refreshMessage), keypress,
                (overwrite refreshMessage buffer)[1 := 0x00],
                s\<lparr>VNCsendState := VNCSENDSTATE_PARTIALREFRESHSENT\<rparr>)
          else (0, keypress, buffer, s)
      | VNCSENDSTATE_PARTIALREFRESHSENT \<Rightarrow>
          if VNCstate s = VNCSTATE_CONNECTED_REFRESH
          then (if keypress \<noteq> 0 then load_keypress keypress buffer s
                else send_message refreshMessage keypress buffer s)
          else (0, keypress, buffer, s))"

text \<open>\<open>Vnc_Init\<close> initialises the display (\<open>VncDisplayInit\<close>, which calls \<open>LcdInit\<close>).\<close>

definition Vnc_Init :: "('d \<Rightarrow> 'd) \<Rightarrow> 'd vnc \<Rightarrow> 'd vnc" where
  "Vnc_Init lcdInit s = s\<lparr>panel := VncDisplayInit lcdInit (panel s)\<rparr>"

section \<open>What is sent\<close>

lemmas message_lengths = versionMessage_def VNCauthWord_def pixelFormatMessage_def
  refreshMessage_def keypressMessage_def encodingTypeMessage_def

lemma length_messages [simp]:
  "length versionMessage = 12" "length VNCauthWord = 16" "length pixelFormatMessage = 20"
  "length refreshMessage = 10" "length (keypressMessage c) = 8" "length encodingTypeMessage = 12"
  by (simp_all add: message_lengths)

lemma load_bounds:
  assumes "Vnc_LoadResponseBuffer k buffer s = (n, k', buffer', s')" and "20 \<le> length buffer"
  shows "unat n \<le> 20 \<and> length buffer' = length buffer"
  using assms
  by (auto simp: Vnc_LoadResponseBuffer_def send_message_def load_keypress_def Let_def
      length_overwrite split: vncsendstate.splits if_splits)

text \<open>
  Each call sends at most one message and each message but the last is sent once: the send
  state moves by one exactly when something is sent, until the phase of refresh requests.
\<close>

lemma load_advances:
  assumes "Vnc_LoadResponseBuffer k buffer s = (n, k', buffer', s')"
  shows "s' = s\<lparr>VNCsendState := VNCsendState s'\<rparr> \<and>
    (if VNCsendState s = VNCSENDSTATE_PARTIALREFRESHSENT then VNCsendState s' = VNCsendState s
     else vncsendstate_code (VNCsendState s') =
       vncsendstate_code (VNCsendState s) + (if n = 0 then 0 else 1))"
  using assms
  by (cases "VNCsendState s")
    (auto simp: Vnc_LoadResponseBuffer_def send_message_def load_keypress_def Let_def
      split: if_splits)

end
