(* ===== verification/HextileResume.thy ===== *)
theory HextileResume
  imports Hextile
begin

text \<open>
  The hextile decoder can be stopped anywhere: whatever the boundaries between the pieces
  in which the bytes of a rectangle arrive, the decoder reads the same tiles and draws the
  same pixels. The result is an interpretation of \<open>incremental\<close> for \<open>processHextile\<close> and
  its loop, for every display that keeps the \<open>raw_display\<close> contract.
\<close>

section \<open>Operations that do not look at the cursor\<close>

lemma ext_fields:
  assumes "ext ys s t"
  shows "rectangleCount t = rectangleCount s" "interPixelCount t = interPixelCount s"
    "updateWindowX0 t = updateWindowX0 s" "updateWindowY0 t = updateWindowY0 s"
    "updateWindowX1 t = updateWindowX1 s" "updateWindowY1 t = updateWindowY1 s"
    "VNCstate t = VNCstate s" "VNCsendState t = VNCsendState s"
    "VNCpixelProcessorState t = VNCpixelProcessorState s" "hextileState t = hextileState s"
    "tileX t = tileX s" "tileY t = tileY s" "tileW t = tileW s" "tileH t = tileH s"
    "background t = background s" "foreground t = foreground s"
    "subencodingByte t = subencodingByte s" "numSubrects t = numSubrects s"
    "hextileBuffer t = hextileBuffer s" "hoob t = hoob s" "panel t = panel s" "rejected t = rejected s"
  using assms by (auto elim!: extE)

lemma ext_feeds: "ext ys s t \<Longrightarrow> feeds ys (cur s) (cur t)"
  by (simp add: ext_def)

lemma ext_unread: "ext ys s t \<Longrightarrow> unread t = unread s + length ys"
  using feeds_size ext_feeds by blast

lemma ext_lift:
  assumes "ext ys s t" and "\<And>c. g (s\<lparr>cur := c\<rparr>) = (g s)\<lparr>cur := c\<rparr>" and "cur (g s) = cur s"
  shows "ext ys (g s) (g t)"
proof -
  from assms(1) obtain d where "t = s\<lparr>cur := d\<rparr>" "feeds ys (cur s) d" by (rule extE)
  with assms(2,3) show ?thesis by (simp add: ext_def)
qed

lemma ext_put_rect: "ext ys s t \<Longrightarrow> ext ys (put_rect a b c d p s) (put_rect a b c d p t)"
  by (rule ext_lift) simp_all

lemma ext_draw_subrect: "ext ys s t \<Longrightarrow> ext ys (draw_subrect p a b s) (draw_subrect p a b t)"
  by (rule ext_lift) simp_all

lemma ext_field_update:
  assumes "ext ys s t"
  shows "ext ys (s\<lparr>hextileState := h\<rparr>) (t\<lparr>hextileState := h\<rparr>)"
    "ext ys (s\<lparr>numSubrects := n\<rparr>) (t\<lparr>numSubrects := n\<rparr>)"
    "ext ys (s\<lparr>background := p\<rparr>) (t\<lparr>background := p\<rparr>)"
    "ext ys (s\<lparr>foreground := p\<rparr>) (t\<lparr>foreground := p\<rparr>)"
    "ext ys (s\<lparr>subencodingByte := b\<rparr>) (t\<lparr>subencodingByte := b\<rparr>)"
  using ext_lift [OF assms, of "\<lambda>s. s\<lparr>hextileState := h\<rparr>"]
    ext_lift [OF assms, of "\<lambda>s. s\<lparr>numSubrects := n\<rparr>"]
    ext_lift [OF assms, of "\<lambda>s. s\<lparr>background := p\<rparr>"]
    ext_lift [OF assms, of "\<lambda>s. s\<lparr>foreground := p\<rparr>"]
    ext_lift [OF assms, of "\<lambda>s. s\<lparr>subencodingByte := b\<rparr>"]
  by simp_all

text \<open>Reading \<open>n\<close> available bytes on both sides.\<close>

lemma ext_advance:
  assumes "ext ys s t" and "n \<le> unread s"
  shows "ext ys (s\<lparr>cur := advance n (touch n (cur s))\<rparr>) (t\<lparr>cur := advance n (touch n (cur t))\<rparr>)"
proof -
  from assms(1) obtain d where t: "t = s\<lparr>cur := d\<rparr>" and f: "feeds ys (cur s) d" by (rule extE)
  have "touch n (cur s) = cur s" "touch n d = d"
    using f assms(2) feeds_size [OF f] by (simp_all add: feeds_cwf [OF f] touch_safe)
  then show ?thesis using t feeds_advance [OF f assms(2)] by (simp add: ext_def)
qed

lemma ext_peek: "ext ys s t \<Longrightarrow> k < unread s \<Longrightarrow> peek (cur t) k = peek (cur s) k"
  using feeds_peek ext_feeds by blast

lemma ext_read_pixel:
  assumes "ext ys s t" and "2 \<le> unread s"
  shows "fst (read_pixel t) = fst (read_pixel s)"
    and "ext ys (snd (read_pixel s)) (snd (read_pixel t))"
  using assms ext_advance [OF assms]
  by (simp_all add: read_pixel_def Let_def ext_peek [OF assms(1)])

lemma ext_parse_background:
  assumes "ext ys s t" and "unat (header_rest (subencodingByte s)) \<le> unread s"
  shows "ext ys (parse_background s) (parse_background t)"
  using assms ext_read_pixel [OF assms(1)]
  by (auto simp: parse_background_def ext_fields [OF assms(1)] header_rest_cases
      split: prod.splits intro!: ext_field_update)

lemma ext_parse_foreground:
  assumes "ext ys s t"
    and "subencodingByte s AND HEXTILE_FOREGROUND_MASK \<noteq> 0 \<Longrightarrow> 2 \<le> unread s"
  shows "ext ys (parse_foreground s) (parse_foreground t)"
  using assms ext_read_pixel [OF assms(1)]
  by (auto simp: parse_foreground_def ext_fields [OF assms(1)]
      split: prod.splits intro!: ext_field_update)

lemma ext_parse_numSubrects:
  assumes "ext ys s t"
    and "subencodingByte s AND HEXTILE_SUBRECT_MASK \<noteq> 0 \<Longrightarrow> 1 \<le> unread s"
  shows "ext ys (parse_numSubrects s) (parse_numSubrects t)"
proof (cases "subencodingByte s AND HEXTILE_SUBRECT_MASK \<noteq> 0")
  case True
  with assms have one: "1 \<le> unread s" by simp
  then have "peek (cur t) 0 = peek (cur s) 0" by (intro ext_peek [OF assms(1)]) simp
  then show ?thesis
    using True ext_field_update(2) [OF ext_advance [OF assms(1) one], of "peek (cur s) 0"]
    by (simp add: parse_numSubrects_def ext_fields [OF assms(1)] Let_def)
next
  case False
  with assms show ?thesis
    by (simp add: parse_numSubrects_def ext_fields [OF assms(1)] ext_field_update)
qed

section \<open>Steps that only move on\<close>

definition moves :: "(bytes \<Rightarrow> 's \<Rightarrow> 's \<Rightarrow> bool) \<Rightarrow> bytes \<Rightarrow> int \<times> 's \<Rightarrow> int \<times> 's \<Rightarrow> bool" where
  "moves e ys p q \<longleftrightarrow> fst q = fst p \<and> e ys (snd p) (snd q)"

lemma moves_resumes: "moves e ys (f s) (f t) \<Longrightarrow> resumes e f ys s t"
  by (simp add: moves_def resumes_def)

lemma moves_same: "moves e [] p q \<Longrightarrow> same_result e p q"
  by (simp add: moves_def same_result_def)

lemma moves_lift:
  assumes "ext ys s t"
    and "\<And>c. f (s\<lparr>cur := c\<rparr>) = (fst (f s), (snd (f s))\<lparr>cur := c\<rparr>)"
    and "cur (snd (f s)) = cur s"
  shows "moves ext ys (f s) (f t)"
proof -
  from assms(1) obtain d where "t = s\<lparr>cur := d\<rparr>" "feeds ys (cur s) d" by (rule extE)
  with assms(2,3) show ?thesis by (simp add: ext_def moves_def)
qed

lemma hextile_init_moves: "ext ys s t \<Longrightarrow> moves ext ys (hextile_init s) (hextile_init t)"
  by (rule moves_lift) (simp_all add: hextile_init_def Let_def)

lemma hextile_done_moves: "ext ys s t \<Longrightarrow> moves ext ys (hextile_done s) (hextile_done t)"
  by (rule moves_lift) (simp_all add: hextile_done_def Let_def)

lemma hextile_drawtile_moves:
  "ext ys s t \<Longrightarrow> moves ext ys (hextile_drawtile D s) (hextile_drawtile D t)"
  by (rule moves_lift [where f = "hextile_drawtile D"])
    (simp_all add: hextile_drawtile_def Let_def tile_outside_def)

lemma parse_raw_tile_moves:
  "ext ys s t \<Longrightarrow> moves ext ys (parse_raw_tile D s) (parse_raw_tile D t)"
  by (rule moves_lift [where f = "parse_raw_tile D"])
    (simp_all add: parse_raw_tile_def Let_def tile_outside_def)

section \<open>The tile header\<close>

lemma ext_join: "ext ys s t \<Longrightarrow> ext ys s u \<Longrightarrow> ext [] t u"
  by (elim extE) (simp add: ext_def feeds_def)

lemma parse_background_unread:
  "subencodingByte s AND HEXTILE_BACKGROUND_MASK \<noteq> 0 \<longrightarrow> 2 \<le> unread s \<Longrightarrow>
   unread (parse_background s) =
     unread s - (if subencodingByte s AND HEXTILE_BACKGROUND_MASK \<noteq> 0 then 2 else 0)"
  by (simp add: parse_background_def read_pixel_def Let_def dataSize_advance)

lemma parse_foreground_unread:
  "subencodingByte s AND HEXTILE_FOREGROUND_MASK \<noteq> 0 \<longrightarrow> 2 \<le> unread s \<Longrightarrow>
   unread (parse_foreground s) =
     unread s - (if subencodingByte s AND HEXTILE_FOREGROUND_MASK \<noteq> 0 then 2 else 0)"
  by (simp add: parse_foreground_def read_pixel_def Let_def dataSize_advance)

lemma parse_keeps_subencodingByte [simp]:
  "subencodingByte (parse_background s) = subencodingByte s"
  "subencodingByte (parse_foreground s) = subencodingByte s"
  by (simp_all add: parse_background_def parse_foreground_def read_pixel_def Let_def)

lemma parse_tile_moves:
  assumes e: "ext ys s t" and n: "unat (header_rest (subencodingByte s)) \<le> unread s"
  shows "moves ext ys (parse_tile D s) (parse_tile D t)"
proof (cases "subencodingByte s AND HEXTILE_RAW_MASK \<noteq> 0")
  case True
  with e show ?thesis by (simp add: parse_tile_def ext_fields [OF e] parse_raw_tile_moves)
next
  case False
  have b: "ext ys (parse_background s) (parse_background t)"
    by (rule ext_parse_background [OF e n])
  have f: "ext ys (parse_foreground (parse_background s)) (parse_foreground (parse_background t))"
    using n by (intro ext_parse_foreground [OF b])
      (simp add: parse_background_unread header_rest_cases split: if_splits)
  have s: "ext ys (parse_numSubrects (parse_foreground (parse_background s)))
                  (parse_numSubrects (parse_foreground (parse_background t)))"
    using n by (intro ext_parse_numSubrects [OF f])
      (simp add: parse_background_unread parse_foreground_unread header_rest_cases
        split: if_splits)
  show ?thesis
    using False ext_field_update(1) [OF ext_put_rect [OF s]]
    by (simp add: parse_tile_def ext_fields [OF e] moves_def Let_def ext_fields(11-21) [OF s])
qed

definition header_ready :: "'d vnc \<Rightarrow> bool" where
  "header_ready s \<longleftrightarrow>
     1 \<le> unread s \<and> unat (header_rest (peek (cur s) 0)) \<le> unread s - 1"

lemma parseheader_ready:
  assumes "header_ready s"
  shows "hextile_parseheader D s =
    parse_tile D (s\<lparr>cur := advance 1 (touch 1 (cur s)), subencodingByte := peek (cur s) 0\<rparr>)"
  using assms dataSize_advance [of 1 "cur s"]
  by (simp add: header_ready_def hextile_parseheader_def Let_def word_less_nat_alt dataSize_advance)

lemma parseheader_waits:
  assumes "\<not> header_ready s" and "cwf (cur s)"
  shows "hextile_parseheader D s =
    (0, if unread s = 0 then s else s\<lparr>subencodingByte := peek (cur s) 0\<rparr>)"
  using assms
  by (auto simp: header_ready_def hextile_parseheader_def Let_def word_less_nat_alt
      dataSize_advance touch_safe not_le Suc_le_eq unat_gt_0 unat_eq_zero)

lemma parseheader_moves:
  assumes e: "ext ys s t" and r: "header_ready s"
  shows "moves ext ys (hextile_parseheader D s) (hextile_parseheader D t)"
proof -
  have one: "1 \<le> unread s" and "peek (cur t) 0 = peek (cur s) 0"
    using r ext_peek [OF e, of 0] by (auto simp: header_ready_def)
  moreover from this have "header_ready t"
    using r ext_unread [OF e] by (auto simp: header_ready_def)
  ultimately show ?thesis
    using r parse_tile_moves [OF ext_field_update(5) [OF ext_advance [OF e one]],
        of "peek (cur s) 0" D]
    by (simp add: parseheader_ready header_ready_def dataSize_advance)
qed

lemma parseheader_ext0:
  assumes e: "ext [] s t"
  shows "same_result ext (hextile_parseheader D s) (hextile_parseheader D t)"
proof (cases "header_ready s")
  case True
  then show ?thesis by (intro moves_same parseheader_moves [OF e])
next
  case False
  have u: "unread t = unread s" using ext_unread [OF e] by simp
  moreover have p: "unread s \<noteq> 0 \<Longrightarrow> peek (cur t) 0 = peek (cur s) 0"
    using ext_peek [OF e] by simp
  ultimately have "\<not> header_ready t" using False by (auto simp: header_ready_def)
  with False show ?thesis
    using e u p ext_field_update(5) [OF e] ext_feeds [OF e]
    by (simp add: parseheader_waits feeds_cwf same_result_def)
qed

lemma parseheader_resumes:
  assumes e: "ext ys s t"
  shows "resumes ext (hextile_parseheader D) ys s t"
proof (cases "header_ready s")
  case True
  then show ?thesis using parseheader_moves [OF e] by (intro moves_resumes)
next
  case False
  have wf: "cwf (cur s)" using ext_feeds [OF e] by (rule feeds_cwf)
  let ?x = "if unread s = 0 then subencodingByte s else peek (cur s) 0"
  let ?s = "s\<lparr>subencodingByte := ?x\<rparr>" and ?t = "t\<lparr>subencodingByte := ?x\<rparr>"
  have s: "hextile_parseheader D s = (0, ?s)"
    using parseheader_waits [OF False wf] by simp
  have t: "hextile_parseheader D ?t = hextile_parseheader D t"
  proof (cases "unread t = 0")
    case True
    then have "?t = t" using ext_unread [OF e] by (simp add: ext_fields(17) [OF e, symmetric])
    then show ?thesis by simp
  next
    case False
    then have "dataSize (cur t) \<noteq> 0" by auto
    then show ?thesis by (simp add: hextile_parseheader_def Let_def)
  qed
  have "same_result ext (hextile_parseheader D t) (hextile_parseheader D u)" if "ext ys ?s u" for u
    using parseheader_ext0 [OF ext_join [OF ext_field_update(5) [OF e] that], of D] t by simp
  then show ?thesis by (simp add: resumes_def s)
qed

section \<open>Subrectangles\<close>

definition subrect_ready :: "'d vnc \<Rightarrow> bool" where
  "subrect_ready s \<longleftrightarrow>
     (if subencodingByte s AND HEXTILE_SUBRECTCOLOR_MASK \<noteq> 0 then 4 else 2) \<le> unread s"

definition subrect_rest :: "u16 \<Rightarrow> 'd vnc \<Rightarrow> 'd vnc" where
  "subrect_rest p s =
     draw_subrect p (peek (cur s) 0) (peek (cur s) 1) (s\<lparr>cur := advance 2 (touch 2 (cur s))\<rparr>)"

lemma subrect_rest_ext:
  assumes "ext ys s t" and "2 \<le> unread s"
  shows "ext ys (subrect_rest p s) (subrect_rest p t)"
  using ext_draw_subrect [OF ext_advance [OF assms]] assms(2)
  by (simp add: subrect_rest_def ext_peek [OF assms(1)] del: draw_subrect_frame)

lemma subrect_waits: "\<not> subrect_ready s \<Longrightarrow> hextile_subrect s = (0, s)"
  by (simp add: subrect_ready_def hextile_subrect_def word_less_nat_alt split: if_splits)

lemma subrect_moves:
  assumes e: "ext ys s t" and r: "subrect_ready s"
  shows "moves ext ys (hextile_subrect s) (hextile_subrect t)"
proof -
  let ?col = "subencodingByte s AND HEXTILE_SUBRECTCOLOR_MASK \<noteq> 0"
  let ?rd = "\<lambda>s :: 'a vnc. if ?col then read_pixel s else (foreground s, s)"
  have full: "hextile_subrect x =
      (1, (let y = subrect_rest (fst (?rd x)) (snd (?rd x)) in y\<lparr>numSubrects := numSubrects y - 1\<rparr>))"
    if "subrect_ready x" "subencodingByte x = subencodingByte s" for x :: "'a vnc"
    using that
    by (auto simp: subrect_ready_def hextile_subrect_def subrect_rest_def Let_def
        word_less_nat_alt not_less split: prod.splits)
  have rt: "subrect_ready t"
    using r ext_unread [OF e] by (auto simp: subrect_ready_def ext_fields [OF e] split: if_splits)
  have p: "fst (?rd t) = fst (?rd s)" and e1: "ext ys (snd (?rd s)) (snd (?rd t))"
    using r e ext_read_pixel [OF e] by (auto simp: subrect_ready_def ext_fields [OF e])
  have two: "2 \<le> unread (snd (?rd s))"
    using r by (auto simp: subrect_ready_def unread_read_pixel)
  have e2: "ext ys (subrect_rest (fst (?rd s)) (snd (?rd s))) (subrect_rest (fst (?rd t)) (snd (?rd t)))"
    unfolding p by (rule subrect_rest_ext [OF e1 two])
  show "moves ext ys (hextile_subrect s) (hextile_subrect t)"
    unfolding full [OF r refl] full [OF rt ext_fields(17) [OF e]] Let_def moves_def
    using ext_field_update(2) [OF e2] ext_fields(18) [OF e2] by simp
qed

lemma subrect_result: "subrect_ready s \<Longrightarrow> fst (hextile_subrect s) = 1"
  by (auto simp: subrect_ready_def hextile_subrect_def Let_def word_less_nat_alt not_less
      split: prod.splits)

lemma fillbuffer_step:
  "numSubrects s \<noteq> 0 \<Longrightarrow> subrect_ready s \<Longrightarrow>
   hextile_fillbuffer s = hextile_fillbuffer (snd (hextile_subrect s))"
  by (subst hextile_fillbuffer.simps) (use subrect_result [of s] in \<open>auto split: prod.splits\<close>)

lemma fillbuffer_waits:
  "numSubrects s \<noteq> 0 \<Longrightarrow> \<not> subrect_ready s \<Longrightarrow> hextile_fillbuffer s = (0, s)"
  by (subst hextile_fillbuffer.simps) (simp add: subrect_waits)

lemma fillbuffer_end:
  "numSubrects s = 0 \<Longrightarrow> hextile_fillbuffer s = (1, s\<lparr>hextileState := HEXTILESTATE_DRAWTILE\<rparr>)"
  by (subst hextile_fillbuffer.simps) simp

lemma subrect_ready_ext: "ext ys s t \<Longrightarrow> subrect_ready s \<Longrightarrow> subrect_ready t"
  using ext_unread [of ys s t] by (auto simp: subrect_ready_def ext_fields split: if_splits)

lemma subrect_ready_ext0: "ext [] s t \<Longrightarrow> subrect_ready t = subrect_ready s"
  using subrect_ready_ext ext_sym0 by blast

lemma fillbuffer_induct [case_names step wait finish]:
  assumes "\<And>s. numSubrects s \<noteq> 0 \<Longrightarrow> subrect_ready s \<Longrightarrow> P (snd (hextile_subrect s)) \<Longrightarrow> P s"
    and "\<And>s. numSubrects s \<noteq> 0 \<Longrightarrow> \<not> subrect_ready s \<Longrightarrow> P s"
    and "\<And>s. numSubrects s = 0 \<Longrightarrow> P s"
  shows "P s"
proof (induction s rule: hextile_fillbuffer.induct)
  case (1 s)
  show ?case
  proof (cases "numSubrects s \<noteq> 0 \<and> subrect_ready s")
    case True
    then have "(1, snd (hextile_subrect s)) = hextile_subrect s"
      using subrect_result [of s] by (simp add: prod_eq_iff)
    with True have "P (snd (hextile_subrect s))" by (intro "1.IH") auto
    with True show ?thesis by (simp add: assms(1))
  next
    case False
    then show ?thesis using assms(2,3) by blast
  qed
qed

lemma fillbuffer_ext0:
  "ext [] s t \<Longrightarrow> same_result ext (hextile_fillbuffer s) (hextile_fillbuffer t)"
proof (induction s arbitrary: t rule: fillbuffer_induct)
  case (step s)
  have "ext [] (snd (hextile_subrect s)) (snd (hextile_subrect t))"
    using subrect_moves [OF step.prems step(2)] by (simp add: moves_def)
  from step.IH [OF this] show ?case
    using step by (simp add: fillbuffer_step subrect_ready_ext ext_fields)
next
  case (wait s)
  then show ?case
    by (simp add: fillbuffer_waits ext_fields subrect_ready_ext0 same_result_def)
next
  case (finish s)
  then show ?case
    by (simp add: fillbuffer_end ext_fields same_result_def ext_field_update)
qed

lemma fillbuffer_resumes: "ext ys s t \<Longrightarrow> resumes ext hextile_fillbuffer ys s t"
proof (induction s arbitrary: t rule: fillbuffer_induct)
  case (step s)
  have "ext ys (snd (hextile_subrect s)) (snd (hextile_subrect t))"
    using subrect_moves [OF step.prems step(2)] by (simp add: moves_def)
  from step.IH [OF this] show ?case
    using step unfolding resumes_def
    by (simp add: fillbuffer_step subrect_ready_ext ext_fields)
next
  case (wait s)
  then show ?case
    unfolding resumes_def by (simp add: fillbuffer_waits) (blast intro: fillbuffer_ext0 ext_join)
next
  case (finish s)
  then show ?case
    by (simp add: fillbuffer_end ext_fields resumes_def ext_field_update)
qed

lemma subrect_keeps_state: "hextileState (snd (hextile_subrect s)) = hextileState s"
  by (simp add: hextile_subrect_def read_pixel_def Let_def)

lemma fillbuffer_keeps_state:
  "fst (hextile_fillbuffer s) = 0 \<Longrightarrow> hextileState (snd (hextile_fillbuffer s)) = hextileState s"
  by (induction s rule: fillbuffer_induct)
    (simp_all add: fillbuffer_step fillbuffer_waits fillbuffer_end subrect_keeps_state)

section \<open>Raw pixels\<close>

text \<open>
  Both routines for raw pixels take what is there: all the pixels still due if their bytes
  are unread, otherwise as many as the unread bytes make up. \<open>due\<close> is the byte count the
  code computes, a 32-bit product.
\<close>

definition due :: "'d vnc \<Rightarrow> nat" where
  "due s = unat (interPixelCount s * 2)"

lemma due_nat: "due s = (unat (interPixelCount s) * 2) mod 4294967296"
  by (simp add: due_def unat_word_ariths)

lemma half_of_wrapped:
  assumes "(a::nat) < 4294967296" and "(a * 2) mod 4294967296 \<le> 65535"
  shows "a mod 65536 = ((a * 2) mod 4294967296) div 2"
proof (cases "a < 2147483648")
  case True
  then have "(a * 2) mod 4294967296 = a * 2" by simp
  with assms(2) show ?thesis by simp
next
  case False
  define b where "b = a - 2147483648"
  have a: "a = b + 32768 * 65536" using False by (simp add: b_def)
  have m: "(a * 2) mod 4294967296 = b * 2" using assms(1) by (simp add: a le_mod_geq)
  have "a mod 65536 = b mod 65536" unfolding a by (rule mod_mult_self1)
  with m assms(2) show ?thesis by simp
qed

lemma due_half:
  assumes "due s \<le> 65535"
  shows "ucast (interPixelCount s) = (of_nat (due s div 2) :: u16)"
proof -
  have "unat (interPixelCount s) mod 65536 = due s div 2"
    using half_of_wrapped [OF unat_u32_less] assms by (simp add: due_nat)
  then show ?thesis
    using assms by (simp add: word_unat_eq_iff unsigned_ucast_eq take_bit_eq_mod unat_of_nat)
qed

lemma due_even: "2 * (due s div 2) = due s"
proof -
  have "2 dvd (unat (interPixelCount s) * 2) mod 4294967296" by (simp add: dvd_mod)
  then show ?thesis unfolding due_nat by simp
qed

lemma half_size_word:
  "ucast (w div 2 :: u16) = (of_nat (unat w div 2) :: u32)" "w div 2 = of_nat (unat w div 2)"
  using unat_u16_less [of w] by (simp_all add: word_unat_eq_iff unat_of_nat)

lemma dropOutOfViewPixels_eq:
  "dropOutOfViewPixels s =
     (if due s \<le> unread s then (1, s\<lparr>cur := advance (due s) (cur s), interPixelCount := 0\<rparr>)
      else (0, s\<lparr>cur := advance (unread s div 2 * 2) (cur s),
                 interPixelCount := interPixelCount s - of_nat (unread s div 2)\<rparr>))"
  unfolding dropOutOfViewPixels_def due_def Let_def half_size_word(1)
  by (auto simp: word_le_nat_alt word_less_nat_alt)

lemma hextile_drawraw_eq:
  "hextile_drawraw D s =
     (if due s \<le> unread s
      then (1, s\<lparr>panel := DrawRawTile D (of_nat (due s div 2)) 2 (pointee (cur s)) (panel s),
                 cur := advance (due s) (touch (due s) (cur s)), interPixelCount := 0,
                 hextileState := HEXTILESTATE_DONE\<rparr>)
      else (0, s\<lparr>panel := DrawRawTile D (of_nat (unread s div 2)) 2 (pointee (cur s)) (panel s),
                 interPixelCount := interPixelCount s - of_nat (unread s div 2),
                 cur := advance (unread s div 2 * 2) (touch (unread s div 2 * 2) (cur s))\<rparr>))"
proof (cases "due s \<le> unread s")
  case True
  have small: "due s \<le> 65535" using True unat_u16_less [of "dataSize (cur s)"] by simp
  then have "2 * unat (of_nat (due s div 2) :: u16) = due s"
    by (simp add: unat_of_nat due_even)
  moreover have "\<not> interPixelCount s * 2 > ucast (dataSize (cur s))"
    using True by (simp add: due_def word_less_nat_alt not_less)
  ultimately show ?thesis
    using True unfolding hextile_drawraw_def due_half [OF small] Let_def
    by (simp add: due_def)
next
  case False
  then have "interPixelCount s * 2 > ucast (dataSize (cur s))"
    by (simp add: due_def word_less_nat_alt)
  then show ?thesis
    using False unat_half_double [of "dataSize (cur s)"]
    unfolding hextile_drawraw_def half_size_word(1) Let_def
    by (simp add: half_size_word(2) [symmetric] mult.commute)
qed

lemma due_minus:
  assumes "2 * k \<le> due s"
  shows "unat ((interPixelCount s - of_nat k) * 2) = due s - 2 * k"
proof -
  have eq: "(interPixelCount s - of_nat k) * 2 = interPixelCount s * 2 - of_nat (2 * k)"
    by (simp add: algebra_simps)
  have "2 * k < 4294967296" using assms unat_u32_less [of "interPixelCount s * 2"]
    by (simp add: due_def)
  then have "unat (of_nat (2 * k) :: u32) = 2 * k" by (simp only: unat_of_nat) simp
  then show ?thesis
    unfolding eq using assms by (simp add: unat_sub word_le_nat_alt due_def)
qed

text \<open>
  A call that ran out of bytes took \<open>k\<close> pixels of \<open>s\<close> and left the rest due; \<open>u\<close> is that
  state once \<open>ys\<close> has arrived, and \<open>t\<close> the state that had \<open>ys\<close> from the start.
\<close>

definition split_raw :: "nat \<Rightarrow> bytes \<Rightarrow> 'd vnc \<Rightarrow> 'd vnc \<Rightarrow> 'd vnc \<Rightarrow> bool" where
  "split_raw k ys s t u \<longleftrightarrow>
     ext ys s t \<and> 2 * k \<le> unread s \<and> 2 * k \<le> due s \<and>
     feeds ys (advance (2 * k) (cur s)) (cur u) \<and>
     interPixelCount u = interPixelCount s - of_nat k"

lemma split_raw_due: "split_raw k ys s t u \<Longrightarrow> due t = due s \<and> due u = due s - 2 * k"
  using due_minus [of k s] by (auto simp: split_raw_def due_def ext_fields)

lemma split_raw_unread:
  assumes "split_raw k ys s t u"
  shows "unread t = unread s + length ys" and "unread u = unread t - 2 * k"
  using assms ext_unread [of ys s t] feeds_size [of ys "advance (2 * k) (cur s)" "cur u"]
  by (simp_all add: split_raw_def dataSize_advance)

lemma split_raw_position:
  assumes "split_raw k ys s t u" and "2 * k \<le> m" and "m \<le> unread t"
  shows "feeds [] (advance m (cur t)) (advance (m - 2 * k) (cur u))"
proof -
  have "feeds [] (advance (2 * k) (cur t)) (cur u)"
    using assms(1) by (auto simp: split_raw_def intro: feeds_advance0 ext_feeds)
  then have "feeds [] (advance (m - 2 * k) (advance (2 * k) (cur t))) (advance (m - 2 * k) (cur u))"
    using assms(2,3) by (intro feeds_advance) (simp_all add: dataSize_advance)
  then show ?thesis using assms(2) by simp
qed

text \<open>The split that a call makes when it cannot take all that is due.\<close>

lemma split_rawI:
  assumes "ext ys s t" and "\<not> due s \<le> unread s"
    and "feeds ys (advance (unread s div 2 * 2) (cur s)) (cur u)"
    and "interPixelCount u = interPixelCount s - of_nat (unread s div 2)"
  shows "split_raw (unread s div 2) ys s t u"
  using assms by (simp add: split_raw_def mult.commute)

text \<open>Taking the rest from \<open>u\<close> leaves the same bytes and the same count as taking all from \<open>t\<close>.\<close>

lemma split_raw_rest:
  assumes "split_raw k ys s t u"
  shows "due t \<le> unread t \<longleftrightarrow> due u \<le> unread u"
    and "due t \<le> unread t \<Longrightarrow> feeds [] (advance (due t) (cur t)) (advance (due u) (cur u))"
    and "feeds [] (advance (unread t div 2 * 2) (cur t)) (advance (unread u div 2 * 2) (cur u))"
    and "interPixelCount u - of_nat (unread u div 2) = interPixelCount t - of_nat (unread t div 2)"
proof -
  have k: "2 * k \<le> due t" "2 * k \<le> unread t" "k \<le> unread t div 2"
    using assms split_raw_due [OF assms] split_raw_unread [OF assms] by (auto simp: split_raw_def)
  have u: "due u = due t - 2 * k" "unread u = unread t - 2 * k"
    "unread u div 2 = unread t div 2 - k" "unread u div 2 * 2 = unread t div 2 * 2 - 2 * k"
    using split_raw_due [OF assms] split_raw_unread [OF assms]
    by (auto simp: half_minus diff_mult_distrib)
  show "due t \<le> unread t \<longleftrightarrow> due u \<le> unread u"
    unfolding u(1,2) using k(1,2) by arith
  show "due t \<le> unread t \<Longrightarrow> feeds [] (advance (due t) (cur t)) (advance (due u) (cur u))"
    using split_raw_position [OF assms k(1)] u by simp
  show "feeds [] (advance (unread t div 2 * 2) (cur t)) (advance (unread u div 2 * 2) (cur u))"
    using split_raw_position [OF assms, of "unread t div 2 * 2"] k u by simp
  have "interPixelCount t = interPixelCount s"
    using assms ext_fields(2) by (auto simp: split_raw_def)
  then show "interPixelCount u - of_nat (unread u div 2)
      = interPixelCount t - of_nat (unread t div 2)"
    using assms k(3) u(3) by (simp add: split_raw_def of_nat_diff)
qed

lemma drop_ext0:
  assumes e: "ext [] s t"
  shows "same_result ext (dropOutOfViewPixels s) (dropOutOfViewPixels t)"
proof -
  from e obtain d where t: "t = s\<lparr>cur := d\<rparr>" and f: "feeds [] (cur s) d" by (rule extE)
  have "dataSize d = dataSize (cur s)" by (rule feeds_same_size [OF f])
  moreover have "n \<le> unread s \<Longrightarrow> feeds [] (advance n (cur s)) (advance n d)" for n
    by (rule feeds_advance [OF f])
  ultimately show ?thesis
    by (simp add: t dropOutOfViewPixels_eq same_result_def ext_def due_def)
qed

lemma drop_resumes:
  assumes e: "ext ys s t"
  shows "resumes ext dropOutOfViewPixels ys s t"
proof -
  from e obtain d where t: "t = s\<lparr>cur := d\<rparr>" and f: "feeds ys (cur s) d" by (rule extE)
  have size: "unat (dataSize d) = unread s + length ys" by (rule feeds_size [OF f])
  show ?thesis
  proof (cases "due s \<le> unread s")
    case True
    then show ?thesis using size feeds_advance [OF f True]
      by (simp add: t dropOutOfViewPixels_eq resumes_def ext_def due_def)
  next
    case False
    let ?k = "unread s div 2"
    have "same_result ext (dropOutOfViewPixels t) (dropOutOfViewPixels u)"
      if u: "ext ys (snd (dropOutOfViewPixels s)) u" for u
    proof -
      from u obtain c where uc: "u = (snd (dropOutOfViewPixels s))\<lparr>cur := c\<rparr>"
        and fc: "feeds ys (advance (?k * 2) (cur s)) c"
        using False by (auto simp: dropOutOfViewPixels_eq elim!: extE)
      have "split_raw ?k ys s t u"
        using e False fc uc by (intro split_rawI) (simp_all add: dropOutOfViewPixels_eq)
      note rest = split_raw_rest [OF this]
      show ?thesis
        unfolding dropOutOfViewPixels_eq [of t] dropOutOfViewPixels_eq [of u]
        using rest False by (auto simp: uc t dropOutOfViewPixels_eq same_result_def ext_def)
    qed
    with False show ?thesis by (simp add: resumes_def dropOutOfViewPixels_eq)
  qed
qed

lemma hextile_dropraw_eq:
  "hextile_dropraw = post dropOutOfViewPixels (\<lambda>s. s\<lparr>hextileState := HEXTILESTATE_DONE\<rparr>)"
  by (simp add: fun_eq_iff hextile_dropraw_def post_def dropOutOfViewPixels_eq)

lemma dropraw_ext0: "ext [] s t \<Longrightarrow> same_result ext (hextile_dropraw s) (hextile_dropraw t)"
  unfolding hextile_dropraw_eq by (intro same_result_post drop_ext0 ext_field_update(1))

lemma dropraw_resumes: "ext ys s t \<Longrightarrow> resumes ext hextile_dropraw ys s t"
  unfolding hextile_dropraw_eq by (intro resumes_post drop_resumes ext_field_update(1))

context raw_display
begin

lemma draw_same:
  assumes "feeds ys (cur s) (cur t)" and "2 * n \<le> unread s"
  shows "DrawRawTile D (of_nat n) 2 (pointee (cur t)) d
    = DrawRawTile D (of_nat n) 2 (pointee (cur s)) d"
proof -
  note wf = feeds_cwf [OF assms(1)] and size = feeds_size [OF assms(1)]
  have n: "n \<le> 32767" using assms(2) unat_u16_less [of "dataSize (cur s)"] by simp
  then have u: "unat (of_nat n :: u16) = n" by (simp add: unat_of_nat)
  have "take (2 * n) (pointee (cur t)) = take (2 * n) (pointee (cur s))"
    using assms wf size length_view [OF wf(1)] by (simp add: pointee_view feeds_def)
  then show ?thesis
    using n assms(2) size length_pointee [OF wf(1)] length_pointee [OF wf(2)]
    by (intro raw_reads_only) (simp_all add: u)
qed

lemma draw_split:
  assumes sp: "split_raw k ys s t u" and n: "2 * (k + n) \<le> unread t"
  shows "DrawRawTile D (of_nat (k + n)) 2 (pointee (cur t)) d
    = DrawRawTile D (of_nat n) 2 (pointee (cur u)) (DrawRawTile D (of_nat k) 2 (pointee (cur s)) d)"
proof -
  have st: "feeds ys (cur s) (cur t)" and k: "2 * k \<le> unread s"
    and fu: "feeds ys (advance (2 * k) (cur s)) (cur u)"
    using sp by (auto simp: split_raw_def intro: ext_feeds)
  note wf = feeds_cwf [OF st] feeds_cwf(2) [OF fu] and vs = length_view [OF feeds_cwf(1) [OF st]]
  have small: "k + n \<le> 32767" using n unat_u16_less [of "dataSize (cur t)"] by simp
  then have u: "unat (of_nat k :: u16) = k" "unat (of_nat n :: u16) = n"
    by (simp_all add: unat_of_nat)
  have vt: "view (cur t) = view (cur s) @ ys" using st by (simp add: feeds_def)
  have vu: "view (cur u) = drop (2 * k) (view (cur t))"
    using fu k vs by (simp add: feeds_def vt view_advance wf)
  have nu: "2 * n \<le> unread u" using n split_raw_unread [OF sp] by simp
  have "take (2 * k) (pointee (cur s)) = take (2 * k) (pointee (cur t))"
    using k n vs by (simp add: pointee_view wf vt)
  moreover have "take (2 * n) (pointee (cur u)) = take (2 * n) (drop (2 * k) (pointee (cur t)))"
  proof -
    have "take (2 * n) (drop (2 * k) (pointee (cur t))) = drop (2 * k) (take (2 * (k + n)) (pointee (cur t)))"
      by (simp add: take_drop algebra_simps)
    also have "\<dots> = take (2 * n) (view (cur u))"
      using n by (simp add: pointee_view wf vu take_drop algebra_simps)
    finally show ?thesis using nu by (simp add: pointee_view wf)
  qed
  ultimately have "DrawRawTile D (of_nat k + of_nat n) 2 (pointee (cur t)) d
      = DrawRawTile D (of_nat n) 2 (pointee (cur u)) (DrawRawTile D (of_nat k) 2 (pointee (cur s)) d)"
    using small n k nu length_pointee [OF wf(1)] length_pointee [OF wf(2)] length_pointee [OF wf(3)]
    by (intro raw_resume) (simp_all add: u)
  then show ?thesis by simp
qed

lemma drawraw_done_moves:
  assumes e: "ext ys s t" and d: "due s \<le> unread s"
  shows "moves ext ys (hextile_drawraw D s) (hextile_drawraw D t)"
proof -
  from e obtain c where t: "t = s\<lparr>cur := c\<rparr>" and f: "feeds ys (cur s) c" by (rule extE)
  have dt: "due t = due s" by (simp add: t due_def)
  moreover have ut: "unread t = unread s + length ys" by (rule ext_unread [OF e])
  moreover have "DrawRawTile D (of_nat (due s div 2)) 2 (pointee (cur t)) (panel s)
      = DrawRawTile D (of_nat (due s div 2)) 2 (pointee (cur s)) (panel s)"
    by (rule draw_same [OF ext_feeds [OF e]]) (simp add: due_even d)
  moreover have "feeds ys (advance (due s) (touch (due s) (cur s))) (advance (due s) (touch (due s) c))"
    using feeds_advance [OF f d] d feeds_size [OF f] by (simp add: touch_safe feeds_cwf [OF f])
  ultimately show ?thesis
    using d by (simp add: hextile_drawraw_eq moves_def ext_def t)
qed

lemma drawraw_ext0:
  assumes e: "ext [] s t"
  shows "same_result ext (hextile_drawraw D s) (hextile_drawraw D t)"
proof (cases "due s \<le> unread s")
  case True
  then show ?thesis by (rule moves_same [OF drawraw_done_moves [OF e]])
next
  case False
  from e obtain c where t: "t = s\<lparr>cur := c\<rparr>" and f: "feeds [] (cur s) c" by (rule extE)
  let ?k = "unread s div 2"
  have ut: "unat (dataSize c) = unread s" using feeds_size [OF f] by simp
  moreover have "DrawRawTile D (of_nat ?k) 2 (pointee (cur t)) (panel s)
      = DrawRawTile D (of_nat ?k) 2 (pointee (cur s)) (panel s)"
    by (rule draw_same [OF ext_feeds [OF e]]) simp
  moreover have "feeds [] (advance (?k * 2) (touch (?k * 2) (cur s)))
      (advance (?k * 2) (touch (?k * 2) c))"
    using feeds_advance [OF f, of "?k * 2"] ut by (simp add: touch_safe feeds_cwf [OF f])
  moreover have "due t = due s" by (simp add: t due_def)
  ultimately show ?thesis
    using False by (simp add: hextile_drawraw_eq same_result_def ext_def t)
qed

lemma drawraw_wait:
  assumes e: "ext ys s t" and d: "\<not> due s \<le> unread s"
    and u: "ext ys (snd (hextile_drawraw D s)) u"
  shows "same_result ext (hextile_drawraw D t) (hextile_drawraw D u)"
proof -
  let ?k = "unread s div 2"
  have wf: "cwf (cur s)" using ext_feeds [OF e] by (rule feeds_cwf)
  from u obtain c where uc: "u = (snd (hextile_drawraw D s))\<lparr>cur := c\<rparr>"
    and fc: "feeds ys (advance (?k * 2) (cur s)) c"
    using d wf by (auto simp: hextile_drawraw_eq touch_safe elim!: extE)
  from e obtain a where t: "t = s\<lparr>cur := a\<rparr>" and f: "feeds ys (cur s) a" by (rule extE)
  have sp: "split_raw ?k ys s t u"
    using e d fc uc by (intro split_rawI) (simp_all add: hextile_drawraw_eq)
  note rest = split_raw_rest [OF sp]
  have up: "panel u = DrawRawTile D (of_nat ?k) 2 (pointee (cur s)) (panel s)"
    using d by (simp add: uc hextile_drawraw_eq)
  have sums: "due t div 2 = ?k + due u div 2" "unread t div 2 = ?k + unread u div 2"
    using split_raw_due [OF sp] split_raw_unread [OF sp] sp
    by (auto simp: split_raw_def half_minus)
  have wfs: "cwf a" "cwf c" using feeds_cwf f fc by blast+
  show ?thesis
  proof (cases "due t \<le> unread t")
    case True
    have "DrawRawTile D (of_nat (due t div 2)) 2 (pointee (cur t)) (panel s)
        = DrawRawTile D (of_nat (due u div 2)) 2 (pointee (cur u)) (panel u)"
      unfolding up sums(1) using True
      by (intro draw_split [OF sp]) (simp add: sums(1) [symmetric] due_even)
    with True rest show ?thesis
      using wfs d
      by (simp add: hextile_drawraw_eq [of D t] hextile_drawraw_eq [of D u] same_result_def ext_def
          t uc touch_safe hextile_drawraw_eq)
  next
    case False
    have "DrawRawTile D (of_nat (unread t div 2)) 2 (pointee (cur t)) (panel s)
        = DrawRawTile D (of_nat (unread u div 2)) 2 (pointee (cur u)) (panel u)"
      unfolding up sums(2) by (intro draw_split [OF sp]) (simp add: sums(2) [symmetric])
    with False rest show ?thesis
      using wfs d
      by (simp add: hextile_drawraw_eq [of D t] hextile_drawraw_eq [of D u] same_result_def ext_def
          t uc touch_safe hextile_drawraw_eq)
  qed
qed

lemma drawraw_resumes: "ext ys s t \<Longrightarrow> resumes ext (hextile_drawraw D) ys s t"
proof (cases "due s \<le> unread s")
  case True
  then show "ext ys s t \<Longrightarrow> ?thesis" by (intro moves_resumes drawraw_done_moves)
next
  case False
  then have "fst (hextile_drawraw D s) = 0" by (simp add: hextile_drawraw_eq)
  with False show "ext ys s t \<Longrightarrow> ?thesis" by (auto simp: resumes_def intro: drawraw_wait)
qed

section \<open>The whole decoder\<close>

lemma processHextile_ext0:
  assumes e: "ext [] s t"
  shows "same_result ext (processHextile D s) (processHextile D t)"
  using moves_same [OF hextile_init_moves [OF e]] moves_same [OF hextile_done_moves [OF e]]
    moves_same [OF hextile_drawtile_moves [OF e]] parseheader_ext0 [OF e] dropraw_ext0 [OF e]
    drawraw_ext0 [OF e] fillbuffer_ext0 [OF e]
  by (simp add: processHextile_def ext_fields [OF e] split: hextilestate.splits)

lemma processHextile_keeps_state:
  assumes "hextileState s \<noteq> HEXTILESTATE_DONE" and "fst (processHextile D s) = 0"
  shows "hextileState (snd (processHextile D s)) = hextileState s"
proof (cases "hextileState s")
  case HEXTILESTATE_PARSEHEADER
  then show ?thesis using assms(2)
    by (auto simp: processHextile_def hextile_parseheader_def parse_tile_def parse_raw_tile_def
        Let_def split: if_splits)
next
  case HEXTILESTATE_FILLBUFFER
  then show ?thesis using assms(2) by (simp add: processHextile_def fillbuffer_keeps_state)
qed (use assms in \<open>auto simp: processHextile_def hextile_init_def hextile_drawtile_def
      hextile_dropraw_eq post_def dropOutOfViewPixels_eq hextile_drawraw_eq Let_def split: if_splits\<close>)

lemma processHextile_resumes:
  assumes e: "ext ys s t"
  shows "resumes ext (processHextile D) ys s t"
proof (cases "hextileState s = HEXTILESTATE_DONE")
  case True
  then show ?thesis
    using moves_resumes [where f = "processHextile D", of ext ys s t] hextile_done_moves [OF e]
    by (simp add: processHextile_def ext_fields [OF e])
next
  case False
  define g where "g = (case hextileState s of
        HEXTILESTATE_INIT \<Rightarrow> hextile_init
      | HEXTILESTATE_DONE \<Rightarrow> hextile_done
      | HEXTILESTATE_PARSEHEADER \<Rightarrow> hextile_parseheader D
      | HEXTILESTATE_DROPRAW \<Rightarrow> hextile_dropraw
      | HEXTILESTATE_DRAWRAW \<Rightarrow> hextile_drawraw D
      | HEXTILESTATE_FILLBUFFER \<Rightarrow> hextile_fillbuffer
      | HEXTILESTATE_DRAWTILE \<Rightarrow> hextile_drawtile D)"
  have g: "processHextile D x = g x" if "hextileState x = hextileState s" for x
    using that by (simp add: processHextile_def g_def split: hextilestate.splits)
  have "resumes ext g ys s t"
    using e False unfolding g_def
    by (cases "hextileState s")
      (simp_all add: moves_resumes hextile_init_moves hextile_done_moves hextile_drawtile_moves
        parseheader_resumes dropraw_resumes drawraw_resumes fillbuffer_resumes)
  moreover have "hextileState u = hextileState s"
    if "ext ys (snd (processHextile D s)) u" "fst (processHextile D s) = 0" for u
    using that ext_fields(10) [OF that(1)] processHextile_keeps_state [OF False] by simp
  ultimately show ?thesis
    unfolding resumes_def using g [OF refl] g [OF ext_fields(10) [OF e]] g by metis
qed

end

lemma hextile_loop_unfold:
  "hextile_loop D s =
     (if fst (processHextile D s) > 0 then hextile_loop D (snd (processHextile D s))
      else processHextile D s)"
  using processHextile_range [of D s "fst (processHextile D s)" "snd (processHextile D s)"]
  by (subst hextile_loop.simps) (auto split: prod.splits)

lemma hextile_loop_wf: "wf {(t, s). fst (processHextile D s) > 0 \<and> t = snd (processHextile D s)}"
  by (rule wf_subset [OF wf_hextile_order]) (auto intro!: processHextile_progress)

sublocale raw_display \<subseteq> hextile: incremental ext "processHextile D" "hextile_loop D"
  by unfold_locales
    (auto intro: ext_sym0 ext_trans processHextile_resumes processHextile_ext0 hextile_loop_wf
      simp: hextile_loop_unfold)

end
