(* ===== verification/VncSafety.thy ===== *)
theory VncSafety
  imports HextileResume VncMachine
begin

text \<open>
  What the receive routines do to the buffer they are given: they only move \<open>dataPtr\<close>
  forward, over bytes that were there, and never read outside the buffer. The remainder
  that \<open>Vnc_ProcessVncBuffer\<close> reports is therefore the end of the buffer.
\<close>

section \<open>Consuming a prefix\<close>

definition consumes :: "'d vnc \<Rightarrow> 'd vnc \<Rightarrow> bool" where
  "consumes s t \<longleftrightarrow> (\<exists>n \<le> unread s. cur t = advance n (cur s))"

lemma consumesI: "n \<le> unread s \<Longrightarrow> cur t = advance n (cur s) \<Longrightarrow> consumes s t"
  by (auto simp: consumes_def)

lemma consumes_same: "cur t = cur s \<Longrightarrow> consumes s t"
  using consumesI [of 0] by simp

lemma consumes_cwf: "consumes s t \<Longrightarrow> cwf (cur s) \<Longrightarrow> cwf (cur t)"
  by (auto simp: consumes_def cwf_advance)

lemma consumes_oob: "consumes s t \<Longrightarrow> oob (cur t) = oob (cur s)"
  by (auto simp: consumes_def)

lemma consumes_unread: "consumes s t \<Longrightarrow> unread t \<le> unread s"
  by (auto simp: consumes_def dataSize_advance)

lemma consumes_trans: "consumes s t \<Longrightarrow> consumes t u \<Longrightarrow> consumes s u"
proof -
  assume "consumes s t" "consumes t u"
  then obtain m n where "m \<le> unread s" "cur t = advance m (cur s)"
    and "n \<le> unread t" "cur u = advance n (cur t)"
    by (auto simp: consumes_def)
  then show ?thesis by (intro consumesI [of "m + n"]) (auto simp: dataSize_advance)
qed

lemma consumes_step:
  "consumes s t \<Longrightarrow> cwf (cur s) \<Longrightarrow> (cwf (cur t) \<Longrightarrow> consumes t u) \<Longrightarrow> consumes s u"
  using consumes_trans consumes_cwf by blast

lemma consumes_view:
  assumes "consumes s t" and "cwf (cur s)"
  shows "view (cur t) = drop (unread s - unread t) (view (cur s))"
  using assms by (auto simp: consumes_def view_advance dataSize_advance)

section \<open>The hextile decoder\<close>

lemma consumes_read:
  assumes "cwf (cur s)" and "n \<le> unread s" and "cur t = advance n (touch n (cur s))"
  shows "consumes s t"
  using assms by (intro consumesI [of n]) (simp_all add: touch_safe)

lemma drop_consumes: "consumes s (snd (dropOutOfViewPixels s))"
  using consumesI [of "due s" s] consumesI [of "unread s div 2 * 2" s]
  by (simp add: dropOutOfViewPixels_eq)

lemma drawraw_consumes: "cwf (cur s) \<Longrightarrow> consumes s (snd (hextile_drawraw D s))"
  by (simp add: hextile_drawraw_eq consumes_read [of s "due s"]
      consumes_read [of s "unread s div 2 * 2"])

lemma read_pixel_consumes: "cwf (cur s) \<Longrightarrow> 2 \<le> unread s \<Longrightarrow> consumes s (snd (read_pixel s))"
  by (rule consumes_read [of s 2]) (simp_all add: read_pixel_def Let_def)

lemma consumes_frame: "consumes s t \<Longrightarrow> cur u = cur t \<Longrightarrow> consumes s u"
  by (simp add: consumes_def)

lemma parse_background_consumes:
  "cwf (cur s) \<Longrightarrow> unat (header_rest (subencodingByte s)) \<le> unread s \<Longrightarrow>
     consumes s (parse_background s)"
  using read_pixel_consumes [of s]
  by (auto simp: parse_background_def header_rest_cases consumes_same split: prod.splits
      intro: consumes_frame)

lemma parse_foreground_consumes:
  "cwf (cur s) \<Longrightarrow> (subencodingByte s AND HEXTILE_FOREGROUND_MASK \<noteq> 0 \<Longrightarrow> 2 \<le> unread s) \<Longrightarrow>
     consumes s (parse_foreground s)"
  using read_pixel_consumes [of s]
  by (auto simp: parse_foreground_def consumes_same split: prod.splits intro: consumes_frame)

lemma parse_numSubrects_consumes:
  "cwf (cur s) \<Longrightarrow> (subencodingByte s AND HEXTILE_SUBRECT_MASK \<noteq> 0 \<Longrightarrow> 1 \<le> unread s) \<Longrightarrow>
     consumes s (parse_numSubrects s)"
  by (auto simp: parse_numSubrects_def Let_def consumes_same intro: consumes_read [of s 1])

lemma parse_tile_consumes:
  assumes wf: "cwf (cur s)" and n: "unat (header_rest (subencodingByte s)) \<le> unread s"
  shows "consumes s (snd (parse_tile D s))"
proof (cases "subencodingByte s AND HEXTILE_RAW_MASK \<noteq> 0")
  case True
  then show ?thesis by (intro consumes_same) (simp add: parse_tile_def parse_raw_tile_def Let_def)
next
  case False
  let ?b = "parse_background s"
  have b: "consumes s ?b" by (rule parse_background_consumes [OF wf n])
  note wb = consumes_cwf [OF b wf]
  have f: "consumes ?b (parse_foreground ?b)"
    using n by (intro parse_foreground_consumes wb)
      (simp add: parse_background_unread header_rest_cases split: if_splits)
  have u: "consumes (parse_foreground ?b) (parse_numSubrects (parse_foreground ?b))"
    using n by (intro parse_numSubrects_consumes consumes_cwf [OF f wb])
      (simp add: parse_background_unread parse_foreground_unread header_rest_cases
        split: if_splits)
  from False consumes_trans [OF b consumes_trans [OF f u]] show ?thesis
    by (elim consumes_frame) (simp add: parse_tile_def Let_def)
qed

lemma parseheader_consumes:
  assumes wf: "cwf (cur s)"
  shows "consumes s (snd (hextile_parseheader D s))"
proof (cases "header_ready s")
  case True
  let ?t = "s\<lparr>cur := advance 1 (touch 1 (cur s)), subencodingByte := peek (cur s) 0\<rparr>"
  have one: "1 \<le> unread s" using True by (simp add: header_ready_def)
  then have t: "consumes s ?t" by (intro consumes_read [of s 1] wf) simp_all
  have "consumes ?t (snd (parse_tile D ?t))"
    using True one by (intro parse_tile_consumes consumes_cwf [OF t wf])
      (simp add: header_ready_def dataSize_advance)
  with t True show ?thesis by (simp add: parseheader_ready) (rule consumes_trans)
next
  case False
  then show ?thesis using wf by (intro consumes_same) (simp add: parseheader_waits)
qed

lemma subrect_consumes:
  assumes wf: "cwf (cur s)" and r: "subrect_ready s"
  shows "consumes s (snd (hextile_subrect s))"
proof -
  let ?col = "subencodingByte s AND HEXTILE_SUBRECTCOLOR_MASK \<noteq> 0"
  define t where "t = snd (if ?col then read_pixel s else (foreground s, s))"
  have t: "consumes s t"
    using r read_pixel_consumes [OF wf] by (auto simp: t_def subrect_ready_def consumes_same)
  have two: "2 \<le> unread t"
    using r by (auto simp: t_def subrect_ready_def unread_read_pixel)
  have "cur (snd (hextile_subrect s)) = advance 2 (touch 2 (cur t))"
    using r
    by (auto simp: hextile_subrect_def t_def subrect_ready_def Let_def word_less_nat_alt not_less
        split: prod.splits)
  then have "consumes t (snd (hextile_subrect s))"
    by (intro consumes_read [of t 2] consumes_cwf [OF t wf] two)
  with t show ?thesis by (rule consumes_trans)
qed

lemma fillbuffer_consumes: "cwf (cur s) \<Longrightarrow> consumes s (snd (hextile_fillbuffer s))"
proof (induction s rule: fillbuffer_induct)
  case (step s)
  have "consumes s (snd (hextile_subrect s))" using step by (intro subrect_consumes)
  with step show ?case
    by (simp add: fillbuffer_step) (blast intro: consumes_trans consumes_cwf)
qed (simp_all add: fillbuffer_waits fillbuffer_end consumes_same)

lemma processHextile_consumes:
  "cwf (cur s) \<Longrightarrow> consumes s (snd (processHextile D s))"
  using drop_consumes [of s] parseheader_consumes [of s D] drawraw_consumes [of s D]
    fillbuffer_consumes [of s]
  by (cases "hextileState s")
    (simp_all add: processHextile_def hextile_init_def hextile_done_def hextile_drawtile_def
      hextile_dropraw_eq post_def Let_def consumes_same consumes_frame)

lemma hextile_loop_consumes: "cwf (cur s) \<Longrightarrow> consumes s (snd (hextile_loop D s))"
proof (induction D s rule: hextile_loop.induct)
  case (1 D s)
  then show ?case
    using processHextile_consumes [OF "1.prems", of D]
    by (auto simp: hextile_loop.simps [of D s] elim: consumes_step split: prod.splits)
qed

section \<open>Rectangles and messages\<close>

lemma pixelProcessor_consumes:
  assumes wf: "cwf (cur s)"
  shows "consumes s (snd (pixelProcessor D s))"
proof (cases "VNCpixelProcessorState s")
  case VNCPPSTATE_IDLE
  have "12 \<le> unread s \<Longrightarrow> cur (snd (rect_encoding (rect_assign s))) \<in> {cur s, advance 12 (cur s)}"
    using wf by (simp add: rect_encoding_def rect_assign_def Let_def touch_safe)
  with VNCPPSTATE_IDLE show ?thesis
    by (auto simp: pixelProcessor_def pixel_idle_def word_less_nat_alt not_less
        intro: consumes_same consumesI)
next
  case VNCPPSTATE_COPYRECT
  then show ?thesis
    by (auto simp: pixelProcessor_def processCopyRect_def word_less_nat_alt not_less
        intro: consumes_same consumesI)
next
  case VNCPPSTATE_OUTBOUNDS
  then show ?thesis
    using drop_consumes [of s]
    by (auto simp: pixelProcessor_def pixel_outbounds_def dropOutOfViewPixels_eq
        intro: consumes_frame)
next
  case VNCPPSTATE_HEXTILE
  with wf show ?thesis by (simp add: pixelProcessor_def hextile_loop_consumes)
qed

lemma pixel_loop_consumes: "cwf (cur s) \<Longrightarrow> consumes s (snd (pixel_loop D s))"
proof (induction D s rule: pixel_loop.induct)
  case (1 D s)
  then show ?case
    using pixelProcessor_consumes [OF "1.prems", of D]
    by (auto simp: pixel_loop.simps [of D s] elim: consumes_step split: prod.splits)
qed

lemma Vnc_StateMachine_consumes:
  assumes wf: "cwf (cur s)"
  shows "consumes s (snd (Vnc_StateMachine D s))"
  using wf pixel_loop_consumes [OF wf, of D]
  by (cases "VNCstate s")
    (auto simp: Vnc_StateMachine_def vnc_case_defs Let_def word_le_nat_alt touch_safe
      intro: consumes_same consumesI)

lemma vnc_loop_consumes: "cwf (cur s) \<Longrightarrow> consumes s (snd (vnc_loop D s))"
proof (induction D s rule: vnc_loop.induct)
  case (1 D s)
  then show ?case
    using Vnc_StateMachine_consumes [OF "1.prems", of D]
    by (auto simp: vnc_loop.simps [of D s] elim: consumes_step split: prod.splits)
qed

lemma Vnc_StateMachine_range:
  "fst (Vnc_StateMachine D s) \<in> {-1, 0, 1}"
  by (cases "VNCstate s") (simp_all add: Vnc_StateMachine_def vnc_case_defs Let_def)

lemma vnc_loop_range: "fst (vnc_loop D s) = 0 \<or>
    fst (vnc_loop D s) = -1 \<and>
    VNCstate (snd (vnc_loop D s)) \<in> {VNCSTATE_DEAD, VNCSTATE_AUTHFAILED, VNCSTATE_PROCESSDONE}"
proof (induction D s rule: vnc_loop.induct)
  case (1 D s)
  obtain r t where r: "Vnc_StateMachine D s = (r, t)" by fastforce
  show ?case
  proof (cases "r > 0")
    case True
    with "1.IH" [OF r [symmetric]] r show ?thesis by (simp add: vnc_loop.simps [of D s])
  next
    case False
    with r have "vnc_loop D s = Vnc_StateMachine D s" by (simp add: vnc_loop.simps [of D s])
    with False r show ?thesis
      by (cases "VNCstate s")
        (auto simp: Vnc_StateMachine_def vnc_case_defs Let_def split: if_splits)
  qed
qed

section \<open>The entry point\<close>

lemma start_buffer_cwf:
  "length buffer \<le> 65535 \<Longrightarrow> cwf (cur (start_buffer buffer (of_nat (length buffer)) s))"
  by (simp add: start_buffer_def cwf_def unat_of_nat)

lemma start_buffer_view:
  "length buffer \<le> 65535 \<Longrightarrow> view (cur (start_buffer buffer (of_nat (length buffer)) s)) = buffer"
  by (simp add: start_buffer_def view_def unat_of_nat)

end
