(* ===== verification/VncResume.thy ===== *)
theory VncResume
  imports HextileResume VncMachine
begin

text \<open>
  The rectangle walk and the message walk can be stopped anywhere too, and with them the
  entry point \<open>Vnc_ProcessVncBuffer\<close>: how the byte stream of the server is cut into
  buffers has no influence on what the client decodes and draws.
\<close>

section \<open>Rectangles\<close>

lemma ext_advance_only:
  assumes "ext ys s t" and "n \<le> unread s"
  shows "ext ys (s\<lparr>cur := advance n (cur s)\<rparr>) (t\<lparr>cur := advance n (cur t)\<rparr>)"
proof -
  have "feeds ys (cur s) (cur t)" using assms(1) by (rule ext_feeds)
  with ext_advance [OF assms] assms(2) show ?thesis
    using feeds_size [OF ext_feeds [OF assms(1)]] by (simp add: touch_safe feeds_cwf)
qed

lemma rect_moves:
  assumes e: "ext ys s t" and n: "12 \<le> unread s"
  shows "moves ext ys (rect_encoding (rect_assign s)) (rect_encoding (rect_assign t))"
proof -
  from e obtain d where t: "t = s\<lparr>cur := d\<rparr>" and f: "feeds ys (cur s) d" by (rule extE)
  have p: "peek d k = peek (cur s) k" if "k < 12" for k
    using feeds_peek [OF f] that n by simp
  have "touch 12 (cur s) = cur s" "touch 12 d = d"
    using n feeds_size [OF f] by (simp_all add: touch_safe feeds_cwf [OF f])
  then show ?thesis
    using f feeds_advance [OF f n]
    by (simp add: t moves_def ext_def rect_encoding_def rect_assign_def Let_def p)
qed

lemma pixel_idle_ext0:
  assumes e: "ext [] s t"
  shows "same_result ext (pixel_idle s) (pixel_idle t)"
proof (cases "rectangleCount s \<noteq> 0 \<and> 12 \<le> unread s")
  case True
  then show ?thesis
    using moves_same [OF rect_moves [OF e]] ext_unread [OF e]
    by (simp add: pixel_idle_def ext_fields(1) [OF e] word_less_nat_alt)
next
  case False
  then show ?thesis
    using e ext_unread [OF e] ext_lift [OF e, of "\<lambda>s. s\<lparr>VNCstate := VNCSTATE_CONNECTED_REFRESH\<rparr>"]
    by (auto simp: pixel_idle_def ext_fields(1) [OF e] word_less_nat_alt same_result_def)
qed

lemma pixel_idle_resumes:
  assumes e: "ext ys s t"
  shows "resumes ext pixel_idle ys s t"
proof (cases "rectangleCount s \<noteq> 0 \<and> \<not> 12 \<le> unread s")
  case True
  then have "pixel_idle s = (0, s)" by (simp add: pixel_idle_def word_less_nat_alt)
  then show ?thesis unfolding resumes_def using pixel_idle_ext0 ext_join [OF e] by auto
next
  case False
  then have "moves ext ys (pixel_idle s) (pixel_idle t)"
    using rect_moves [OF e] ext_unread [OF e]
      ext_lift [OF e, of "\<lambda>s. s\<lparr>VNCstate := VNCSTATE_CONNECTED_REFRESH\<rparr>"]
    by (auto simp: pixel_idle_def ext_fields(1) [OF e] word_less_nat_alt moves_def)
  then show ?thesis by (rule moves_resumes)
qed

lemma copyrect_ext0: "ext [] s t \<Longrightarrow> same_result ext (processCopyRect s) (processCopyRect t)"
  using ext_unread [of "[]" s t] ext_advance_only [of "[]" s t 4]
    ext_lift [of "[]" "s\<lparr>cur := advance 4 (cur s)\<rparr>" "t\<lparr>cur := advance 4 (cur t)\<rparr>"
      "\<lambda>s. s\<lparr>VNCpixelProcessorState := VNCPPSTATE_IDLE\<rparr>"]
  by (auto simp: processCopyRect_def word_less_nat_alt same_result_def)

lemma copyrect_resumes:
  assumes e: "ext ys s t"
  shows "resumes ext processCopyRect ys s t"
proof (cases "4 \<le> unread s")
  case True
  then show ?thesis
    using ext_unread [OF e] ext_lift [OF ext_advance_only [OF e True],
        of "\<lambda>s. s\<lparr>VNCpixelProcessorState := VNCPPSTATE_IDLE\<rparr>"]
    by (intro moves_resumes) (simp add: processCopyRect_def word_less_nat_alt moves_def)
next
  case False
  then have "processCopyRect s = (0, s)" by (simp add: processCopyRect_def word_less_nat_alt)
  then show ?thesis unfolding resumes_def using copyrect_ext0 ext_join [OF e] by auto
qed

lemma pixel_outbounds_eq:
  "pixel_outbounds = post dropOutOfViewPixels (\<lambda>s. s\<lparr>VNCpixelProcessorState := VNCPPSTATE_IDLE\<rparr>)"
  by (simp add: fun_eq_iff pixel_outbounds_def post_def dropOutOfViewPixels_eq)

lemma ext_pixelState:
  "ext ys s t \<Longrightarrow>
     ext ys (s\<lparr>VNCpixelProcessorState := p\<rparr>) (t\<lparr>VNCpixelProcessorState := p\<rparr>)"
  using ext_lift [of ys s t "\<lambda>s. s\<lparr>VNCpixelProcessorState := p\<rparr>"] by simp

lemma outbounds_ext0: "ext [] s t \<Longrightarrow> same_result ext (pixel_outbounds s) (pixel_outbounds t)"
  unfolding pixel_outbounds_eq by (intro same_result_post drop_ext0 ext_pixelState)

lemma outbounds_resumes: "ext ys s t \<Longrightarrow> resumes ext pixel_outbounds ys s t"
  unfolding pixel_outbounds_eq by (intro resumes_post drop_resumes ext_pixelState)

section \<open>The rectangle walk\<close>

text \<open>The decoder of one rectangle keeps the message state, and gives up the rectangle only
  in the call that closes it.\<close>

lemma subrect_keeps:
  "VNCpixelProcessorState (snd (hextile_subrect s)) = VNCpixelProcessorState s"
  "VNCstate (snd (hextile_subrect s)) = VNCstate s"
  "VNCsendState (snd (hextile_subrect s)) = VNCsendState s"
  by (simp_all add: hextile_subrect_def read_pixel_def Let_def)

lemma fillbuffer_keeps:
  "VNCpixelProcessorState (snd (hextile_fillbuffer s)) = VNCpixelProcessorState s"
  "VNCstate (snd (hextile_fillbuffer s)) = VNCstate s"
  "VNCsendState (snd (hextile_fillbuffer s)) = VNCsendState s"
  by (induction s rule: fillbuffer_induct)
    (simp_all add: fillbuffer_step fillbuffer_waits fillbuffer_end subrect_keeps)

lemma parseheader_keeps:
  "VNCpixelProcessorState (snd (hextile_parseheader D s)) = VNCpixelProcessorState s"
  "VNCstate (snd (hextile_parseheader D s)) = VNCstate s"
  "VNCsendState (snd (hextile_parseheader D s)) = VNCsendState s"
  by (simp_all add: hextile_parseheader_def parse_tile_def parse_raw_tile_def parse_background_def
      parse_foreground_def parse_numSubrects_def read_pixel_def Let_def)

lemmas hextile_case_keeps = fillbuffer_keeps parseheader_keeps hextile_init_def hextile_done_def
  hextile_dropraw_eq post_def dropOutOfViewPixels_eq hextile_drawraw_eq hextile_drawtile_def Let_def

lemma processHextile_pixelState:
  "hextileState s \<noteq> HEXTILESTATE_DONE \<Longrightarrow>
     VNCpixelProcessorState (snd (processHextile D s)) = VNCpixelProcessorState s"
  by (cases "hextileState s") (simp_all add: processHextile_def hextile_case_keeps)

lemma processHextile_VNCstate:
  "VNCstate (snd (processHextile D s)) = VNCstate s"
  "VNCsendState (snd (processHextile D s)) = VNCsendState s"
  by (cases "hextileState s", simp_all add: processHextile_def hextile_case_keeps)+

lemma hextile_loop_VNCstate:
  "VNCstate (snd (hextile_loop D s)) = VNCstate s \<and> VNCsendState (snd (hextile_loop D s)) = VNCsendState s"
proof (induction D s rule: hextile_loop.induct)
  case (1 D s)
  then show ?case
    using processHextile_VNCstate [of D s]
    by (auto simp: hextile_loop.simps [of D s] split: prod.splits)
qed

abbreviation in_hextile :: "'d vnc \<Rightarrow> bool" where
  "in_hextile s \<equiv> VNCpixelProcessorState s = VNCPPSTATE_HEXTILE"

lemma processHextile_keep: "in_hextile s \<Longrightarrow> fst (processHextile D s) > 0 \<Longrightarrow> in_hextile (snd (processHextile D s))"
  using processHextile_pixelState [of s D]
  by (cases "hextileState s = HEXTILESTATE_DONE")
    (auto simp: processHextile_def hextile_done_def Let_def split: if_splits)

lemma processHextile_leave:
  "ext ys s t \<Longrightarrow> in_hextile s \<Longrightarrow> \<not> in_hextile (snd (processHextile D s)) \<Longrightarrow>
     fst (processHextile D t) = fst (processHextile D s) \<and>
     ext ys (snd (processHextile D s)) (snd (processHextile D t))"
  using processHextile_pixelState [of s D] hextile_done_moves [of ys s t]
  by (cases "hextileState s = HEXTILESTATE_DONE")
    (auto simp: processHextile_def ext_fields moves_def)

context raw_display
begin

lemma pixelProcessor_ext0:
  assumes e: "ext [] s t"
  shows "same_result ext (pixelProcessor D s) (pixelProcessor D t)"
  using pixel_idle_ext0 [OF e] outbounds_ext0 [OF e] copyrect_ext0 [OF e] hextile.loop_ext0 [OF e]
  by (auto simp: pixelProcessor_def ext_fields [OF e] same_result_def split: vncppstate.splits)

lemma hextile_case_resumes:
  assumes e: "ext ys s t" and h: "in_hextile s"
  shows "resumes ext (pixelProcessor D) ys s t"
proof -
  have p: "pixelProcessor D x = (0, snd (hextile_loop D x))" if "in_hextile x" for x
    using that by (simp add: pixelProcessor_def)
  have ht: "in_hextile t" using h by (simp add: ext_fields [OF e])
  show ?thesis
  proof (cases "in_hextile (snd (hextile_loop D s))")
    case True
    have w: "in_hextile u" if "ext ys (snd (hextile_loop D s)) u" for u
      using True ext_fields(9) [OF that] by simp
    from hextile.loop_resumes [OF e] show ?thesis
      unfolding resumes_def p [OF h] p [OF ht] by (auto simp: p w same_result_def)
  next
    case False
    from hextile.loop_leaves [where W = in_hextile, OF processHextile_keep processHextile_leave e h False]
    show ?thesis by (simp add: resumes_def p h ht)
  qed
qed

lemma idle_keeps_pixelState:
  "fst (pixel_idle s) = 0 \<Longrightarrow> VNCpixelProcessorState (snd (pixel_idle s)) = VNCpixelProcessorState s"
  by (auto simp: pixel_idle_def rect_encoding_def rect_assign_def Let_def split: if_splits)

lemma outbounds_keeps_pixelState:
  "fst (pixel_outbounds s) = 0 \<Longrightarrow>
     VNCpixelProcessorState (snd (pixel_outbounds s)) = VNCpixelProcessorState s"
  by (simp add: pixel_outbounds_eq post_def dropOutOfViewPixels_eq split: if_splits)

lemma copyrect_keeps_pixelState:
  "fst (processCopyRect s) = 0 \<Longrightarrow>
     VNCpixelProcessorState (snd (processCopyRect s)) = VNCpixelProcessorState s"
  by (simp add: processCopyRect_def split: if_splits)

lemma pixelProcessor_resumes:
  assumes e: "ext ys s t"
  shows "resumes ext (pixelProcessor D) ys s t"
proof (cases "in_hextile s")
  case True
  with e show ?thesis by (rule hextile_case_resumes)
next
  case False
  define g where "g = (case VNCpixelProcessorState s of
        VNCPPSTATE_IDLE \<Rightarrow> pixel_idle
      | VNCPPSTATE_OUTBOUNDS \<Rightarrow> pixel_outbounds
      | VNCPPSTATE_HEXTILE \<Rightarrow> pixel_idle
      | VNCPPSTATE_COPYRECT \<Rightarrow> (processCopyRect :: 'd vnc \<Rightarrow> int \<times> 'd vnc))"
  have g: "pixelProcessor D x = g x" if "VNCpixelProcessorState x = VNCpixelProcessorState s" for x
    using that False by (simp add: pixelProcessor_def g_def split: vncppstate.splits)
  have r: "resumes ext g ys s t"
    using e False unfolding g_def
    by (cases "VNCpixelProcessorState s")
      (simp_all add: pixel_idle_resumes outbounds_resumes copyrect_resumes)
  have "VNCpixelProcessorState (snd (g s)) = VNCpixelProcessorState s" if "fst (g s) = 0"
    using that idle_keeps_pixelState [of s] outbounds_keeps_pixelState [of s]
      copyrect_keeps_pixelState [of s]
    by (cases "VNCpixelProcessorState s") (simp_all add: g_def)
  then have w: "pixelProcessor D u = g u" if "fst (g s) = 0" "ext ys (snd (g s)) u" for u
    using that ext_fields(9) [OF that(2)] by (intro g) simp
  show ?thesis
    using r w unfolding resumes_def g [OF refl] g [OF ext_fields(9) [OF e]] by auto
qed

end

lemma pixel_loop_unfold:
  "pixel_loop D s =
     (if fst (pixelProcessor D s) > 0 then pixel_loop D (snd (pixelProcessor D s))
      else pixelProcessor D s)"
  using pixelProcessor_decreases [of D s "fst (pixelProcessor D s)" "snd (pixelProcessor D s)"]
  by (subst pixel_loop.simps) (auto split: prod.splits)

lemma pixel_loop_wf: "wf {(t, s). fst (pixelProcessor D s) > 0 \<and> t = snd (pixelProcessor D s)}"
proof (rule wf_subset [OF wf_pixel_order], clarify)
  fix s
  assume "fst (pixelProcessor D s) > 0"
  then show "(snd (pixelProcessor D s), s) \<in> pixel_order"
    using pixelProcessor_decreases [OF surjective_pairing, of D s] by simp
qed

sublocale raw_display \<subseteq> pixel: incremental ext "pixelProcessor D" "pixel_loop D"
  by unfold_locales
    (auto intro: ext_sym0 ext_trans pixelProcessor_resumes pixelProcessor_ext0 pixel_loop_wf
      simp: pixel_loop_unfold)

section \<open>The message walk\<close>

abbreviation in_update :: "'d vnc \<Rightarrow> bool" where
  "in_update s \<equiv> VNCstate s = VNCSTATE_PROCESSINGUPDATE"

lemma idle_keeps_VNCstate:
  "VNCstate (snd (pixel_idle s)) \<noteq> VNCstate s \<Longrightarrow>
     rectangleCount s = 0 \<and> pixel_idle s = (0, s\<lparr>VNCstate := VNCSTATE_CONNECTED_REFRESH\<rparr>)"
  by (auto simp: pixel_idle_def rect_encoding_def rect_assign_def Let_def split: if_splits)

lemma pixelProcessor_ends_update:
  assumes "VNCstate (snd (pixelProcessor D s)) \<noteq> VNCstate s"
  shows "VNCpixelProcessorState s = VNCPPSTATE_IDLE \<and> rectangleCount s = 0 \<and>
    pixelProcessor D s = (0, s\<lparr>VNCstate := VNCSTATE_CONNECTED_REFRESH\<rparr>)"
proof (cases "VNCpixelProcessorState s")
  case VNCPPSTATE_IDLE
  with assms idle_keeps_VNCstate [of s] show ?thesis by (simp add: pixelProcessor_def)
next
  case VNCPPSTATE_HEXTILE
  with assms hextile_loop_VNCstate [of D s] show ?thesis by (simp add: pixelProcessor_def)
qed (use assms in \<open>simp_all add: pixelProcessor_def pixel_outbounds_eq post_def
      dropOutOfViewPixels_eq processCopyRect_def split: if_splits\<close>)

lemma pixelProcessor_leave:
  assumes e: "ext ys s t" and "in_update s" and "\<not> in_update (snd (pixelProcessor D s))"
  shows "fst (pixelProcessor D t) = fst (pixelProcessor D s) \<and>
     ext ys (snd (pixelProcessor D s)) (snd (pixelProcessor D t))"
proof -
  have s: "VNCpixelProcessorState s = VNCPPSTATE_IDLE" "rectangleCount s = 0"
    using assms pixelProcessor_ends_update [of D s] by auto
  then show ?thesis
    using ext_lift [OF e, of "\<lambda>s. s\<lparr>VNCstate := VNCSTATE_CONNECTED_REFRESH\<rparr>"]
    by (simp add: pixelProcessor_def pixel_idle_def ext_fields [OF e])
qed

lemma pixelProcessor_keep:
  "in_update s \<Longrightarrow> fst (pixelProcessor D s) > 0 \<Longrightarrow> in_update (snd (pixelProcessor D s))"
  using pixelProcessor_ends_update [of D s]
  by (cases "VNCstate (snd (pixelProcessor D s)) = VNCstate s") simp_all

text \<open>The cases that wait for a fixed number of bytes.\<close>

lemma vnc_update_moves:
  assumes e: "ext ys s t" and n: "4 \<le> unread s"
  shows "moves ext ys (vnc_update s) (vnc_update t)"
proof -
  from e obtain d where t: "t = s\<lparr>cur := d\<rparr>" and f: "feeds ys (cur s) d" by (rule extE)
  have p: "peek d k = peek (cur s) k" if "k < 4" for k
    using feeds_peek [OF f] that n by simp
  have "touch 4 (cur s) = cur s" "touch 4 d = d"
    using n feeds_size [OF f] by (simp_all add: touch_safe feeds_cwf [OF f])
  then show ?thesis
    using f feeds_advance [OF f n] n feeds_size [OF f]
    by (simp add: t moves_def ext_def vnc_update_def consume_to_def Let_def p word_le_nat_alt)
qed

definition vnc_needs :: "'d vnc \<Rightarrow> nat" where
  "vnc_needs s =
     (case VNCstate s of
        VNCSTATE_NOTCONNECTED \<Rightarrow> 12
      | VNCSTATE_WAITFORAUTHTYPE \<Rightarrow> 4
      | VNCSTATE_WAITFORVNCAUTHWORD \<Rightarrow> 16
      | VNCSTATE_WAITFORVNCAUTHRESPONSE \<Rightarrow> 4
      | VNCSTATE_SENTCLIENTINITMESSAGE \<Rightarrow> 24
      | VNCSTATE_WAITFORSERVERNAME \<Rightarrow> unat (interPixelCount s)
      | VNCSTATE_CONNECTED_REFRESH \<Rightarrow> 4
      | VNCSTATE_WAITFORUPDATE \<Rightarrow> 4
      | _ \<Rightarrow> 0)"

lemma vnc_waits:
  "\<not> in_update s \<Longrightarrow> \<not> vnc_needs s \<le> unread s \<Longrightarrow> Vnc_StateMachine D s = (0, s)"
  by (cases "VNCstate s")
    (simp_all add: vnc_needs_def Vnc_StateMachine_def vnc_servername_def vnc_update_def
      word_le_nat_alt)

lemma vnc_moves:
  assumes e: "ext ys s t" and u: "\<not> in_update s" and n: "vnc_needs s \<le> unread s"
  shows "moves ext ys (Vnc_StateMachine D s) (Vnc_StateMachine D t)"
proof -
  from e obtain d where t: "t = s\<lparr>cur := d\<rparr>" and f: "feeds ys (cur s) d" by (rule extE)
  have p: "peek d k = peek (cur s) k" if "k < vnc_needs s" for k
    using feeds_peek [OF f] that n by simp
  have tc: "touch k (cur s) = cur s" "touch k d = d" if "k \<le> vnc_needs s" for k
    using that n feeds_size [OF f] by (simp_all add: touch_safe feeds_cwf [OF f])
  have a: "feeds ys (advance k (cur s)) (advance k d)" if "k \<le> vnc_needs s" for k
    using that n by (intro feeds_advance [OF f]) simp
  show ?thesis
    using p tc a u n feeds_size [OF f]
    by (cases "VNCstate s")
      (simp_all add: t moves_def ext_def Vnc_StateMachine_def vnc_needs_def vnc_case_defs Let_def
        word_le_nat_alt f)
qed

lemma vnc_needs_ext: "ext ys s t \<Longrightarrow> vnc_needs t = vnc_needs s"
  by (cases "VNCstate s") (simp_all add: vnc_needs_def ext_fields)

context raw_display
begin

lemma update_case_resumes:
  assumes e: "ext ys s t" and h: "in_update s"
  shows "resumes ext (Vnc_StateMachine D) ys s t"
proof -
  have p: "Vnc_StateMachine D x = (0, snd (pixel_loop D x))" if "in_update x" for x
    using that by (simp add: Vnc_StateMachine_def)
  have ht: "in_update t" using h by (simp add: ext_fields [OF e])
  show ?thesis
  proof (cases "in_update (snd (pixel_loop D s))")
    case True
    have w: "in_update u" if "ext ys (snd (pixel_loop D s)) u" for u
      using True ext_fields(7) [OF that] by simp
    from pixel.loop_resumes [OF e] show ?thesis
      unfolding resumes_def p [OF h] p [OF ht] by (auto simp: p w same_result_def)
  next
    case False
    from pixel.loop_leaves [where W = in_update, OF pixelProcessor_keep pixelProcessor_leave e h False]
    show ?thesis by (simp add: resumes_def p h ht)
  qed
qed

lemma Vnc_StateMachine_ext0:
  assumes e: "ext [] s t"
  shows "same_result ext (Vnc_StateMachine D s) (Vnc_StateMachine D t)"
proof (cases "in_update s")
  case True
  then show ?thesis
    using pixel.loop_ext0 [OF e] by (simp add: Vnc_StateMachine_def ext_fields [OF e] same_result_def)
next
  case False
  show ?thesis
  proof (cases "vnc_needs s \<le> unread s")
    case True
    with e False show ?thesis by (intro moves_same vnc_moves)
  next
    case w: False
    then have "Vnc_StateMachine D s = (0, s)" "Vnc_StateMachine D t = (0, t)"
      using False ext_unread [OF e]
      by (simp_all add: vnc_waits vnc_needs_ext [OF e] ext_fields [OF e])
    with e show ?thesis by (simp add: same_result_def)
  qed
qed

lemma Vnc_StateMachine_resumes:
  assumes e: "ext ys s t"
  shows "resumes ext (Vnc_StateMachine D) ys s t"
proof (cases "in_update s")
  case True
  with e show ?thesis by (rule update_case_resumes)
next
  case False
  show ?thesis
  proof (cases "vnc_needs s \<le> unread s")
    case True
    with e False show ?thesis by (intro moves_resumes vnc_moves)
  next
    case w: False
    show ?thesis
      using vnc_waits [OF False w] Vnc_StateMachine_ext0 ext_join [OF e]
      by (intro resumes_idle) blast+
  qed
qed

end

lemma vnc_loop_unfold:
  "vnc_loop D s =
     (if fst (Vnc_StateMachine D s) > 0 then vnc_loop D (snd (Vnc_StateMachine D s))
      else Vnc_StateMachine D s)"
  by (subst vnc_loop.simps) (auto split: prod.splits)

lemma vnc_loop_wf: "wf {(t, s). fst (Vnc_StateMachine D s) > 0 \<and> t = snd (Vnc_StateMachine D s)}"
proof (rule wf_subset [OF wf_vnc_order], clarify)
  fix s
  assume "fst (Vnc_StateMachine D s) > 0"
  then show "(snd (Vnc_StateMachine D s), s) \<in> vnc_order"
    by (rule Vnc_StateMachine_decreases [OF surjective_pairing])
qed

sublocale raw_display \<subseteq> vnc: incremental ext "Vnc_StateMachine D" "vnc_loop D"
  by unfold_locales
    (auto intro: ext_sym0 ext_trans Vnc_StateMachine_resumes Vnc_StateMachine_ext0 vnc_loop_wf
      simp: vnc_loop_unfold)

end
