(* ===== verification/VncProtocol.thy ===== *)
theory VncProtocol
  imports VncResponse VncSafety VncResume
begin

text \<open>
  The connection as a protocol. \<open>session\<close> is the abstract machine: it takes the messages of the
  server from the bytes that have arrived and decides by their contents, and it sends the messages
  of the client in their order. \<open>client\<close> is the code, with the bytes it has taken and those it
  has put in the response buffer. The code refines the machine; what is sent after what has been
  received is then an invariant of the machine.
\<close>

section \<open>The messages\<close>

text \<open>What the client sends, with its bytes as the protocol has them: the answer to the challenge
  is a constant, the pixels asked for have 16 bits, the encodings are copyrect and hextile, the
  screen has 128 by 160 pixels.\<close>

datatype message =
    Version | AuthWord | ClientInit | PixelFormat | Encodings | FullRefresh | Refresh | Key u8

fun message_bytes :: "message \<Rightarrow> bytes" where
  "message_bytes Version = map char8 ''RFB 003.003'' @ [10]"
| "message_bytes AuthWord =
    [0x54, 0x44, 0xC7, 0x4E, 0xDE, 0xDC, 0x8C, 0xDF, 0x97, 0xB6, 0x51, 0x93, 0x04, 0xD9, 0x9E, 0x90]"
| "message_bytes ClientInit = [0]"
| "message_bytes PixelFormat =
    [0, 0, 0, 0] @ [16, 16, 0, 1] @ [0, 31, 0, 63, 0, 31] @ [11, 5, 0] @ [0, 0, 0]"
| "message_bytes Encodings = [2, 0] @ [0, 2] @ [0, 0, 0, 1] @ [0, 0, 0, 5]"
| "message_bytes FullRefresh = [3, 0] @ [0, 0, 0, 0] @ [0, 128, 0, 160]"
| "message_bytes Refresh = [3, 1] @ [0, 0, 0, 0] @ [0, 128, 0, 160]"
| "message_bytes (Key c) = [4, 1, 0, 0] @ [0, 0, 0, c]"

text \<open>The server's initialisation has 24 bytes and ends with the length of its name.\<close>

definition name_length :: "bytes \<Rightarrow> nat" where
  "name_length bs = 2 ^ 24 * unat (bs ! 20) + 2 ^ 16 * unat (bs ! 21) + 2 ^ 8 * unat (bs ! 22) + unat (bs ! 23)"

section \<open>The abstract machine\<close>

type_synonym conn = "vncstate \<times> vncsendstate"

text \<open>
  The state has the length of the name that is still to come. In \<open>receives p v n q\<close> the bytes \<open>v\<close>
  have arrived, of which \<open>n\<close> are taken. What an update holds is not the machine's concern.
\<close>

type_synonym phase = "conn \<times> nat"

inductive receives :: "phase \<Rightarrow> bytes \<Rightarrow> nat \<Rightarrow> phase \<Rightarrow> bool" where
  version: "12 \<le> length v \<Longrightarrow>
    receives ((VNCSTATE_NOTCONNECTED, x), k) v 12 ((VNCSTATE_WAITFORAUTHTYPE, x), 0)"
| password: "4 \<le> length v \<Longrightarrow> v ! 3 = 2 \<Longrightarrow>
    receives ((VNCSTATE_WAITFORAUTHTYPE, x), k) v 4 ((VNCSTATE_WAITFORVNCAUTHWORD, x), 0)"
| no_password: "4 \<le> length v \<Longrightarrow> v ! 3 = 1 \<Longrightarrow>
    receives ((VNCSTATE_WAITFORAUTHTYPE, x), k) v 4
      ((VNCSTATE_SENTCLIENTINITMESSAGE, VNCSENDSTATE_AUTHWORDSENT), 0)"
| refused: "4 \<le> length v \<Longrightarrow> v ! 3 \<noteq> 1 \<Longrightarrow> v ! 3 \<noteq> 2 \<Longrightarrow>
    receives ((VNCSTATE_WAITFORAUTHTYPE, x), k) v 4 ((VNCSTATE_AUTHFAILED, x), 0)"
| challenge: "16 \<le> length v \<Longrightarrow>
    receives ((VNCSTATE_WAITFORVNCAUTHWORD, x), k) v 16 ((VNCSTATE_WAITFORVNCAUTHRESPONSE, x), 0)"
| accepted: "4 \<le> length v \<Longrightarrow> v ! 3 = 0 \<Longrightarrow>
    receives ((VNCSTATE_WAITFORVNCAUTHRESPONSE, x), k) v 4 ((VNCSTATE_SENTCLIENTINITMESSAGE, x), 0)"
| rejected: "4 \<le> length v \<Longrightarrow> v ! 3 \<noteq> 0 \<Longrightarrow>
    receives ((VNCSTATE_WAITFORVNCAUTHRESPONSE, x), k) v 4 ((VNCSTATE_AUTHFAILED, x), 0)"
| server_init: "24 \<le> length v \<Longrightarrow>
    receives ((VNCSTATE_SENTCLIENTINITMESSAGE, x), k) v 24 ((VNCSTATE_WAITFORSERVERNAME, x), name_length v)"
| server_name: "k \<le> length v \<Longrightarrow>
    receives ((VNCSTATE_WAITFORSERVERNAME, x), k) v k ((VNCSTATE_CONNECTED, x), 0)"
| connected: "receives ((VNCSTATE_CONNECTED, x), k) v 0 ((VNCSTATE_WAITFORUPDATE, x), 0)"
| update: "st \<in> {VNCSTATE_WAITFORUPDATE, VNCSTATE_CONNECTED_REFRESH} \<Longrightarrow> 4 \<le> length v \<Longrightarrow> v ! 0 = 0 \<Longrightarrow>
    receives ((st, x), k) v 4 ((VNCSTATE_PROCESSINGUPDATE, x), 0)"
| unknown: "st \<in> {VNCSTATE_WAITFORUPDATE, VNCSTATE_CONNECTED_REFRESH} \<Longrightarrow> 4 \<le> length v \<Longrightarrow> v ! 0 \<noteq> 0 \<Longrightarrow>
    receives ((st, x), k) v 0 ((VNCSTATE_DEAD, x), 0)"
| update_part: "n \<le> length v \<Longrightarrow>
    receives ((VNCSTATE_PROCESSINGUPDATE, x), k) v n ((VNCSTATE_PROCESSINGUPDATE, x), 0)"
| update_done: "n \<le> length v \<Longrightarrow>
    receives ((VNCSTATE_PROCESSINGUPDATE, x), k) v n ((VNCSTATE_CONNECTED_REFRESH, x), 0)"

inductive sends :: "conn \<Rightarrow> message \<Rightarrow> conn \<Rightarrow> bool" where
  send_version: "v > VNCSTATE_NOTCONNECTED \<Longrightarrow>
    sends (v, VNCSENDSTATE_INIT) Version (v, VNCSENDSTATE_VERSIONSENT)"
| send_auth: "v > VNCSTATE_WAITFORVNCAUTHWORD \<Longrightarrow>
    sends (v, VNCSENDSTATE_VERSIONSENT) AuthWord (v, VNCSENDSTATE_AUTHWORDSENT)"
| send_init: "v > VNCSTATE_WAITFORVNCAUTHRESPONSE \<Longrightarrow>
    sends (v, VNCSENDSTATE_AUTHWORDSENT) ClientInit (v, VNCSENDSTATE_CLIENTINITMESSAGESENT)"
| send_format: "v > VNCSTATE_WAITFORSERVERNAME \<Longrightarrow>
    sends (v, VNCSENDSTATE_CLIENTINITMESSAGESENT) PixelFormat (v, VNCSENDSTATE_PIXELFORMATSENT)"
| send_encodings: "v > VNCSTATE_WAITFORSERVERNAME \<Longrightarrow>
    sends (v, VNCSENDSTATE_PIXELFORMATSENT) Encodings (v, VNCSENDSTATE_ENCODINGTYPESENT)"
| send_full: "v > VNCSTATE_WAITFORSERVERNAME \<Longrightarrow>
    sends (v, VNCSENDSTATE_ENCODINGTYPESENT) FullRefresh (v, VNCSENDSTATE_PARTIALREFRESHSENT)"
| send_request: "m = Refresh \<or> m \<in> Key ` {char8 CHR ''r'', char8 CHR ''a'', char8 CHR ''b''} \<Longrightarrow>
    sends (VNCSTATE_CONNECTED_REFRESH, VNCSENDSTATE_PARTIALREFRESHSENT) m
      (VNCSTATE_CONNECTED_REFRESH, VNCSENDSTATE_PARTIALREFRESHSENT)"

inductive_cases receivesE: "receives ((v, x), k) bs n q"
inductive_cases sendsE: "sends (v, x) m c"

text \<open>The messages sent, the bytes taken, and the state.\<close>

inductive session :: "message list \<Rightarrow> bytes \<Rightarrow> phase \<Rightarrow> bool" where
  start: "session [] [] ((VNCSTATE_NOTCONNECTED, VNCSENDSTATE_INIT), 0)"
| receive: "session h r p \<Longrightarrow> receives p v n q \<Longrightarrow> session h (r @ take n v) q"
| send: "session h r (c, k) \<Longrightarrow> sends c m c' \<Longrightarrow> session (h @ [m]) r (c', k)"

section \<open>What has been received when\<close>

text \<open>
  What the server has said, in terms of all bytes taken: it wants no password (after its version,
  12 bytes, and a word of four), or it does and has accepted the answer to its challenge (16 bytes
  and another word); then come its initialisation and its name.
\<close>

definition accepted_by :: "bytes \<Rightarrow> bool" where
  "accepted_by r \<longleftrightarrow> 16 \<le> length r \<and> r ! 15 = 1 \<or> 36 \<le> length r \<and> r ! 15 = 2 \<and> r ! 35 = 0"

definition init_at :: "bytes \<Rightarrow> nat" where
  "init_at r = (if r ! 15 = 1 then 16 else 36)"

definition named :: "bytes \<Rightarrow> bool" where
  "named r \<longleftrightarrow> accepted_by r \<and> init_at r + 24 \<le> length r \<and>
     init_at r + 24 + name_length (drop (init_at r) r) \<le> length r"

fun heard :: "vncstate \<Rightarrow> nat \<Rightarrow> bytes \<Rightarrow> bool" where
  "heard VNCSTATE_NOTCONNECTED k r \<longleftrightarrow> r = []"
| "heard VNCSTATE_WAITFORAUTHTYPE k r \<longleftrightarrow> length r = 12"
| "heard VNCSTATE_WAITFORVNCAUTHWORD k r \<longleftrightarrow> length r = 16 \<and> r ! 15 = 2"
| "heard VNCSTATE_WAITFORVNCAUTHRESPONSE k r \<longleftrightarrow> length r = 32 \<and> r ! 15 = 2"
| "heard VNCSTATE_AUTHFAILED k r \<longleftrightarrow>
     length r = 16 \<and> r ! 15 \<noteq> 1 \<and> r ! 15 \<noteq> 2 \<or> length r = 36 \<and> r ! 15 = 2 \<and> r ! 35 \<noteq> 0"
| "heard VNCSTATE_SENTCLIENTINITMESSAGE k r \<longleftrightarrow> accepted_by r \<and> length r = init_at r"
| "heard VNCSTATE_WAITFORSERVERNAME k r \<longleftrightarrow> accepted_by r \<and> length r = init_at r + 24 \<and>
     k = name_length (drop (init_at r) r)"
| "heard VNCSTATE_PROCESSDONE k r \<longleftrightarrow> False"
| "heard v k r \<longleftrightarrow> named r"

lemma accepted_by_append: "accepted_by r \<Longrightarrow> accepted_by (r @ v) \<and> init_at (r @ v) = init_at r"
  by (auto simp: accepted_by_def init_at_def nth_append)

lemma name_length_append: "24 \<le> length r \<Longrightarrow> name_length (r @ v) = name_length r"
  by (simp add: name_length_def nth_append)

lemma name_length_take: "name_length (take 24 v) = name_length v"
  by (simp add: name_length_def)

lemma named_append: "named r \<Longrightarrow> named (r @ v)"
  using accepted_by_append [of r v] name_length_append [of "drop (init_at r) r" v]
  by (auto simp: named_def)

lemma receives_heard: "receives p v n q \<Longrightarrow> heard (fst (fst p)) (snd p) r \<Longrightarrow> heard (fst (fst q)) (snd q) (r @ take n v)"
proof (induction rule: receives.induct)
  case (server_init v x k)
  then show ?case
    using accepted_by_append [of r "take 24 v"] by (auto simp: name_length_take)
next
  case (server_name k v x)
  then have "name_length (drop (init_at r) (r @ take k v)) = k"
    using name_length_append [of "drop (init_at r) r" "take k v"] by simp
  with server_name accepted_by_append [of r "take k v"] show ?case by (auto simp: named_def)
qed (auto simp: nth_append accepted_by_def init_at_def named_append)

section \<open>What has been sent when\<close>

text \<open>
  The opening of a session: the version, and the answer to the challenge if the server asks for a
  password. A server that says it does not want one before the client has sent its version gets
  no version at all.
\<close>

definition openings :: "bytes \<Rightarrow> message list set" where
  "openings r =
     (if 16 \<le> length r \<and> r ! 15 = 1 then {[Version], []}
      else if 32 \<le> length r \<and> r ! 15 = 2 then {[Version, AuthWord]} else {})"

text \<open>The messages that have been sent in each send state, and what has been received before them.\<close>

fun sent_ok :: "bytes \<Rightarrow> message list \<Rightarrow> vncsendstate \<Rightarrow> bool" where
  "sent_ok r h VNCSENDSTATE_INIT \<longleftrightarrow> h = [] \<and> \<not> (16 \<le> length r \<and> r ! 15 = 1)"
| "sent_ok r h VNCSENDSTATE_VERSIONSENT \<longleftrightarrow> h = [Version] \<and> 12 \<le> length r \<and> \<not> (16 \<le> length r \<and> r ! 15 = 1)"
| "sent_ok r h VNCSENDSTATE_AUTHWORDSENT \<longleftrightarrow> h \<in> openings r"
| "sent_ok r h VNCSENDSTATE_CLIENTINITMESSAGESENT \<longleftrightarrow> accepted_by r \<and> (\<exists>p \<in> openings r. h = p @ [ClientInit])"
| "sent_ok r h VNCSENDSTATE_PIXELFORMATSENT \<longleftrightarrow> named r \<and> (\<exists>p \<in> openings r. h = p @ [ClientInit, PixelFormat])"
| "sent_ok r h VNCSENDSTATE_ENCODINGTYPESENT \<longleftrightarrow>
     named r \<and> (\<exists>p \<in> openings r. h = p @ [ClientInit, PixelFormat, Encodings])"
| "sent_ok r h VNCSENDSTATE_PARTIALREFRESHSENT \<longleftrightarrow>
     named r \<and> (\<exists>p \<in> openings r. \<exists>m. h = p @ [ClientInit, PixelFormat, Encodings, FullRefresh] @ m \<and>
        set m \<subseteq> insert Refresh (Key ` {char8 CHR ''r'', char8 CHR ''a'', char8 CHR ''b''}))"

text \<open>The states the two halves of the connection can be in together.\<close>

definition conn_ok :: "conn \<Rightarrow> bool" where
  "conn_ok c = (case c of (v, x) \<Rightarrow>
     v \<noteq> VNCSTATE_PROCESSDONE \<and>
     (v = VNCSTATE_NOTCONNECTED \<longrightarrow> x = VNCSENDSTATE_INIT) \<and>
     (v \<in> {VNCSTATE_AUTHFAILED, VNCSTATE_WAITFORVNCAUTHRESPONSE} \<longrightarrow>
        x \<le> VNCSENDSTATE_AUTHWORDSENT) \<and>
     (v \<in> {VNCSTATE_WAITFORAUTHTYPE, VNCSTATE_WAITFORVNCAUTHWORD} \<longrightarrow>
        x \<le> VNCSENDSTATE_VERSIONSENT) \<and>
     (v \<in> {VNCSTATE_SENTCLIENTINITMESSAGE, VNCSTATE_WAITFORSERVERNAME} \<longrightarrow>
        x \<le> VNCSENDSTATE_CLIENTINITMESSAGESENT))"

lemma receives_conn_ok: "receives p v n q \<Longrightarrow> conn_ok (fst p) \<Longrightarrow> conn_ok (fst q)"
  by (induction rule: receives.induct) (auto simp: conn_ok_def state_order)

lemma sends_conn_ok: "sends c m c' \<Longrightarrow> conn_ok c \<Longrightarrow> conn_ok c'"
  by (induction rule: sends.induct) (auto simp: conn_ok_def state_order)

lemma openings_append: "p \<in> openings r \<Longrightarrow> p \<in> openings (r @ v)"
  by (auto simp: openings_def nth_append split: if_splits)

lemma sent_ok_append: "16 \<le> length r \<Longrightarrow> sent_ok r h x \<Longrightarrow> sent_ok (r @ v) h x"
  by (cases x) (auto simp: nth_append named_append accepted_by_append intro: openings_append)

lemma heard_length: "accepted_by r \<Longrightarrow> 16 \<le> length r" "named r \<Longrightarrow> 16 \<le> length r"
  by (auto simp: accepted_by_def named_def)

lemma receives_sent_ok:
  "receives p v n q \<Longrightarrow> conn_ok (fst p) \<Longrightarrow> heard (fst (fst p)) (snd p) r \<Longrightarrow> sent_ok r h (snd (fst p)) \<Longrightarrow>
     sent_ok (r @ take n v) h (snd (fst q))"
proof (induction rule: receives.induct)
  case (version v x k)
  then show ?case by (cases x) (auto simp: conn_ok_def state_order)
next
  case (password v x k)
  then show ?case by (cases x) (auto simp: conn_ok_def state_order nth_append)
next
  case (refused v x k)
  then show ?case by (cases x) (auto simp: conn_ok_def state_order nth_append)
next
  case (no_password v x k)
  then show ?case by (cases x) (auto simp: conn_ok_def openings_def state_order nth_append)
next
  case (server_init v x k)
  then show ?case using sent_ok_append [OF heard_length(1)] by simp
qed (auto simp: sent_ok_append heard_length)

lemma heard_password:
  "heard v k r \<Longrightarrow> v > VNCSTATE_WAITFORVNCAUTHWORD \<Longrightarrow> \<not> (16 \<le> length r \<and> r ! 15 = 1) \<Longrightarrow>
     32 \<le> length r \<and> r ! 15 = 2"
  by (cases v) (auto simp: accepted_by_def named_def state_order)

lemma heard_accepted: "heard v k r \<Longrightarrow> v > VNCSTATE_WAITFORVNCAUTHRESPONSE \<Longrightarrow> accepted_by r"
  by (cases v) (auto simp: named_def state_order)

lemma heard_named: "heard v k r \<Longrightarrow> v > VNCSTATE_WAITFORSERVERNAME \<Longrightarrow> named r"
  by (cases v) (auto simp: state_order)

lemma heard_version: "heard v k r \<Longrightarrow> v > VNCSTATE_NOTCONNECTED \<Longrightarrow> 12 \<le> length r"
  by (cases v) (auto simp: accepted_by_def named_def state_order)

lemma sends_sent_ok:
  "sends c m c' \<Longrightarrow> heard (fst c) k r \<Longrightarrow> sent_ok r h (snd c) \<Longrightarrow> sent_ok r (h @ [m]) (snd c')"
proof (induction rule: sends.induct)
  case (send_version v)
  then show ?case using heard_version by auto
next
  case (send_auth v)
  then show ?case using heard_password [of v k r] by (auto simp: openings_def)
next
  case (send_init v)
  then show ?case using heard_accepted [of v k r] by auto
next
  case (send_format v)
  then show ?case using heard_named [of v k r] by fastforce
next
  case (send_encodings v)
  then show ?case by fastforce
next
  case (send_full v)
  then show ?case by fastforce
next
  case (send_request m)
  then obtain p q where "p \<in> openings r"
    "h = p @ [ClientInit, PixelFormat, Encodings, FullRefresh] @ q"
    "set q \<subseteq> insert Refresh (Key ` {char8 CHR ''r'', char8 CHR ''a'', char8 CHR ''b''})"
    by auto
  with send_request show ?case by (auto intro!: bexI [of _ p] exI [of _ "q @ [m]"])
qed

theorem session_ok:
  "session h r p \<Longrightarrow> conn_ok (fst p) \<and> heard (fst (fst p)) (snd p) r \<and> sent_ok r h (snd (fst p))"
proof (induction rule: session.induct)
  case start
  show ?case by (simp add: conn_ok_def)
next
  case (receive h r p v n q)
  then show ?case using receives_conn_ok receives_heard receives_sent_ok by blast
next
  case (send h r c k m c')
  moreover have "fst c' = fst c" using send(2) by cases simp_all
  ultimately show ?case using sends_conn_ok sends_sent_ok by fastforce
qed

text \<open>Nothing that needs an accepted connection is sent before the server has accepted it.\<close>

lemma session_accepted:
  assumes "session h r p" and "ClientInit \<in> set h"
  shows "accepted_by r"
proof -
  have "sent_ok r h (snd (fst p))" using session_ok [OF assms(1)] by simp
  with assms(2) show ?thesis
    by (cases "snd (fst p)") (auto simp: openings_def named_def split: if_splits)
qed

section \<open>The code refines the machine\<close>

definition conn :: "'d vnc \<Rightarrow> conn" where
  "conn s = (VNCstate s, VNCsendState s)"

definition awaited :: "'d vnc \<Rightarrow> nat" where
  "awaited s = (if VNCstate s = VNCSTATE_WAITFORSERVERNAME then unat (interPixelCount s) else 0)"

definition phase :: "'d vnc \<Rightarrow> phase" where
  "phase s = (conn s, awaited s)"



lemma pixelProcessor_sendState: "VNCsendState (snd (pixelProcessor D s)) = VNCsendState s"
proof (cases "VNCpixelProcessorState s")
  case VNCPPSTATE_IDLE
  then show ?thesis
    by (simp add: pixelProcessor_def pixel_idle_def rect_encoding_def rect_assign_def Let_def)
next
  case VNCPPSTATE_HEXTILE
  then show ?thesis using hextile_loop_VNCstate [of D s] by (simp add: pixelProcessor_def)
qed (simp_all add: pixelProcessor_def pixel_outbounds_eq post_def dropOutOfViewPixels_eq
      processCopyRect_def)

lemma pixelProcessor_VNCstate:
  "VNCstate (snd (pixelProcessor D s)) \<in> {VNCstate s, VNCSTATE_CONNECTED_REFRESH}"
  using pixelProcessor_ends_update [of D s] by force

lemma pixel_loop_conn:
  "VNCsendState (snd (pixel_loop D s)) = VNCsendState s \<and>
   VNCstate (snd (pixel_loop D s)) \<in> {VNCstate s, VNCSTATE_CONNECTED_REFRESH}"
proof (induction D s rule: pixel_loop.induct)
  case (1 D s)
  obtain r t where r: "pixelProcessor D s = (r, t)" by fastforce
  with "1.IH" [OF r [symmetric]] pixelProcessor_sendState [of D s] pixelProcessor_VNCstate [of D s]
  show ?case by (auto simp: pixel_loop.simps [of D s])
qed


text \<open>The number in the server's initialisation, as the code builds it up.\<close>

lemma shift_in:
  fixes n :: u32 and b :: u8
  assumes "unat n < 2 ^ 24"
  shows "unat (push_bit 8 n OR ucast b) = 256 * unat n + unat b"
proof -
  have "push_bit 8 n OR ucast b = push_bit 8 n + ucast b"
    by (rule disjunctive_add_eq_or [symmetric], rule bit_word_eqI) (auto simp: bit_simps dest: bit_imp_le_length)
  also have "\<dots> = of_nat (256 * unat n + unat b)"
    by (simp add: push_bit_eq_mult)
  finally show ?thesis using assms unat_u8_less [of b] by (simp only: unat_of_nat) simp
qed

lemma name_value:
  fixes a b c d :: u8
  shows "unat (push_bit 8 (push_bit 8 (push_bit 8 (ucast a) OR ucast b) OR ucast c) OR ucast d :: u32) =
    2 ^ 24 * unat a + 2 ^ 16 * unat b + 2 ^ 8 * unat c + unat d"
proof -
  let ?x = "push_bit 8 (ucast a) OR ucast b :: u32"
  let ?y = "push_bit 8 ?x OR ucast c"
  have x: "unat ?x = 256 * unat a + unat b" using shift_in [of "ucast a" b] unat_u8_less [of a] by simp
  then have "unat ?x < 65536" using unat_u8_less [of a] unat_u8_less [of b] by linarith
  then have y: "unat ?y = 256 * unat ?x + unat c" by (intro shift_in) simp
  then have "unat ?y < 16777216" using \<open>unat ?x < 65536\<close> unat_u8_less [of c] by linarith
  then have "unat (push_bit 8 ?y OR ucast d) = 256 * unat ?y + unat d" by (intro shift_in) simp
  then show ?thesis unfolding y x by (simp add: algebra_simps)
qed

lemma serverinit_awaits:
  assumes "cwf (cur s)" and "24 \<le> unread s" and "VNCstate s = VNCSTATE_SENTCLIENTINITMESSAGE"
  shows "receives (phase s) (view (cur s)) 24 (phase (snd (vnc_serverinit s)))"
proof -
  let ?v = "view (cur s)"
  have l: "24 \<le> length ?v" using assms(1,2) by (simp add: length_view)
  have p: "peek (cur s) k = ?v ! k" if "k < 24" for k
    using that assms(1,2) by (intro peek_view) simp_all
  let ?n = "push_bit 8 (push_bit 8 (push_bit 8 (ucast (?v ! 20)) OR ucast (?v ! 21)) OR ucast (?v ! 22)) OR
    ucast (?v ! 23) :: u32"
  have "unat ?n = name_length ?v" unfolding name_length_def by (rule name_value)
  moreover have "snd (vnc_serverinit s) = s\<lparr>cur := advance 24 (cur s), interPixelCount := ?n,
      VNCstate := VNCSTATE_WAITFORSERVERNAME\<rparr>"
    using assms(1,2) by (simp add: vnc_serverinit_def consume_to_def Let_def p touch_safe)
  ultimately have "phase (snd (vnc_serverinit s)) = ((VNCSTATE_WAITFORSERVERNAME, VNCsendState s), name_length ?v)"
    by (simp add: phase_def conn_def awaited_def)
  with receives.server_init [OF l] assms(3) show ?thesis by (simp add: phase_def conn_def)
qed

text \<open>One step of the code is one of the machine, on the bytes it takes, or leaves it alone.\<close>

lemma StateMachine_receives:
  assumes wf: "cwf (cur s)" and t_def: "t = snd (Vnc_StateMachine D s)"
  shows "phase t = phase s \<and> unread t = unread s \<or>
    receives (phase s) (view (cur s)) (unread s - unread t) (phase t)"
proof (cases "VNCstate s = VNCSTATE_SENTCLIENTINITMESSAGE \<and> 24 \<le> dataSize (cur s)")
  case True
  then have "24 \<le> unread s" by (simp add: word_le_nat_alt)
  moreover have "unread (snd (vnc_serverinit s)) = unread s - 24"
    using True by (simp add: vnc_serverinit_def consume_to_def Let_def dataSize_advance word_le_nat_alt)
  ultimately show ?thesis
    using serverinit_awaits [OF wf] True by (simp add: t_def Vnc_StateMachine_def)
next
  case False
  have p: "peek (cur s) k = view (cur s) ! k" if "k < unread s" for k
    using that wf by (rule peek_view [rotated])
  have u: "receives ((VNCSTATE_PROCESSINGUPDATE, x), k) (view (cur s)) (unread s - m) ((VNCSTATE_PROCESSINGUPDATE, x), 0)"
    "receives ((VNCSTATE_PROCESSINGUPDATE, x), k) (view (cur s)) (unread s - m) ((VNCSTATE_CONNECTED_REFRESH, x), 0)"
    for x k m by (rule receives.update_part receives.update_done; simp add: length_view [OF wf])+
  show ?thesis
    using False pixel_loop_conn [of D s] pixel_loop_consumes [OF wf, of D] length_view [OF wf] consumes_unread
    by (cases "VNCstate s")
      (auto simp: t_def Vnc_StateMachine_def vnc_authtype_def vnc_authresponse_def vnc_servername_def
        vnc_update_def consume_to_def Let_def phase_def conn_def awaited_def dataSize_advance
        word_le_nat_alt p u intro: receives.intros)
qed

text \<open>The loop, from a session that has come this far.\<close>

lemma vnc_loop_session:
  "session h r (phase s) \<Longrightarrow> cwf (cur s) \<Longrightarrow>
     session h (r @ take (unread s - unread (snd (vnc_loop D s))) (view (cur s))) (phase (snd (vnc_loop D s)))"
proof (induction D s arbitrary: r rule: vnc_loop.induct)
  case (1 D s)
  obtain a t where a: "Vnc_StateMachine D s = (a, t)" by fastforce
  have c: "consumes s t" using Vnc_StateMachine_consumes [OF "1.prems"(2), of D] a by simp
  note t = consumes_cwf [OF c "1.prems"(2)] consumes_view [OF c "1.prems"(2)] consumes_unread [OF c]
  have st: "session h (r @ take (unread s - unread t) (view (cur s))) (phase t)"
    using StateMachine_receives [OF "1.prems"(2), of t D] "1.prems"(1) a session.receive [of h r "phase s" _ _ "phase t"]
    by auto
  show ?case
  proof (cases "a > 0")
    case True
    let ?u = "snd (vnc_loop D t)"
    have u: "unread ?u \<le> unread t" using consumes_unread [OF vnc_loop_consumes [OF t(1), of D]] .
    have "take (unread s - unread t) (view (cur s)) @ take (unread t - unread ?u) (view (cur t)) =
        take (unread s - unread ?u) (view (cur s))"
      using t(2,3) u by (simp add: take_add [symmetric])
    with "1.IH" [OF a [symmetric] True st t(1)] True a show ?thesis by (simp add: vnc_loop.simps [of D s])
  next
    case False
    with a st show ?thesis by (simp add: vnc_loop.simps [of D s])
  qed
qed

lemma process_session:
  assumes "session h r (phase s)" and "unat len \<le> length buf" and "Vnc_ProcessVncBuffer D buf len s = (n, t)"
  shows "session h (r @ take (unat len - length (view (cur t))) buf) (phase t)"
proof -
  let ?s = "start_buffer buf len s"
  have wf: "cwf (cur ?s)" and v: "view (cur ?s) = take (unat len) buf" and u: "unread ?s = unat len"
    using assms(2) by (simp_all add: start_buffer_def cwf_def view_def)
  have t: "t = snd (vnc_loop D ?s)" using assms(3) by (auto simp: Vnc_ProcessVncBuffer_def split: prod.splits)
  have "length (view (cur t)) = unread t"
    unfolding t by (rule length_view [OF consumes_cwf [OF vnc_loop_consumes [OF wf] wf]])
  moreover have "phase ?s = phase s" by (simp add: phase_def conn_def awaited_def start_buffer_def)
  then have "session h r (phase ?s)" using assms(1) by simp
  ultimately show ?thesis using vnc_loop_session [OF _ wf, of h r D] u v unfolding t by simp
qed

text \<open>The response that is put in the buffer is the message that is due.\<close>

definition key_values :: "u8 set" where
  "key_values = {0, char8 CHR ''a'', char8 CHR ''b'', char8 CHR ''c''}"

definition key_sent :: "u8 \<Rightarrow> u8" where
  "key_sent k = (if k = char8 CHR ''a'' then char8 CHR ''r'' else if k = char8 CHR ''b'' then char8 CHR ''a'' else char8 CHR ''b'')"

fun message_due :: "vncsendstate \<Rightarrow> u8 \<Rightarrow> message" where
  "message_due VNCSENDSTATE_INIT k = Version"
| "message_due VNCSENDSTATE_VERSIONSENT k = AuthWord"
| "message_due VNCSENDSTATE_AUTHWORDSENT k = ClientInit"
| "message_due VNCSENDSTATE_CLIENTINITMESSAGESENT k = PixelFormat"
| "message_due VNCSENDSTATE_PIXELFORMATSENT k = Encodings"
| "message_due VNCSENDSTATE_ENCODINGTYPESENT k = FullRefresh"
| "message_due VNCSENDSTATE_PARTIALREFRESHSENT k = (if k = 0 then Refresh else Key (key_sent k))"

lemma load_sends:
  assumes "Vnc_LoadResponseBuffer k buf s = (n, k', buf', s')" and "20 \<le> length buf" and "k \<in> key_values"
  shows "n = 0 \<and> s' = s \<or> (\<exists>m. sends (conn s) m (conn s') \<and> take (unat n) buf' = message_bytes m \<and>
    n \<noteq> 0 \<and> awaited s' = awaited s)"
proof (cases "VNCsendState s = VNCSENDSTATE_PARTIALREFRESHSENT")
  case True
  let ?m = "if k = 0 then Refresh else Key (key_sent k)"
  have "message_bytes Refresh = refreshMessage" "message_bytes (Key 114) = keypressMessage CHR ''r''"
    "message_bytes (Key 97) = keypressMessage CHR ''a''" "message_bytes (Key 98) = keypressMessage CHR ''b''"
    by (simp_all add: refreshMessage_def keypressMessage_def hi8_def lo8_def SCREEN_WIDTH_def SCREEN_HEIGHT_def)
  moreover have "sends (VNCSTATE_CONNECTED_REFRESH, VNCSENDSTATE_PARTIALREFRESHSENT) ?m
      (VNCSTATE_CONNECTED_REFRESH, VNCSENDSTATE_PARTIALREFRESHSENT)"
    by (rule send_request) (auto simp: key_sent_def)
  ultimately show ?thesis
    using assms True
    by (auto simp: Vnc_LoadResponseBuffer_def send_message_def load_keypress_def Let_def conn_def
        overwrite_def key_values_def key_sent_def intro!: exI [of _ ?m] simp del: message_bytes.simps split: if_splits)
next
  case False
  have "(take (Suc 0) buf)[0 := 0] = [0]" using assms(2) by (cases buf) auto
  moreover have "versionMessage = message_bytes Version" "VNCauthWord = message_bytes AuthWord"
    "pixelFormatMessage = message_bytes PixelFormat" "encodingTypeMessage = message_bytes Encodings"
    "refreshMessage[1 := 0] = message_bytes FullRefresh"
    by (simp_all add: message_lengths hi8_def lo8_def SCREEN_WIDTH_def SCREEN_HEIGHT_def)
  ultimately show ?thesis
    using False assms
    by (cases "VNCsendState s")
      (auto simp: Vnc_LoadResponseBuffer_def send_message_def Let_def conn_def overwrite_def awaited_def
        drop_update_swap take_update_swap intro!: exI [of _ "message_due (VNCsendState s) k"]
        simp del: message_bytes.simps(1,2,4-8) intro: sends.intros split: if_splits)
qed

text \<open>
  The calls of the main loop, with the responses that have been put in the buffer and the bytes that
  have been taken since the last reset. \<open>keypress\<close> has the values of \<open>Buttons.c\<close>.
\<close>

inductive client :: "'d display \<Rightarrow> bytes list \<Rightarrow> bytes \<Rightarrow> 'd vnc \<Rightarrow> bool" for D where
  boot: "client D [] [] (Vnc_Init lcdInit (vnc_boot d))"
| process: "client D out r s \<Longrightarrow> unat len \<le> length buf \<Longrightarrow> Vnc_ProcessVncBuffer D buf len s = (n, t) \<Longrightarrow>
    client D out (r @ take (unat len - length (view (cur t))) buf) t"
| respond: "client D out r s \<Longrightarrow> 20 \<le> length buf \<Longrightarrow> k \<in> key_values \<Longrightarrow>
    Vnc_LoadResponseBuffer k buf s = (n, k', buf', t) \<Longrightarrow>
    client D (if n = 0 then out else out @ [take (unat n) buf']) r t"
| reset: "client D out r s \<Longrightarrow> client D [] [] (Vnc_ResetSystem s)"

theorem client_session: "client D out r s \<Longrightarrow> \<exists>h. session h r (phase s) \<and> out = map message_bytes h"
proof (induction rule: client.induct)
  case (boot lcdInit d)
  then show ?case using session.start
    by (intro exI [of _ "[]"]) (simp add: phase_def conn_def awaited_def Vnc_Init_def vnc_boot_def)
next
  case (process out r s len buf n t)
  then show ?case using process_session by blast
next
  case (respond out r s buf k n k' buf' t)
  then obtain h where h: "session h r (phase s)" "out = map message_bytes h" by blast
  from load_sends [OF respond(4,2,3)] show ?case
  proof (elim disjE exE conjE)
    fix m
    assume m: "sends (conn s) m (conn t)" "take (unat n) buf' = message_bytes m" "n \<noteq> 0" "awaited t = awaited s"
    have "session (h @ [m]) r (phase t)"
      using session.send [OF h(1) [unfolded phase_def] m(1)] m(4) by (simp add: phase_def)
    with h m show ?case by (intro exI [of _ "h @ [m]"]) simp
  qed (use h in auto)
next
  case (reset out r s)
  then show ?case using session.start
    by (intro exI [of _ "[]"]) (simp add: phase_def conn_def awaited_def Vnc_ResetSystem_def)
qed

end
