(* ===== verification/VncSession.thy ===== *)
theory VncSession
  imports VncResume VncSafety
begin

text \<open>
  The receive side as its caller sees it: a buffer of bytes that have arrived and are not
  decoded yet, to which arrivals are appended and from which each call of
  \<open>Vnc_ProcessVncBuffer\<close> takes what it can. The result is that the outcome depends on the
  stream of bytes and not on how it is cut into arrivals or on when the calls are made.
\<close>

section \<open>One call\<close>

text \<open>
  Between calls only the read-out-of-bounds flag of the cursor is of interest: the next
  call assigns \<open>dataPtr\<close> and \<open>dataSize\<close>.
\<close>

definition forget :: "'d vnc \<Rightarrow> 'd vnc" where
  "forget s = s\<lparr>cur := \<lparr>cbuf = [], dataPtr = 0, dataSize = 0, oob = oob (cur s)\<rparr>\<rparr>"

definition process :: "'d display \<Rightarrow> bytes \<times> 'd vnc \<Rightarrow> bytes \<times> 'd vnc" where
  "process D c =
     (let s = snd (Vnc_ProcessVncBuffer D (fst c) (of_nat (length (fst c))) (snd c))
      in (view (cur s), forget s))"

lemma process_loop:
  "process D (rest, s) =
     (let t = snd (vnc_loop D (start_buffer rest (of_nat (length rest)) s))
      in (view (cur t), forget t))"
  by (simp add: process_def Vnc_ProcessVncBuffer_def split: prod.splits)

text \<open>
  The remainder a call reports is the undecoded end of its buffer, and no read left the
  buffer. A call in one of the final states reports no remainder but -1.
\<close>

lemma Vnc_ProcessVncBuffer_remainder:
  assumes len: "length buffer \<le> 65535"
    and call: "Vnc_ProcessVncBuffer D buffer (of_nat (length buffer)) s = (r, t)"
  shows "oob (cur t) = oob (cur s)"
    and "unat r \<le> length buffer \<and> view (cur t) = drop (length buffer - unat r) buffer \<or>
      r = 65535 \<and> VNCstate t \<in> {VNCSTATE_DEAD, VNCSTATE_AUTHFAILED, VNCSTATE_PROCESSDONE}"
proof -
  let ?s = "start_buffer buffer (of_nat (length buffer)) s"
  have wf: "cwf (cur ?s)" and view: "view (cur ?s) = buffer"
    using len by (simp_all add: start_buffer_cwf start_buffer_view)
  have u: "unread ?s = length buffer" using length_view [OF wf] view by simp
  have t: "t = snd (vnc_loop D ?s)"
    and r: "r = (if fst (vnc_loop D ?s) = 0 then dataSize (cur t)
                 else word_of_int (fst (vnc_loop D ?s)))"
    using call by (auto simp: Vnc_ProcessVncBuffer_def split: prod.splits if_splits)
  have c: "consumes ?s t" unfolding t by (rule vnc_loop_consumes [OF wf])
  from consumes_oob [OF c] show "oob (cur t) = oob (cur s)" by (simp add: start_buffer_def)
  show "unat r \<le> length buffer \<and> view (cur t) = drop (length buffer - unat r) buffer \<or>
      r = 65535 \<and> VNCstate t \<in> {VNCSTATE_DEAD, VNCSTATE_AUTHFAILED, VNCSTATE_PROCESSDONE}"
  proof (cases "fst (vnc_loop D ?s) = 0")
    case True
    then have "r = dataSize (cur t)" by (simp add: r)
    with consumes_unread [OF c] consumes_view [OF c wf] u view show ?thesis by simp
  next
    case False
    with vnc_loop_range [of D ?s] show ?thesis by (auto simp: t r)
  qed
qed

lemma process_length:
  assumes "length rest \<le> 65535"
  shows "length (fst (process D (rest, s))) \<le> length rest"
proof -
  let ?s = "start_buffer rest (of_nat (length rest)) s"
  have wf: "cwf (cur ?s)" using assms by (rule start_buffer_cwf)
  note c = vnc_loop_consumes [OF wf, of D]
  show ?thesis
    using consumes_unread [OF c] length_view [OF wf] start_buffer_view [OF assms, of s]
      length_view [OF consumes_cwf [OF c wf]]
    by (simp add: process_loop Let_def)
qed

lemma process_forget: "process D (rest, forget s) = process D (rest, s)"
  by (simp add: process_loop start_buffer_def forget_def)

section \<open>Arrivals\<close>

definition arrive :: "bytes \<Rightarrow> bytes \<times> 'd vnc \<Rightarrow> bytes \<times> 'd vnc" where
  "arrive ys c = (fst c @ ys, snd c)"

lemma arrive_append: "arrive (xs @ ys) c = arrive ys (arrive xs c)"
  by (simp add: arrive_def)

lemma ext_forget: "ext ys s t \<Longrightarrow> forget t = forget s"
  by (elim extE) (simp add: forget_def feeds_def)

lemma ext_view: "ext ys s t \<Longrightarrow> view (cur t) = view (cur s) @ ys"
  by (elim extE) (simp add: feeds_def)

definition whole :: "bytes \<Rightarrow> 'd vnc \<Rightarrow> 'd vnc" where
  "whole rest s = start_buffer rest (of_nat (length rest)) s"

lemma whole_cwf: "length rest \<le> 65535 \<Longrightarrow> cwf (cur (whole rest s))"
  by (simp add: whole_def start_buffer_cwf)

lemma whole_view: "length rest \<le> 65535 \<Longrightarrow> view (cur (whole rest s)) = rest"
  by (simp add: whole_def start_buffer_view)

lemma process_whole:
  "process D (rest, s) = (let t = snd (vnc_loop D (whole rest s)) in (view (cur t), forget t))"
  by (simp add: process_loop whole_def)

lemma ext_start:
  assumes wf: "cwf (cur s)" and n: "length (view (cur s)) + length ys \<le> 65535"
  shows "ext ys s (whole (view (cur s) @ ys) (forget s))"
proof -
  have l: "length (view (cur s) @ ys) \<le> 65535" using n by simp
  from wf whole_cwf [OF l, of "forget s"] whole_view [OF l, of "forget s"]
  show ?thesis by (simp add: ext_def feeds_def) (simp add: whole_def start_buffer_def forget_def)
qed

context raw_display
begin

text \<open>The heart of the matter: bytes that arrive before a call and bytes that arrive after it.\<close>

lemma process_arrive:
  assumes n: "length rest + length ys \<le> 65535"
  shows "process D (arrive ys (rest, s)) = arrive ys (process D (rest, s)) \<or>
         process D (arrive ys (rest, s)) = process D (arrive ys (process D (rest, s)))"
proof -
  let ?s = "whole rest s"
  let ?t = "whole (rest @ ys) s"
  let ?l = "\<lambda>s. snd (vnc_loop D s)"
  have rest: "length rest \<le> 65535" and ys: "length (rest @ ys) \<le> 65535" using n by simp_all
  note wf = whole_cwf [OF rest, of s] whole_cwf [OF ys, of s]
  have wl: "cwf (cur (?l ?s))" by (intro consumes_cwf [OF vnc_loop_consumes] wf)
  have e: "ext ys ?s ?t"
    using wf whole_view [OF rest, of s] whole_view [OF ys, of s]
    by (simp add: ext_def feeds_def) (simp add: whole_def start_buffer_def)
  from vnc.loop_resumes [OF e] show ?thesis
  proof (unfold resumes_def, elim disjE conjE)
    assume "ext ys (?l ?s) (?l ?t)"
    from ext_view [OF this] ext_forget [OF this]
    have "view (cur (?l ?t)) = view (cur (?l ?s)) @ ys" "forget (?l ?t) = forget (?l ?s)" .
    then show ?thesis by (simp add: arrive_def process_whole Let_def)
  next
    assume w: "\<forall>u. ext ys (?l ?s) u \<longrightarrow> same_result ext (vnc_loop D ?t) (vnc_loop D u)"
    let ?u = "whole (view (cur (?l ?s)) @ ys) (forget (?l ?s))"
    have "length (view (cur (?l ?s))) \<le> length rest"
      using process_length [OF rest, of D s] by (simp add: process_whole Let_def)
    then have "ext ys (?l ?s) ?u" using n by (intro ext_start wl) simp
    with w have u: "ext [] (?l ?t) (?l ?u)" by (simp add: same_result_def)
    have "view (cur (?l ?u)) = view (cur (?l ?t))" "forget (?l ?u) = forget (?l ?t)"
      using ext_view [OF u] ext_forget [OF u] by simp_all
    then show ?thesis by (simp add: arrive_def process_whole Let_def)
  qed
qed

end

section \<open>Schedules\<close>

datatype event = Arrive bytes | Call

primrec deliver :: "'d display \<Rightarrow> event \<Rightarrow> bytes \<times> 'd vnc \<Rightarrow> bytes \<times> 'd vnc" where
  "deliver D (Arrive ys) c = arrive ys c"
| "deliver D Call c = process D c"

fun run :: "'d display \<Rightarrow> event list \<Rightarrow> bytes \<times> 'd vnc \<Rightarrow> bytes \<times> 'd vnc" where
  "run D [] c = c"
| "run D (e # es) c = run D es (deliver D e c)"

fun stream :: "event list \<Rightarrow> bytes" where
  "stream [] = []"
| "stream (Arrive ys # es) = ys @ stream es"
| "stream (Call # es) = stream es"

text \<open>The undecoded bytes never exceed what a 16-bit length can say.\<close>

fun fits :: "'d display \<Rightarrow> event list \<Rightarrow> bytes \<times> 'd vnc \<Rightarrow> bool" where
  "fits D [] c = (length (fst c) \<le> 65535)"
| "fits D (e # es) c = (length (fst c) \<le> 65535 \<and> fits D es (deliver D e c))"

abbreviation again :: "'d display \<Rightarrow> nat \<Rightarrow> bytes \<times> 'd vnc \<Rightarrow> bytes \<times> 'd vnc" where
  "again D i \<equiv> (process D ^^ i)"

lemma run_append: "run D (es @ fs) c = run D fs (run D es c)"
  by (induction es arbitrary: c) simp_all

lemma run_calls: "run D (replicate i Call) c = again D i c"
  by (induction i arbitrary: c) (simp_all add: funpow_swap1)

lemma fits_append: "fits D (es @ fs) c \<longleftrightarrow> fits D es c \<and> fits D fs (run D es c)"
  by (induction es arbitrary: c) (auto, (cases fs; simp)+)

lemma fits_start: "fits D es c \<Longrightarrow> length (fst c) \<le> 65535"
  by (cases es) simp_all

text \<open>Two configurations meet if each gets to a common one with no more arrivals.\<close>

definition meet :: "'d display \<Rightarrow> bytes \<times> 'd vnc \<Rightarrow> bytes \<times> 'd vnc \<Rightarrow> bool" where
  "meet D c d \<longleftrightarrow> (\<exists>i j. again D i c = again D j d)"

lemma meet_refl: "meet D c c"
  by (auto simp: meet_def)

lemma meet_sym: "meet D c d \<Longrightarrow> meet D d c"
  unfolding meet_def by metis

lemma meet_again: "meet D c (again D i c)"
  unfolding meet_def by (rule exI [of _ i], rule exI [of _ 0]) simp

lemma meet_process: "meet D c (process D c)"
  using meet_again [of D c 1] by simp

lemma again_add: "again D (i + j) c = again D i (again D j c)"
  by (simp add: funpow_add)

lemma meet_trans:
  assumes "meet D c d" and "meet D d e"
  shows "meet D c e"
proof -
  from assms obtain i j k l where ij: "again D i c = again D j d" and kl: "again D k d = again D l e"
    by (auto simp: meet_def)
  have "again D (k + i) c = again D k (again D j d)" by (simp add: again_add ij)
  also have "\<dots> = again D j (again D k d)" by (simp add: again_add [symmetric] add.commute)
  also have "\<dots> = again D (j + l) e" by (simp add: again_add kl)
  finally show ?thesis by (auto simp: meet_def)
qed

lemma again_length:
  "length (fst c) \<le> n \<Longrightarrow> n \<le> 65535 \<Longrightarrow> length (fst (again D i c)) \<le> n"
proof (induction i)
  case (Suc i)
  then show ?case
    using process_length [of "fst (again D i c)" D "snd (again D i c)"] by simp
qed simp

context raw_display
begin

lemma meet_arrive_process:
  "length (fst c) + length ys \<le> 65535 \<Longrightarrow> meet D (arrive ys c) (arrive ys (process D c))"
  using process_arrive [of "fst c" ys "snd c"] meet_process [of D "arrive ys c"]
    meet_process [of D "arrive ys (process D c)"]
  by (auto intro: meet_trans dest: meet_sym)

lemma meet_arrive_again:
  "length (fst c) + length ys \<le> 65535 \<Longrightarrow> meet D (arrive ys c) (arrive ys (again D i c))"
proof (induction i)
  case 0
  then show ?case by (simp add: meet_refl)
next
  case (Suc i)
  have "length (fst (again D i c)) \<le> length (fst c)" using Suc.prems by (intro again_length) simp_all
  then have "meet D (arrive ys (again D i c)) (arrive ys (process D (again D i c)))"
    using Suc.prems by (intro meet_arrive_process) simp
  with Suc show ?case by (auto intro: meet_trans)
qed

lemma meet_arrive:
  assumes "meet D c d" and "length (fst c) + length ys \<le> 65535"
    and "length (fst d) + length ys \<le> 65535"
  shows "meet D (arrive ys c) (arrive ys d)"
proof -
  from assms(1) obtain i j where "again D i c = again D j d" by (auto simp: meet_def)
  with meet_arrive_again [OF assms(2), of i] meet_arrive_again [OF assms(3), of j] show ?thesis
    by (metis meet_sym meet_trans)
qed

end

text \<open>The same arrivals one byte at a time.\<close>

fun bytewise :: "event list \<Rightarrow> event list" where
  "bytewise [] = []"
| "bytewise (Arrive ys # es) = map (\<lambda>y. Arrive [y]) ys @ bytewise es"
| "bytewise (Call # es) = Call # bytewise es"

lemma run_bytes: "run D (map (\<lambda>y. Arrive [y]) ys) c = arrive ys c"
  by (induction ys arbitrary: c) (simp_all add: arrive_def)

lemma fits_bytes: "length (fst c) + length ys \<le> 65535 \<Longrightarrow> fits D (map (\<lambda>y. Arrive [y]) ys) c"
  by (induction ys arbitrary: c) (simp_all add: arrive_def)

lemma run_bytewise: "run D (bytewise es) c = run D es c"
  by (induction es arbitrary: c rule: bytewise.induct) (simp_all add: run_append run_bytes)

lemma fits_bytewise: "fits D es c \<Longrightarrow> fits D (bytewise es) c"
proof (induction es arbitrary: c rule: bytewise.induct)
  case (2 ys es)
  then have "length (fst c) + length ys \<le> 65535"
    using fits_start [of D es "arrive ys c"] by (simp add: arrive_def)
  with 2 show ?case by (simp add: fits_append fits_bytes run_bytes)
qed simp_all

lemma stream_append: "stream (es @ fs) = stream es @ stream fs"
  by (induction es rule: stream.induct) simp_all

lemma stream_bytewise: "stream (bytewise es) = stream es"
proof (induction es rule: bytewise.induct)
  case (2 ys es)
  have "stream (map (\<lambda>y. Arrive [y]) ys) = ys" by (induction ys) simp_all
  with 2 show ?case by (simp add: stream_append)
qed simp_all

definition is_bytewise :: "event list \<Rightarrow> bool" where
  "is_bytewise es \<longleftrightarrow> (\<forall>e \<in> set es. case e of Arrive ys \<Rightarrow> length ys = 1 | Call \<Rightarrow> True)"

lemma is_bytewise_bytewise: "is_bytewise (bytewise es)"
  by (induction es rule: bytewise.induct) (auto simp: is_bytewise_def)

text \<open>A schedule of single bytes is calls only, or ends in one arrival and calls.\<close>

lemma bytewise_cases:
  assumes "is_bytewise es"
  obtains i where "es = replicate i Call"
  | y fs i where "es = fs @ Arrive [y] # replicate i Call" "is_bytewise fs"
proof -
  have "(\<exists>i. es = replicate i Call) \<or>
      (\<exists>fs y i. es = fs @ Arrive [y] # replicate i Call \<and> is_bytewise fs)"
    using assms
  proof (induction es rule: rev_induct)
    case (snoc e es)
    show ?case
    proof (cases e)
      case (Arrive ys)
      then obtain y where "ys = [y]" using snoc.prems
        by (cases ys) (auto simp: is_bytewise_def)
      with Arrive snoc.prems show ?thesis
        by (intro disjI2 exI [of _ es] exI [of _ y] exI [of _ 0]) (simp add: is_bytewise_def)
    next
      case Call
      from snoc have "(\<exists>i. es = replicate i Call) \<or>
          (\<exists>fs y i. es = fs @ Arrive [y] # replicate i Call \<and> is_bytewise fs)"
        by (simp add: is_bytewise_def)
      with Call show ?thesis
        by (metis append.assoc append_Cons replicate_append_same replicate_Suc)
    qed
  qed auto
  then show ?thesis using that by blast
qed

lemma stream_calls: "stream (replicate i Call) = []"
  by (induction i) simp_all

lemma stream_empty: "is_bytewise es \<Longrightarrow> stream es = [] \<Longrightarrow> \<exists>i. es = replicate i Call"
  by (erule bytewise_cases) (auto simp: stream_append)

lemma bytewise_snoc:
  assumes "is_bytewise es" and "stream es = xs @ [x]"
  obtains fs i where "es = fs @ Arrive [x] # replicate i Call" "is_bytewise fs" "stream fs = xs"
  using assms(1)
proof (cases rule: bytewise_cases)
  case (1 i)
  with assms(2) show ?thesis by (simp add: stream_calls)
next
  case (2 y fs i)
  with assms(2) that show ?thesis by (simp add: stream_append stream_calls)
qed

lemma run_last: "run D (fs @ Arrive ys # replicate i Call) c = again D i (arrive ys (run D fs c))"
  by (simp add: run_append run_calls)

context raw_display
begin

lemma bytewise_meet:
  "is_bytewise es \<Longrightarrow> is_bytewise fs \<Longrightarrow> stream es = xs \<Longrightarrow> stream fs = xs \<Longrightarrow>
   fits D es c \<Longrightarrow> fits D fs c \<Longrightarrow> meet D (run D es c) (run D fs c)"
proof (induction xs arbitrary: es fs rule: rev_induct)
  case Nil
  then obtain i j where "es = replicate i Call" "fs = replicate j Call"
    using stream_empty by metis
  then show ?case using meet_again meet_sym meet_trans by (metis run_calls)
next
  case (snoc x xs)
  obtain e i where e: "es = e @ Arrive [x] # replicate i Call" "is_bytewise e" "stream e = xs"
    using bytewise_snoc [OF snoc.prems(1,3)] .
  obtain f j where f: "fs = f @ Arrive [x] # replicate j Call" "is_bytewise f" "stream f = xs"
    using bytewise_snoc [OF snoc.prems(2,4)] .
  have "fits D e c" "fits D f c"
    and n: "length (fst (run D e c)) + length [x] \<le> 65535"
      "length (fst (run D f c)) + length [x] \<le> 65535"
    using snoc.prems(5,6) fits_start [of D "replicate i Call" "arrive [x] (run D e c)"]
      fits_start [of D "replicate j Call" "arrive [x] (run D f c)"]
    by (simp_all add: e f fits_append arrive_def)
  then have "meet D (run D e c) (run D f c)" using snoc.IH [OF e(2) f(2) e(3) f(3)] by simp
  from meet_arrive [OF this n] show ?case
    unfolding e(1) f(1) run_last using meet_again meet_sym meet_trans by metis
qed

theorem schedules_meet:
  assumes "stream es = stream fs" and "fits D es c" and "fits D fs c"
  shows "\<exists>i j. run D (es @ replicate i Call) c = run D (fs @ replicate j Call) c"
proof -
  have "meet D (run D (bytewise es) c) (run D (bytewise fs) c)"
    using assms by (intro bytewise_meet [OF _ _ refl])
      (simp_all add: is_bytewise_bytewise stream_bytewise fits_bytewise)
  then show ?thesis by (simp add: meet_def run_bytewise run_append run_calls)
qed

end

end
