(* ===== verification/HextileSpec.thy ===== *)
theory HextileSpec
  imports VncSafety
begin

text \<open>
  The hextile encoding of the protocol as an encoder, the picture a tile stands for, and
  the proof that the decoder of \<open>vnc.c\<close> turns the bytes of an encoded tile back into that
  picture. A picture is a function from column and row to a pixel.
\<close>

section \<open>The tile buffer as a picture\<close>

type_synonym picture = "nat \<Rightarrow> nat \<Rightarrow> u16"

definition paint :: "nat set \<Rightarrow> nat set \<Rightarrow> u16 \<Rightarrow> picture \<Rightarrow> picture" where
  "paint xs ys c f = (\<lambda>x y. if x \<in> xs \<and> y \<in> ys then c else f x y)"

definition shows_tile :: "'d vnc \<Rightarrow> picture \<Rightarrow> bool" where
  "shows_tile s f \<longleftrightarrow> length (hextileBuffer s) = 512 \<and>
     (\<forall>x < 16. \<forall>y < 16. le16 (hextileBuffer s) (y * 32 + 2 * x) = f x y)"

lemma le16_hi_lo: "ucast (lo8 c) + ucast (hi8 c) * 256 = c"
  using le16_be16 [of "[lo8 c, hi8 c]" 0] by (simp add: le16_def)

lemma cell_inject:
  assumes "(x :: nat) < 16" and "x' < 16"
  shows "y * 16 + x = y' * 16 + x' \<longleftrightarrow> y = y' \<and> x = x'"
proof
  assume e: "y * 16 + x = y' * 16 + x'"
  have "y = (y * 16 + x) div 16" "y' = (y' * 16 + x') div 16" using assms by simp_all
  with e show "y = y' \<and> x = x'" by simp
qed simp

lemma put_pixel_shows:
  assumes "shows_tile s f" and "x < 16" and "y < 16"
  shows "shows_tile (put_pixel y (x * 2) c s) (paint {x} {y} c f)"
    and "hoob (put_pixel y (x * 2) c s) = hoob s"
proof -
  have "y * 32 + x * 2 = y' * 32 + 2 * x' \<longleftrightarrow> y = y' \<and> x = x'" if "x' < 16" for x' y'
    using cell_inject [OF assms(2) that, of y y'] by arith
  moreover have "y * 32 + x * 2 \<noteq> Suc (y' * 32 + 2 * x')" "Suc (y * 32 + x * 2) \<noteq> y' * 32 + 2 * x'"
    for x' y' by presburger+
  ultimately show "shows_tile (put_pixel y (x * 2) c s) (paint {x} {y} c f)"
    using assms unfolding shows_tile_def put_pixel_def paint_def le16_def
    by (auto simp: nth_list_update le16_hi_lo)
  show "hoob (put_pixel y (x * 2) c s) = hoob s"
    using assms by (simp add: put_pixel_def shows_tile_def)
qed

lemma put_row_shows:
  "shows_tile s f \<Longrightarrow> set xs \<subseteq> {..<16} \<Longrightarrow> y < 16 \<Longrightarrow>
   shows_tile (fold (\<lambda>x s. put_pixel y (x * 2) c s) xs s) (paint (set xs) {y} c f) \<and>
   hoob (fold (\<lambda>x s. put_pixel y (x * 2) c s) xs s) = hoob s"
proof (induction xs arbitrary: s f)
  case Nil
  then show ?case by (simp add: shows_tile_def paint_def)
next
  case (Cons x xs)
  have "paint (set xs) {y} c (paint {x} {y} c f) = paint (set (x # xs)) {y} c f"
    by (auto simp: paint_def fun_eq_iff)
  with Cons.IH [OF put_pixel_shows(1) [OF Cons.prems(1)], of x y c] Cons.prems
    put_pixel_shows(2) [OF Cons.prems(1)]
  show ?case by simp
qed

lemma put_rows_shows:
  "shows_tile s f \<Longrightarrow> set xs \<subseteq> {..<16} \<Longrightarrow> set ys \<subseteq> {..<16} \<Longrightarrow>
   shows_tile (fold (\<lambda>y s. fold (\<lambda>x s. put_pixel y (x * 2) c s) xs s) ys s)
     (paint (set xs) (set ys) c f) \<and>
   hoob (fold (\<lambda>y s. fold (\<lambda>x s. put_pixel y (x * 2) c s) xs s) ys s) = hoob s"
proof (induction ys arbitrary: s f)
  case Nil
  then show ?case by (simp add: shows_tile_def paint_def)
next
  case (Cons y ys)
  have "paint (set xs) (set ys) c (paint (set xs) {y} c f) = paint (set xs) (set (y # ys)) c f"
    by (auto simp: paint_def fun_eq_iff)
  with Cons.IH [OF conjunct1 [OF put_row_shows [OF Cons.prems(1,2)]], of y c] Cons.prems
    put_row_shows [OF Cons.prems(1,2), of y c]
  show ?case by simp
qed

lemma put_rect_fold:
  "put_rect x0 x1 y0 y1 c s =
     fold (\<lambda>y s. fold (\<lambda>x s. put_pixel y (x * 2) c s) [x0..<Suc x1] s) [y0..<Suc y1] s"
  by (simp add: put_rect_def fold_map comp_def)

lemma put_rect_shows:
  assumes "shows_tile s f" and "x1 < 16" and "y1 < 16"
  shows "shows_tile (put_rect x0 x1 y0 y1 c s) (paint {x0..x1} {y0..y1} c f)"
    and "hoob (put_rect x0 x1 y0 y1 c s) = hoob s"
proof -
  have "set [x0..<Suc x1] \<subseteq> {..<16}" "set [y0..<Suc y1] \<subseteq> {..<16}" using assms(2,3) by auto
  note put_rows_shows [OF assms(1) this, of c]
  then show "shows_tile (put_rect x0 x1 y0 y1 c s) (paint {x0..x1} {y0..y1} c f)"
    and "hoob (put_rect x0 x1 y0 y1 c s) = hoob s"
    by (simp_all add: put_rect_fold atLeastLessThanSuc_atLeastAtMost del: upt_Suc)
qed

text \<open>Outside the 16 by 16 square the stores leave the row, or the buffer.\<close>

lemma put_row_hoob:
  "hoob (fold (\<lambda>x s. put_pixel y (x * 2) c s) xs s) \<longleftrightarrow>
     hoob s \<or> (\<exists>x \<in> set xs. length (hextileBuffer s) \<le> y * 32 + x * 2 + 1)"
  by (induction xs arbitrary: s) (auto simp: put_pixel_def)

lemma put_row_length:
  "length (hextileBuffer (fold (\<lambda>x s. put_pixel y (x * 2) c s) xs s)) = length (hextileBuffer s)"
  by (induction xs arbitrary: s) simp_all

lemma put_rows_hoob:
  "hoob (fold (\<lambda>y s. fold (\<lambda>x s. put_pixel y (x * 2) c s) xs s) ys s) \<longleftrightarrow>
     hoob s \<or> (\<exists>y \<in> set ys. \<exists>x \<in> set xs. length (hextileBuffer s) \<le> y * 32 + x * 2 + 1)"
  by (induction ys arbitrary: s) (auto simp: put_row_hoob put_row_length)

lemma put_rect_hoob:
  assumes "x0 \<le> x1" and "y0 \<le> y1" and "length (hextileBuffer s) = 512"
  shows "hoob (put_rect x0 x1 y0 y1 c s) \<longleftrightarrow> hoob s \<or> 256 \<le> y1 * 16 + x1"
proof -
  have "(\<exists>y \<in> set [y0..<Suc y1]. \<exists>x \<in> set [x0..<Suc x1]. 512 \<le> y * 32 + x * 2 + 1) \<longleftrightarrow>
      256 \<le> y1 * 16 + x1"
  proof
    assume "256 \<le> y1 * 16 + x1"
    then show "\<exists>y \<in> set [y0..<Suc y1]. \<exists>x \<in> set [x0..<Suc x1]. 512 \<le> y * 32 + x * 2 + 1"
      using assms(1,2) by (intro bexI [of _ y1] bexI [of _ x1]) auto
  qed (auto simp del: upt_Suc)
  then show ?thesis by (simp add: put_rect_fold put_rows_hoob assms(3) del: upt_Suc)
qed

section \<open>Subrectangles\<close>

lemma nibbles:
  "unat (drop_bit 4 (w AND 0xF0 :: u8)) = unat w div 16" "unat (w AND 0x0F :: u8) = unat w mod 16"
proof -
  have m: "w AND 0x0F = take_bit 4 w" for w :: u8 by (simp add: take_bit_eq_mask mask_eq_exp_minus_1)
  show "unat (w AND 0x0F) = unat w mod 16" unfolding m unsigned_take_bit_eq by (simp add: take_bit_eq_mod)
  have "drop_bit 4 (w AND 0xF0) = drop_bit 4 w AND 0x0F" by (simp add: drop_bit_and)
  then have "unat (drop_bit 4 (w AND 0xF0)) = unat (drop_bit 4 w) mod 16"
    unfolding m unsigned_take_bit_eq by (simp add: take_bit_eq_mod unat_mod)
  moreover have "unat (drop_bit 4 w) = unat w div 16" by (simp add: drop_bit_eq_div unat_div)
  ultimately show "unat (drop_bit 4 (w AND 0xF0)) = unat w div 16"
    using unat_u8_less [of w] by simp
qed

lemma nibble_sum:
  assumes "unat (a :: u8) < 16" and "unat (b :: u8) < 16"
  shows "unat (a + b) = unat a + unat b"
  using assms by (simp add: unat_word_ariths)

definition corner_x0 :: "u8 \<Rightarrow> nat" where "corner_x0 a = unat a div 16"
definition corner_y0 :: "u8 \<Rightarrow> nat" where "corner_y0 a = unat a mod 16"
definition corner_x1 :: "u8 \<Rightarrow> u8 \<Rightarrow> nat" where "corner_x1 a b = unat a div 16 + unat b div 16"
definition corner_y1 :: "u8 \<Rightarrow> u8 \<Rightarrow> nat" where "corner_y1 a b = unat a mod 16 + unat b mod 16"

lemma draw_subrect_rect:
  "draw_subrect c a b s = put_rect (corner_x0 a) (corner_x1 a b) (corner_y0 a) (corner_y1 a b) c s"
proof -
  have d: "unat (w :: u8) div 16 < 16" "unat (w :: u8) mod 16 < 16" for w
    using unat_u8_less [of w] by simp_all
  have x: "unat (drop_bit 4 (a AND 0xF0) + drop_bit 4 (b AND 0xF0)) = corner_x1 a b"
    and y: "unat ((a AND 0x0F) + (b AND 0x0F)) = corner_y1 a b"
    unfolding corner_x1_def corner_y1_def nibbles [symmetric]
    by (intro nibble_sum; simp only: nibbles d)+
  show ?thesis
    unfolding draw_subrect_def Let_def x y nibbles corner_x0_def corner_y0_def ..
qed

lemma draw_subrect_hoob:
  "length (hextileBuffer s) = 512 \<Longrightarrow>
     hoob (draw_subrect c a b s) \<longleftrightarrow> hoob s \<or> 256 \<le> corner_y1 a b * 16 + corner_x1 a b"
  unfolding draw_subrect_rect
  by (intro put_rect_hoob) (simp_all add: corner_x0_def corner_x1_def corner_y0_def corner_y1_def)

section \<open>The encoding\<close>

text \<open>
  A subrectangle is a colour and its first and last column and row. The protocol packs the
  first column and row into one byte, the width and height less one into another, and pixels
  are little-endian.
\<close>

type_synonym area = "nat \<times> nat \<times> nat \<times> nat"

fun area_fits :: "area \<Rightarrow> bool" where
  "area_fits (x0, x1, y0, y1) \<longleftrightarrow> x0 \<le> x1 \<and> x1 < 16 \<and> y0 \<le> y1 \<and> y1 < 16"

fun encode_area :: "area \<Rightarrow> bytes" where
  "encode_area (x0, x1, y0, y1) = [of_nat (x0 * 16 + y0), of_nat ((x1 - x0) * 16 + (y1 - y0))]"

definition encode_pixel :: "u16 \<Rightarrow> bytes" where
  "encode_pixel c = [lo8 c, hi8 c]"

text \<open>The subrectangles of a tile share the foreground colour or bring their own.\<close>

datatype subrects = Shared "area list" | Coloured "(u16 \<times> area) list"

fun areas :: "u16 \<Rightarrow> subrects \<Rightarrow> (u16 \<times> area) list" where
  "areas fg (Shared as) = map (Pair fg) as"
| "areas fg (Coloured cas) = cas"

fun encode_subrects :: "subrects \<Rightarrow> bytes" where
  "encode_subrects (Shared as) = concat (map encode_area as)"
| "encode_subrects (Coloured cas) = concat (map (\<lambda>(c, a). encode_pixel c @ encode_area a) cas)"

definition subencoding :: "u16 option \<Rightarrow> u16 option \<Rightarrow> subrects \<Rightarrow> u8" where
  "subencoding bg fg subs =
     (if bg = None then 0 else 2) + (if fg = None then 0 else 4) +
     (if areas 0 subs = [] then 0 else 8) + (case subs of Shared _ \<Rightarrow> 0 | Coloured _ \<Rightarrow> 16)"

definition encode_tile :: "u16 option \<Rightarrow> u16 option \<Rightarrow> subrects \<Rightarrow> bytes" where
  "encode_tile bg fg subs =
     subencoding bg fg subs #
     (case bg of None \<Rightarrow> [] | Some c \<Rightarrow> encode_pixel c) @
     (case fg of None \<Rightarrow> [] | Some c \<Rightarrow> encode_pixel c) @
     (if areas 0 subs = [] then [] else [of_nat (length (areas 0 subs))]) @
     encode_subrects subs"

fun paint_area :: "u16 \<times> area \<Rightarrow> picture \<Rightarrow> picture" where
  "paint_area (c, x0, x1, y0, y1) f = paint {x0..x1} {y0..y1} c f"

definition tile_picture :: "u16 \<Rightarrow> u16 \<Rightarrow> subrects \<Rightarrow> picture" where
  "tile_picture bg fg subs = fold paint_area (areas fg subs) (\<lambda>x y. bg)"

lemma decode_area:
  assumes "area_fits (x0, x1, y0, y1)" and "encode_area (x0, x1, y0, y1) = [a, b]"
  shows "corner_x0 a = x0 \<and> corner_x1 a b = x1 \<and> corner_y0 a = y0 \<and> corner_y1 a b = y1"
proof -
  have n: "unat (of_nat n :: u8) = n" if "n < 256" for n
    using that by (simp add: unat_of_nat)
  have "x0 * 16 + y0 < 256" "(x1 - x0) * 16 + (y1 - y0) < 256"
    using assms(1) by auto
  then have a: "unat a = x0 * 16 + y0" and b: "unat b = (x1 - x0) * 16 + (y1 - y0)"
    using assms(2) n by (simp_all only: encode_area.simps list.inject) metis+
  have "y0 < 16" "y1 - y0 < 16" using assms(1) by auto
  then have "(x0 * 16 + y0) div 16 = x0" "(x0 * 16 + y0) mod 16 = y0"
    "((x1 - x0) * 16 + (y1 - y0)) div 16 = x1 - x0" "((x1 - x0) * 16 + (y1 - y0)) mod 16 = y1 - y0"
    by simp_all
  with a b assms(1) show ?thesis
    by (simp add: corner_x0_def corner_x1_def corner_y0_def corner_y1_def)
qed

lemma draw_subrect_shows:
  assumes "shows_tile s f" and "area_fits ar" and "encode_area ar = [a, b]"
  shows "shows_tile (draw_subrect c a b s) (paint_area (c, ar) f)"
    and "hoob (draw_subrect c a b s) = hoob s"
proof -
  obtain x0 x1 y0 y1 where ar: "ar = (x0, x1, y0, y1)" by (cases ar)
  with decode_area [of x0 x1 y0 y1 a b] assms put_rect_shows [OF assms(1), of x1 y1 x0 y0 c]
  show "shows_tile (draw_subrect c a b s) (paint_area (c, ar) f)"
    and "hoob (draw_subrect c a b s) = hoob s"
    by (simp_all add: draw_subrect_rect)
qed

section \<open>Decoding the subrectangles\<close>

text \<open>What the subrectangle loop may change.\<close>

definition only_buffer :: "'d vnc \<Rightarrow> 'd vnc \<Rightarrow> bool" where
  "only_buffer s t \<longleftrightarrow>
     t = s\<lparr>cur := cur t, hextileBuffer := hextileBuffer t, hoob := hoob t,
           numSubrects := numSubrects t\<rparr>"

lemma only_buffer_trans: "only_buffer s t \<Longrightarrow> only_buffer t u \<Longrightarrow> only_buffer s u"
proof -
  assume "only_buffer s t" "only_buffer t u"
  then have "u = s\<lparr>cur := cur t, hextileBuffer := hextileBuffer t, hoob := hoob t,
      numSubrects := numSubrects t\<rparr>\<lparr>cur := cur u, hextileBuffer := hextileBuffer u, hoob := hoob u,
      numSubrects := numSubrects u\<rparr>"
    unfolding only_buffer_def by metis
  then show ?thesis by (simp add: only_buffer_def)
qed

lemma only_buffer_fold:
  assumes "\<And>x s. only_buffer s (g x s)"
  shows "only_buffer s (fold g xs s)"
proof (induction xs arbitrary: s)
  case Nil
  show ?case by (simp add: only_buffer_def)
next
  case (Cons x xs)
  from only_buffer_trans [OF assms Cons] show ?case by simp
qed

lemma only_buffer_put_rect: "only_buffer s (put_rect x0 x1 y0 y1 c s)"
  unfolding put_rect_def
  by (intro only_buffer_fold) (simp add: only_buffer_def put_pixel_def)

lemma only_buffer_fields:
  assumes "only_buffer s t"
  shows "foreground t = foreground s" "background t = background s"
    "subencodingByte t = subencodingByte s" "tileX t = tileX s" "tileY t = tileY s"
    "tileW t = tileW s" "tileH t = tileH s" "panel t = panel s" "hextileState t = hextileState s"
    "VNCstate t = VNCstate s" "rectangleCount t = rectangleCount s"
proof -
  note t = assms [unfolded only_buffer_def]
  show "foreground t = foreground s" "background t = background s"
    "subencodingByte t = subencodingByte s" "tileX t = tileX s" "tileY t = tileY s"
    "tileW t = tileW s" "tileH t = tileH s" "panel t = panel s" "hextileState t = hextileState s"
    "VNCstate t = VNCstate s" "rectangleCount t = rectangleCount s"
    using arg_cong [OF t, of foreground] arg_cong [OF t, of background]
      arg_cong [OF t, of subencodingByte] arg_cong [OF t, of tileX] arg_cong [OF t, of tileY]
      arg_cong [OF t, of tileW] arg_cong [OF t, of tileH] arg_cong [OF t, of panel]
      arg_cong [OF t, of hextileState] arg_cong [OF t, of VNCstate]
      arg_cong [OF t, of rectangleCount]
    by simp_all
qed

text \<open>The rectangle being decoded and the place of the current tile in it.\<close>

definition geometry :: "'d vnc \<Rightarrow> (u16 \<times> u16 \<times> u16 \<times> u16) \<times> u16 \<times> u16 \<times> u8 \<times> u8" where
  "geometry s = ((updateWindowX0 s, updateWindowY0 s, updateWindowX1 s, updateWindowY1 s),
                 tileX s, tileY s, tileW s, tileH s)"

lemma only_buffer_geometry:
  assumes "only_buffer s t"
  shows "geometry t = geometry s"
  using arg_cong [OF assms [unfolded only_buffer_def], of geometry] by (simp add: geometry_def)

definition at_bytes :: "'d vnc \<Rightarrow> bytes \<Rightarrow> bool" where
  "at_bytes s bs \<longleftrightarrow> cwf (cur s) \<and> view (cur s) = bs"

lemma at_bytes_unread: "at_bytes s bs \<Longrightarrow> unread s = length bs"
  using length_view by (auto simp: at_bytes_def)

lemma at_bytes_peek: "at_bytes s bs \<Longrightarrow> k < length bs \<Longrightarrow> peek (cur s) k = bs ! k"
  using at_bytes_unread [of s bs] peek_view [of "cur s" k] by (simp add: at_bytes_def)

lemma at_bytes_take:
  "at_bytes s bs \<Longrightarrow> n \<le> length bs \<Longrightarrow> cur t = advance n (touch n (cur s)) \<Longrightarrow> at_bytes t (drop n bs)"
  using at_bytes_unread [of s bs]
  by (simp add: at_bytes_def touch_safe cwf_advance view_advance)

lemma read_pixel_decode:
  assumes "at_bytes s (encode_pixel c @ rest)"
  obtains d where "read_pixel s = (c, s\<lparr>cur := d\<rparr>)" and "at_bytes (s\<lparr>cur := d\<rparr>) rest"
proof
  show "read_pixel s = (c, s\<lparr>cur := advance 2 (touch 2 (cur s))\<rparr>)"
    using at_bytes_peek [OF assms, of 0] at_bytes_peek [OF assms, of 1]
    by (simp add: read_pixel_def Let_def encode_pixel_def bytes_or le16_hi_lo)
  show "at_bytes (s\<lparr>cur := advance 2 (touch 2 (cur s))\<rparr>) rest"
    using at_bytes_take [OF assms, of 2 "s\<lparr>cur := advance 2 (touch 2 (cur s))\<rparr>"]
    by (simp add: encode_pixel_def)
qed

definition encode_sub :: "bool \<Rightarrow> u16 \<times> area \<Rightarrow> bytes" where
  "encode_sub coloured ca = (if coloured then encode_pixel (fst ca) else []) @ encode_area (snd ca)"

abbreviation (input) coloured :: "'d vnc \<Rightarrow> bool" where
  "coloured s \<equiv> subencodingByte s AND HEXTILE_SUBRECTCOLOR_MASK \<noteq> 0"

lemma length_encode_area: "length (encode_area ar) = 2"
  by (cases ar) simp

lemma subrect_decode:
  assumes at: "at_bytes s (encode_sub (coloured s) (c, ar) @ rest)"
    and fits: "area_fits ar" and sh: "shows_tile s f" and fg: "\<not> coloured s \<Longrightarrow> c = foreground s"
  defines "t \<equiv> snd (hextile_subrect s)"
  shows "subrect_ready s \<and> shows_tile t (paint_area (c, ar) f) \<and> hoob t = hoob s \<and>
    at_bytes t rest \<and> numSubrects t = numSubrects s - 1 \<and> only_buffer s t"
proof -
  obtain a b where ab: "encode_area ar = [a, b]" by (cases ar) simp
  obtain d where u: "(if coloured s then read_pixel s else (foreground s, s)) = (c, s\<lparr>cur := d\<rparr>)"
    and at_u: "at_bytes (s\<lparr>cur := d\<rparr>) ([a, b] @ rest)"
  proof (cases "coloured s")
    case True
    with at ab have "at_bytes s (encode_pixel c @ [a, b] @ rest)" by (simp add: encode_sub_def)
    with read_pixel_decode [OF this] True that show ?thesis by metis
  next
    case False
    with at ab fg that [of "cur s"] show ?thesis by (simp add: encode_sub_def)
  qed
  have d: "d = cur s" if "\<not> coloured s"
  proof -
    have "s = s\<lparr>cur := d\<rparr>" using u that by simp
    then have "cur s = cur (s\<lparr>cur := d\<rparr>)" by (rule arg_cong)
    then show ?thesis by simp
  qed
  have ready: "subrect_ready s"
    using at_bytes_unread [OF at] ab
    by (simp add: subrect_ready_def encode_sub_def encode_pixel_def)
  let ?u = "s\<lparr>cur := advance 2 (touch 2 d)\<rparr>"
  have "shows_tile ?u f" using sh by (simp add: shows_tile_def)
  note dr = draw_subrect_shows [OF this fits ab, of c]
  have t: "t = (draw_subrect c a b ?u)\<lparr>numSubrects := numSubrects s - 1\<rparr>"
    using ready u d
      at_bytes_peek [OF at_u, of 0] at_bytes_peek [OF at_u, of 1]
    by (cases "coloured s")
      (simp_all add: t_def hextile_subrect_def subrect_ready_def Let_def word_less_nat_alt)
  have "at_bytes t rest" using at_bytes_take [OF at_u, of 2 t] by (simp add: t)
  moreover have "only_buffer s t"
  proof (rule only_buffer_trans [OF only_buffer_trans])
    show "only_buffer s ?u" by (simp add: only_buffer_def)
    show "only_buffer ?u (draw_subrect c a b ?u)"
      unfolding draw_subrect_rect by (rule only_buffer_put_rect)
    show "only_buffer (draw_subrect c a b ?u) t" unfolding t only_buffer_def by simp
  qed
  moreover have "hoob t = hoob s" using dr(2) by (simp add: t)
  ultimately show ?thesis using ready dr(1) by (simp add: t shows_tile_def)
qed

lemma fillbuffer_decode:
  assumes "at_bytes s (concat (map (encode_sub (coloured s)) cas) @ rest)"
    and "\<forall>ca \<in> set cas. area_fits (snd ca) \<and> (coloured s \<or> fst ca = foreground s)"
    and "shows_tile s f" and "numSubrects s = of_nat (length cas)" and "length cas < 256"
  shows "\<exists>t. hextile_fillbuffer s = (1, t\<lparr>hextileState := HEXTILESTATE_DRAWTILE\<rparr>) \<and>
    shows_tile t (fold paint_area cas f) \<and> hoob t = hoob s \<and> at_bytes t rest \<and> only_buffer s t"
  using assms
proof (induction cas arbitrary: s f)
  case Nil
  then show ?case
    by (intro exI [of _ s]) (simp add: fillbuffer_end only_buffer_def)
next
  case (Cons ca cas)
  let ?t = "snd (hextile_subrect s)"
  have one: "subrect_ready s \<and> shows_tile ?t (paint_area ca f) \<and> hoob ?t = hoob s \<and>
      at_bytes ?t (concat (map (encode_sub (coloured s)) cas) @ rest) \<and>
      numSubrects ?t = numSubrects s - 1 \<and> only_buffer s ?t"
    using Cons.prems subrect_decode [of s "fst ca" "snd ca" _ f] by simp
  then have b: "only_buffer s ?t" by blast
  have n: "unat (numSubrects s) = Suc (length cas)"
    unfolding Cons.prems(4) using Cons.prems(5) by (simp only: unat_of_nat) simp
  then have "numSubrects s \<noteq> 0" by auto
  then have step: "hextile_fillbuffer s = hextile_fillbuffer ?t"
    using one by (intro fillbuffer_step) auto
  have "numSubrects ?t = of_nat (length cas)" using one Cons.prems(4) by simp
  then obtain u where "hextile_fillbuffer ?t = (1, u\<lparr>hextileState := HEXTILESTATE_DRAWTILE\<rparr>)"
    and "shows_tile u (fold paint_area cas (paint_area ca f))" "hoob u = hoob ?t"
    and "at_bytes u rest" "only_buffer ?t u"
    using Cons.IH [of ?t "paint_area ca f"] Cons.prems one only_buffer_fields [OF b] by auto
  with one step show ?case by (auto intro: only_buffer_trans [OF b])
qed

lemma encode_subrects_eq:
  "encode_subrects subs =
     concat (map (encode_sub (case subs of Shared _ \<Rightarrow> False | Coloured _ \<Rightarrow> True)) (areas fg subs))"
  by (cases subs) (auto simp: encode_sub_def [abs_def] comp_def split_def)

section \<open>Decoding a tile\<close>

lemma subencoding_bits:
  "subencoding bg fg subs AND 1 = 0"
  "subencoding bg fg subs AND 2 \<noteq> 0 \<longleftrightarrow> bg \<noteq> None"
  "subencoding bg fg subs AND 4 \<noteq> 0 \<longleftrightarrow> fg \<noteq> None"
  "subencoding bg fg subs AND 8 \<noteq> 0 \<longleftrightarrow> areas 0 subs \<noteq> []"
  "subencoding bg fg subs AND 16 \<noteq> 0 \<longleftrightarrow> (case subs of Shared _ \<Rightarrow> False | Coloured _ \<Rightarrow> True)"
  by (cases subs; simp add: subencoding_def)+

definition tile_bg :: "u16 option \<Rightarrow> u16 option \<Rightarrow> 'd vnc \<Rightarrow> u16 \<times> u16" where
  "tile_bg bg fg s = (case bg of None \<Rightarrow> background s | Some c \<Rightarrow> c,
                      case fg of None \<Rightarrow> foreground s | Some c \<Rightarrow> c)"

lemma tile_bg_cursor [simp]:
  "tile_bg bg fg (s\<lparr>cur := c, subencodingByte := b\<rparr>) = tile_bg bg fg s"
  by (cases bg; cases fg) (simp_all add: tile_bg_def)

lemma at_bytes_cur: "cur t = cur s \<Longrightarrow> at_bytes t bs \<longleftrightarrow> at_bytes s bs"
  by (simp add: at_bytes_def)

lemma parse_colours_decode:
  assumes "at_bytes s ((case bg of None \<Rightarrow> [] | Some c \<Rightarrow> encode_pixel c) @
      (case fg of None \<Rightarrow> [] | Some c \<Rightarrow> encode_pixel c) @ rest)"
    and sb: "subencodingByte s = subencoding bg fg subs"
  shows "\<exists>d. parse_foreground (parse_background s) =
      s\<lparr>cur := d, background := fst (tile_bg bg fg s), foreground := snd (tile_bg bg fg s)\<rparr> \<and>
      at_bytes (s\<lparr>cur := d\<rparr>) rest"
proof -
  obtain d where b: "parse_background s = s\<lparr>cur := d, background := fst (tile_bg bg fg s)\<rparr>"
    and d: "at_bytes (s\<lparr>cur := d\<rparr>) ((case fg of None \<Rightarrow> [] | Some c \<Rightarrow> encode_pixel c) @ rest)"
  proof (cases bg)
    case None
    with assms that [of "cur s"] show ?thesis
      by (simp add: parse_background_def sb subencoding_bits tile_bg_def)
  next
    case (Some c)
    with assms(1) have "at_bytes s (encode_pixel c @
        (case fg of None \<Rightarrow> [] | Some c \<Rightarrow> encode_pixel c) @ rest)" by simp
    then obtain d where "read_pixel s = (c, s\<lparr>cur := d\<rparr>)"
      and "at_bytes (s\<lparr>cur := d\<rparr>) ((case fg of None \<Rightarrow> [] | Some c \<Rightarrow> encode_pixel c) @ rest)"
      by (rule read_pixel_decode)
    with Some that show ?thesis
      by (simp add: parse_background_def sb subencoding_bits tile_bg_def)
  qed
  show ?thesis
  proof (cases fg)
    case None
    with b d show ?thesis
      by (intro exI [of _ d])
        (simp add: parse_foreground_def sb subencoding_bits tile_bg_def)
  next
    case (Some c)
    let ?s = "s\<lparr>cur := d, background := fst (tile_bg bg fg s)\<rparr>"
    from Some d have "at_bytes ?s (encode_pixel c @ rest)" by (simp add: at_bytes_def)
    then obtain e where "read_pixel ?s = (c, ?s\<lparr>cur := e\<rparr>)" and "at_bytes (?s\<lparr>cur := e\<rparr>) rest"
      by (rule read_pixel_decode)
    with Some b show ?thesis
      by (intro exI [of _ e])
        (simp add: parse_foreground_def sb subencoding_bits tile_bg_def at_bytes_def)
  qed
qed

text \<open>
  The three calls that decode a tile that is not raw: header, subrectangles, drawing. The
  tile is drawn when it lies in the display window; either way the next byte is the one
  behind the tile.
\<close>

definition decoded_tile :: "'d display \<Rightarrow> 'd vnc \<Rightarrow> 'd vnc" where
  "decoded_tile D s = ((\<lambda>s. snd (processHextile D s)) ^^ 3) s"

definition tile_ok :: "subrects \<Rightarrow> bool" where
  "tile_ok subs \<longleftrightarrow> length (areas 0 subs) < 256 \<and> (\<forall>ca \<in> set (areas 0 subs). area_fits (snd ca))"

lemma tile_ok_areas:
  "tile_ok subs \<longleftrightarrow>
     length (areas fg subs) < 256 \<and> (\<forall>ca \<in> set (areas fg subs). area_fits (snd ca))"
  by (cases subs) (auto simp: tile_ok_def)

lemma length_areas: "length (areas fg subs) = length (areas 0 subs)"
  by (cases subs) simp_all

lemma length_encode_subrects: "areas 0 subs \<noteq> [] \<Longrightarrow> 2 \<le> length (encode_subrects subs)"
  by (cases subs; cases "areas 0 subs") (auto simp: encode_pixel_def length_encode_area)

lemma encode_tile_ready:
  assumes "at_bytes s (encode_tile bg fg subs @ rest)"
  shows "header_ready s \<and> peek (cur s) 0 = subencoding bg fg subs"
proof -
  have p: "peek (cur s) 0 = subencoding bg fg subs"
    using at_bytes_peek [OF assms, of 0] by (simp add: encode_tile_def)
  have "unat (header_rest (subencoding bg fg subs)) \<le> length (encode_tile bg fg subs) - 1"
    using length_encode_subrects [of subs]
    by (auto simp: header_rest_cases subencoding_bits encode_tile_def encode_pixel_def
        split: option.splits)
  with p show ?thesis
    using at_bytes_unread [OF assms] by (simp add: header_ready_def encode_tile_def)
qed

lemma parse_decode:
  assumes at: "at_bytes s (encode_tile bg fg subs @ rest)" and l: "length (hextileBuffer s) = 512"
    and ok: "tile_ok subs"
  defines "cs \<equiv> tile_bg bg fg s"
  obtains t where "hextile_parseheader D s = (1, t\<lparr>hextileState := HEXTILESTATE_FILLBUFFER\<rparr>)"
    and "at_bytes t (encode_subrects subs @ rest)" and "shows_tile t (\<lambda>x y. fst cs)"
    and "hoob t = hoob s" and "numSubrects t = of_nat (length (areas 0 subs))"
    and "only_buffer (s\<lparr>subencodingByte := subencoding bg fg subs, background := fst cs,
          foreground := snd cs\<rparr>) t"
proof -
  note ready = encode_tile_ready [OF at]
  let ?sb = "subencoding bg fg subs"
  let ?s1 = "s\<lparr>cur := advance 1 (touch 1 (cur s)), subencodingByte := ?sb\<rparr>"
  let ?count = "if areas 0 subs = [] then [] else [of_nat (length (areas 0 subs)) :: u8]"
  have "at_bytes ?s1 ((case bg of None \<Rightarrow> [] | Some c \<Rightarrow> encode_pixel c) @
      (case fg of None \<Rightarrow> [] | Some c \<Rightarrow> encode_pixel c) @ (?count @ encode_subrects subs @ rest))"
    using at_bytes_take [OF at, of 1 ?s1] by (simp add: encode_tile_def)
  from parse_colours_decode [OF this, of subs] obtain d where
    d: "parse_foreground (parse_background ?s1) =
        ?s1\<lparr>cur := d, background := fst cs, foreground := snd cs\<rparr>" (is "_ = ?s2")
    and at2: "at_bytes (?s1\<lparr>cur := d\<rparr>) (?count @ encode_subrects subs @ rest)"
    by (auto simp: cs_def)
  obtain e where n: "parse_numSubrects ?s2 =
        ?s2\<lparr>cur := e, numSubrects := of_nat (length (areas 0 subs))\<rparr>" (is "_ = ?s3")
    and at3: "at_bytes (s\<lparr>cur := e\<rparr>) (encode_subrects subs @ rest)"
  proof (cases "areas 0 subs = []")
    case True
    with at2 that [of d] show ?thesis
      by (simp add: parse_numSubrects_def subencoding_bits at_bytes_def)
  next
    case False
    let ?e = "advance 1 (touch 1 d)"
    from False at2 have at2': "at_bytes ?s2 (of_nat (length (areas 0 subs)) # encode_subrects subs @ rest)"
      by (simp add: at_bytes_def)
    have "at_bytes (s\<lparr>cur := ?e\<rparr>) (encode_subrects subs @ rest)"
      using at_bytes_take [OF at2', of 1 "s\<lparr>cur := ?e\<rparr>"] by simp
    with False at_bytes_peek [OF at2', of 0] that [of ?e] show ?thesis
      by (simp add: parse_numSubrects_def subencoding_bits Let_def)
  qed
  let ?t = "put_rect 0 15 0 15 (fst cs) ?s3"
  have "shows_tile ?s3 (\<lambda>x y. le16 (hextileBuffer s) (y * 32 + 2 * x))"
    using l by (simp add: shows_tile_def)
  note fill = put_rect_shows [OF this, of 15 15 0 0 "fst cs"]
  show thesis
  proof (rule that [of ?t])
    show "hextile_parseheader D s = (1, ?t\<lparr>hextileState := HEXTILESTATE_FILLBUFFER\<rparr>)"
      using ready d n by (simp add: parseheader_ready parse_tile_def subencoding_bits)
    show "at_bytes ?t (encode_subrects subs @ rest)" using at3 by (simp add: at_bytes_def)
    show "shows_tile ?t (\<lambda>x y. fst cs)"
      using fill(1) by (auto simp: shows_tile_def paint_def)
    show "hoob ?t = hoob s" using fill(2) by simp
    show "numSubrects ?t = of_nat (length (areas 0 subs))" by simp
    show "only_buffer (s\<lparr>subencodingByte := ?sb, background := fst cs, foreground := snd cs\<rparr>) ?t"
      by (rule only_buffer_trans [OF _ only_buffer_put_rect]) (simp add: only_buffer_def)
  qed
qed

lemma hextile_loop_step:
  "fst (processHextile D s) = 1 \<Longrightarrow> hextile_loop D s = hextile_loop D (snd (processHextile D s))"
  by (cases "processHextile D s") (simp add: hextile_loop.simps [of D s])

theorem decode_tile:
  fixes D :: "'d display" and s :: "'d vnc"
  assumes st: "hextileState s = HEXTILESTATE_PARSEHEADER"
    and at: "at_bytes s (encode_tile bg fg subs @ rest)" and l: "length (hextileBuffer s) = 512"
    and ok: "tile_ok subs"
  defines "cs \<equiv> tile_bg bg fg s" and "t \<equiv> decoded_tile D s"
  shows "at_bytes t rest" and "hextileState t = HEXTILESTATE_DONE" and "hoob t = hoob s"
    and "shows_tile t (tile_picture (fst cs) (snd cs) subs)"
    and "background t = fst cs" and "foreground t = snd cs"
    and "geometry t = geometry s" and "hextile_loop D s = hextile_loop D t"
    and "panel t = (if tile_outside s then panel s
           else DrawHextile D (tileW s) (tileH s) 2 (hextileBuffer t)
                  (SetupTile D (tileX s) (tileY s) (tileW s) (tileH s) (panel s)))"
    and "VNCstate t = VNCstate s" and "rectangleCount t = rectangleCount s"
proof -
  let ?sb = "subencoding bg fg subs"
  obtain u where u: "hextile_parseheader D s = (1, u\<lparr>hextileState := HEXTILESTATE_FILLBUFFER\<rparr>)"
    and au: "at_bytes u (encode_subrects subs @ rest)" and su: "shows_tile u (\<lambda>x y. fst cs)"
    and hu: "hoob u = hoob s" and nu: "numSubrects u = of_nat (length (areas 0 subs))"
    and ou: "only_buffer (s\<lparr>subencodingByte := ?sb, background := fst cs, foreground := snd cs\<rparr>) u"
    using parse_decode [OF at l ok, of D] unfolding cs_def by metis
  let ?u = "u\<lparr>hextileState := HEXTILESTATE_FILLBUFFER\<rparr>"
  note fu = only_buffer_fields [OF ou, simplified]
  have "at_bytes ?u (concat (map (encode_sub (coloured ?u)) (areas (snd cs) subs)) @ rest)"
    using au encode_subrects_eq [of subs "snd cs"]
    by (simp add: at_bytes_def fu subencoding_bits(5))
  moreover have "\<forall>ca \<in> set (areas (snd cs) subs).
      area_fits (snd ca) \<and> (coloured ?u \<or> fst ca = foreground ?u)"
    using ok [unfolded tile_ok_areas [of _ "snd cs"]]
    by (cases subs) (auto simp: fu subencoding_bits(5))
  moreover have "shows_tile ?u (\<lambda>x y. fst cs)" using su by (simp add: shows_tile_def)
  moreover have "numSubrects ?u = of_nat (length (areas (snd cs) subs))"
    and "length (areas (snd cs) subs) < 256"
    using nu ok length_areas [of "snd cs" subs] by (simp_all add: tile_ok_def)
  ultimately obtain v where v: "hextile_fillbuffer ?u = (1, v\<lparr>hextileState := HEXTILESTATE_DRAWTILE\<rparr>)"
    and sv: "shows_tile v (tile_picture (fst cs) (snd cs) subs)" and hv: "hoob v = hoob s"
    and av: "at_bytes v rest" and ov: "only_buffer ?u v"
    using fillbuffer_decode [of ?u "areas (snd cs) subs" rest "\<lambda>x y. fst cs"] hu
    unfolding tile_picture_def by auto
  note fv = only_buffer_fields [OF ov, simplified]
  let ?v = "v\<lparr>hextileState := HEXTILESTATE_DRAWTILE\<rparr>"
  have t: "t = snd (hextile_drawtile D ?v)"
    by (simp add: t_def decoded_tile_def numeral_3_eq_3 processHextile_def st u v)
  have out: "tile_outside ?v \<longleftrightarrow> tile_outside s" by (simp add: tile_outside_def fv fu)
  show "panel t = (if tile_outside s then panel s
           else DrawHextile D (tileW s) (tileH s) 2 (hextileBuffer t)
                  (SetupTile D (tileX s) (tileY s) (tileW s) (tileH s) (panel s)))"
    by (simp add: t hextile_drawtile_def out Let_def fv fu)
  show "at_bytes t rest" using av by (simp add: t hextile_drawtile_def at_bytes_def Let_def)
  show "shows_tile t (tile_picture (fst cs) (snd cs) subs)"
    using sv by (simp add: t hextile_drawtile_def shows_tile_def Let_def)
  show "hextileState t = HEXTILESTATE_DONE" "hoob t = hoob s" "background t = fst cs"
    "foreground t = snd cs" "VNCstate t = VNCstate s" "rectangleCount t = rectangleCount s"
    by (simp_all add: t hextile_drawtile_def Let_def fv fu hv)
  have "geometry t = geometry v" by (simp add: t hextile_drawtile_def Let_def geometry_def)
  also have "\<dots> = geometry u" using only_buffer_geometry [OF ov] by (simp add: geometry_def)
  also have "\<dots> = geometry s" using only_buffer_geometry [OF ou] by (simp add: geometry_def)
  finally show "geometry t = geometry s" .
  have "fst (hextile_drawtile D ?v) = 1" by (simp add: hextile_drawtile_def Let_def)
  then show "hextile_loop D s = hextile_loop D t"
    using u v st
    by (simp add: hextile_loop_step [of D s] hextile_loop_step [of D ?u] hextile_loop_step [of D ?v]
        processHextile_def t)
qed

end
