(* ===== verification/HextileRect.thy ===== *)
theory HextileRect
  imports HextileSpec VncMachine
begin

text \<open>
  A whole hextile rectangle. Its tiles are 16 by 16 but for the last of each row and the
  last row, in row-major order, and the background and foreground of a tile last until a
  later tile changes them. The decoder visits exactly these tiles and sends the display
  their pixels.
\<close>

section \<open>The tiles of a rectangle\<close>

text \<open>The intervals of at most 16 that make up \<open>n\<close> columns from \<open>x\<close> on.\<close>

fun spans :: "nat \<Rightarrow> nat \<Rightarrow> (nat \<times> nat) list" where
  "spans x n = (if n = 0 then [] else if n \<le> 16 then [(x, n)] else (x, 16) # spans (x + 16) (n - 16))"

declare spans.simps [simp del]

type_synonym tile_place = "nat \<times> nat \<times> nat \<times> nat"

definition tile_row :: "nat \<Rightarrow> nat \<Rightarrow> nat \<times> nat \<Rightarrow> tile_place list" where
  "tile_row x w = (\<lambda>(y, h). map (\<lambda>(tx, tw). (tx, y, tw, h)) (spans x w))"

definition tiles :: "nat \<Rightarrow> nat \<Rightarrow> nat \<Rightarrow> nat \<Rightarrow> tile_place list" where
  "tiles x y w h = concat (map (tile_row x w) (spans y h))"

lemma spans_0 [simp]: "spans x 0 = []"
  by (simp add: spans.simps)

lemma spans_step: "0 < n \<Longrightarrow> spans x n = (x, min 16 n) # spans (x + min 16 n) (n - min 16 n)"
  by (cases "n \<le> 16"; cases "n = 16") (simp_all add: spans.simps [of x n] min_def spans.simps)

lemma spans_bounds: "(a, k) \<in> set (spans x n) \<Longrightarrow> 0 < k \<and> k \<le> 16 \<and> x \<le> a \<and> a + k \<le> x + n"
proof (induction x n rule: spans.induct)
  case (1 x n)
  then show ?case by (subst (asm) spans.simps) (fastforce split: if_splits)
qed

lemma spans_cover: "x \<le> i \<Longrightarrow> i < x + n \<Longrightarrow> \<exists>!ak. ak \<in> set (spans x n) \<and> fst ak \<le> i \<and> i < fst ak + snd ak"
proof (induction x n rule: spans.induct)
  case (1 x n)
  show ?case
  proof (cases "n \<le> 16")
    case True
    with "1.prems" show ?thesis by (auto simp: spans.simps [of x n])
  next
    case False
    then have s: "spans x n = (x, 16) # spans (x + 16) (n - 16)" by (simp add: spans.simps)
    show ?thesis
    proof (cases "i < x + 16")
      case True
      then have "\<not> (\<exists>ak. ak \<in> set (spans (x + 16) (n - 16)) \<and> fst ak \<le> i)"
        using spans_bounds [of _ _ "x + 16" "n - 16"] by fastforce
      with True "1.prems" show ?thesis by (auto simp: s)
    next
      case c: False
      with "1.IH" False "1.prems" have
        "\<exists>!ak. ak \<in> set (spans (x + 16) (n - 16)) \<and> fst ak \<le> i \<and> i < fst ak + snd ak"
        by auto
      with c show ?thesis by (auto simp: s)
    qed
  qed
qed

lemma spans_distinct: "distinct (spans x n)"
proof (induction x n rule: spans.induct)
  case (1 x n)
  then show ?case
    using spans_bounds [of x 16 "x + 16" "n - 16"] by (subst spans.simps) auto
qed

lemma tiles_iff:
  "(tx, ty, tw, th) \<in> set (tiles x y w h) \<longleftrightarrow> (tx, tw) \<in> set (spans x w) \<and> (ty, th) \<in> set (spans y h)"
  by (auto simp: tiles_def tile_row_def split_def) force

text \<open>The tiles partition the rectangle.\<close>

theorem tiles_partition:
  assumes "x \<le> i" and "i < x + w" and "y \<le> j" and "j < y + h"
  shows "\<exists>!t. t \<in> set (tiles x y w h) \<and>
    (case t of (tx, ty, tw, th) \<Rightarrow> tx \<le> i \<and> i < tx + tw \<and> ty \<le> j \<and> j < ty + th)"
proof -
  obtain ak where a: "ak \<in> set (spans x w)" "fst ak \<le> i" "i < fst ak + snd ak"
    and ua: "\<And>p. p \<in> set (spans x w) \<Longrightarrow> fst p \<le> i \<Longrightarrow> i < fst p + snd p \<Longrightarrow> p = ak"
    using spans_cover [OF assms(1,2)] by blast
  obtain bl where b: "bl \<in> set (spans y h)" "fst bl \<le> j" "j < fst bl + snd bl"
    and ub: "\<And>p. p \<in> set (spans y h) \<Longrightarrow> fst p \<le> j \<Longrightarrow> j < fst p + snd p \<Longrightarrow> p = bl"
    using spans_cover [OF assms(3,4)] by blast
  show ?thesis
  proof (rule ex1I [of _ "(fst ak, fst bl, snd ak, snd bl)"])
    show "(fst ak, fst bl, snd ak, snd bl) \<in> set (tiles x y w h) \<and>
        (case (fst ak, fst bl, snd ak, snd bl) of (tx, ty, tw, th) \<Rightarrow>
          tx \<le> i \<and> i < tx + tw \<and> ty \<le> j \<and> j < ty + th)"
      using a b by (simp add: tiles_iff)
  next
    fix t
    assume t: "t \<in> set (tiles x y w h) \<and>
      (case t of (tx, ty, tw, th) \<Rightarrow> tx \<le> i \<and> i < tx + tw \<and> ty \<le> j \<and> j < ty + th)"
    obtain tx ty tw th where tt: "t = (tx, ty, tw, th)" by (cases t)
    have "(tx, tw) = ak" "(ty, th) = bl" using t ua ub by (simp_all add: tt tiles_iff)
    then show "t = (fst ak, fst bl, snd ak, snd bl)" by (auto simp: tt)
  qed
qed

section \<open>The walk of the decoder\<close>

text \<open>The tiles still to come in the rectangle when the next one is at \<open>tx\<close>, \<open>ty\<close>.\<close>

definition tiles_left :: "nat \<Rightarrow> nat \<Rightarrow> nat \<Rightarrow> nat \<Rightarrow> nat \<Rightarrow> tile_place list" where
  "tiles_left x0 x1 y1 tx ty =
     (let th = min 16 (y1 - ty) in
      tile_row tx (x1 - tx) (ty, th) @ tiles x0 (ty + th) (x1 - x0) (y1 - (ty + th)))"

lemma tile_row_step:
  "tx < x1 \<Longrightarrow> tile_row tx (x1 - tx) (ty, th) =
     (tx, ty, min 16 (x1 - tx), th) #
     tile_row (tx + min 16 (x1 - tx)) (x1 - (tx + min 16 (x1 - tx))) (ty, th)"
  by (simp add: tile_row_def spans_step)

lemma tiles_rows: "0 < h \<Longrightarrow> tiles x y w h = tile_row x w (y, min 16 h) @ tiles x (y + min 16 h) w (h - min 16 h)"
  by (simp add: tiles_def spans_step)

lemma tiles_left_start: "0 < w \<Longrightarrow> 0 < h \<Longrightarrow> tiles_left x (x + w) (y + h) x y = tiles x y w h"
  by (simp add: tiles_left_def tiles_rows [of h x y w] Let_def)

lemma tiles_left_step:
  assumes "tx < x1" and "ty < y1" and "x0 < x1"
  shows "tiles_left x0 x1 y1 tx ty =
    (tx, ty, min 16 (x1 - tx), min 16 (y1 - ty)) #
    (if tx + min 16 (x1 - tx) < x1 then tiles_left x0 x1 y1 (tx + min 16 (x1 - tx)) ty
     else if ty + min 16 (y1 - ty) < y1 then tiles_left x0 x1 y1 x0 (ty + min 16 (y1 - ty))
     else [])"
proof -
  let ?y = "ty + min 16 (y1 - ty)"
  have "tiles x0 ?y (x1 - x0) (y1 - ?y) =
      (if ?y < y1 then tiles_left x0 x1 y1 x0 ?y else [])"
    by (simp add: tiles_left_def Let_def tiles_rows) (simp add: tiles_def)
  moreover have "tx + min 16 (x1 - tx) = x1" if "\<not> tx + min 16 (x1 - tx) < x1"
    using that assms(1) by arith
  ultimately show ?thesis
    using assms by (auto simp: tiles_left_def Let_def tile_row_step) (simp_all add: tile_row_def)
qed

text \<open>
  The state is at a tile of the rectangle; coordinates stay 16 away from the end of the
  16-bit range, so that no sum of the code wraps.
\<close>

definition at_tile :: "'d vnc \<Rightarrow> nat \<Rightarrow> nat \<Rightarrow> nat \<Rightarrow> nat \<Rightarrow> nat \<Rightarrow> nat \<Rightarrow> bool" where
  "at_tile s x0 x1 y0 y1 tx ty \<longleftrightarrow>
     unat (updateWindowX0 s) = x0 \<and> unat (updateWindowX1 s) = x1 \<and>
     unat (updateWindowY0 s) = y0 \<and> unat (updateWindowY1 s) = y1 \<and>
     unat (tileX s) = tx \<and> unat (tileY s) = ty \<and>
     unat (tileW s) = min 16 (x1 - tx) \<and> unat (tileH s) = min 16 (y1 - ty) \<and>
     x0 \<le> tx \<and> tx < x1 \<and> y0 \<le> ty \<and> ty < y1 \<and> x1 \<le> 65520 \<and> y1 \<le> 65520"

lemma extent:
  assumes "unat (a :: u16) = n" and "unat (b :: u16) = m" and "m < n" and "n \<le> 65520"
  shows "unat (if a < b + 16 then ucast (a - b) else 16 :: u8) = min 16 (n - m)"
proof -
  have b: "unat (b + 16) = m + 16" using assms by (simp add: unat_word_ariths)
  have d: "unat (a - b) = n - m" using assms by (simp add: unat_sub word_le_nat_alt)
  show ?thesis
  proof (cases "n < m + 16")
    case True
    then have "unat (ucast (a - b) :: u8) = n - m" using d by (simp add: unsigned_ucast_eq take_bit_eq_mod)
    with True b assms show ?thesis by (simp add: word_less_nat_alt)
  next
    case False
    with b assms show ?thesis by (simp add: word_less_nat_alt)
  qed
qed

lemma init_at_tile:
  assumes "unat (updateWindowX0 s) = x0" "unat (updateWindowX1 s) = x1"
    "unat (updateWindowY0 s) = y0" "unat (updateWindowY1 s) = y1"
    "x0 < x1" "y0 < y1" "x1 \<le> 65520" "y1 \<le> 65520"
  shows "at_tile (snd (hextile_init s)) x0 x1 y0 y1 x0 y0"
  using assms extent [of "updateWindowX1 s" x1 "updateWindowX0 s" x0]
    extent [of "updateWindowY1 s" y1 "updateWindowY0 s" y0]
  by (simp add: at_tile_def hextile_init_def Let_def cong: if_cong split del: if_split)

lemma unat_plus_u8:
  "unat (a :: u16) + unat (b :: u8) < 65536 \<Longrightarrow> unat (a + ucast b) = unat a + unat b"
  by (simp add: unat_word_ariths)

lemma done_at_tile:
  fixes s :: "'d vnc"
  assumes at: "at_tile s x0 x1 y0 y1 tx ty"
  defines "tw \<equiv> min 16 (x1 - tx)" and "th \<equiv> min 16 (y1 - ty)" and "t \<equiv> snd (hextile_done s)"
  shows "tx + tw < x1 \<Longrightarrow> fst (hextile_done s) = 1 \<and> at_tile t x0 x1 y0 y1 (tx + tw) ty"
    and "\<not> tx + tw < x1 \<Longrightarrow> ty + th < y1 \<Longrightarrow>
      fst (hextile_done s) = 1 \<and> at_tile t x0 x1 y0 y1 x0 (ty + th)"
    and "\<not> tx + tw < x1 \<Longrightarrow> \<not> ty + th < y1 \<Longrightarrow> hextile_done s =
      (0, s\<lparr>tileX := updateWindowX1 s, VNCpixelProcessorState := VNCPPSTATE_IDLE,
            hextileState := HEXTILESTATE_INIT\<rparr>)"
proof -
  have x: "unat (tileX s + ucast (tileW s)) = tx + tw" and y: "unat (tileY s + ucast (tileH s)) = ty + th"
    using at by (auto simp: at_tile_def tw_def th_def unat_plus_u8)
  have ex: "tileX s + ucast (tileW s) = updateWindowX1 s \<longleftrightarrow> \<not> tx + tw < x1"
    and ey: "tileY s + ucast (tileH s) = updateWindowY1 s \<longleftrightarrow> \<not> ty + th < y1"
    using at by (auto simp: word_unat_eq_iff x y at_tile_def tw_def th_def)
  show "fst (hextile_done s) = 1 \<and> at_tile t x0 x1 y0 y1 (tx + tw) ty" if "tx + tw < x1"
    using that at x ex extent [of "updateWindowX1 s" x1 "tileX s + ucast (tileW s)" "tx + tw"]
    by (simp add: t_def hextile_done_def Let_def at_tile_def cong: if_cong split del: if_split)
  show "fst (hextile_done s) = 1 \<and> at_tile t x0 x1 y0 y1 x0 (ty + th)"
    if "\<not> tx + tw < x1" "ty + th < y1"
    using that at y ex ey extent [of "updateWindowX1 s" x1 "updateWindowX0 s" x0]
      extent [of "updateWindowY1 s" y1 "tileY s + ucast (tileH s)" "ty + th"]
    by (simp add: t_def hextile_done_def Let_def at_tile_def cong: if_cong split del: if_split)
  show "hextile_done s = (0, s\<lparr>tileX := updateWindowX1 s,
      VNCpixelProcessorState := VNCPPSTATE_IDLE, hextileState := HEXTILESTATE_INIT\<rparr>)"
    if "\<not> tx + tw < x1" "\<not> ty + th < y1"
    using that ex ey by (simp add: hextile_done_def Let_def)
qed

section \<open>The contents of a tile\<close>

datatype tile = Raw "u16 list" | Filled "u16 option" "u16 option" subrects

fun encode_content :: "tile \<Rightarrow> bytes" where
  "encode_content (Raw ps) = 1 # concat (map encode_pixel ps)"
| "encode_content (Filled bg fg subs) = encode_tile bg fg subs"

fun content_ok :: "nat \<Rightarrow> nat \<Rightarrow> tile \<Rightarrow> bool" where
  "content_ok w h (Raw ps) \<longleftrightarrow> length ps = w * h"
| "content_ok w h (Filled bg fg subs) \<longleftrightarrow> tile_ok subs"

fun content_colours :: "tile \<Rightarrow> u16 \<times> u16 \<Rightarrow> u16 \<times> u16" where
  "content_colours (Raw ps) c = c"
| "content_colours (Filled bg fg subs) c =
     (case bg of None \<Rightarrow> fst c | Some b \<Rightarrow> b, case fg of None \<Rightarrow> snd c | Some f \<Rightarrow> f)"

fun content_pixels :: "nat \<Rightarrow> nat \<Rightarrow> tile \<Rightarrow> u16 \<times> u16 \<Rightarrow> u16 list" where
  "content_pixels w h (Raw ps) c = ps"
| "content_pixels w h (Filled bg fg subs) c =
     (let c = content_colours (Filled bg fg subs) c in row_major (tile_picture (fst c) (snd c) subs) w h)"

definition colours :: "'d vnc \<Rightarrow> u16 \<times> u16" where
  "colours s = (background s, foreground s)"

lemma pixels_of_encode: "pixels_of (concat (map encode_pixel ps) @ rest) (length ps) = ps"
proof (induction ps)
  case (Cons p ps)
  have "pixels_of (encode_pixel p @ concat (map encode_pixel ps) @ rest) (1 + length ps) =
      pixels_of (encode_pixel p) 1 @ pixels_of (concat (map encode_pixel ps) @ rest) (length ps)"
    by (rule pixels_of_append) (simp add: encode_pixel_def)
  moreover have "pixels_of (encode_pixel p) 1 = [p]"
    by (simp add: pixels_of_def encode_pixel_def le16_def le16_hi_lo)
  ultimately show ?case using Cons by simp
qed (simp add: pixels_of_def)

lemma length_encode_pixels: "length (concat (map encode_pixel ps)) = 2 * length ps"
  by (induction ps) (simp_all add: encode_pixel_def)

lemma unat_area:
  assumes "unat (w :: u8) \<le> 16" and "unat (h :: u8) \<le> 16"
  shows "unat (scast (ucast w * ucast h :: u16) :: u32) = unat w * unat h"
proof -
  have "unat w * unat h \<le> 16 * 16" using assms by (rule mult_le_mono)
  then have b: "unat w * unat h \<le> 256" by simp
  then have "unat (ucast w * ucast h :: u16) = unat w * unat h"
    unfolding unat_word_ariths unat_ucast_u8_u16 by simp
  with b show ?thesis by (simp only: unat_scast_u16)
qed

text \<open>
  A tile is drawn if it lies in the window. \<open>tile_log\<close> is what the display then puts on its
  bus, and \<open>tile_done s t\<close> relates the state before the tile to the state behind it.
\<close>

context tile_display
begin

definition tile_log :: "'d vnc \<Rightarrow> tile \<Rightarrow> 'e list" where
  "tile_log s tc =
     (if tile_outside s then []
      else win (tileX s) (tileY s) (tileW s) (tileH s) @
        concat (map pix (content_pixels (unat (tileW s)) (unat (tileH s)) tc (colours s))))"

definition tile_done :: "'d vnc \<Rightarrow> tile \<Rightarrow> bytes \<Rightarrow> 'd vnc \<Rightarrow> bool" where
  "tile_done s tc rest t \<longleftrightarrow>
     hextile_loop D s = hextile_loop D t \<and> hextileState t = HEXTILESTATE_DONE \<and> at_bytes t rest \<and>
     hoob t = hoob s \<and> length (hextileBuffer t) = 512 \<and> geometry t = geometry s \<and>
     ready (panel t) \<and> colours t = content_colours tc (colours s) \<and>
     VNCstate t = VNCstate s \<and> rectangleCount t = rectangleCount s \<and>
     log (panel t) = log (panel s) @ tile_log s tc"

lemma raw_tile_done:
  assumes st: "hextileState s = HEXTILESTATE_PARSEHEADER"
    and at: "at_bytes s (encode_content (Raw ps) @ rest)" and l: "length (hextileBuffer s) = 512"
    and w: "unat (tileW s) \<le> 16" and h: "unat (tileH s) \<le> 16"
    and n: "length ps = unat (tileW s) * unat (tileH s)" and r: "ready (panel s)"
  obtains t where "tile_done s (Raw ps) rest t"
proof -
  let ?s1 = "s\<lparr>cur := advance 1 (touch 1 (cur s)), subencodingByte := 1,
    interPixelCount := scast (ucast (tileW s) * ucast (tileH s) :: u16)\<rparr>"
  have p: "peek (cur s) 0 = 1" using at_bytes_peek [OF at, of 0] by simp
  with at_bytes_unread [OF at] have ready: "header_ready s"
    by (simp add: header_ready_def header_rest_cases)
  have n256: "length ps \<le> 16 * 16" unfolding n using w h by (rule mult_le_mono)
  have "unat (interPixelCount ?s1) = length ps" by (simp add: unat_area [OF w h] n)
  then have due: "due ?s1 = 2 * length ps" unfolding due_nat using n256 by simp
  have at1: "at_bytes ?s1 (concat (map encode_pixel ps) @ rest)"
    using at_bytes_take [OF at, of 1 ?s1] by simp
  have enough: "due ?s1 \<le> unread ?s1"
    unfolding due at_bytes_unread [OF at1] by (simp add: length_encode_pixels del: map_concat)
  have tc: "touch (2 * length ps) (cur ?s1) = cur ?s1"
    using at1 enough unfolding due by (intro touch_safe) (simp_all add: at_bytes_def)
  have at2: "at_bytes x rest" if "cur x = advance (2 * length ps) (cur ?s1)" for x :: "'d vnc"
    using at_bytes_take [OF at1, of "2 * length ps" x] that unfolding tc
    by (simp add: length_encode_pixels)
  have ptr: "pixels_of (pointee (cur ?s1)) (length ps) = ps"
  proof -
    have "take (2 * length ps) (pointee (cur ?s1)) = take (2 * length ps) (view (cur ?s1))"
      using at1 enough unfolding due by (intro pointee_view) (simp_all add: at_bytes_def)
    then have "pixels_of (pointee (cur ?s1)) (length ps) = pixels_of (view (cur ?s1)) (length ps)"
      by (rule pixels_of_cong)
    then show ?thesis using at1 pixels_of_encode [of ps rest] by (simp add: at_bytes_def)
  qed
  show thesis
  proof (cases "tile_outside s")
    case True
    then have 1: "processHextile D s = (1, ?s1\<lparr>hextileState := HEXTILESTATE_DROPRAW\<rparr>)"
      using st ready p
      by (simp add: processHextile_def parseheader_ready parse_tile_def parse_raw_tile_def
          tile_outside_def)
    let ?t = "?s1\<lparr>cur := advance (2 * length ps) (cur ?s1), interPixelCount := 0,
      hextileState := HEXTILESTATE_DONE\<rparr>"
    have "processHextile D (?s1\<lparr>hextileState := HEXTILESTATE_DROPRAW\<rparr>) = (1, ?t)"
      using enough due
      by (simp add: processHextile_def hextile_dropraw_eq post_def dropOutOfViewPixels_eq due_def)
    with 1 have "hextile_loop D s = hextile_loop D ?t" by (simp add: hextile_loop_step)
    moreover have "at_bytes ?t rest" by (rule at2) simp
    ultimately have "tile_done s (Raw ps) rest ?t"
      using True l r by (simp add: tile_done_def geometry_def colours_def tile_log_def)
    then show thesis by (rule that)
  next
    case False
    let ?s2 = "?s1\<lparr>panel := SetupTile D (tileX s) (tileY s) (tileW s) (tileH s) (panel s),
      hextileState := HEXTILESTATE_DRAWRAW\<rparr>"
    from False have 1: "processHextile D s = (1, ?s2)"
      using st ready p
      by (simp add: processHextile_def parseheader_ready parse_tile_def parse_raw_tile_def
          tile_outside_def)
    let ?t = "?s2\<lparr>cur := advance (2 * length ps) (cur ?s1), interPixelCount := 0,
      panel := DrawRawTile D (of_nat (length ps)) 2 (pointee (cur ?s1)) (panel ?s2),
      hextileState := HEXTILESTATE_DONE\<rparr>"
    have "due ?s2 = 2 * length ps" using due by (simp add: due_def)
    with enough due tc have "processHextile D ?s2 = (1, ?t)"
      by (simp add: processHextile_def hextile_drawraw_eq)
    with 1 have "hextile_loop D s = hextile_loop D ?t" by (simp add: hextile_loop_step)
    moreover have "at_bytes ?t rest" by (rule at2) simp
    moreover have "unat (of_nat (length ps) :: u16) = length ps" using n256 by (simp add: unat_of_nat)
    moreover from this have "log (panel ?t) = log (panel s) @ tile_log s (Raw ps)"
      using False ptr n256 r by (simp add: log_raw log_setup ready_setup tile_log_def)
    moreover from \<open>unat (of_nat (length ps) :: u16) = length ps\<close> have "ready (panel ?t)"
      using n256 r by (simp add: ready_raw ready_setup)
    ultimately have "tile_done s (Raw ps) rest ?t"
      using l by (simp add: tile_done_def geometry_def colours_def)
    then show thesis by (rule that)
  qed
qed

lemma filled_tile_done:
  assumes "hextileState s = HEXTILESTATE_PARSEHEADER"
    and "at_bytes s (encode_content (Filled bg fg subs) @ rest)" and "length (hextileBuffer s) = 512"
    and "unat (tileW s) \<le> 16" and "unat (tileH s) \<le> 16" and "tile_ok subs"
    and "ready (panel s)"
  shows "tile_done s (Filled bg fg subs) rest (decoded_tile D s)"
proof -
  note d = decode_tile [OF assms(1) assms(2) [unfolded encode_content.simps] assms(3,6), of D]
  have l: "length (hextileBuffer (decoded_tile D s)) = 512" using d(4) by (simp add: shows_tile_def)
  have c: "tile_bg bg fg s = content_colours (Filled bg fg subs) (colours s)"
    by (cases bg; cases fg) (simp_all add: tile_bg_def colours_def)
  have "log (panel (decoded_tile D s)) = log (panel s) @ tile_log s (Filled bg fg subs)"
    using d(4) assms(4,5) l assms(7)
      log_tile [of _ "tileW s" "tileH s" "hextileBuffer (decoded_tile D s)"]
    unfolding d(9) by (simp add: tile_log_def shows_tile_def c Let_def)
  moreover have "ready (panel (decoded_tile D s))"
    using assms(7) by (simp add: d(9) ready_hextile ready_setup)
  ultimately show ?thesis using d(1-8,10,11) l c by (simp add: tile_done_def colours_def)
qed

lemma tile_doneE:
  assumes "hextileState s = HEXTILESTATE_PARSEHEADER"
    and "at_bytes s (encode_content tc @ rest)" and "length (hextileBuffer s) = 512"
    and "unat (tileW s) \<le> 16" and "unat (tileH s) \<le> 16"
    and "content_ok (unat (tileW s)) (unat (tileH s)) tc" and "ready (panel s)"
  obtains t where "tile_done s tc rest t"
proof (cases tc)
  case (Raw ps)
  have n: "length ps = unat (tileW s) * unat (tileH s)" using assms(6) by (simp add: Raw)
  obtain t where "tile_done s (Raw ps) rest t"
    by (rule raw_tile_done [OF assms(1) assms(2) [unfolded Raw] assms(3-5) n assms(7)])
  with Raw that show thesis by blast
next
  case (Filled bg fg subs)
  have n: "tile_ok subs" using assms(6) by (simp add: Filled)
  from filled_tile_done [OF assms(1) assms(2) [unfolded Filled] assms(3-5) n assms(7)] Filled that
  show thesis by blast
qed

end

section \<open>The rectangle\<close>

text \<open>What the display puts on its bus for the tiles of a rectangle, in natural coordinates.\<close>

definition place_outside :: "tile_place \<Rightarrow> bool" where
  "place_outside p = (case p of (tx, ty, tw, th) \<Rightarrow>
     tx + tw > unat SCREEN_WIDTH \<or> ty + th > unat SCREEN_HEIGHT)"

definition place_log ::
    "(u16 \<Rightarrow> u16 \<Rightarrow> u8 \<Rightarrow> u8 \<Rightarrow> 'e list) \<Rightarrow> (u16 \<Rightarrow> 'e list) \<Rightarrow> tile_place \<Rightarrow> tile \<Rightarrow> u16 \<times> u16 \<Rightarrow> 'e list"
where
  "place_log win pix p tc c =
     (if place_outside p then []
      else (case p of (tx, ty, tw, th) \<Rightarrow>
        win (of_nat tx) (of_nat ty) (of_nat tw) (of_nat th) @
        concat (map pix (content_pixels tw th tc c))))"

fun rect_log ::
    "(u16 \<Rightarrow> u16 \<Rightarrow> u8 \<Rightarrow> u8 \<Rightarrow> 'e list) \<Rightarrow> (u16 \<Rightarrow> 'e list) \<Rightarrow> u16 \<times> u16 \<Rightarrow>
     (tile_place \<times> tile) list \<Rightarrow> 'e list"
where
  "rect_log win pix c [] = []"
| "rect_log win pix c ((p, tc) # ps) =
     place_log win pix p tc c @ rect_log win pix (content_colours tc c) ps"

definition contents_fit :: "tile_place list \<Rightarrow> tile list \<Rightarrow> bool" where
  "contents_fit ps tcs \<longleftrightarrow> list_all2 (\<lambda>(tx, ty, tw, th) tc. content_ok tw th tc) ps tcs"

lemma at_tile_outside:
  assumes "at_tile s x0 x1 y0 y1 tx ty"
  shows "tile_outside s \<longleftrightarrow> place_outside (tx, ty, min 16 (x1 - tx), min 16 (y1 - ty))"
proof -
  have "unat (tileX s + ucast (tileW s)) = tx + min 16 (x1 - tx)"
    "unat (tileY s + ucast (tileH s)) = ty + min 16 (y1 - ty)"
    using assms by (auto simp: at_tile_def unat_plus_u8)
  then show ?thesis
    by (simp add: tile_outside_def place_outside_def windowX0_def windowY0_def windowX1_def
        windowY1_def word_less_nat_alt)
qed

lemma at_tile_words:
  assumes "at_tile s x0 x1 y0 y1 tx ty"
  shows "tileX s = of_nat tx" "tileY s = of_nat ty" "tileW s = of_nat (min 16 (x1 - tx))"
    "tileH s = of_nat (min 16 (y1 - ty))"
proof -
  have "of_nat (unat (tileX s)) = (of_nat tx :: u16)" "of_nat (unat (tileY s)) = (of_nat ty :: u16)"
    "of_nat (unat (tileW s)) = (of_nat (min 16 (x1 - tx)) :: u8)"
    "of_nat (unat (tileH s)) = (of_nat (min 16 (y1 - ty)) :: u8)"
    using assms by (simp_all only: at_tile_def)
  then show "tileX s = of_nat tx" "tileY s = of_nat ty" "tileW s = of_nat (min 16 (x1 - tx))"
    "tileH s = of_nat (min 16 (y1 - ty))"
    by simp_all
qed

lemma at_tile_geometry: "geometry t = geometry s \<Longrightarrow> at_tile t = at_tile s"
  by (simp add: geometry_def at_tile_def fun_eq_iff)

lemma processHextile_done: "hextileState s = HEXTILESTATE_DONE \<Longrightarrow> processHextile D s = hextile_done s"
  by (simp add: processHextile_def)

lemma hextile_done_frame:
  "at_bytes (snd (hextile_done s)) bs = at_bytes s bs" "hoob (snd (hextile_done s)) = hoob s"
  "hextileBuffer (snd (hextile_done s)) = hextileBuffer s"
  "colours (snd (hextile_done s)) = colours s" "panel (snd (hextile_done s)) = panel s"
  "VNCstate (snd (hextile_done s)) = VNCstate s"
  "rectangleCount (snd (hextile_done s)) = rectangleCount s"
  "fst (hextile_done s) = 1 \<Longrightarrow> hextileState (snd (hextile_done s)) = HEXTILESTATE_PARSEHEADER"
  by (simp_all add: hextile_done_def Let_def at_bytes_def colours_def split: if_splits)

context tile_display
begin

lemma tile_log_place:
  assumes "at_tile s x0 x1 y0 y1 tx ty"
  shows "tile_log s tc = place_log win pix (tx, ty, min 16 (x1 - tx), min 16 (y1 - ty)) tc (colours s)"
proof -
  have "unat (tileW s) = min 16 (x1 - tx)" "unat (tileH s) = min 16 (y1 - ty)"
    using assms by (simp_all add: at_tile_def)
  then show ?thesis
    unfolding tile_log_def place_log_def at_tile_outside [OF assms]
    by (simp add: at_tile_words [OF assms])
qed

theorem walk_decoded:
  assumes "at_tile s x0 x1 y0 y1 tx ty" and "hextileState s = HEXTILESTATE_PARSEHEADER"
    and "at_bytes s (concat (map encode_content tcs) @ rest)" and "length (hextileBuffer s) = 512"
    and "contents_fit (tiles_left x0 x1 y1 tx ty) tcs" and "ready (panel s)"
  shows "\<exists>t. hextile_loop D s = (0, t) \<and> VNCpixelProcessorState t = VNCPPSTATE_IDLE \<and>
    hextileState t = HEXTILESTATE_INIT \<and> at_bytes t rest \<and> hoob t = hoob s \<and>
    length (hextileBuffer t) = 512 \<and> colours t = fold content_colours tcs (colours s) \<and>
    VNCstate t = VNCstate s \<and> rectangleCount t = rectangleCount s \<and>
    ready (panel t) \<and> log (panel t) = log (panel s) @ rect_log win pix (colours s) (zip (tiles_left x0 x1 y1 tx ty) tcs)"
  using assms
proof (induction tcs arbitrary: s tx ty)
  case Nil
  then show ?case
    using tiles_left_step [of tx x1 ty y1 x0] by (simp add: at_tile_def contents_fit_def)
next
  case (Cons tc tcs)
  let ?tw = "min 16 (x1 - tx)" and ?th = "min 16 (y1 - ty)"
  have b: "tx < x1" "ty < y1" "x0 < x1" and wh: "unat (tileW s) = ?tw" "unat (tileH s) = ?th"
    using Cons.prems(1) by (auto simp: at_tile_def)
  note left = tiles_left_step [OF b]
  let ?next = "if tx + ?tw < x1 then tiles_left x0 x1 y1 (tx + ?tw) ty
     else if ty + ?th < y1 then tiles_left x0 x1 y1 x0 (ty + ?th) else []"
  have ok: "content_ok ?tw ?th tc" and fit: "contents_fit ?next tcs"
    using Cons.prems(5) by (simp_all add: left contents_fit_def)
  have at: "at_bytes s (encode_content tc @ concat (map encode_content tcs) @ rest)"
    using Cons.prems(3) by simp
  have "unat (tileW s) \<le> 16" "unat (tileH s) \<le> 16" "content_ok (unat (tileW s)) (unat (tileH s)) tc"
    using ok by (simp_all add: wh)
  from tile_doneE [OF Cons.prems(2) at Cons.prems(4) this Cons.prems(6)]
  obtain u where u: "tile_done s tc (concat (map encode_content tcs) @ rest) u" .
  then have d: "hextile_loop D s = hextile_loop D u" "hextileState u = HEXTILESTATE_DONE"
    "at_bytes u (concat (map encode_content tcs) @ rest)" "hoob u = hoob s"
    "length (hextileBuffer u) = 512" "colours u = content_colours tc (colours s)"
    "log (panel u) = log (panel s) @ place_log win pix (tx, ty, ?tw, ?th) tc (colours s)"
    "VNCstate u = VNCstate s" "rectangleCount u = rectangleCount s"
    and ru: "ready (panel u)" and au: "at_tile u x0 x1 y0 y1 tx ty"
    using Cons.prems(1) at_tile_geometry [of u s]
    by (simp_all add: tile_done_def tile_log_place [OF Cons.prems(1)])
  let ?v = "snd (hextile_done u)"
  have go: ?case
    if v: "fst (hextile_done u) = 1" "at_tile ?v x0 x1 y0 y1 nx ny"
      and n: "?next = tiles_left x0 x1 y1 nx ny" for nx ny
  proof -
    have "hextile_loop D u = hextile_loop D ?v"
      using hextile_loop_step [of D u] v(1) d(2) by (simp add: processHextile_done)
    with Cons.IH [OF v(2)] d v(1) fit n ru show ?thesis
      unfolding left by (simp add: hextile_done_frame)
  qed
  show ?case
  proof (cases "tx + ?tw < x1")
    case True
    have n: "?next = tiles_left x0 x1 y1 (tx + ?tw) ty" using True by (rule if_P)
    note at = done_at_tile(1) [OF au True]
    show ?thesis by (rule go [OF conjunct1 [OF at] conjunct2 [OF at] n])
  next
    case x: False
    show ?thesis
    proof (cases "ty + ?th < y1")
      case True
      have n: "?next = tiles_left x0 x1 y1 x0 (ty + ?th)" using x True by (simp only: if_False if_True)
      note at = done_at_tile(2) [OF au x True]
      show ?thesis by (rule go [OF conjunct1 [OF at] conjunct2 [OF at] n])
    next
      case False
      note e = done_at_tile(3) [OF au x False]
      then have "hextile_loop D u = (0, ?v)"
        by (simp add: hextile_loop.simps [of D u] processHextile_done d(2))
      moreover have n: "?next = []" using x False by (simp only: if_False)
      moreover have "tcs = []" using fit unfolding n by (simp add: contents_fit_def)
      ultimately show ?thesis
        using e d ru unfolding left n by (simp add: at_bytes_def colours_def)
    qed
  qed
qed

end

text \<open>The header of a rectangle in the protocol: position, size and encoding 5.\<close>

definition hextile_header :: "nat \<Rightarrow> nat \<Rightarrow> nat \<Rightarrow> nat \<Rightarrow> bytes" where
  "hextile_header x y w h =
     concat (map (\<lambda>n. [hi8 (of_nat n), lo8 (of_nat n)]) [x, y, w, h]) @ [0, 0, 0, 5]"

definition encode_rect :: "nat \<Rightarrow> nat \<Rightarrow> nat \<Rightarrow> nat \<Rightarrow> tile list \<Rightarrow> bytes" where
  "encode_rect x y w h tcs = hextile_header x y w h @ concat (map encode_content tcs)"

lemma length_header: "length (hextile_header x y w h) = 12"
  by (simp add: hextile_header_def)

lemma idle_decoded:
  assumes "at_bytes s (hextile_header x y w h @ rest)" and "rectangleCount s \<noteq> 0"
    and "x + w \<le> 65520" and "y + h \<le> 65520" and "0 < w" and "0 < h"
  defines "t \<equiv> snd (pixel_idle s)"
  shows "fst (pixel_idle s) = 1" and "VNCpixelProcessorState t = VNCPPSTATE_HEXTILE"
    and "hextileState t = HEXTILESTATE_INIT" and "at_bytes t rest"
    and "at_tile (snd (hextile_init t)) x (x + w) y (y + h) x y"
    and "hextileBuffer t = hextileBuffer s" "hoob t = hoob s" "colours t = colours s"
    "panel t = panel s" "rectangleCount t = rectangleCount s - 1" "VNCstate t = VNCstate s"
proof -
  let ?hd = "hextile_header x y w h"
  have p: "peek (cur s) k = ?hd ! k" if "k < 12" for k
    using at_bytes_peek [OF assms(1), of k] that by (simp add: length_header nth_append)
  have n: "\<not> dataSize (cur s) < 12" and wf: "cwf (cur s)" and 12: "12 \<le> unread s"
    using at_bytes_unread [OF assms(1)] assms(1)
    by (simp_all add: length_header word_less_nat_alt at_bytes_def)
  have tc: "touch 12 (cur s) = cur s" using wf 12 by (rule touch_safe)
  have h: "peek (cur s) 0 = hi8 (of_nat x)" "peek (cur s) (Suc 0) = lo8 (of_nat x)"
    "peek (cur s) 2 = hi8 (of_nat y)" "peek (cur s) 3 = lo8 (of_nat y)"
    "peek (cur s) 4 = hi8 (of_nat w)" "peek (cur s) 5 = lo8 (of_nat w)"
    "peek (cur s) 6 = hi8 (of_nat h)" "peek (cur s) 7 = lo8 (of_nat h)"
    "peek (cur s) 8 = 0" "peek (cur s) 9 = 0" "peek (cur s) 10 = 0" "peek (cur s) 11 = 5"
    by (simp_all add: p hextile_header_def)
  have idle: "pixel_idle s = (1, s\<lparr>rectangleCount := rectangleCount s - 1,
      updateWindowX0 := of_nat x, updateWindowX1 := of_nat x + of_nat w,
      updateWindowY0 := of_nat y, updateWindowY1 := of_nat y + of_nat h,
      cur := advance 12 (cur s), VNCpixelProcessorState := VNCPPSTATE_HEXTILE,
      hextileState := HEXTILESTATE_INIT\<rparr>)"
    using assms(2) n by (simp add: pixel_idle_def rect_encoding_def rect_assign_def Let_def tc h)
  then show "fst (pixel_idle s) = 1" "VNCpixelProcessorState t = VNCPPSTATE_HEXTILE"
    "hextileState t = HEXTILESTATE_INIT" "hextileBuffer t = hextileBuffer s" "hoob t = hoob s"
    "colours t = colours s" "panel t = panel s" "rectangleCount t = rectangleCount s - 1"
    "VNCstate t = VNCstate s"
    by (simp_all add: t_def colours_def)
  show "at_bytes t rest"
    using at_bytes_take [OF assms(1), of 12 t] tc by (simp add: t_def idle length_header)
  have u: "unat (of_nat k :: u16) = k" if "k \<le> 65520" for k using that by (simp add: unat_of_nat)
  have "unat (of_nat x + of_nat w :: u16) = x + w" "unat (of_nat y + of_nat h :: u16) = y + h"
    using u [of "x + w"] u [of "y + h"] assms(3,4) by simp_all
  then show "at_tile (snd (hextile_init t)) x (x + w) y (y + h) x y"
    using assms(3-6) by (intro init_at_tile) (simp_all add: t_def idle u)
qed

context tile_display
begin

theorem rect_decoded:
  assumes "VNCpixelProcessorState s = VNCPPSTATE_IDLE" and "rectangleCount s \<noteq> 0"
    and "at_bytes s (encode_rect x y w h tcs @ rest)" and "length (hextileBuffer s) = 512"
    and "x + w \<le> 65520" and "y + h \<le> 65520" and "0 < w" and "0 < h"
    and "contents_fit (tiles x y w h) tcs" and "ready (panel s)"
  shows "\<exists>t. pixel_loop D s = (0, t) \<and> VNCpixelProcessorState t = VNCPPSTATE_IDLE \<and>
    at_bytes t rest \<and> hoob t = hoob s \<and> ready (panel t) \<and>
    length (hextileBuffer t) = 512 \<and> colours t = fold content_colours tcs (colours s) \<and>
    VNCstate t = VNCstate s \<and> rectangleCount t = rectangleCount s - 1 \<and>
    log (panel t) = log (panel s) @ rect_log win pix (colours s) (zip (tiles x y w h) tcs)"
proof -
  have at: "at_bytes s (hextile_header x y w h @ concat (map encode_content tcs) @ rest)"
    using assms(3) by (simp add: encode_rect_def)
  let ?u = "snd (pixel_idle s)"
  note u = idle_decoded [OF at assms(2,5-8)]
  let ?v = "snd (hextile_init ?u)"
  have v: "processHextile D ?u = (1, ?v)" "hextileState ?v = HEXTILESTATE_PARSEHEADER"
    "at_bytes ?v (concat (map encode_content tcs) @ rest)" "length (hextileBuffer ?v) = 512"
    "hoob ?v = hoob s" "colours ?v = colours s" "panel ?v = panel s"
    "VNCstate ?v = VNCstate s" "rectangleCount ?v = rectangleCount s - 1"
    using u assms(4)
    by (simp_all add: processHextile_def hextile_init_def Let_def at_bytes_def colours_def)
  have l: "tiles_left x (x + w) (y + h) x y = tiles x y w h"
    using assms(7,8) by (rule tiles_left_start)
  obtain t where t: "hextile_loop D ?v = (0, t)" "VNCpixelProcessorState t = VNCPPSTATE_IDLE"
    "at_bytes t rest" "hoob t = hoob s" "ready (panel t)" "length (hextileBuffer t) = 512"
    "colours t = fold content_colours tcs (colours s)" "VNCstate t = VNCstate s"
    "rectangleCount t = rectangleCount s - 1"
    "log (panel t) = log (panel s) @ rect_log win pix (colours s) (zip (tiles x y w h) tcs)"
    using walk_decoded [OF u(5) v(2,3,4)] assms(9,10) unfolding l v(5-9) by metis
  have "hextile_loop D ?u = (0, t)" using v(1) t(1) by (simp add: hextile_loop_step)
  then have "pixelProcessor D ?u = (0, t)" using u(2) by (simp add: pixelProcessor_def)
  moreover have "pixelProcessor D s = (1, ?u)"
    using u(1) assms(1) by (simp add: pixelProcessor_def prod_eq_iff)
  ultimately have "pixel_loop D s = (0, t)"
    by (simp add: pixel_loop.simps [of D s] pixel_loop.simps [of D ?u])
  with t show ?thesis by blast
qed

end

end
