(* ===== verification/VncUpdate.thy ===== *)
theory VncUpdate
  imports VncSession HextileRect
begin

text \<open>
  A whole framebuffer update of hextile rectangles. The client decodes one rectangle in each
  call of \<open>Vnc_ProcessVncBuffer\<close> that follows, and a last call ends the update: this is
  where the next refresh request becomes due.
\<close>

section \<open>The message\<close>

type_synonym rect = "nat \<times> nat \<times> nat \<times> nat \<times> tile list"

fun rect_ok :: "rect \<Rightarrow> bool" where
  "rect_ok (x, y, w, h, tcs) \<longleftrightarrow>
     x + w \<le> 65520 \<and> y + h \<le> 65520 \<and> 0 < w \<and> 0 < h \<and> contents_fit (tiles x y w h) tcs"

fun rect_bytes :: "rect \<Rightarrow> bytes" where
  "rect_bytes (x, y, w, h, tcs) = encode_rect x y w h tcs"

definition encode_update :: "rect list \<Rightarrow> bytes" where
  "encode_update rs =
     [0, 0, hi8 (of_nat (length rs)), lo8 (of_nat (length rs))] @ concat (map rect_bytes rs)"

text \<open>What the display puts on its bus for the rectangles; the colours last across them.\<close>

fun rect_colours :: "rect \<Rightarrow> u16 \<times> u16 \<Rightarrow> u16 \<times> u16" where
  "rect_colours (x, y, w, h, tcs) c = fold content_colours tcs c"

fun update_log ::
    "(u16 \<Rightarrow> u16 \<Rightarrow> u8 \<Rightarrow> u8 \<Rightarrow> 'e list) \<Rightarrow> (u16 \<Rightarrow> 'e list) \<Rightarrow> u16 \<times> u16 \<Rightarrow> rect list \<Rightarrow> 'e list"
where
  "update_log win pix c [] = []"
| "update_log win pix c ((x, y, w, h, tcs) # rs) =
     rect_log win pix c (zip (tiles x y w h) tcs) @
     update_log win pix (rect_colours (x, y, w, h, tcs) c) rs"

lemma length_encode_update: "length rs + 4 \<le> length (encode_update rs)"
proof -
  have "length rs \<le> length (concat (map rect_bytes rs))"
  proof (induction rs)
    case (Cons r rs)
    then show ?case by (cases r) (simp add: encode_rect_def length_header)
  qed simp
  then show ?thesis by (simp add: encode_update_def)
qed

section \<open>The calls\<close>

lemma start_at_bytes:
  "length bs \<le> 65535 \<Longrightarrow> at_bytes (start_buffer bs (of_nat (length bs)) s) bs"
  by (simp add: at_bytes_def start_buffer_cwf start_buffer_view)

lemma vnc_loop_stops: "Vnc_StateMachine D s = (0, t) \<Longrightarrow> vnc_loop D s = (0, t)"
  by (simp add: vnc_loop.simps [of D s])

lemma vnc_loop_updating:
  "VNCstate s = VNCSTATE_PROCESSINGUPDATE \<Longrightarrow> vnc_loop D s = (0, snd (pixel_loop D s))"
  by (rule vnc_loop_stops) (simp add: Vnc_StateMachine_def)

lemma pixel_loop_ends:
  assumes "VNCpixelProcessorState s = VNCPPSTATE_IDLE" and "rectangleCount s = 0"
  shows "pixel_loop D s = (0, s\<lparr>VNCstate := VNCSTATE_CONNECTED_REFRESH\<rparr>)"
  using assms by (simp add: pixel_loop.simps [of D s] pixelProcessor_def pixel_idle_def)

text \<open>No access outside the tile buffer or the receive buffer in between.\<close>

definition same_flags :: "'d vnc \<Rightarrow> 'd vnc \<Rightarrow> bool" where
  "same_flags s t \<longleftrightarrow> hoob t = hoob s \<and> oob (cur t) = oob (cur s)"

context tile_display
begin

text \<open>The client is between two rectangles of an update and \<open>n\<close> are to come.\<close>

definition updating :: "nat \<Rightarrow> 'd vnc \<Rightarrow> bool" where
  "updating n s \<longleftrightarrow> VNCstate s = VNCSTATE_PROCESSINGUPDATE \<and>
     VNCpixelProcessorState s = VNCPPSTATE_IDLE \<and> rectangleCount s = of_nat n \<and>
     length (hextileBuffer s) = 512 \<and> ready (panel s)"

lemma updating_rect:
  assumes s: "updating (Suc n) s" and n: "Suc n < 65536" and r: "rect_ok r"
    and at: "at_bytes s (rect_bytes r @ rest)"
  obtains t where "vnc_loop D s = (0, t)" "updating n t" "at_bytes t rest" "same_flags s t"
    "colours t = rect_colours r (colours s)"
    "\<And>rs. log (panel s) @ update_log win pix (colours s) (r # rs) =
      log (panel t) @ update_log win pix (colours t) rs"
proof -
  obtain x y w h tcs where x: "r = (x, y, w, h, tcs)" by (cases r)
  have "rectangleCount s \<noteq> 0"
    using s n by (auto simp: updating_def word_unat_eq_iff unat_of_nat simp del: of_nat_Suc)
  with s r at obtain t where t: "pixel_loop D s = (0, t)" "VNCpixelProcessorState t = VNCPPSTATE_IDLE"
    "at_bytes t rest" "hoob t = hoob s" "ready (panel t)" "length (hextileBuffer t) = 512"
    "colours t = fold content_colours tcs (colours s)" "VNCstate t = VNCstate s"
    "rectangleCount t = rectangleCount s - 1"
    "log (panel t) = log (panel s) @ rect_log win pix (colours s) (zip (tiles x y w h) tcs)"
    using rect_decoded [of s x y w h tcs rest] by (auto simp: updating_def x)
  have "consumes s t"
  proof -
    have "cwf (cur s)" using at by (simp add: at_bytes_def)
    from vnc_loop_consumes [OF this, of D] vnc_loop_updating [of s D] s t(1) show ?thesis
      by (simp add: updating_def)
  qed
  then have "same_flags s t" using t(4) consumes_oob by (simp add: same_flags_def)
  moreover have "vnc_loop D s = (0, t)"
    using s t(1) vnc_loop_updating [of s D] by (simp add: updating_def)
  moreover have "updating n t" using s t by (simp add: updating_def)
  ultimately show thesis using that t by (simp add: x)
qed

end

text \<open>Between calls the bytes move to a new buffer; nothing else changes.\<close>

lemma process_start:
  assumes "length bs \<le> 65535" and "vnc_loop D (whole bs s) = (0, t)" and "at_bytes t rest"
  shows "process D (bs, s) = (rest, forget t)"
  using assms by (simp add: process_whole at_bytes_def Let_def)

context tile_display
begin

lemma updating_move:
  assumes "length bs \<le> 65535"
  shows "updating n (whole bs (forget t)) = updating n t" "at_bytes (whole bs (forget t)) bs"
    "same_flags s (whole bs (forget t)) = same_flags s t" "colours (whole bs (forget t)) = colours t"
    "panel (whole bs (forget t)) = panel t"
  using whole_cwf [OF assms, of "forget t"] whole_view [OF assms, of "forget t"]
  by (simp_all add: at_bytes_def)
    (simp_all add: updating_def same_flags_def colours_def whole_def start_buffer_def forget_def)

lemma updating_rects:
  assumes "updating (length rs) t" and "length rs < 65536" and "list_all rect_ok rs"
    and "length (concat (map rect_bytes rs) @ rest) \<le> 65535"
  shows "\<exists>u. again D (Suc (length rs)) (concat (map rect_bytes rs) @ rest, forget t) = (rest, u) \<and>
    VNCstate u = VNCSTATE_CONNECTED_REFRESH \<and> same_flags t u \<and>
    log (panel u) = log (panel t) @ update_log win pix (colours t) rs"
  using assms
proof (induction rs arbitrary: t)
  case Nil
  let ?s = "whole rest (forget t)"
  note m = updating_move [of rest]
  have "updating 0 ?s" "at_bytes ?s rest" "same_flags t ?s" "panel ?s = panel t"
    using Nil m by (simp_all add: same_flags_def)
  moreover from this(1) have "vnc_loop D ?s = (0, ?s\<lparr>VNCstate := VNCSTATE_CONNECTED_REFRESH\<rparr>)"
    by (simp add: vnc_loop_updating pixel_loop_ends updating_def)
  ultimately show ?case
    using process_start [of rest D "forget t" "?s\<lparr>VNCstate := VNCSTATE_CONNECTED_REFRESH\<rparr>" rest] Nil
    by (simp add: at_bytes_def same_flags_def) (simp add: forget_def)
next
  case (Cons r rs)
  let ?bs = "rect_bytes r @ concat (map rect_bytes rs) @ rest"
  let ?s = "whole ?bs (forget t)"
  have l: "length ?bs \<le> 65535" using Cons.prems(4) by simp
  have s: "updating (Suc (length rs)) ?s" "at_bytes ?s ?bs" "same_flags t ?s" "panel ?s = panel t"
    "colours ?s = colours t"
    using Cons.prems(1) updating_move [OF l] by (simp_all add: same_flags_def)
  obtain u where u: "vnc_loop D ?s = (0, u)" "updating (length rs) u"
    "at_bytes u (concat (map rect_bytes rs) @ rest)" "same_flags ?s u"
    "colours u = rect_colours r (colours ?s)"
    and log: "\<And>rs. log (panel ?s) @ update_log win pix (colours ?s) (r # rs) =
      log (panel u) @ update_log win pix (colours u) rs"
    using updating_rect [OF s(1) _ _ s(2)] Cons.prems(2,3) by auto
  obtain v where v: "again D (Suc (length rs)) (concat (map rect_bytes rs) @ rest, forget u) = (rest, v)"
    "VNCstate v = VNCSTATE_CONNECTED_REFRESH" "same_flags u v"
    "log (panel v) = log (panel u) @ update_log win pix (colours u) rs"
    using Cons.IH [OF u(2)] Cons.prems(2-4) by auto
  have "again D (Suc (Suc (length rs))) (?bs, forget t) =
      again D (Suc (length rs)) (process D (?bs, forget t))"
    by (simp only: funpow_Suc_right comp_apply)
  also have "\<dots> = (rest, v)"
    using process_start [OF l u(1,3)] v(1) by simp
  finally have "again D (Suc (length (r # rs))) (concat (map rect_bytes (r # rs)) @ rest, forget t) = (rest, v)"
    by simp
  moreover have "same_flags t v" using s(3) u(4) v(3) by (simp add: same_flags_def)
  moreover have "log (panel v) = log (panel t) @ update_log win pix (colours t) (r # rs)"
    using log [of rs] v(4) by (simp add: s(4,5))
  ultimately show ?case using v(2) by blast
qed

theorem update_decoded:
  assumes st: "VNCstate s \<in> {VNCSTATE_WAITFORUPDATE, VNCSTATE_CONNECTED_REFRESH}"
    and b: "length (hextileBuffer s) = 512" and r: "ready (panel s)"
    and n: "length rs < 65536" and ok: "list_all rect_ok rs"
    and l: "length (encode_update rs @ rest) \<le> 65535"
  shows "\<exists>t. again D (Suc (length rs)) (encode_update rs @ rest, s) = (rest, t) \<and>
    VNCstate t = VNCSTATE_CONNECTED_REFRESH \<and> same_flags s t \<and>
    log (panel t) = log (panel s) @ update_log win pix (colours s) rs"
proof -
  let ?bs = "encode_update rs @ rest" and ?rs = "concat (map rect_bytes rs) @ rest"
  let ?s = "whole ?bs s"
  let ?n = "of_nat (length rs) :: u16"
  let ?u = "?s\<lparr>rectangleCount := ?n, VNCpixelProcessorState := VNCPPSTATE_IDLE,
     VNCstate := VNCSTATE_PROCESSINGUPDATE, cur := advance 4 (cur ?s)\<rparr>"
  have at: "at_bytes ?s ?bs" using start_at_bytes [OF l, of s] by (simp add: whole_def)
  have p: "peek (cur ?s) 0 = 0" "peek (cur ?s) 2 = hi8 ?n" "peek (cur ?s) 3 = lo8 ?n"
    using at_bytes_peek [OF at, of 0] at_bytes_peek [OF at, of 2] at_bytes_peek [OF at, of 3]
    by (simp_all add: encode_update_def)
  have 4: "4 \<le> unread ?s" using at_bytes_unread [OF at] by (simp add: encode_update_def)
  then have tc: "touch 4 (cur ?s) = cur ?s" using at by (intro touch_safe) (simp_all add: at_bytes_def)
  have "Vnc_StateMachine D ?s = (1, ?u)"
    using st 4 p tc by (auto simp: Vnc_StateMachine_def vnc_update_def consume_to_def word_le_nat_alt
        Let_def whole_def start_buffer_def)
  then have loop: "vnc_loop D ?s = vnc_loop D ?u" by (simp add: vnc_loop.simps [of D ?s])
  have u: "updating (length rs) ?u"
    using b r by (simp add: updating_def whole_def start_buffer_def)
  have au: "at_bytes ?u ?rs"
    using at_bytes_take [OF at, of 4 ?u] tc by (simp add: encode_update_def)
  have su: "same_flags s ?u" "panel ?u = panel s" "colours ?u = colours s"
    by (simp_all add: same_flags_def colours_def whole_def start_buffer_def)
  show ?thesis
  proof (cases rs)
    case Nil
    have "vnc_loop D ?u = (0, ?u\<lparr>VNCstate := VNCSTATE_CONNECTED_REFRESH\<rparr>)"
      using u Nil by (simp add: vnc_loop_updating pixel_loop_ends updating_def)
    with loop have "process D (?bs, s) = (rest, forget (?u\<lparr>VNCstate := VNCSTATE_CONNECTED_REFRESH\<rparr>))"
      using au Nil by (intro process_start [OF l]) (simp_all add: at_bytes_def)
    with su Nil show ?thesis by (simp add: same_flags_def) (simp add: forget_def)
  next
    case (Cons q qs)
    obtain v where v: "vnc_loop D ?u = (0, v)" "updating (length qs) v"
      "at_bytes v (concat (map rect_bytes qs) @ rest)" "same_flags ?u v"
      and log: "\<And>rs. log (panel ?u) @ update_log win pix (colours ?u) (q # rs) =
        log (panel v) @ update_log win pix (colours v) rs"
    proof (rule updating_rect [of "length qs" ?u q "concat (map rect_bytes qs) @ rest"])
      show "updating (Suc (length qs)) ?u" "Suc (length qs) < 65536" "rect_ok q"
        "at_bytes ?u (rect_bytes q @ concat (map rect_bytes qs) @ rest)"
        using u au n ok Cons by simp_all
    qed (rule that)
    have "length (concat (map rect_bytes qs) @ rest) \<le> 65535" "length qs < 65536" "list_all rect_ok qs"
      using l n ok Cons by (simp_all add: encode_update_def)
    then obtain w where w: "again D (Suc (length qs)) (concat (map rect_bytes qs) @ rest, forget v) = (rest, w)"
      "VNCstate w = VNCSTATE_CONNECTED_REFRESH" "same_flags v w"
      "log (panel w) = log (panel v) @ update_log win pix (colours v) qs"
      using updating_rects [OF v(2)] by blast
    have "process D (?bs, s) = (concat (map rect_bytes qs) @ rest, forget v)"
      using loop v(1,3) by (intro process_start [OF l]) simp_all
    then have "again D (Suc (length rs)) (?bs, s) = (rest, w)"
      using w(1) Cons by (simp only: funpow_Suc_right comp_apply list.size One_nat_def add_0_right add_Suc_right)
    moreover have "same_flags s w" using su(1) v(4) w(3) by (simp add: same_flags_def)
    moreover have "log (panel w) = log (panel s) @ update_log win pix (colours s) rs"
      using log [of qs] w(4) su(2,3) Cons by simp
    ultimately show ?thesis using w(2) by blast
  qed
qed

end

section \<open>Any schedule\<close>

text \<open>
  Together with the independence of the schedule: however the bytes of the update are cut
  and whenever the calls are made, the update is shown.
\<close>

lemma process_forgets: "forget (snd (process D c)) = snd (process D c)"
  by (simp add: process_def forget_def Let_def)

lemma process_idle:
  assumes "VNCstate t = VNCSTATE_CONNECTED_REFRESH" and "forget t = t"
  shows "process D ([], t) = ([], t)"
proof -
  have "vnc_loop D (whole [] t) = (0, whole [] t)"
    using assms(1)
    by (intro vnc_loop_stops) (simp add: Vnc_StateMachine_def vnc_update_def whole_def start_buffer_def)
  moreover have "forget (whole [] t) = forget t"
    by (simp add: forget_def whole_def start_buffer_def)
  ultimately show ?thesis
    using whole_view [of "[]" t] assms(2) by (simp add: process_whole)
qed

lemma again_idle:
  "VNCstate t = VNCSTATE_CONNECTED_REFRESH \<Longrightarrow> forget t = t \<Longrightarrow> again D i ([], t) = ([], t)"
  by (induction i) (simp_all add: process_idle)

lemma fits_stream: "length (fst c) + length (stream es) \<le> 65535 \<Longrightarrow> fits D es c"
proof (induction es arbitrary: c rule: stream.induct)
  case (3 es)
  then have "length (fst (process D c)) + length (stream es) \<le> 65535"
    using process_length [of "fst c" D "snd c"] by simp
  with 3 show ?case by simp
qed (simp_all add: arrive_def)

context tile_display
begin

theorem update_shown:
  assumes st: "VNCstate s \<in> {VNCSTATE_WAITFORUPDATE, VNCSTATE_CONNECTED_REFRESH}"
    and b: "length (hextileBuffer s) = 512" and r: "ready (panel s)"
    and n: "length rs < 65536" and ok: "list_all rect_ok rs"
    and l: "length (encode_update rs) \<le> 65535"
    and es: "stream es = encode_update rs"
  shows "\<exists>i t. run D (es @ replicate i Call) ([], s) = ([], t) \<and>
    VNCstate t = VNCSTATE_CONNECTED_REFRESH \<and> same_flags s t \<and>
    log (panel t) = log (panel s) @ update_log win pix (colours s) rs"
proof -
  let ?fs = "Arrive (encode_update rs) # replicate (Suc (length rs)) Call"
  obtain t where t: "again D (Suc (length rs)) (encode_update rs, s) = ([], t)"
    "VNCstate t = VNCSTATE_CONNECTED_REFRESH" "same_flags s t"
    "log (panel t) = log (panel s) @ update_log win pix (colours s) rs"
    using update_decoded [of s rs "[]"] st b r n ok l by auto
  have f: "run D ?fs ([], s) = ([], t)" using t(1) by (simp only: run.simps deliver.simps
        arrive_def run_calls fst_conv snd_conv append_Nil)
  have "forget t = t" using t(1) process_forgets [of D] by (metis funpow.simps(2) comp_apply snd_conv)
  then have stay: "again D j ([], t) = ([], t)" for j using t(2) by (rule again_idle [rotated])
  have "stream ?fs = encode_update rs"
    using stream_calls [of "Suc (length rs)"] by (simp only: stream.simps append_Nil2)
  then have "stream es = stream ?fs" using es by simp
  moreover have "fits D es ([], s)" using es l by (intro fits_stream) simp
  moreover have "fits D ?fs ([], s)"
    using l \<open>stream ?fs = encode_update rs\<close> by (intro fits_stream) (simp only: fst_conv list.size add_0)
  ultimately obtain i j where ij: "run D (es @ replicate i Call) ([], s) = run D (?fs @ replicate j Call) ([], s)"
    using schedules_meet by blast
  have "run D (?fs @ replicate j Call) ([], s) = ([], t)"
    unfolding run_append f run_calls by (rule stay)
  with ij t show ?thesis by metis
qed

end

end
