(* ===== verification/MainLoop.thy ===== *)
theory MainLoop
  imports ServerComms Buttons VncProtocol VncUpdate
begin

text \<open>
  \<open>LCD Test/main.c\<close>: the loop that joins the parts. Each round takes what the server has
  sent, lets the client decode it, keeps the bytes it has not decoded at the front of the
  buffer, and sends the response that is due. The two \<open>memcpy\<close> calls are checked against
  their objects: \<open>memfault\<close> records a block that leaves its object. Source and destination may
  overlap; the copy goes up from the first byte, as that of the AVR library does.
\<close>

section \<open>The state\<close>

definition VNC_BUFFER_MAX :: u16 where "VNC_BUFFER_MAX = 200"
definition MAXIMUM_VNCRESPONSE_SIZE :: nat where "MAXIMUM_VNCRESPONSE_SIZE = 50"

record ('d, 's) system =
  viewer :: "'d vnc"
  keys :: buttons
  comms :: 's
  vncBuffer :: bytes
  vncBufferSize :: u16
  vncRemainder :: u16
  vncResponseBuffer :: bytes
  vncResponseSize :: u16
  MCUSR :: u8
  memfault :: bool

text \<open>\<open>SetupHardware\<close> clears the watchdog flag and switches the pull-ups of the buttons on.\<close>

definition SetupHardware :: "('d, 's) system \<Rightarrow> ('d, 's) system" where
  "SetupHardware s =
     (let s = s\<lparr>MCUSR := MCUSR s AND NOT (push_bit 3 1)\<rparr> in s\<lparr>keys := Buttons_Init (keys s)\<rparr>)"

text \<open>
  Memory at start-up and the calls before the loop; \<open>vncRemainder\<close> is not initialised, so its
  value \<open>junk\<close> is a parameter, and \<open>c\<close> is the state \<open>VncServerInit\<close> leaves.
\<close>

definition main_boot :: "('d \<Rightarrow> 'd) \<Rightarrow> 'd \<Rightarrow> 's \<Rightarrow> u8 \<Rightarrow> u8 \<Rightarrow> u16 \<Rightarrow> ('d, 's) system" where
  "main_boot lcdInit d c pullups mcusr junk =
     (let s = \<lparr>viewer = vnc_boot d, keys = buttons_boot pullups, comms = c,
               vncBuffer = replicate (unat VNC_BUFFER_MAX) 0, vncBufferSize = 0, vncRemainder = junk,
               vncResponseBuffer = replicate MAXIMUM_VNCRESPONSE_SIZE 0, vncResponseSize = 0,
               MCUSR = mcusr, memfault = False\<rparr>;
          s = SetupHardware s
      in s\<lparr>viewer := Vnc_Init lcdInit (viewer s)\<rparr>)"

section \<open>One round\<close>

text \<open>\<open>memcpy(buf, buf + off, n)\<close> in an object, and the store of received bytes behind \<open>off\<close>.\<close>

definition copy_down :: "nat \<Rightarrow> nat \<Rightarrow> bytes \<Rightarrow> bytes" where
  "copy_down off n buf = overwrite (take n (drop off buf)) buf"

definition store_at :: "nat \<Rightarrow> bytes \<Rightarrow> bytes \<Rightarrow> bytes" where
  "store_at off bs buf = take off buf @ bs @ drop (off + length bs) buf"

definition main_reset :: "('d, 's) system \<Rightarrow> ('d, 's) system" where
  "main_reset s = s\<lparr>vncRemainder := 0, vncBufferSize := 0, viewer := Vnc_ResetSystem (viewer s)\<rparr>"

definition main_store :: "bytes \<Rightarrow> ('d, 's) system \<Rightarrow> ('d, 's) system" where
  "main_store bs s =
     (if unat (vncBufferSize s) + length bs \<le> length (vncBuffer s)
      then s\<lparr>vncBuffer := store_at (unat (vncBufferSize s)) bs (vncBuffer s),
             vncBufferSize := vncBufferSize s + of_nat (length bs)\<rparr>
      else s\<lparr>memfault := True\<rparr>)"

definition main_keep :: "u16 \<Rightarrow> ('d, 's) system \<Rightarrow> ('d, 's) system" where
  "main_keep retval s =
     (let s = s\<lparr>vncRemainder := retval\<rparr>;
          off = unat (vncBufferSize s - vncRemainder s);
          n = unat (vncRemainder s);
          s = (if off + n \<le> length (vncBuffer s) then s\<lparr>vncBuffer := copy_down off n (vncBuffer s)\<rparr>
               else s\<lparr>memfault := True\<rparr>)
      in s\<lparr>vncBufferSize := vncRemainder s\<rparr>)"

definition main_load :: "('d, 's) system \<Rightarrow> ('d, 's) system" where
  "main_load s =
     (if vncResponseSize s = 0
      then (case Vnc_LoadResponseBuffer (keypress (keys s)) (vncResponseBuffer s) (viewer s) of
              (n, k, buf, v) \<Rightarrow>
                s\<lparr>vncResponseSize := n, keys := (keys s)\<lparr>keypress := k\<rparr>, vncResponseBuffer := buf,
                  viewer := v\<rparr>)
      else s)"

definition main_send ::
    "(bytes \<Rightarrow> u16 \<Rightarrow> 's \<Rightarrow> (u16 \<times> 's) option) \<Rightarrow> ('d, 's) system \<Rightarrow> ('d, 's) system option"
where
  "main_send SendResponse s =
     (case SendResponse (vncResponseBuffer s) (vncResponseSize s) (comms s) of
        None \<Rightarrow> None
      | Some (k, c) \<Rightarrow>
          (let s = s\<lparr>comms := c\<rparr>;
               vncResponseRemainder = k - vncResponseSize s
           in if vncResponseRemainder \<noteq> 0
              then (let off = unat vncResponseRemainder;
                        n = unat (vncResponseSize s - vncResponseRemainder);
                        s = (if off + n \<le> length (vncResponseBuffer s)
                             then s\<lparr>vncResponseBuffer := copy_down off n (vncResponseBuffer s)\<rparr>
                             else s\<lparr>memfault := True\<rparr>)
                    in Some (s\<lparr>vncResponseSize := vncResponseSize s - vncResponseRemainder\<rparr>))
              else Some (s\<lparr>vncResponseSize := 0\<rparr>)))"

text \<open>\<open>pins\<close> are the reads of the button port in the round.\<close>

definition main_round ::
    "'d display \<Rightarrow> (u16 \<Rightarrow> 's \<Rightarrow> (int \<times> bytes \<times> 's) option) \<Rightarrow>
     (bytes \<Rightarrow> u16 \<Rightarrow> 's \<Rightarrow> (u16 \<times> 's) option) \<Rightarrow> (nat \<Rightarrow> u8) \<Rightarrow> ('d, 's) system \<Rightarrow> ('d, 's) system option"
where
  "main_round D GetData SendResponse pins s =
     (case GetData (VNC_BUFFER_MAX - vncBufferSize s) (comms s) of
        None \<Rightarrow> None
      | Some (response, bs, c) \<Rightarrow>
          (let s = s\<lparr>comms := c\<rparr> in
           if response < 0 then Some (main_reset s)
           else (let s = main_store bs s in
             case Vnc_ProcessVncBuffer D (vncBuffer s) (vncBufferSize s) (viewer s) of
               (retval, v) \<Rightarrow>
                 (let s = s\<lparr>viewer := v\<rparr> in
                  if vncRemainder s < 0 then Some (main_reset s)
                  else (let s = main_keep retval s;
                            s = s\<lparr>keys := Buttons_Handler pins (keys s)\<rparr>;
                            s = main_load s
                        in main_send SendResponse s)))))"

text \<open>The rounds of the loop, each with its reads of the buttons; None is a round that hangs.\<close>

fun main_rounds ::
    "'d display \<Rightarrow> (u16 \<Rightarrow> 's \<Rightarrow> (int \<times> bytes \<times> 's) option) \<Rightarrow>
     (bytes \<Rightarrow> u16 \<Rightarrow> 's \<Rightarrow> (u16 \<times> 's) option) \<Rightarrow> (nat \<Rightarrow> u8) list \<Rightarrow> ('d, 's) system \<Rightarrow> ('d, 's) system option"
where
  "main_rounds D G S [] s = Some s"
| "main_rounds D G S (pins # ps) s =
     (case main_round D G S pins s of None \<Rightarrow> None | Some t \<Rightarrow> main_rounds D G S ps t)"

section \<open>The buffer\<close>

lemma length_copy_down: "off + n \<le> length buf \<Longrightarrow> length (copy_down off n buf) = length buf"
  by (simp add: copy_down_def length_overwrite)

lemma take_copy_down: "off + n \<le> length buf \<Longrightarrow> take n (copy_down off n buf) = take n (drop off buf)"
  by (simp add: copy_down_def overwrite_def)

lemma length_store_at: "off + length bs \<le> length buf \<Longrightarrow> length (store_at off bs buf) = length buf"
  by (simp add: store_at_def)

lemma take_store_at:
  "off + length bs \<le> length buf \<Longrightarrow> take (off + length bs) (store_at off bs buf) = take off buf @ bs"
  by (simp add: store_at_def)

definition final :: "'d vnc \<Rightarrow> bool" where
  "final v \<longleftrightarrow> VNCstate v \<in> {VNCSTATE_DEAD, VNCSTATE_AUTHFAILED, VNCSTATE_PROCESSDONE}"

context raw_display
begin

text \<open>The client only looks at the part of the buffer it is told to.\<close>

lemma process_prefix:
  assumes n: "n \<le> length buffer" "n \<le> 65535"
    and call: "Vnc_ProcessVncBuffer D buffer (of_nat n) s = (r, t)"
  shows "process D (take n buffer, s) = (view (cur t), forget t)"
    and "oob (cur t) = oob (cur s)"
    and "unat r \<le> n \<and> view (cur t) = drop (n - unat r) (take n buffer) \<or> r = 65535 \<and> final t"
proof -
  let ?s = "start_buffer buffer (of_nat n) s" and ?u = "whole (take n buffer) s"
  have l: "length (take n buffer) = n" "length (take n buffer) \<le> 65535" using n by simp_all
  have un: "unat (of_nat n :: u16) = n" using n by (simp add: unat_of_nat)
  have wf: "cwf (cur ?s)" and view: "view (cur ?s) = take n buffer"
    using n un by (simp_all add: start_buffer_def cwf_def view_def)
  have "ext [] ?s ?u"
    using wf view whole_cwf [OF l(2), of s] whole_view [OF l(2), of s]
    by (simp add: ext_def feeds_def) (simp add: whole_def start_buffer_def)
  from vnc.loop_ext0 [OF this]
  have same: "fst (vnc_loop D ?s) = fst (vnc_loop D ?u)" "ext [] (snd (vnc_loop D ?s)) (snd (vnc_loop D ?u))"
    by (simp_all add: same_result_def)
  have t: "t = snd (vnc_loop D ?s)"
    and r: "r = (if fst (vnc_loop D ?s) = 0 then dataSize (cur t)
                 else word_of_int (fst (vnc_loop D ?s)))"
    using call by (auto simp: Vnc_ProcessVncBuffer_def split: prod.splits if_splits)
  show "process D (take n buffer, s) = (view (cur t), forget t)"
    using ext_view [OF same(2)] ext_forget [OF same(2)] by (simp add: process_whole t Let_def)
  have c: "consumes ?s t" unfolding t by (rule vnc_loop_consumes [OF wf])
  from consumes_oob [OF c] show "oob (cur t) = oob (cur s)" by (simp add: start_buffer_def)
  have u: "unread ?s = n" using un by (simp add: start_buffer_def)
  show "unat r \<le> n \<and> view (cur t) = drop (n - unat r) (take n buffer) \<or> r = 65535 \<and> final t"
  proof (cases "fst (vnc_loop D ?s) = 0")
    case True
    then have "r = dataSize (cur t)" by (simp add: r)
    with consumes_unread [OF c] consumes_view [OF c wf] u view show ?thesis by simp
  next
    case False
    with vnc_loop_range [of D ?s] show ?thesis by (auto simp: t r final_def)
  qed
qed

end

section \<open>The loop over a transport that keeps its contract\<close>

text \<open>
  In a good state the sizes are those of the buffers and no access has left an object.
\<close>

definition main_ok :: "('d, 's) system \<Rightarrow> bool" where
  "main_ok s \<longleftrightarrow> length (vncBuffer s) = 200 \<and> unat (vncBufferSize s) \<le> 200 \<and>
     length (vncResponseBuffer s) = 50 \<and> unat (vncResponseSize s) \<le> 20 \<and>
     \<not> memfault s \<and> \<not> oob (cur (viewer s))"

text \<open>The bytes not decoded yet and the client, as the receive side sees them.\<close>

definition pending :: "('d, 's) system \<Rightarrow> bytes \<times> 'd vnc" where
  "pending s = (take (unat (vncBufferSize s)) (vncBuffer s), forget (viewer s))"

lemma main_boot_ok: "main_ok (main_boot lcdInit d c p m j)"
  by (simp add: main_ok_def main_boot_def SetupHardware_def Vnc_Init_def vnc_boot_def
      VNC_BUFFER_MAX_def MAXIMUM_VNCRESPONSE_SIZE_def Let_def)

lemma main_reset_ok: "main_ok s \<Longrightarrow> main_ok (main_reset s)"
  by (simp add: main_ok_def main_reset_def Vnc_ResetSystem_def)

lemma main_load_ok:
  assumes "main_ok s"
  shows "main_ok (main_load s) \<and> vncBuffer (main_load s) = vncBuffer s \<and>
    vncBufferSize (main_load s) = vncBufferSize s \<and>
    viewer (main_load s) = (viewer s)\<lparr>VNCsendState := VNCsendState (viewer (main_load s))\<rparr>"
proof (cases "vncResponseSize s = 0")
  case True
  obtain n k buf v where l: "Vnc_LoadResponseBuffer (keypress (keys s)) (vncResponseBuffer s) (viewer s) =
      (n, k, buf, v)" by (metis prod_cases4)
  have "unat n \<le> 20 \<and> length buf = length (vncResponseBuffer s)"
    using load_bounds [OF l] assms by (simp add: main_ok_def)
  moreover have v: "v = (viewer s)\<lparr>VNCsendState := VNCsendState v\<rparr>" using load_advances [OF l] by simp
  moreover have "oob (cur v) = oob (cur (viewer s))" using arg_cong [OF v, of "\<lambda>v. oob (cur v)"] by simp
  ultimately show ?thesis using True assms l by (simp add: main_load_def main_ok_def)
next
  case False
  with assms show ?thesis by (simp add: main_load_def)
qed

lemma main_store_ok:
  assumes "main_ok s" and "length bs \<le> unat (VNC_BUFFER_MAX - vncBufferSize s)"
  shows "main_ok (main_store bs s) \<and> viewer (main_store bs s) = viewer s \<and>
    pending (main_store bs s) = arrive bs (pending s)"
proof -
  have d: "unat (VNC_BUFFER_MAX - vncBufferSize s) = 200 - unat (vncBufferSize s)"
    using assms(1) by (simp add: VNC_BUFFER_MAX_def main_ok_def unat_sub word_le_nat_alt)
  moreover have u: "unat (vncBufferSize s) \<le> 200" using assms(1) by (simp add: main_ok_def)
  ultimately have l: "unat (vncBufferSize s) + length bs \<le> 200" using assms(2) by linarith
  then have "unat (vncBufferSize s + of_nat (length bs)) = unat (vncBufferSize s) + length bs"
    by (simp add: unat_word_ariths unat_of_nat)
  with l assms(1) show ?thesis
    by (simp add: main_store_def main_ok_def pending_def arrive_def length_store_at take_store_at)
qed

lemma main_send_memfault: "memfault s \<Longrightarrow> main_send SendResponse s = Some t \<Longrightarrow> memfault t"
  by (auto simp: main_send_def Let_def split: option.splits if_splits)

locale main_system = raw_display D + reliable_comms GetData SendResponse
  for D :: "'d display" and GetData :: "u16 \<Rightarrow> 's \<Rightarrow> (int \<times> bytes \<times> 's) option"
    and SendResponse :: "bytes \<Rightarrow> u16 \<Rightarrow> 's \<Rightarrow> (u16 \<times> 's) option"
begin

abbreviation round :: "(nat \<Rightarrow> u8) \<Rightarrow> ('d, 's) system \<Rightarrow> ('d, 's) system option" where
  "round \<equiv> main_round D GetData SendResponse"

lemma main_send_ok:
  assumes "main_ok s" and "main_send SendResponse s = Some t"
  shows "main_ok t \<and> pending t = pending s \<and> viewer t = viewer s"
proof -
  obtain k c where k: "SendResponse (vncResponseBuffer s) (vncResponseSize s) (comms s) = Some (k, c)"
    using assms(2) by (auto simp: main_send_def split: option.splits)
  with sends_all have "k = vncResponseSize s" by blast
  with k assms show ?thesis by (auto simp: main_send_def main_ok_def pending_def Let_def)
qed

text \<open>
  A round either resets the client or is a call of the receive side on what has arrived,
  after which at most the send state changes.
\<close>

lemma round_cases:
  assumes ok: "main_ok s" and r: "round pins s = Some t"
  obtains (reset) c where "GetData (VNC_BUFFER_MAX - vncBufferSize s) (comms s) = Some (- 1, [], c)" "main_ok t"
      "viewer t = Vnc_ResetSystem (viewer s)" "fst (pending t) = []"
  | (decode) bs c and u :: "('d, 's) system" where
      "GetData (VNC_BUFFER_MAX - vncBufferSize s) (comms s) = Some (int (length bs), bs, c)"
      "main_ok t" "main_ok u" "process D (arrive bs (pending s)) = pending u"
      "pending t = (fst (pending u), (snd (pending u))\<lparr>VNCsendState := VNCsendState (viewer t)\<rparr>)"
      "viewer t = (viewer u)\<lparr>VNCsendState := VNCsendState (viewer t)\<rparr>"
  | (final) bs c where
      "GetData (VNC_BUFFER_MAX - vncBufferSize s) (comms s) = Some (int (length bs), bs, c)" "final (viewer t)"
      "memfault t" "VNCstate (viewer t) = VNCstate (snd (process D (arrive bs (pending s))))"
proof -
  let ?m = "VNC_BUFFER_MAX - vncBufferSize s"
  obtain response bs c where g: "GetData ?m (comms s) = Some (response, bs, c)"
    using r by (auto simp: main_round_def split: option.splits)
  note fits = data_fits [OF g]
  show thesis
  proof (cases "response < 0")
    case True
    with fits have "response = - 1" "bs = []" by auto
    with True g r show thesis
      using main_reset_ok [of "s\<lparr>comms := c\<rparr>"] ok
      by (intro reset [of c])
        (auto simp: main_round_def main_reset_def main_ok_def pending_def Let_def)
  next
    case False
    with fits have resp: "response = int (length bs)" and len: "length bs \<le> unat ?m" by auto
    let ?s = "main_store bs (s\<lparr>comms := c\<rparr>)"
    have okc: "main_ok (s\<lparr>comms := c\<rparr>)" and pc: "pending (s\<lparr>comms := c\<rparr>) = pending s"
      using ok by (simp_all add: main_ok_def pending_def)
    note st = main_store_ok [OF okc, of bs, simplified, OF len, unfolded pc]
    let ?n = "unat (vncBufferSize ?s)"
    obtain retval v where call: "Vnc_ProcessVncBuffer D (vncBuffer ?s) (of_nat ?n) (viewer ?s) = (retval, v)"
      by fastforce
    have n: "?n \<le> length (vncBuffer ?s)" "?n \<le> 65535" "?n \<le> 200" using st by (simp_all add: main_ok_def)
    note p = process_prefix [OF n(1,2) call]
    have ar: "process D (arrive bs (pending s)) = (view (cur v), forget v)"
      using p(1) st process_forget [of D "take ?n (vncBuffer ?s)" "viewer ?s"]
      by (simp add: pending_def arrive_def prod_eq_iff)
    let ?u = "main_keep retval (?s\<lparr>viewer := v\<rparr>)"
    let ?w = "?u\<lparr>keys := Buttons_Handler pins (keys ?u)\<rparr>"
    have t: "main_send SendResponse (main_load ?w) = Some t"
      using r g False call by (simp add: main_round_def Let_def)
    show thesis
    proof (cases "unat retval \<le> ?n")
      case True
      then have vv: "view (cur v) = drop (?n - unat retval) (take ?n (vncBuffer ?s))"
        using p(3) n(3) by auto
      have off: "unat (vncBufferSize ?s - retval) = ?n - unat retval"
        using True by (simp add: unat_sub word_le_nat_alt)
      have oku: "main_ok ?u"
        using st p(2) True n off ok by (simp add: main_keep_def main_ok_def Let_def length_copy_down)
      have pu: "pending ?u = (view (cur v), forget v)"
        using True n off vv by (simp add: main_keep_def pending_def Let_def take_copy_down drop_take)
      have okw: "main_ok ?w" "pending ?w = pending ?u" "viewer ?w = viewer ?u"
        using oku by (simp_all add: main_ok_def pending_def)
      note ld = main_load_ok [OF okw(1)]
      note sd = main_send_ok [OF conjunct1 [OF ld] t]
      have vt: "viewer t = (viewer ?u)\<lparr>VNCsendState := VNCsendState (viewer t)\<rparr>"
        using ld sd okw(3) by simp
      have "snd (pending t) = forget ((viewer ?u)\<lparr>VNCsendState := VNCsendState (viewer t)\<rparr>)"
        using vt by (simp add: pending_def)
      also have "\<dots> = (snd (pending ?u))\<lparr>VNCsendState := VNCsendState (viewer t)\<rparr>"
        by (simp add: pending_def forget_def)
      finally have "pending t = (fst (pending ?u), (snd (pending ?u))\<lparr>VNCsendState := VNCsendState (viewer t)\<rparr>)"
        using ld sd okw(2) by (simp add: pending_def prod_eq_iff)
      with sd oku ar pu vt g resp show thesis by (intro decode [of bs c ?u]) auto
    next
      case False
      then have f: "final v" using p(3) by auto
      have vu: "viewer ?u = v" by (simp add: main_keep_def Let_def)
      obtain x where "viewer (main_load ?w) = v\<lparr>VNCsendState := x\<rparr>"
      proof (cases "vncResponseSize ?w = 0")
        case True
        obtain n k buf y where l: "Vnc_LoadResponseBuffer (keypress (keys ?w)) (vncResponseBuffer ?w) (viewer ?w) =
            (n, k, buf, y)" by (metis prod_cases4)
        from load_advances [OF l] True l vu show ?thesis by (intro that [of "VNCsendState y"]) (simp add: main_load_def)
      next
        case False
        with vu show ?thesis by (intro that [of "VNCsendState v"]) (simp add: main_load_def)
      qed
      moreover have "viewer t = viewer (main_load ?w)"
        using t by (auto simp: main_send_def Let_def split: option.splits if_splits)
      ultimately have vt: "viewer t = v\<lparr>VNCsendState := x\<rparr>" by simp
      have "final (viewer t)" using f by (simp add: vt final_def)
      moreover have "memfault t"
      proof -
        have "retval = 65535" using p(3) False by auto
        moreover have "length (vncBuffer ?s) = 200" using st by (simp add: main_ok_def)
        ultimately have "memfault ?u" by (simp add: main_keep_def Let_def)
        then have "memfault (main_load ?w)" by (simp add: main_load_def split: prod.splits)
        then show ?thesis using t by (rule main_send_memfault)
      qed
      moreover have "VNCstate (viewer t) = VNCstate (snd (process D (arrive bs (pending s))))"
        unfolding ar vt by (simp add: forget_def)
      ultimately show thesis using g resp by (intro final [of bs c]) auto
    qed
  qed
qed

end

end
