(* ===== verification/VncSendState.thy ===== *)
theory VncSendState
  imports VncProtocol VncUpdate
begin

text \<open>
  While an update is received the send state does not matter: the functions of the decoder
  neither read nor write it. The main loop advances it between two calls of the receive
  side, so this is what carries the results on schedules of calls over to the whole program.
\<close>

section \<open>The decoder\<close>

abbreviation (input) at_send :: "vncsendstate \<Rightarrow> 'd vnc \<Rightarrow> 'd vnc" where
  "at_send x \<equiv> VNCsendState_update (\<lambda>_. x)"

named_theorems sent_simps

lemma put_pixel_sent [sent_simps]: "put_pixel j i c (at_send x s) = at_send x (put_pixel j i c s)"
  by (simp add: put_pixel_def)

lemma put_rect_sent [sent_simps]:
  "put_rect x0 x1 y0 y1 c (at_send x s) = at_send x (put_rect x0 x1 y0 y1 c s)"
  unfolding put_rect_def by (intro fold_commute_upd put_pixel_sent)

lemma read_pixel_sent [sent_simps]: "read_pixel (at_send x s) = apsnd (at_send x) (read_pixel s)"
  by (simp add: read_pixel_def Let_def)

lemma drop_sent [sent_simps]:
  "dropOutOfViewPixels (at_send x s) = apsnd (at_send x) (dropOutOfViewPixels s)"
  by (simp add: dropOutOfViewPixels_def Let_def)

lemma tile_outside_sent [sent_simps]: "tile_outside (at_send x s) = tile_outside s"
  by (simp add: tile_outside_def)

lemma hextile_parse_sent [sent_simps]:
  "parse_background (at_send x s) = at_send x (parse_background s)"
  "parse_foreground (at_send x s) = at_send x (parse_foreground s)"
  "parse_numSubrects (at_send x s) = at_send x (parse_numSubrects s)"
  by (simp_all add: parse_background_def parse_foreground_def parse_numSubrects_def Let_def
      sent_simps split: prod.splits)

lemma parse_tile_sent [sent_simps]: "parse_tile D (at_send x s) = apsnd (at_send x) (parse_tile D s)"
  by (simp add: parse_tile_def parse_raw_tile_def tile_outside_def Let_def sent_simps)

lemma hextile_cases_sent [sent_simps]:
  "hextile_init (at_send x s) = apsnd (at_send x) (hextile_init s)"
  "hextile_done (at_send x s) = apsnd (at_send x) (hextile_done s)"
  "hextile_drawraw D (at_send x s) = apsnd (at_send x) (hextile_drawraw D s)"
  "hextile_drawtile D (at_send x s) = apsnd (at_send x) (hextile_drawtile D s)"
  "hextile_dropraw (at_send x s) = apsnd (at_send x) (hextile_dropraw s)"
  by (simp_all add: hextile_init_def hextile_done_def hextile_drawraw_def hextile_drawtile_def
      hextile_dropraw_def Let_def sent_simps split_beta)

lemma hextile_parseheader_sent [sent_simps]:
  "hextile_parseheader D (at_send x s) = apsnd (at_send x) (hextile_parseheader D s)"
proof -
  have "parse_tile D (s\<lparr>VNCsendState := x, cur := c, subencodingByte := b\<rparr>) =
      apsnd (at_send x) (parse_tile D (s\<lparr>cur := c, subencodingByte := b\<rparr>))" for c b
  proof -
    have "s\<lparr>VNCsendState := x, cur := c, subencodingByte := b\<rparr> =
        at_send x (s\<lparr>cur := c, subencodingByte := b\<rparr>)" by simp
    then show ?thesis by (simp only: parse_tile_sent)
  qed
  then show ?thesis by (simp add: hextile_parseheader_def Let_def)
qed

lemma hextile_subrect_sent [sent_simps]:
  "hextile_subrect (at_send x s) = apsnd (at_send x) (hextile_subrect s)"
proof -
  have "draw_subrect c a b (at_send x t) = at_send x (draw_subrect c a b t)" for c a b and t :: "'a vnc"
    by (simp add: draw_subrect_def Let_def sent_simps)
  then show ?thesis
    by (simp add: hextile_subrect_def Let_def sent_simps split: prod.splits)
qed

lemma hextile_fillbuffer_sent [sent_simps]:
  "hextile_fillbuffer (at_send x s) = apsnd (at_send x) (hextile_fillbuffer s)"
proof (induction s rule: hextile_fillbuffer.induct)
  case (1 s)
  obtain r t where "hextile_subrect s = (r, t)" by fastforce
  with "1.IH" [OF _ this [symmetric]] show ?case
    by (simp add: hextile_fillbuffer.simps [of s] hextile_fillbuffer.simps [of "at_send x s"] sent_simps)
qed

lemma processHextile_sent [sent_simps]:
  "processHextile D (at_send x s) = apsnd (at_send x) (processHextile D s)"
  by (cases "hextileState s") (simp_all add: processHextile_def sent_simps)

lemma hextile_loop_sent [sent_simps]:
  "hextile_loop D (at_send x s) = apsnd (at_send x) (hextile_loop D s)"
proof (induction D s rule: hextile_loop.induct)
  case (1 D s)
  obtain r t where "processHextile D s = (r, t)" by fastforce
  with "1.IH" [OF this [symmetric]] show ?case
    by (simp add: hextile_loop.simps [of D s] hextile_loop.simps [of D "at_send x s"] sent_simps)
qed

lemma pixelProcessor_sent [sent_simps]:
  "pixelProcessor D (at_send x s) = apsnd (at_send x) (pixelProcessor D s)"
  by (cases "VNCpixelProcessorState s")
    (simp_all add: pixelProcessor_def pixel_idle_def rect_assign_def rect_encoding_def
      pixel_outbounds_def processCopyRect_def Let_def sent_simps split_beta)

lemma pixel_loop_sent [sent_simps]:
  "pixel_loop D (at_send x s) = apsnd (at_send x) (pixel_loop D s)"
proof (induction D s rule: pixel_loop.induct)
  case (1 D s)
  obtain r t where "pixelProcessor D s = (r, t)" by fastforce
  with "1.IH" [OF this [symmetric]] show ?case
    by (simp add: pixel_loop.simps [of D s] pixel_loop.simps [of D "at_send x s"] sent_simps)
qed

section \<open>The state machine of an open connection\<close>

definition opened :: "'d vnc \<Rightarrow> bool" where
  "opened s \<longleftrightarrow> VNCstate s \<in> {VNCSTATE_CONNECTED_REFRESH, VNCSTATE_WAITFORUPDATE,
     VNCSTATE_PROCESSINGUPDATE, VNCSTATE_DEAD}"

lemma StateMachine_opened: "opened s \<Longrightarrow> opened (snd (Vnc_StateMachine D s))"
  using conjunct2 [OF pixel_loop_conn [of D s]]
  by (cases "VNCstate s"; force simp: opened_def Vnc_StateMachine_def vnc_update_def consume_to_def Let_def)

lemma StateMachine_sent:
  "opened s \<Longrightarrow> Vnc_StateMachine D (at_send x s) = apsnd (at_send x) (Vnc_StateMachine D s)"
  by (auto simp: opened_def Vnc_StateMachine_def vnc_update_def consume_to_def Let_def sent_simps)

lemma vnc_loop_sent:
  "opened s \<Longrightarrow> vnc_loop D (at_send x s) = apsnd (at_send x) (vnc_loop D s) \<and> opened (snd (vnc_loop D s))"
proof (induction D s rule: vnc_loop.induct)
  case (1 D s)
  obtain r t where r: "Vnc_StateMachine D s = (r, t)" by fastforce
  with StateMachine_opened [OF "1.prems", of D] have "opened t" by simp
  with "1.IH" [OF r [symmetric]] r StateMachine_sent [OF "1.prems", of D x] show ?case
    by (simp add: vnc_loop.simps [of D s] vnc_loop.simps [of D "at_send x s"])
qed

lemma process_sent:
  assumes "opened s"
  shows "process D (rest, at_send x s) = apsnd (at_send x) (process D (rest, s)) \<and>
    opened (snd (process D (rest, s)))"
proof -
  let ?s = "start_buffer rest (of_nat (length rest)) s"
  have "opened ?s" using assms by (simp add: opened_def start_buffer_def)
  moreover have "start_buffer rest (of_nat (length rest)) (at_send x s) = at_send x ?s"
    by (simp add: start_buffer_def)
  ultimately show ?thesis
    using vnc_loop_sent [of ?s D x]
    by (simp add: process_loop Let_def forget_def opened_def)
qed

end
