(* ===== verification/MainSystem.thy ===== *)
theory MainSystem
  imports MainLoop VncSendState
begin

text \<open>
  The whole program: what the loop of \<open>main.c\<close> keeps of its memory, and that the updates of
  \<open>VncUpdate\<close> are shown by the running program.
\<close>

section \<open>After the client has given up\<close>

text \<open>
  In a final state the receive side returns -1, which the loop keeps as a remainder of 65535
  bytes: the test for a negative remainder is on an unsigned variable.
\<close>

lemma process_final:
  assumes "final s"
  shows "fst (Vnc_ProcessVncBuffer D buffer n s) = 65535"
proof -
  have "vnc_loop D (start_buffer buffer n s) = (- 1, start_buffer buffer n s)"
    using assms by (subst vnc_loop.simps) (auto simp: final_def Vnc_StateMachine_def start_buffer_def)
  then show ?thesis by (simp add: Vnc_ProcessVncBuffer_def)
qed

lemma main_keep_faults: "length (vncBuffer s) = 200 \<Longrightarrow> memfault (main_keep 65535 s)"
  by (simp add: main_keep_def Let_def)

lemma main_keep_memfault: "memfault s \<Longrightarrow> memfault (main_keep r s)"
  by (simp add: main_keep_def Let_def)

lemma round_faults:
  assumes "main_ok s" and "final (viewer s)" and "main_round D G S pins s = Some t"
    and "G (VNC_BUFFER_MAX - vncBufferSize s) (comms s) = Some (r, bs, c)" and "0 \<le> r"
  shows "memfault t"
proof -
  let ?s = "main_store bs (s\<lparr>comms := c\<rparr>)"
  have st: "viewer ?s = viewer s" "memfault ?s \<or> length (vncBuffer ?s) = 200"
    using assms(1) by (simp_all add: main_store_def main_ok_def length_store_at)
  obtain retval v where call: "Vnc_ProcessVncBuffer D (vncBuffer ?s) (vncBufferSize ?s) (viewer ?s) = (retval, v)"
    by fastforce
  then have "retval = 65535" using process_final [OF assms(2)] st(1) by (metis fst_conv)
  let ?u = "main_keep retval (?s\<lparr>viewer := v\<rparr>)"
  let ?w = "?u\<lparr>keys := Buttons_Handler pins (keys ?u)\<rparr>"
  have "memfault ?u"
    using st(2) main_keep_memfault [of "?s\<lparr>viewer := v\<rparr>"] main_keep_faults [of "?s\<lparr>viewer := v\<rparr>"]
      \<open>retval = 65535\<close> by auto
  then have "memfault (main_load ?w)" by (simp add: main_load_def split: prod.splits)
  moreover have "main_send S (main_load ?w) = Some t"
    using assms(3-5) call by (simp add: main_round_def Let_def)
  ultimately show ?thesis by (rule main_send_memfault)
qed

section \<open>Rounds on data\<close>

text \<open>The rounds in which the transport delivers the given pieces.\<close>

inductive served ::
    "'d display \<Rightarrow> (u16 \<Rightarrow> 's \<Rightarrow> (int \<times> bytes \<times> 's) option) \<Rightarrow>
     (bytes \<Rightarrow> u16 \<Rightarrow> 's \<Rightarrow> (u16 \<times> 's) option) \<Rightarrow> bytes list \<Rightarrow> ('d, 's) system \<Rightarrow> ('d, 's) system \<Rightarrow> bool"
  for D G S where
  none: "served D G S [] s s"
| round: "G (VNC_BUFFER_MAX - vncBufferSize s) (comms s) = Some (int (length bs), bs, c) \<Longrightarrow>
    main_round D G S pins s = Some u \<Longrightarrow> served D G S bss u t \<Longrightarrow> served D G S (bs # bss) s t"

fun schedule :: "bytes list \<Rightarrow> event list" where
  "schedule [] = []"
| "schedule (bs # bss) = Arrive bs # Call # schedule bss"

lemma stream_schedule: "stream (schedule bss) = concat bss"
  by (induction bss) simp_all

lemma schedule_append: "schedule (as @ bs) = schedule as @ schedule bs"
  by (induction as) simp_all

lemma run_idle_schedule: "run D (schedule (replicate j [])) c = again D j c"
  by (induction j arbitrary: c) (simp_all add: arrive_def funpow_swap1)

lemma process_dead: "VNCstate (snd c) = VNCSTATE_DEAD \<Longrightarrow> VNCstate (snd (process D c)) = VNCSTATE_DEAD"
proof -
  assume dead: "VNCstate (snd c) = VNCSTATE_DEAD"
  obtain rest s where c: "c = (rest, s)" by fastforce
  have "vnc_loop D (start_buffer rest (of_nat (length rest)) s) =
      (- 1, start_buffer rest (of_nat (length rest)) s)"
    using dead c by (subst vnc_loop.simps) (simp add: Vnc_StateMachine_def start_buffer_def)
  then show ?thesis using dead c by (simp add: process_loop Let_def forget_def start_buffer_def)
qed

lemma run_dead:
  "VNCstate (snd c) = VNCSTATE_DEAD \<Longrightarrow> VNCstate (snd (run D es c)) = VNCSTATE_DEAD"
proof (induction es arbitrary: c)
  case (Cons e es)
  have "VNCstate (snd (deliver D e c)) = VNCSTATE_DEAD"
    using Cons.prems process_dead by (cases e) (simp_all add: arrive_def)
  then show ?case using Cons.IH by simp
qed simp

context main_system
begin

lemma round_ok:
  assumes "main_ok s" and "round pins s = Some t"
  shows "main_ok t \<or> final (viewer t) \<and> memfault t"
  using assms by (cases rule: round_cases) auto

text \<open>A fault goes back to a round in which the client has given up.\<close>

lemma rounds_ok:
  assumes "main_rounds D GetData SendResponse ps s = Some t" and "main_ok s"
  shows "main_ok t \<or> (\<exists>qs rs u. ps = qs @ rs \<and> main_rounds D GetData SendResponse qs s = Some u \<and>
    final (viewer u) \<and> memfault u)"
  using assms
proof (induction ps arbitrary: s)
  case Nil
  then show ?case by simp
next
  case (Cons p ps)
  then obtain v where v: "round p s = Some v" "main_rounds D GetData SendResponse ps v = Some t"
    by (auto split: option.splits)
  from round_ok [OF Cons.prems(2) v(1)] show ?case
  proof
    assume "main_ok v"
    from Cons.IH [OF v(2) this] show ?case
    proof (elim disjE exE conjE)
      fix qs rs u
      assume "ps = qs @ rs" "main_rounds D GetData SendResponse qs v = Some u" "final (viewer u)" "memfault u"
      with v(1) show ?case by (intro disjI2 exI [of _ "p # qs"] exI [of _ rs] exI [of _ u]) simp
    qed simp
  next
    assume "final (viewer v) \<and> memfault v"
    with v(1) show ?case by (intro disjI2 exI [of _ "[p]"] exI [of _ ps] exI [of _ v]) simp
  qed
qed

text \<open>
  While an update is received the rounds are the schedule of arrivals and calls, and no
  access leaves a buffer.
\<close>

lemma served_run:
  assumes "served D GetData SendResponse bss s t" and "main_ok s" and "opened (snd c)"
    and "pending s = apsnd (at_send x) c"
    and "VNCstate (snd (run D (schedule bss) c)) \<noteq> VNCSTATE_DEAD"
  shows "\<exists>y. main_ok t \<and> pending t = apsnd (at_send y) (run D (schedule bss) c)"
  using assms
proof (induction arbitrary: c x rule: served.induct)
  case (none s)
  then show ?case by auto
next
  case (round s bs c' pins u bss t)
  obtain rest v where c: "c = (rest, v)" by fastforce
  let ?d = "process D (arrive bs c)"
  have p: "process D (arrive bs (pending s)) = apsnd (at_send x) ?d" and o: "opened (snd ?d)"
    using process_sent [of v D "rest @ bs" x] round.prems(2,3) c by (simp_all add: arrive_def)
  have nd: "VNCstate (snd ?d) \<noteq> VNCSTATE_DEAD"
    using run_dead [of ?d D "schedule bss"] round.prems(4) by auto
  from round.prems(1) round.hyps(2) show ?case
  proof (cases rule: round_cases)
    case (reset c)
    with round.hyps(1) show ?thesis by simp
  next
    case (decode bs' c'' w)
    then have [simp]: "bs' = bs" using round.hyps(1) by simp
    have "pending u = apsnd (at_send (VNCsendState (viewer u))) ?d"
    proof -
      have w: "pending w = (fst ?d, at_send x (snd ?d))" using decode(4) p by (simp add: prod_eq_iff)
      show ?thesis unfolding decode(5) w by (simp add: prod_eq_iff)
    qed
    from round.IH [OF decode(2) o this] round.prems(4) show ?thesis by simp
  next
    case (final bs' c'')
    then have "VNCstate (viewer u) = VNCstate (snd ?d)" using round.hyps(1) p by simp
    with final(2) nd o show ?thesis by (auto simp: final_def opened_def)
  qed
qed

end

section \<open>Showing an update\<close>

lemma process_idles:
  assumes "VNCstate t = VNCSTATE_CONNECTED_REFRESH"
  shows "process D ([], t) = ([], forget t)"
proof -
  have "forget (forget t) = forget t" by (simp add: forget_def)
  moreover have "VNCstate (forget t) = VNCSTATE_CONNECTED_REFRESH" using assms by (simp add: forget_def)
  ultimately show ?thesis using process_idle [of "forget t" D] process_forget [of D "[]" t] by simp
qed

lemma again_idles:
  assumes "VNCstate t = VNCSTATE_CONNECTED_REFRESH"
  shows "\<exists>u \<in> {t, forget t}. again D i ([], t) = ([], u)"
proof (induction i)
  case (Suc i)
  then obtain u where "u \<in> {t, forget t}" "again D i ([], t) = ([], u)" by blast
  moreover have "forget (forget t) = forget t" by (simp add: forget_def)
  moreover have "VNCstate u = VNCSTATE_CONNECTED_REFRESH" using calculation(1) assms by (auto simp: forget_def)
  ultimately show ?case using process_idles [of u D] by auto
qed simp

locale tile_system = tile_display D ready log win pix + main_system D GetData SendResponse
  for D :: "'d display" and ready and log :: "'d \<Rightarrow> 'e list" and win and pix
    and GetData :: "u16 \<Rightarrow> 's \<Rightarrow> (int \<times> bytes \<times> 's) option"
    and SendResponse :: "bytes \<Rightarrow> u16 \<Rightarrow> 's \<Rightarrow> (u16 \<times> 's) option"
begin

theorem update_reaches_panel:
  assumes ok: "main_ok s" and e: "vncBufferSize s = 0"
    and st: "VNCstate (viewer s) \<in> {VNCSTATE_WAITFORUPDATE, VNCSTATE_CONNECTED_REFRESH}"
    and b: "length (hextileBuffer (viewer s)) = 512" and r: "ready (panel (viewer s))"
    and n: "length rs < 65536" and rs: "list_all rect_ok rs"
    and l: "length (encode_update rs) \<le> 65535" and bss: "concat bss = encode_update rs"
  shows "\<exists>i. \<forall>j t. i \<le> j \<longrightarrow> served D GetData SendResponse (bss @ replicate j []) s t \<longrightarrow>
    main_ok t \<and> vncBufferSize t = 0 \<and> VNCstate (viewer t) = VNCSTATE_CONNECTED_REFRESH \<and>
    hoob (viewer t) = hoob (viewer s) \<and>
    log (panel (viewer t)) = log (panel (viewer s)) @ update_log win pix (colours (viewer s)) rs"
proof -
  let ?v = "forget (viewer s)"
  have same: "VNCstate ?v = VNCstate (viewer s)" "hextileBuffer ?v = hextileBuffer (viewer s)"
    "panel ?v = panel (viewer s)" "hoob ?v = hoob (viewer s)" "colours ?v = colours (viewer s)"
    by (simp_all add: forget_def colours_def)
  obtain i v where v: "run D (schedule bss @ replicate i Call) ([], ?v) = ([], v)"
    "VNCstate v = VNCSTATE_CONNECTED_REFRESH" "same_flags ?v v"
    "log (panel v) = log (panel ?v) @ update_log win pix (colours ?v) rs"
    using update_shown [of ?v rs "schedule bss", unfolded same, OF st b r n rs l]
      bss stream_schedule same by metis
  show ?thesis
  proof (intro exI [of _ i] allI impI)
    fix j t
    assume "i \<le> j" and t: "served D GetData SendResponse (bss @ replicate j []) s t"
    then obtain k where k: "j = k + i" by (metis le_iff_add add.commute)
    have "run D (schedule (bss @ replicate j [])) ([], ?v) = again D k ([], v)"
      using v(1) by (simp add: schedule_append run_append run_idle_schedule run_calls k funpow_add)
    moreover obtain u where u: "u \<in> {v, forget v}" "again D k ([], v) = ([], u)"
      using again_idles [OF v(2), of k D] by blast
    ultimately have run: "run D (schedule (bss @ replicate j [])) ([], ?v) = ([], u)" by simp
    have uv: "VNCstate u = VNCstate v" "hoob u = hoob v" "panel u = panel v"
      using u(1) by (auto simp: forget_def)
    have p: "pending s = apsnd (at_send (VNCsendState ?v)) ([], ?v)"
      using e by (simp add: pending_def forget_def)
    have o: "opened (snd ([], ?v))" using st same by (auto simp: opened_def)
    obtain y where y: "main_ok t" "pending t = ([], at_send y u)"
      using served_run [OF t ok o p] run uv v(2) by auto
    then have "forget (viewer t) = at_send y u" "take (unat (vncBufferSize t)) (vncBuffer t) = []"
      by (simp_all add: pending_def)
    moreover have "VNCstate (viewer t) = VNCstate (forget (viewer t))"
      "hoob (viewer t) = hoob (forget (viewer t))" "panel (viewer t) = panel (forget (viewer t))"
      by (simp_all add: forget_def)
    moreover have "vncBufferSize t = 0"
      using calculation(2) y(1) by (auto simp: main_ok_def unat_eq_0)
    ultimately show "main_ok t \<and> vncBufferSize t = 0 \<and> VNCstate (viewer t) = VNCSTATE_CONNECTED_REFRESH \<and>
      hoob (viewer t) = hoob (viewer s) \<and>
      log (panel (viewer t)) = log (panel (viewer s)) @ update_log win pix (colours (viewer s)) rs"
      using y(1) uv v same by (simp add: same_flags_def)
  qed
qed

end

section \<open>The configurations\<close>

text \<open>The panel drivers over the transports that send every byte.\<close>

interpretation spi_usb: tile_system spi_display "\<lambda>d. True" wire window_events pixel_events
    "teensy_GetData H polls" "teensy_SendResponse H turns" for H :: "'h usb_hw" and polls turns
  by unfold_locales

interpretation parallel_usb: tile_system parallel_display ready bus par_window data_events
    "teensy_GetData H polls" "teensy_SendResponse H turns" for H :: "'h usb_hw" and polls turns
  by unfold_locales

interpretation spi_uart: tile_system spi_display "\<lambda>d. True" wire window_events pixel_events
    uart_GetData "uart_SendResponse irqs" for irqs
  by unfold_locales

section \<open>Silence\<close>

lemma receive_loop_none:
  "0 < n \<Longrightarrow> f s = Some (r, t) \<Longrightarrow> r < 0 \<Longrightarrow> receive_loop f n a s = Some ([], a, t)"
  by (cases n) simp_all

text \<open>A round in which nothing happens: the port is not configured and nothing is due.\<close>

lemma teensy_silent:
  assumes "usb_configuration (usb s) = 0" and "lastControlState s = ucast (usb_serial_get_control (usb s))"
    and "m \<noteq> 0"
  shows "\<exists>c. teensy_GetData H polls m s = Some (0, [], c)"
proof -
  obtain u where "teensy_getchar H polls (usb s) = Some (- 1, u)"
    using assms(1) by (simp add: teensy_getchar_def usb_serial_getchar_def cli_def restore_def)
  moreover have "0 < unat m" using assms(3) by (simp add: unat_gt_0)
  ultimately show ?thesis using assms(2) by (simp add: teensy_GetData_def teensy_receive_def receive_loop_none)
qed

lemma silent_round:
  assumes "VNCstate (viewer s) = VNCSTATE_NOTCONNECTED" and "VNCsendState (viewer s) = VNCSENDSTATE_INIT"
    and "vncBufferSize s = 0" and "vncResponseSize s = 0"
    and "usb_configuration (usb (comms s)) = 0"
    and "lastControlState (comms s) = ucast (usb_serial_get_control (usb (comms s)))"
    and "\<not> memfault s"
  shows "\<exists>t. main_round D (teensy_GetData H polls) (teensy_SendResponse H turns) pins s = Some t \<and> \<not> memfault t"
proof -
  obtain c where c: "teensy_GetData H polls VNC_BUFFER_MAX (comms s) = Some (0, [], c)"
    using teensy_silent [OF assms(5,6), of VNC_BUFFER_MAX H polls] by (auto simp: VNC_BUFFER_MAX_def)
  have p: "Vnc_ProcessVncBuffer D buf 0 (viewer s) = (0, start_buffer buf 0 (viewer s))" for buf
    using assms(1) vnc_loop_stops [of D "start_buffer buf 0 (viewer s)"]
    by (simp add: Vnc_ProcessVncBuffer_def Vnc_StateMachine_def start_buffer_def)
  let ?s = "s\<lparr>comms := c\<rparr>"
  have st: "main_store [] ?s = ?s"
  proof -
    have "store_at 0 [] b = b" for b by (simp add: store_at_def)
    then show ?thesis using assms(3) by (simp add: main_store_def)
  qed
  let ?v = "start_buffer (vncBuffer s) 0 (viewer s)"
  obtain w where w: "main_keep 0 (?s\<lparr>viewer := ?v\<rparr>) = w" "viewer w = ?v" "vncResponseSize w = 0"
    "\<not> memfault w"
    using assms(3,4,7) by (simp add: main_keep_def Let_def)
  let ?k = "w\<lparr>keys := Buttons_Handler pins (keys w)\<rparr>"
  have "\<exists>l. main_load ?k = l \<and> vncResponseSize l = 0 \<and> \<not> memfault l"
    using assms(1,2) w by (simp add: main_load_def Vnc_LoadResponseBuffer_def start_buffer_def state_order)
  then have "\<exists>t. main_send (teensy_SendResponse H turns) (main_load ?k) = Some t \<and> \<not> memfault t"
    by (auto simp: main_send_def teensy_SendResponse_def Let_def)
  then show ?thesis
    using c assms(3) by (simp add: main_round_def st p w(1) Let_def)
qed

end
