(* ===== verification/MainTape.thy ===== *)
theory MainTape
  imports MainSystem
begin

text \<open>
  What the program says to the server: its link is given a tape of the bytes that come and of the
  responses that are handed over, and what is on the tape is a session of \<open>VncProtocol\<close>.
\<close>

section \<open>A link with a tape\<close>

datatype traffic = Lost | Got bytes | Gave bytes

definition taped_get ::
    "(u16 \<Rightarrow> 's \<Rightarrow> (int \<times> bytes \<times> 's) option) \<Rightarrow> u16 \<Rightarrow> 's \<times> traffic list \<Rightarrow> (int \<times> bytes \<times> 's \<times> traffic list) option"
where
  "taped_get G m c =
     (case G m (fst c) of None \<Rightarrow> None
      | Some (r, bs, d) \<Rightarrow> Some (r, bs, d, snd c @ [if r < 0 then Lost else Got bs]))"

definition taped_send ::
    "(bytes \<Rightarrow> u16 \<Rightarrow> 's \<Rightarrow> (u16 \<times> 's) option) \<Rightarrow> bytes \<Rightarrow> u16 \<Rightarrow> 's \<times> traffic list \<Rightarrow> (u16 \<times> 's \<times> traffic list) option"
where
  "taped_send S buf n c =
     (case S buf n (fst c) of None \<Rightarrow> None
      | Some (k, d) \<Rightarrow> Some (k, d, snd c @ [Gave (take (unat n) buf)]))"

text \<open>The bytes that have come since the connection was lost the last time, and the responses.\<close>

fun hear :: "traffic \<Rightarrow> bytes \<times> bytes list \<Rightarrow> bytes \<times> bytes list" where
  "hear Lost x = ([], [])"
| "hear (Got bs) x = (fst x @ bs, snd x)"
| "hear (Gave bs) x = (fst x, if bs = [] then snd x else snd x @ [bs])"

definition since :: "traffic list \<Rightarrow> bytes \<times> bytes list" where
  "since tape = fold hear tape ([], [])"

lemma since_append: "since (tape @ [e]) = hear e (since tape)"
  by (simp add: since_def)

lemma taped_reliable: "reliable_comms G S \<Longrightarrow> reliable_comms (taped_get G) (taped_send S)"
  unfolding reliable_comms_def reliable_comms_axioms_def server_comms_def taped_get_def taped_send_def
  by (auto split: option.splits)

interpretation taped_spi: tile_system spi_display "\<lambda>d. True" wire window_events pixel_events
    "taped_get (teensy_GetData H polls)" "taped_send (teensy_SendResponse H turns)"
  for H :: "'h usb_hw" and polls turns
  by (intro tile_system.intro main_system.intro taped_reliable teensy.reliable_comms_axioms) unfold_locales

section \<open>One round\<close>

text \<open>
  The client has taken what has come except what is still in the buffer, and what it has put in the
  response buffer has been handed over.
\<close>

definition talks :: "'d display \<Rightarrow> ('d, 's \<times> traffic list) system \<Rightarrow> bool" where
  "talks D s \<longleftrightarrow> vncResponseSize s = 0 \<and> keypress (keys s) \<in> key_values \<and>
     (\<exists>r. client D (snd (since (snd (comms s)))) r (viewer s) \<and>
        fst (since (snd (comms s))) = r @ take (unat (vncBufferSize s)) (vncBuffer s))"

lemma keys_kept: "keypress b \<in> key_values \<Longrightarrow> keypress (Buttons_Handler pins b) \<in> key_values"
  by (simp add: Buttons_Handler_def press_def Let_def key_values_def)

lemma load_key: "Vnc_LoadResponseBuffer k buf s = (n, k', buf', t) \<Longrightarrow> k' = k \<or> k' = 0"
  by (cases "VNCsendState s")
    (auto simp: Vnc_LoadResponseBuffer_def send_message_def load_keypress_def Let_def split: if_splits)

text \<open>What is left of the buffer after a call of the client is what the loop keeps.\<close>

lemma process_rest:
  assumes n: "n \<le> length buf" "n < 65535"
    and call: "Vnc_ProcessVncBuffer D buf (of_nat n) s = (r, t)" and r: "unat r \<le> n"
  shows "view (cur t) = take (unat r) (drop (n - unat r) buf)"
proof -
  let ?s = "start_buffer buf (of_nat n) s"
  have un: "unat (of_nat n :: u16) = n" using n by (simp add: unat_of_nat)
  have wf: "cwf (cur ?s)" and v: "view (cur ?s) = take n buf" and u: "unread ?s = n"
    using n un by (simp_all add: start_buffer_def cwf_def view_def)
  have t: "t = snd (vnc_loop D ?s)" "r = (if fst (vnc_loop D ?s) = 0 then dataSize (cur t) else word_of_int (fst (vnc_loop D ?s)))"
    using call by (auto simp: Vnc_ProcessVncBuffer_def split: prod.splits if_splits)
  have "unat (- 1 :: u16) = 65535" by (simp add: unsigned_minus_1_eq_mask mask_eq_exp_minus_1)
  then have "fst (vnc_loop D ?s) = 0" using vnc_loop_range [of D ?s] r n(2) t(2) by auto
  then have "r = dataSize (cur t)" using t(2) by simp
  moreover have "view (cur t) = drop (n - unread t) (take n buf)"
    using consumes_view [OF vnc_loop_consumes [OF wf] wf, of D] u v unfolding t(1) by simp
  ultimately show ?thesis using r by (simp add: drop_take)
qed

lemma kept_fits:
  assumes "length (vncBuffer s) = 200" and "unat (vncBufferSize s) \<le> 200" and "\<not> memfault (main_keep r s)"
  shows "unat r \<le> unat (vncBufferSize s)"
proof (rule ccontr)
  assume "\<not> ?thesis"
  then have "unat (vncBufferSize s - r) = 65536 + unat (vncBufferSize s) - unat r"
    using unat_u16_less [of r] by (simp add: unat_sub_if')
  then have "200 < unat (vncBufferSize s - r) + unat r" using unat_u16_less [of r] assms(2) by linarith
  with assms(1,3) show False by (simp add: main_keep_def Let_def)
qed

lemma kept_bytes:
  assumes "length (vncBuffer s) = 200" and "unat (vncBufferSize s) \<le> 200" and "unat r \<le> unat (vncBufferSize s)"
  shows "vncBufferSize (main_keep r s) = r \<and>
    take (unat r) (vncBuffer (main_keep r s)) = take (unat r) (drop (unat (vncBufferSize s) - unat r) (vncBuffer s))"
proof -
  have "unat (vncBufferSize s - r) = unat (vncBufferSize s) - unat r"
    using assms(3) by (simp add: unat_sub word_le_nat_alt)
  with assms show ?thesis by (simp add: main_keep_def Let_def take_copy_down)
qed

lemma talks_load:
  assumes T: "talks D s" and len: "length (vncResponseBuffer s) = 50" and t: "main_load s = t"
  shows "comms t = comms s \<and> vncBuffer t = vncBuffer s \<and> vncBufferSize t = vncBufferSize s \<and>
    keypress (keys t) \<in> key_values \<and> length (vncResponseBuffer t) = 50 \<and> unat (vncResponseSize t) \<le> 20 \<and>
    (\<exists>r. client D (if vncResponseSize t = 0 then snd (since (snd (comms s)))
            else snd (since (snd (comms s))) @ [take (unat (vncResponseSize t)) (vncResponseBuffer t)]) r (viewer t) \<and>
       fst (since (snd (comms s))) = r @ take (unat (vncBufferSize s)) (vncBuffer s))"
proof -
  obtain n k buf v where l: "Vnc_LoadResponseBuffer (keypress (keys s)) (vncResponseBuffer s) (viewer s) = (n, k, buf, v)"
    by (metis prod_cases4)
  from T obtain r where r: "client D (snd (since (snd (comms s)))) r (viewer s)"
      "fst (since (snd (comms s))) = r @ take (unat (vncBufferSize s)) (vncBuffer s)"
    and k: "keypress (keys s) \<in> key_values" and z: "vncResponseSize s = 0"
    by (auto simp: talks_def)
  have l20: "20 \<le> length (vncResponseBuffer s)" using len by simp
  from client.respond [OF r(1) l20 k l] load_key [OF l] load_bounds [OF l l20] r(2) l z k len t show ?thesis
    by (auto simp: main_load_def key_values_def)
qed

context reliable_comms
begin

lemma talks_send:
  assumes "main_send (taped_send SendResponse) s = Some t" and "length (vncResponseBuffer s) = 50"
    and "unat (vncResponseSize s) \<le> 20"
  shows "viewer t = viewer s \<and> keys t = keys s \<and> vncBuffer t = vncBuffer s \<and> vncBufferSize t = vncBufferSize s \<and>
    vncResponseSize t = 0 \<and> since (snd (comms t)) = (fst (since (snd (comms s))),
      if vncResponseSize s = 0 then snd (since (snd (comms s)))
      else snd (since (snd (comms s))) @ [take (unat (vncResponseSize s)) (vncResponseBuffer s)])"
proof -
  obtain k d where k: "SendResponse (vncResponseBuffer s) (vncResponseSize s) (fst (comms s)) = Some (k, d)"
    using assms(1) by (auto simp: main_send_def taped_send_def split: option.splits)
  with sends_all have "k = vncResponseSize s" by blast
  moreover have "take (unat (vncResponseSize s)) (vncResponseBuffer s) = [] \<longleftrightarrow> vncResponseSize s = 0"
    using assms(2) by (auto simp: unat_eq_0)
  ultimately show ?thesis
    using k assms(1) by (auto simp: main_send_def taped_send_def since_append)
qed

lemma talks_round:
  assumes ok: "main_ok s" and T: "talks D s"
    and run: "main_round D (taped_get GetData) (taped_send SendResponse) pins s = Some t" and fault: "\<not> memfault t"
  shows "talks D t"
proof -
  let ?m = "VNC_BUFFER_MAX - vncBufferSize s"
  obtain response bs d where g: "GetData ?m (fst (comms s)) = Some (response, bs, d)"
    using run by (auto simp: main_round_def taped_get_def split: option.splits)
  note fits = data_fits [OF g]
  from T obtain r where r: "client D (snd (since (snd (comms s)))) r (viewer s)"
      "fst (since (snd (comms s))) = r @ take (unat (vncBufferSize s)) (vncBuffer s)"
    and k: "keypress (keys s) \<in> key_values" and z: "vncResponseSize s = 0"
    by (auto simp: talks_def)
  show ?thesis
  proof (cases "response < 0")
    case True
    with run g client.reset [OF r(1)] k z show ?thesis
      by (auto simp: main_round_def taped_get_def main_reset_def talks_def since_append Let_def)
  next
    case False
    with fits have resp: "response = int (length bs)" and len: "length bs \<le> unat ?m" by auto
    let ?c = "(d, snd (comms s) @ [Got bs])"
    let ?s = "main_store bs (s\<lparr>comms := ?c\<rparr>)"
    have okc: "main_ok (s\<lparr>comms := ?c\<rparr>)" using ok by (simp add: main_ok_def)
    note st = main_store_ok [OF okc, of bs, simplified, OF len]
    have same: "comms ?s = ?c" "keys ?s = keys s" "vncResponseBuffer ?s = vncResponseBuffer s"
      "vncResponseSize ?s = vncResponseSize s" by (simp_all add: main_store_def)
    have buf: "take (unat (vncBufferSize ?s)) (vncBuffer ?s) = take (unat (vncBufferSize s)) (vncBuffer s) @ bs"
      using st by (simp add: pending_def arrive_def)
    have b: "length (vncBuffer ?s) = 200" "unat (vncBufferSize ?s) \<le> 200" using st by (simp_all add: main_ok_def)
    obtain retval v where call: "Vnc_ProcessVncBuffer D (vncBuffer ?s) (vncBufferSize ?s) (viewer ?s) = (retval, v)"
      by fastforce
    let ?k = "?s\<lparr>viewer := v\<rparr>"
    let ?u = "main_keep retval ?k"
    let ?w = "?u\<lparr>keys := Buttons_Handler pins (keys ?u)\<rparr>"
    have t: "main_send (taped_send SendResponse) (main_load ?w) = Some t"
      using run g False call by (simp add: main_round_def taped_get_def Let_def)
    have "\<not> memfault ?u"
    proof
      assume "memfault ?u"
      then have "memfault (main_load ?w)" by (simp add: main_load_def split: prod.splits)
      then show False using main_send_memfault t fault by blast
    qed
    then have le: "unat retval \<le> unat (vncBufferSize ?s)" using kept_fits [of ?k retval] b by simp
    note kept = kept_bytes [of ?k retval, simplified, OF b le]
    have rest: "view (cur v) = take (unat retval) (drop (unat (vncBufferSize ?s) - unat retval) (vncBuffer ?s))"
      using process_rest [of "unat (vncBufferSize ?s)" "vncBuffer ?s" D "viewer ?s" retval v] b call le by simp
    then have "length (view (cur v)) = unat retval" using b le by simp
    with client.process [OF r(1), of "vncBufferSize ?s" "vncBuffer ?s" retval v] call st b
    have c: "client D (snd (since (snd (comms s)))) (r @ take (unat (vncBufferSize ?s) - unat retval) (vncBuffer ?s)) v"
      by simp
    have "take (unat (vncBufferSize ?s) - unat retval) (vncBuffer ?s) @
        take (unat retval) (drop (unat (vncBufferSize ?s) - unat retval) (vncBuffer ?s)) =
        take (unat (vncBufferSize s)) (vncBuffer s) @ bs"
      using le unfolding buf [symmetric] take_add [symmetric] by simp
    then have w: "talks D ?w"
      using c kept r(2) z k same keys_kept [of "keys s" pins]
      by (auto simp: talks_def since_append main_keep_def Let_def intro!: exI
          [of _ "r @ take (unat (vncBufferSize ?s) - unat retval) (vncBuffer ?s)"])
    have l: "length (vncResponseBuffer ?w) = 50" using same ok by (simp add: main_keep_def Let_def main_ok_def)
    note ld = talks_load [OF w l refl]
    with talks_send [OF t] show ?thesis by (auto simp: talks_def)
  qed
qed

end

section \<open>The running program\<close>

lemma round_memfault: "main_round D G S pins s = Some t \<Longrightarrow> memfault s \<Longrightarrow> memfault t"
proof -
  assume run: "main_round D G S pins s = Some t" and f: "memfault s"
  have load: "memfault (main_load w) = memfault w" for w :: "('a, 'b) system"
    by (simp add: main_load_def split: prod.splits)
  have store: "memfault w \<Longrightarrow> memfault (main_store bs w)" for w :: "('a, 'b) system" and bs
    by (simp add: main_store_def)
  have keep: "memfault w \<Longrightarrow> memfault (main_keep r w)" for w :: "('a, 'b) system" and r
    by (rule main_keep_memfault)
  show ?thesis
    using run f
    by (auto simp: main_round_def main_reset_def load store keep Let_def
        split: option.splits prod.splits if_splits dest!: main_send_memfault [rotated])
qed

lemma rounds_memfault: "main_rounds D G S ps s = Some t \<Longrightarrow> memfault s \<Longrightarrow> memfault t"
  by (induction D G S ps s rule: main_rounds.induct) (auto dest: round_memfault split: option.splits)

lemma talks_boot: "talks D (main_boot lcdInit d (c, []) pullups mcusr junk)"
  using client.boot [of D lcdInit d]
  by (auto simp: talks_def main_boot_def SetupHardware_def Buttons_Init_def buttons_boot_def since_def
      key_values_def Let_def)

lemma taped_rounds:
  "main_rounds spi_display (taped_get (teensy_GetData H polls)) (taped_send (teensy_SendResponse H turns)) ps s = Some t \<Longrightarrow>
     main_ok s \<Longrightarrow> talks spi_display s \<Longrightarrow> \<not> memfault t \<Longrightarrow> main_ok t \<and> talks spi_display t"
proof (induction ps arbitrary: s)
  case (Cons p ps)
  let ?G = "taped_get (teensy_GetData H polls)" and ?S = "taped_send (teensy_SendResponse H turns)"
  obtain v where v: "main_round spi_display ?G ?S p s = Some v" "main_rounds spi_display ?G ?S ps v = Some t"
    using Cons.prems(1) by (auto split: option.splits)
  have f: "\<not> memfault v" using rounds_memfault [OF v(2)] Cons.prems(4) by blast
  have "main_ok v" using taped_spi.round_ok [OF Cons.prems(2) v(1)] f by blast
  from Cons.IH [OF v(2) this teensy.talks_round [OF Cons.prems(2,3) v(1) f] Cons.prems(4)] show ?case .
qed simp

end
