(* ===== verification/UsbPort.thy ===== *)
theory UsbPort
  imports ServerComms
begin

text \<open>
  A controller in memory that a host feeds, small enough to run: packets wait in the receive
  endpoint, the transmit endpoint always has room. An empty packet in the list is a moment in which
  there is nothing to read.
\<close>

record feed =
  feed_ep :: u8
  feed_in :: "bytes list"

fun feed_read :: "reg \<Rightarrow> feed \<Rightarrow> u8 \<times> feed" where
  "feed_read UEINTX h =
     (if feed_ep h \<noteq> CDC_RX_ENDPOINT then (mask_bit RWAL, h)
      else (case feed_in h of [] \<Rightarrow> (0, h) | [] # ps \<Rightarrow> (0, h\<lparr>feed_in := ps\<rparr>) | (b # bs) # ps \<Rightarrow> (mask_bit RWAL, h)))"
| "feed_read UEDATX h =
     (case feed_in h of (b # bs) # ps \<Rightarrow> (b, h\<lparr>feed_in := bs # ps\<rparr>) | _ \<Rightarrow> (0, h))"
| "feed_read r h = (0, h)"

definition feeder :: "feed usb_hw" where
  "feeder = \<lparr>reg_in = feed_read, reg_out = (\<lambda>r v h. if r = UENUM then h\<lparr>feed_ep := v\<rparr> else h)\<rparr>"

lemma feeder_simps [simp]: "reg_in feeder = feed_read"
  "reg_out feeder r v h = (if r = UENUM then h\<lparr>feed_ep := v\<rparr> else h)"
  by (simp_all add: feeder_def)

text \<open>The packets that hand over these pieces, each in a call of its own.\<close>

definition feed_pieces :: "bytes list \<Rightarrow> bytes list" where
  "feed_pieces bss = concat (map (\<lambda>bs. if bs = [] then [[]] else [bs, []]) bss)"

lemma feed_getchar:
  assumes "usb_configuration u \<noteq> 0"
  shows "teensy_getchar feeder polls u =
    (case feed_in (hw u) of
       [] \<Rightarrow> Some (- 1, u\<lparr>hw := \<lparr>feed_ep = CDC_RX_ENDPOINT, feed_in = []\<rparr>\<rparr>)
     | [] # ps \<Rightarrow> Some (- 1, u\<lparr>hw := \<lparr>feed_ep = CDC_RX_ENDPOINT, feed_in = ps\<rparr>\<rparr>)
     | [b] # ps \<Rightarrow> Some (uint b, u\<lparr>hw := \<lparr>feed_ep = CDC_RX_ENDPOINT, feed_in = ps\<rparr>\<rparr>)
     | (b # c # bs) # ps \<Rightarrow> Some (uint b, u\<lparr>hw := \<lparr>feed_ep = CDC_RX_ENDPOINT, feed_in = (c # bs) # ps\<rparr>\<rparr>))"
proof -
  obtain e f where "hw u = \<lparr>feed_ep = e, feed_in = f\<rparr>" by (cases "hw u")
  with assms show ?thesis
    by (auto simp: teensy_getchar_def usb_serial_getchar_def cli_def restore_def ready_bit_def
        getchar_retry.simps [of feeder polls] bit_simps split: list.split)
qed

lemma feed_receive:
  "usb_configuration u \<noteq> 0 \<Longrightarrow> feed_in (hw u) = bs # [] # ps \<Longrightarrow> bs \<noteq> [] \<Longrightarrow> length bs < n \<Longrightarrow>
    \<exists>b. receive_loop (teensy_getchar feeder polls) n a u =
      Some (bs, b, u\<lparr>hw := \<lparr>feed_ep = CDC_RX_ENDPOINT, feed_in = ps\<rparr>\<rparr>)"
proof (induction bs arbitrary: n a u)
  case (Cons x xs)
  then obtain m where n: "n = Suc m" by (cases n) auto
  show ?case
  proof (cases xs)
    case Nil
    with Cons.prems n show ?thesis by (cases m) (simp_all add: feed_getchar)
  next
    case (Cons y ys)
    let ?u = "u\<lparr>hw := \<lparr>feed_ep = CDC_RX_ENDPOINT, feed_in = xs # [] # ps\<rparr>\<rparr>"
    obtain b where "receive_loop (teensy_getchar feeder polls) m (count_byte a) ?u =
        Some (xs, b, ?u\<lparr>hw := \<lparr>feed_ep = CDC_RX_ENDPOINT, feed_in = ps\<rparr>\<rparr>)"
      using Cons.IH [of ?u m "count_byte a"] Cons.prems n Cons by auto
    with Cons.prems n Cons show ?thesis by (simp add: feed_getchar)
  qed
qed simp

lemma feed_receive_none:
  assumes "usb_configuration u \<noteq> 0" and "feed_in (hw u) = ps" and "ps = [] \<or> ps = [] # qs \<and> 0 < n"
  shows "\<exists>v. receive_loop (teensy_getchar feeder polls) n a u = Some ([], a, v) \<and>
    usb_configuration v = usb_configuration u \<and> cdc_line_rtsdtr v = cdc_line_rtsdtr u \<and> feed_in (hw v) = tl ps"
  using assms by (cases n) (auto simp: feed_getchar)

section \<open>The link over it\<close>

text \<open>An open port with these pieces on their way.\<close>

definition fed :: "bytes list \<Rightarrow> feed teensy \<Rightarrow> bool" where
  "fed bss c \<longleftrightarrow> usb_configuration (usb c) \<noteq> 0 \<and> lastControlState c = ucast (usb_serial_get_control (usb c)) \<and>
     feed_in (hw (usb c)) = feed_pieces bss"

lemma fed_get:
  assumes "fed (bs # bss) c" and "length bs < unat m"
  shows "\<exists>d. teensy_GetData feeder polls m c = Some (int (length bs), bs, d) \<and> fed bss d"
proof (cases "bs = []")
  case True
  with assms feed_receive_none [of "usb c" "[] # feed_pieces bss" "feed_pieces bss" "unat m" polls "activity_pulses (act c)"]
  show ?thesis by (auto simp: fed_def feed_pieces_def teensy_GetData_def teensy_receive_def usb_serial_get_control_def)
next
  case False
  with assms feed_receive [of "usb c" bs "feed_pieces bss" "unat m" polls "activity_pulses (act c)"]
  show ?thesis by (auto simp: fed_def feed_pieces_def teensy_GetData_def teensy_receive_def usb_serial_get_control_def)
qed

lemma fed_idle:
  assumes "fed [] c"
  shows "\<exists>d. teensy_GetData feeder polls m c = Some (0, [], d) \<and> fed [] d"
  using assms feed_receive_none [of "usb c" "[]" "[]" "unat m" polls "activity_pulses (act c)"]
  by (auto simp: fed_def feed_pieces_def teensy_GetData_def teensy_receive_def usb_serial_get_control_def)

lemma feed_putchar:
  assumes "usb_configuration u \<noteq> 0"
  shows "\<exists>v. teensy_putchar feeder turns i b u = Some v \<and> usb_configuration v = usb_configuration u \<and>
    cdc_line_rtsdtr v = cdc_line_rtsdtr u \<and> feed_in (hw v) = feed_in (hw u)"
proof -
  have w: "run_state (wait_fifo feeder ts timeout x) s = (Ready x, s)" if "feed_ep (hw s) = CDC_TX_ENDPOINT" for ts timeout x s
    using that by (simp add: wait_fifo.simps [of feeder ts] ready_bit_def CDC_TX_ENDPOINT_def CDC_RX_ENDPOINT_def bit_simps)
  have "CDC_TX_ENDPOINT \<noteq> CDC_RX_ENDPOINT" by (simp add: CDC_TX_ENDPOINT_def CDC_RX_ENDPOINT_def)
  with assms show ?thesis
    by (auto simp: teensy_putchar_def usb_serial_putchar_def tx_enter_def cli_def ready_bit_def w tx_leave_def
        restore_def bit_simps)
qed

lemma feed_send_all:
  "usb_configuration u \<noteq> 0 \<Longrightarrow>
    \<exists>v. send_all (teensy_putchar feeder turns) i bs u = Some v \<and> usb_configuration v = usb_configuration u \<and>
      cdc_line_rtsdtr v = cdc_line_rtsdtr u \<and> feed_in (hw v) = feed_in (hw u)"
proof (induction bs arbitrary: i u)
  case (Cons b bs)
  obtain v where v: "teensy_putchar feeder turns i b u = Some v" "usb_configuration v = usb_configuration u"
      "cdc_line_rtsdtr v = cdc_line_rtsdtr u" "feed_in (hw v) = feed_in (hw u)"
    using feed_putchar [OF Cons.prems, of turns i b] by blast
  from Cons.IH [of v "Suc i"] v Cons.prems show ?case by simp
qed simp

lemma fed_send:
  assumes "fed bss c"
  shows "\<exists>d. teensy_SendResponse feeder turns buf n c = Some (n, d) \<and> fed bss d"
proof -
  from assms have "usb_configuration (usb c) \<noteq> 0" by (simp add: fed_def)
  then obtain v where "send_all (teensy_putchar feeder turns) 0 (take (unat n) buf) (usb c) = Some v"
      "usb_configuration v = usb_configuration (usb c)" "cdc_line_rtsdtr v = cdc_line_rtsdtr (usb c)"
      "feed_in (hw v) = feed_in (hw (usb c))"
    using feed_send_all [of "usb c" turns 0 "take (unat n) buf"] by blast
  with assms show ?thesis by (simp add: fed_def teensy_SendResponse_def usb_serial_get_control_def)
qed

end
