(* ===== verification/MainFeed.thy ===== *)
theory MainFeed
  imports MainTape UsbPort
begin

text \<open>
  The main loop over the controller of \<open>UsbPort\<close>: rounds in which the host has bytes to give are
  rounds that return, so that what is proved of all runs is proved of some.
\<close>

abbreviation fed_get :: "u16 \<Rightarrow> feed teensy \<Rightarrow> (int \<times> bytes \<times> feed teensy) option" where
  "fed_get \<equiv> teensy_GetData feeder 0"

abbreviation fed_send :: "bytes \<Rightarrow> u16 \<Rightarrow> feed teensy \<Rightarrow> (u16 \<times> feed teensy) option" where
  "fed_send \<equiv> teensy_SendResponse feeder (\<lambda>i. [])"

lemma main_send_fed:
  assumes "fed bss (comms s)"
  shows "\<exists>t. main_send fed_send s = Some t \<and> fed bss (comms t)"
proof -
  obtain d where "fed_send (vncResponseBuffer s) (vncResponseSize s) (comms s) = Some (vncResponseSize s, d)" "fed bss d"
    using fed_send [OF assms, of "\<lambda>i. []" "vncResponseBuffer s" "vncResponseSize s"] by blast
  then show ?thesis by (simp add: main_send_def Let_def)
qed

lemma main_kept_comms:
  "comms (main_store bs s) = comms s" "comms (main_keep r s) = comms s" "comms (main_load s) = comms s"
  by (simp_all add: main_store_def main_keep_def main_load_def Let_def split: prod.splits)

lemma fed_round:
  assumes "fed_get (VNC_BUFFER_MAX - vncBufferSize s) (comms s) = Some (int (length bs), bs, c)" and "fed bss c"
  shows "\<exists>t. main_round D fed_get fed_send pins s = Some t \<and> fed bss (comms t)"
proof -
  let ?s = "main_store bs (s\<lparr>comms := c\<rparr>)"
  obtain r v where call: "Vnc_ProcessVncBuffer D (vncBuffer ?s) (vncBufferSize ?s) (viewer ?s) = (r, v)" by fastforce
  let ?u = "main_keep r (?s\<lparr>viewer := v\<rparr>)"
  let ?w = "main_load (?u\<lparr>keys := Buttons_Handler pins (keys ?u)\<rparr>)"
  have "fed bss (comms ?w)" using assms(2) by (simp add: main_kept_comms)
  from main_send_fed [OF this] show ?thesis
    using assms(1) call by (simp add: main_round_def Let_def)
qed

lemma served_idle: "fed [] (comms s) \<Longrightarrow> \<exists>t. served D fed_get fed_send (replicate j []) s t"
proof (induction j arbitrary: s)
  case 0
  then show ?case by (auto intro: served.none)
next
  case (Suc j)
  obtain c where c: "fed_get (VNC_BUFFER_MAX - vncBufferSize s) (comms s) = Some (0, [], c)" "fed [] c"
    using fed_idle [OF Suc.prems, of 0 "VNC_BUFFER_MAX - vncBufferSize s"] by auto
  obtain u where u: "main_round D fed_get fed_send (\<lambda>i. 0xFF) s = Some u" "fed [] (comms u)"
    using fed_round [of s "[]" c "[]" D "\<lambda>i. 0xFF"] c by auto
  obtain t where "served D fed_get fed_send (replicate j []) u t" using Suc.IH [OF u(2)] by blast
  then have "served D fed_get fed_send ([] # replicate j []) s t"
    using served.round [of fed_get s "[]" c D fed_send "\<lambda>i. 0xFF" u] c(1) u(1) by simp
  then show ?case by auto
qed

text \<open>
  Pieces that fit the buffer together are all taken, each in a round of its own, as long as the client
  understands them; then come rounds in which nothing arrives.
\<close>

lemma served_fed:
  "fed bss (comms s) \<Longrightarrow> main_ok s \<Longrightarrow> opened (snd c) \<Longrightarrow> pending s = apsnd (at_send x) c \<Longrightarrow>
    VNCstate (snd (run spi_display (schedule bss) c)) \<noteq> VNCSTATE_DEAD \<Longrightarrow> length (fst c) + length (concat bss) < 200 \<Longrightarrow>
    \<exists>t. served spi_display fed_get fed_send (bss @ replicate j []) s t"
proof (induction bss arbitrary: s c x)
  case Nil
  then show ?case using served_idle by simp
next
  case (Cons bs bss)
  let ?d = "process spi_display (arrive bs c)"
  have "length (fst (pending s)) = unat (vncBufferSize s)"
    using Cons.prems(2) by (simp add: pending_def main_ok_def)
  then have n: "unat (vncBufferSize s) = length (fst c)" using Cons.prems(4) by simp
  then have "length bs < unat (VNC_BUFFER_MAX - vncBufferSize s)"
    using Cons.prems(6) by (simp add: VNC_BUFFER_MAX_def unat_sub word_le_nat_alt)
  then obtain d where d: "fed_get (VNC_BUFFER_MAX - vncBufferSize s) (comms s) = Some (int (length bs), bs, d)" "fed bss d"
    using fed_get [OF Cons.prems(1)] by blast
  obtain u where u: "main_round spi_display fed_get fed_send (\<lambda>i. 0xFF) s = Some u" "fed bss (comms u)"
    using fed_round [OF d] by blast
  note one = served.round [OF d(1) u(1) served.none]
  have nd: "VNCstate (snd ?d) \<noteq> VNCSTATE_DEAD" using run_dead [of ?d spi_display "schedule bss"] Cons.prems(5) by auto
  from spi_usb.served_run [OF one Cons.prems(2-4)] nd
  obtain y where y: "main_ok u" "pending u = apsnd (at_send y) ?d" by auto
  have o: "opened (snd ?d)"
    using process_sent [of "snd (arrive bs c)" spi_display "fst (arrive bs c)" x] Cons.prems(3) by (simp add: arrive_def)
  have "length (fst ?d) \<le> length (fst c) + length bs"
    using process_length [of "fst (arrive bs c)" spi_display "snd (arrive bs c)"] Cons.prems(6) by (simp add: arrive_def)
  with Cons.IH [OF u(2) y(1) o y(2)] Cons.prems(5,6) obtain t where
    "served spi_display fed_get fed_send (bss @ replicate j []) u t" by auto
  then show ?case using served.round [OF d(1) u(1)] by auto
qed

theorem update_served:
  assumes "fed bss (comms s)" and "main_ok s" and "vncBufferSize s = 0"
    and st: "VNCstate (viewer s) \<in> {VNCSTATE_WAITFORUPDATE, VNCSTATE_CONNECTED_REFRESH}"
    and b: "length (hextileBuffer (viewer s)) = 512" and rs: "list_all rect_ok rs"
    and l: "length (encode_update rs) < 200" and bss: "concat bss = encode_update rs"
  shows "\<exists>t. served spi_display fed_get fed_send (bss @ replicate j []) s t"
proof -
  let ?v = "forget (viewer s)"
  have same: "VNCstate ?v = VNCstate (viewer s)" "hextileBuffer ?v = hextileBuffer (viewer s)"
    by (simp_all add: forget_def)
  have "length rs < 65536" "length (encode_update rs) \<le> 65535" "stream (schedule bss) = encode_update rs"
    using l bss length_encode_update [of rs] by (simp_all add: stream_schedule)
  with spi.update_shown [of ?v rs "schedule bss", unfolded same, OF st b TrueI _ rs] obtain i v where
    v: "run spi_display (schedule bss @ replicate i Call) ([], ?v) = ([], v)" "VNCstate v = VNCSTATE_CONNECTED_REFRESH"
    by blast
  then have "VNCstate (snd (run spi_display (schedule bss) ([], ?v))) \<noteq> VNCSTATE_DEAD"
    using run_dead [of "run spi_display (schedule bss) ([], ?v)" spi_display "replicate i Call"] by (auto simp: run_append)
  moreover have p: "pending s = apsnd (at_send (VNCsendState ?v)) ([], ?v)"
    using assms(3) by (simp add: pending_def forget_def)
  moreover have "opened (snd ([], ?v))" using st same by (auto simp: opened_def)
  ultimately show ?thesis using served_fed [OF assms(1,2) _ p] l bss by simp
qed

section \<open>The first round of a session\<close>

definition greeting :: bytes where
  "greeting = map char8 ''RFB 003.003'' @ [10]"

text \<open>A program at start-up with an open port and these pieces on their way.\<close>

definition plugged :: "bytes list \<Rightarrow> feed teensy" where
  "plugged bss = teensy_boot ((usb_boot 0 \<lparr>feed_ep = 0, feed_in = feed_pieces bss\<rparr>)\<lparr>usb_configuration := 1\<rparr>) 0 0 0"

lemma fed_plugged: "fed bss (plugged bss)"
  by (simp add: fed_def plugged_def teensy_boot_def usb_boot_def usb_serial_get_control_def)

text \<open>The server says its version, and gets the client's.\<close>

lemma greeting_decoded:
  assumes "VNCstate s = VNCSTATE_NOTCONNECTED"
  shows "Vnc_ProcessVncBuffer D buf 12 s =
    (0, (start_buffer buf 12 s)\<lparr>cur := advance 12 (cur (start_buffer buf 12 s)), VNCstate := VNCSTATE_WAITFORAUTHTYPE\<rparr>)"
  using assms
  by (simp add: Vnc_ProcessVncBuffer_def vnc_loop.simps [of D] Vnc_StateMachine_def consume_to_def vnc_authtype_def
      start_buffer_def advance_def)

lemma version_round:
  assumes "G 200 c = Some (12, greeting, d)" and "\<And>buf. \<exists>e. S buf 12 d = Some (12, e)"
  shows "\<exists>t buf. main_round spi_display G S (\<lambda>i. 0xFF) (main_boot id spi_boot c 0 0 0) = Some t \<and>
    \<not> memfault t \<and> \<not> hoob (viewer t) \<and> take 12 buf = greeting \<and> S buf 12 d = Some (12, comms t)"
proof -
  let ?b = "main_boot id spi_boot c 0 0 0"
  let ?s = "main_store greeting (?b\<lparr>comms := d\<rparr>)"
  have l: "length greeting = 12" by (simp add: greeting_def)
  have b: "viewer ?b = vnc_boot spi_boot" "vncBufferSize ?b = 0" "length (vncBuffer ?b) = 200" "vncResponseSize ?b = 0"
    "vncResponseBuffer ?b = replicate 50 0" "\<not> memfault ?b" "comms ?b = c"
    by (simp_all add: main_boot_def SetupHardware_def Vnc_Init_def VncDisplayInit_def VNC_BUFFER_MAX_def
        MAXIMUM_VNCRESPONSE_SIZE_def Let_def)
  have s: "viewer ?s = vnc_boot spi_boot" "vncBufferSize ?s = 12" "vncResponseSize ?s = 0"
    "vncResponseBuffer ?s = replicate 50 0" "\<not> memfault ?s" "comms ?s = d" "length (vncBuffer ?s) = 200"
    using b l by (simp_all add: main_store_def length_store_at)
  obtain v where v: "Vnc_ProcessVncBuffer spi_display (vncBuffer ?s) 12 (vnc_boot spi_boot) = (0, v)"
    "VNCstate v = VNCSTATE_WAITFORAUTHTYPE" "VNCsendState v = VNCSENDSTATE_INIT" "\<not> hoob v"
  proof -
    have "VNCstate (vnc_boot spi_boot) = VNCSTATE_NOTCONNECTED" by (simp add: vnc_boot_def)
    from greeting_decoded [OF this] that show thesis by (simp add: vnc_boot_def start_buffer_def)
  qed
  let ?k = "main_keep 0 (?s\<lparr>viewer := v\<rparr>)"
  let ?w = "?k\<lparr>keys := Buttons_Handler (\<lambda>i. 0xFF) (keys ?k)\<rparr>"
  have k: "viewer ?w = v" "vncResponseSize ?w = 0" "vncResponseBuffer ?w = replicate 50 0" "\<not> memfault ?w" "comms ?w = d"
    using s by (simp_all add: main_keep_def Let_def)
  have ld: "viewer (main_load ?w) = v\<lparr>VNCsendState := VNCSENDSTATE_VERSIONSENT\<rparr>" "vncResponseSize (main_load ?w) = 12"
    "take 12 (vncResponseBuffer (main_load ?w)) = greeting" "\<not> memfault (main_load ?w)" "comms (main_load ?w) = d"
    using k v by (simp_all add: main_load_def Vnc_LoadResponseBuffer_def send_message_def state_order versionMessage_def
        overwrite_def greeting_def Let_def)
  obtain e where e: "S (vncResponseBuffer (main_load ?w)) 12 d = Some (12, e)" using assms(2) by blast
  have "main_round spi_display G S (\<lambda>i. 0xFF) ?b =
      Some ((main_load ?w)\<lparr>comms := e, vncResponseSize := 0\<rparr>)"
    using assms(1) b(2,7) s v(1) ld e by (simp add: main_round_def main_send_def VNC_BUFFER_MAX_def Let_def)
  then show ?thesis using ld e v(4)
    by (intro exI [of _ "(main_load ?w)\<lparr>comms := e, vncResponseSize := 0\<rparr>"] exI) simp
qed

lemma version_round_fed:
  obtains t where "main_round spi_display fed_get fed_send (\<lambda>i. 0xFF) (main_boot id spi_boot (plugged [greeting]) 0 0 0) = Some t"
    "\<not> memfault t" "\<not> hoob (viewer t)"
proof -
  have l: "length greeting = 12" by (simp add: greeting_def)
  obtain d where d: "fed_get 200 (plugged [greeting]) = Some (12, greeting, d)" "fed [] d"
    using fed_get [OF fed_plugged, of greeting 200 0 "[]"] l by auto
  have "\<exists>e. fed_send buf 12 d = Some (12, e)" for buf using fed_send [OF d(2), of "\<lambda>i. []" buf 12] by blast
  from version_round [of fed_get _ _ fed_send, OF d(1) this] that show ?thesis by blast
qed

lemma version_round_taped:
  obtains t where "main_round spi_display (taped_get fed_get) (taped_send fed_send) (\<lambda>i. 0xFF)
      (main_boot id spi_boot (plugged [greeting], []) 0 0 0) = Some t"
    "\<not> memfault t" "since (snd (comms t)) = (greeting, [greeting])"
proof -
  have l: "length greeting = 12" by (simp add: greeting_def)
  obtain d where d: "fed_get 200 (plugged [greeting]) = Some (12, greeting, d)" "fed [] d"
    using fed_get [OF fed_plugged, of greeting 200 0 "[]"] l by auto
  have g: "taped_get fed_get 200 (plugged [greeting], []) = Some (12, greeting, (d, [Got greeting]))"
    using d by (simp add: taped_get_def)
  have e: "\<exists>e. fed_send buf 12 d = Some (12, e)" for buf using fed_send [OF d(2), of "\<lambda>i. []" buf 12] by blast
  have "\<exists>e. taped_send fed_send buf 12 (d, [Got greeting]) = Some (12, e)" for buf
    using e [of buf] by (auto simp: taped_send_def)
  from version_round [of "taped_get fed_get" _ _ "taped_send fed_send", OF g this] obtain t buf where
    t: "main_round spi_display (taped_get fed_get) (taped_send fed_send) (\<lambda>i. 0xFF)
      (main_boot id spi_boot (plugged [greeting], []) 0 0 0) = Some t" "\<not> memfault t" "take 12 buf = greeting"
      "taped_send fed_send buf 12 (d, [Got greeting]) = Some (12, comms t)" by blast
  have "snd (comms t) = [Got greeting, Gave greeting]"
    using t(3,4) e [of buf] by (auto simp: taped_send_def dest!: sym [of _ "comms t"])
  moreover have "greeting \<noteq> []" using l by auto
  ultimately have "since (snd (comms t)) = (greeting, [greeting])" by (simp add: since_def)
  with t that show ?thesis by blast
qed

end
