(* ===== verification/VncSteps.thy ===== *)
theory VncSteps
  imports VncMachine
begin

text \<open>
  How long the loops of the receive path run: the number of rounds is bounded by the bytes
  there are, so a call of \<open>Vnc_ProcessVncBuffer\<close> takes time linear in its buffer.
\<close>

text \<open>
  A loop that goes on while its body returns a positive value runs \<open>n\<close> times: the first \<open>n - 1\<close>
  rounds ask for another one, the last does not, and its result is that of the loop.
\<close>

definition loop_takes :: "nat \<Rightarrow> ('s \<Rightarrow> int \<times> 's) \<Rightarrow> 's \<Rightarrow> int \<times> 's \<Rightarrow> bool" where
  "loop_takes n f s r \<longleftrightarrow> 0 < n \<and> r = f (((\<lambda>s. snd (f s)) ^^ (n - 1)) s) \<and> fst r \<le> 0 \<and>
     (\<forall>i < n - 1. 0 < fst (f (((\<lambda>s. snd (f s)) ^^ i) s)))"

lemma loop_takes_more: "0 < fst (f s) \<Longrightarrow> loop_takes n f (snd (f s)) r \<Longrightarrow> loop_takes (Suc n) f s r"
proof -
  assume f: "0 < fst (f s)" and r: "loop_takes n f (snd (f s)) r"
  then obtain m where n: "n = Suc m" by (cases n) (auto simp: loop_takes_def)
  have "0 < fst (f (((\<lambda>s. snd (f s)) ^^ i) s))" if "i < n" for i
    using that f r n by (cases i) (auto simp: loop_takes_def funpow_Suc_right simp del: funpow.simps)
  with r n show ?thesis by (auto simp: loop_takes_def funpow_Suc_right simp del: funpow.simps)
qed

lemma loop_runs:
  fixes f :: "'s \<Rightarrow> int \<times> 's"
  assumes unfold: "\<And>s. loop s = (if fst (f s) > 0 then loop (snd (f s)) else f s)"
    and less: "\<And>s. fst (f s) > 0 \<Longrightarrow> m (snd (f s)) < (m s :: nat)"
  shows "\<exists>n \<le> m s + 1. loop_takes n f s (loop s)"
proof (induction "m s" arbitrary: s rule: less_induct)
  case (less s)
  show ?case
  proof (cases "fst (f s) > 0")
    case True
    note d = assms(2) [OF True]
    from less [OF d] obtain n where "n \<le> m (snd (f s)) + 1" "loop_takes n f (snd (f s)) (loop (snd (f s)))" by blast
    with loop_takes_more [where f = f and s = s, OF True] unfold [of s] True d show ?thesis by (intro exI [of _ "Suc n"]) simp
  next
    case False
    with unfold [of s] show ?thesis by (intro exI [of _ 1]) (simp add: loop_takes_def)
  qed
qed

lemma vnc_loop_rounds:
  "vnc_loop D s = (if fst (Vnc_StateMachine D s) > 0 then vnc_loop D (snd (Vnc_StateMachine D s))
     else Vnc_StateMachine D s)"
  by (simp add: vnc_loop.simps [of D s] split: prod.splits)

lemma vnc_rank_le: "vnc_rank v \<le> 2"
  by (cases v) simp_all

lemma vnc_runs:
  "\<exists>n \<le> 3 * unread s + vnc_rank (VNCstate s) + 1. loop_takes n (Vnc_StateMachine D) s (vnc_loop D s)"
proof (rule loop_runs)
  show "vnc_loop D s = (if fst (Vnc_StateMachine D s) > 0 then vnc_loop D (snd (Vnc_StateMachine D s))
     else Vnc_StateMachine D s)" for s by (rule vnc_loop_rounds)
  show "3 * unread (snd (Vnc_StateMachine D s)) + vnc_rank (VNCstate (snd (Vnc_StateMachine D s))) <
      3 * unread s + vnc_rank (VNCstate s)" if "fst (Vnc_StateMachine D s) > 0" for s
    using Vnc_StateMachine_decreases [of D s "fst (Vnc_StateMachine D s)" "snd (Vnc_StateMachine D s)"] that
      vnc_rank_le [of "VNCstate (snd (Vnc_StateMachine D s))"]
    by (auto simp: vnc_order_def)
qed

lemma hextile_rank_le: "hextile_rank v \<le> 3"
  by (cases v) simp_all

lemma hextile_runs:
  "\<exists>n \<le> 4 * unread s + hextile_rank (hextileState s) + 1. loop_takes n (processHextile D) s (hextile_loop D s)"
proof (rule loop_runs)
  show "hextile_loop D s = (if fst (processHextile D s) > 0 then hextile_loop D (snd (processHextile D s))
     else processHextile D s)" for s
    using processHextile_range [of D s]
    by (auto simp: hextile_loop.simps [of D s] split: prod.splits)
  show "4 * unread (snd (processHextile D s)) + hextile_rank (hextileState (snd (processHextile D s))) <
      4 * unread s + hextile_rank (hextileState s)" if "fst (processHextile D s) > 0" for s
    using processHextile_progress [of D s "fst (processHextile D s)" "snd (processHextile D s)"] that
      hextile_rank_le [of "hextileState (snd (processHextile D s))"]
    by (auto simp: hextile_order_def)
qed

end
