(* ===== verification/RfbHextile.thy ===== *)
theory RfbHextile
  imports Prelude
begin

text \<open>
  \<open>RFBFileTest/hextile.c\<close>: the first hextile decoder of the repository, for recorded
  rectangles of 8-bit pixels. A call decodes the whole tiles in its buffer and returns how
  many bytes it took; the position in the rectangle is kept in static variables for the next
  call. C \<open>int\<close>s are integers here: signed overflow is not defined in C, and no value leaves
  the type for rectangles of at most 16383 pixels a side. The results carry a flag that tells
  of a read behind the end of the buffer; each read of the buffer sets it by itself.
\<close>

section \<open>Panel and state\<close>

text \<open>The drawing calls of \<open>eink.h\<close> and \<open>SpiLcd.h\<close>.\<close>

record 'd tile_panel =
  tp_SetupTile :: "u16 \<Rightarrow> u16 \<Rightarrow> u8 \<Rightarrow> u8 \<Rightarrow> 'd \<Rightarrow> 'd"
  tp_DrawRawTile :: "u16 \<Rightarrow> bytes \<Rightarrow> 'd \<Rightarrow> 'd"
  tp_FillSubRectangle :: "u8 \<Rightarrow> u8 \<Rightarrow> u8 \<Rightarrow> u8 \<Rightarrow> u16 \<Rightarrow> 'd \<Rightarrow> 'd"
  tp_DrawHextile :: "u8 \<Rightarrow> u8 \<Rightarrow> 'd \<Rightarrow> 'd"

record 'd rfb =
  rfb_x :: int
  rfb_y :: int
  rfb_w :: int
  rfb_h :: int
  rfb_rx :: int
  rfb_ry :: int
  rfb_rw :: int
  rfb_rh :: int
  rfb_bg :: u8
  rfb_fg :: u8
  rfb_gpio :: u8
  rfb_panel :: 'd

abbreviation (input) "rfbHextileRaw \<equiv> 0x01 :: u8"
abbreviation (input) "rfbHextileBackgroundSpecified \<equiv> 0x02 :: u8"
abbreviation (input) "rfbHextileForegroundSpecified \<equiv> 0x04 :: u8"
abbreviation (input) "rfbHextileAnySubrects \<equiv> 0x08 :: u8"
abbreviation (input) "rfbHextileSubrectsColoured \<equiv> 0x10 :: u8"

definition rfb_boot :: "u8 \<Rightarrow> 'd \<Rightarrow> 'd rfb" where
  "rfb_boot gpio d =
    \<lparr>rfb_x = 0, rfb_y = 0, rfb_w = 0, rfb_h = 0, rfb_rx = 0, rfb_ry = 0, rfb_rw = 0, rfb_rh = 0,
     rfb_bg = 0, rfb_fg = 0, rfb_gpio = gpio, rfb_panel = d\<rparr>"

definition SetupHandleHextile :: "int \<Rightarrow> int \<Rightarrow> int \<Rightarrow> int \<Rightarrow> 'd rfb \<Rightarrow> 'd rfb" where
  "SetupHandleHextile rectx recty rectw recth s =
     (let s = s\<lparr>rfb_rx := rectx, rfb_ry := recty, rfb_rw := rectw, rfb_rh := recth\<rparr>
      in s\<lparr>rfb_x := rfb_rx s, rfb_y := rfb_ry s\<rparr>)"

section \<open>One tile\<close>

text \<open>
  \<open>rest\<close> is the buffer from \<open>progress\<close> on, so that \<open>buffersize-progress\<close> is its length and
  \<open>rfbBuffer[progress + n]\<close> its element \<open>n\<close>. A result None is \<open>return progress\<close>.
\<close>

definition tile_extent :: "'d rfb \<Rightarrow> 'd rfb" where
  "tile_extent s =
     (let s = s\<lparr>rfb_w := 16, rfb_h := 16\<rparr>;
          s = (if rfb_rx s + rfb_rw s - rfb_x s < 16 then s\<lparr>rfb_w := rfb_rx s + rfb_rw s - rfb_x s\<rparr> else s)
      in (if rfb_ry s + rfb_rh s - rfb_y s < 16 then s\<lparr>rfb_h := rfb_ry s + rfb_rh s - rfb_y s\<rparr> else s))"

definition setup_tile :: "'d tile_panel \<Rightarrow> 'd rfb \<Rightarrow> 'd rfb" where
  "setup_tile P s =
     s\<lparr>rfb_panel := tp_SetupTile P (word_of_int (rfb_x s)) (word_of_int (rfb_y s)) (word_of_int (rfb_w s))
         (word_of_int (rfb_h s)) (rfb_panel s)\<rparr>"

definition reads_past :: "bytes \<Rightarrow> nat \<Rightarrow> nat \<Rightarrow> bool" where
  "reads_past rest i n \<longleftrightarrow> 0 < n \<and> length rest < i + n"

definition raw_tile :: "'d tile_panel \<Rightarrow> bytes \<Rightarrow> 'd rfb \<Rightarrow> nat option \<times> bool \<times> 'd rfb" where
  "raw_tile P rest s =
     (let readLength = 1 + nat (rfb_w s * rfb_h s) in
      if length rest < readLength then (None, False, s)
      else (let s = setup_tile P s;
                pixelCount = (word_of_int (rfb_w s * rfb_h s) :: u16)
            in (Some readLength, reads_past rest 1 (unat pixelCount),
                s\<lparr>rfb_panel := tp_DrawRawTile P pixelCount (drop 1 rest) (rfb_panel s)\<rparr>)))"

definition read_bg :: "u8 \<Rightarrow> bytes \<Rightarrow> nat \<Rightarrow> 'd rfb \<Rightarrow> nat option \<times> bool \<times> 'd rfb" where
  "read_bg subencoding rest readLength s =
     (if subencoding AND rfbHextileBackgroundSpecified \<noteq> 0
      then (if length rest < readLength + 1 then (None, False, s)
            else (Some (readLength + 1), reads_past rest readLength 1, s\<lparr>rfb_bg := rest ! readLength\<rparr>))
      else (Some readLength, False, s))"

definition read_fg :: "u8 \<Rightarrow> bytes \<Rightarrow> nat \<Rightarrow> 'd rfb \<Rightarrow> nat option \<times> bool \<times> 'd rfb" where
  "read_fg subencoding rest readLength s =
     (if subencoding AND rfbHextileForegroundSpecified \<noteq> 0
      then (if length rest < readLength + 1 then (None, False, s)
            else (Some (readLength + 1), reads_past rest readLength 1, s\<lparr>rfb_fg := rest ! readLength\<rparr>))
      else (Some readLength, False, s))"

text \<open>
  The number of subrectangles, where they begin and where the tile ends. The test lets a
  buffer pass that ends before the count, which is then read from behind it; what is there is
  any value, here 0.
\<close>

definition read_subrects :: "u8 \<Rightarrow> bytes \<Rightarrow> nat \<Rightarrow> (nat \<times> nat \<times> nat) option \<times> bool" where
  "read_subrects subencoding rest readLength =
     (if subencoding AND rfbHextileAnySubrects \<noteq> 0
      then (if length rest < readLength then (None, False)
            else (let nSubrects = (if readLength < length rest then unat (rest ! readLength) else 0);
                      oob = reads_past rest readLength 1;
                      readLength = readLength + 1;
                      ptr = readLength
                  in (Some (nSubrects, ptr,
                        readLength + nSubrects * (if subencoding AND rfbHextileSubrectsColoured \<noteq> 0 then 3 else 2)),
                      oob)))
      else (Some (0, 0, readLength), False))"

fun draw_subrects :: "'d tile_panel \<Rightarrow> u8 \<Rightarrow> bytes \<Rightarrow> nat \<Rightarrow> nat \<Rightarrow> 'd rfb \<Rightarrow> bool \<times> 'd rfb" where
  "draw_subrects P subencoding rest 0 ptr s = (False, s)"
| "draw_subrects P subencoding rest (Suc n) ptr s =
     (let s = s\<lparr>rfb_gpio := rfb_gpio s OR push_bit 7 1\<rparr>;
          coloured = subencoding AND rfbHextileSubrectsColoured \<noteq> 0;
          oob = (coloured \<and> reads_past rest ptr 1);
          s = (if coloured then s\<lparr>rfb_fg := rest ! ptr\<rparr> else s);
          ptr = (if coloured then ptr + 1 else ptr);
          oob = (oob \<or> reads_past rest ptr 1 \<or> reads_past rest (ptr + 1) 1);
          sx = drop_bit 4 (rest ! ptr);
          sy = rest ! ptr AND 0xF;
          sw = drop_bit 4 (rest ! (ptr + 1)) + 1;
          sh = (rest ! (ptr + 1) AND 0xF) + 1;
          s = s\<lparr>rfb_panel := tp_FillSubRectangle P sx sy sw sh (ucast (rfb_fg s)) (rfb_panel s)\<rparr>;
          s = s\<lparr>rfb_gpio := rfb_gpio s AND NOT (push_bit 7 1)\<rparr>
      in case draw_subrects P subencoding rest n (ptr + 2) s of (oob', s) \<Rightarrow> (oob \<or> oob', s))"

definition draw_tile :: "'d tile_panel \<Rightarrow> u8 \<Rightarrow> bytes \<Rightarrow> nat \<Rightarrow> nat \<Rightarrow> 'd rfb \<Rightarrow> bool \<times> 'd rfb" where
  "draw_tile P subencoding rest nSubrects ptr s =
     (let s = s\<lparr>rfb_gpio := rfb_gpio s OR push_bit 6 1\<rparr>;
          s = setup_tile P s;
          s = s\<lparr>rfb_panel := tp_FillSubRectangle P 0 0 (word_of_int (rfb_w s)) (word_of_int (rfb_h s))
                  (ucast (rfb_bg s)) (rfb_panel s)\<rparr>;
          s = s\<lparr>rfb_gpio := rfb_gpio s AND NOT (push_bit 6 1)\<rparr>
      in case draw_subrects P subencoding rest nSubrects ptr s of
           (oob, s) \<Rightarrow>
             (oob, s\<lparr>rfb_panel := tp_DrawHextile P (word_of_int (rfb_w s)) (word_of_int (rfb_h s)) (rfb_panel s)\<rparr>))"

definition coded_tile :: "'d tile_panel \<Rightarrow> bytes \<Rightarrow> 'd rfb \<Rightarrow> nat option \<times> bool \<times> 'd rfb" where
  "coded_tile P rest s =
     (let subencoding = rest ! 0 in
      case read_bg subencoding rest 1 s of
        (None, oob, s) \<Rightarrow> (None, oob, s)
      | (Some readLength, oob, s) \<Rightarrow>
          (case read_fg subencoding rest readLength s of
            (None, oob', s) \<Rightarrow> (None, oob \<or> oob', s)
          | (Some readLength, oob', s) \<Rightarrow>
              (case read_subrects subencoding rest readLength of
                (None, oob'') \<Rightarrow> (None, oob \<or> oob' \<or> oob'', s)
              | (Some (nSubrects, ptr, readLength), oob'') \<Rightarrow>
                  (if length rest < readLength then (None, oob \<or> oob' \<or> oob'', s)
                   else (case draw_tile P subencoding rest nSubrects ptr s of
                           (drawn, s) \<Rightarrow> (Some readLength, oob \<or> oob' \<or> oob'' \<or> drawn, s))))))"

definition handle_tile :: "'d tile_panel \<Rightarrow> bytes \<Rightarrow> 'd rfb \<Rightarrow> nat option \<times> bool \<times> 'd rfb" where
  "handle_tile P rest s =
     (let s = tile_extent s in
      if length rest < 1 then (None, False, s)
      else (let oob = reads_past rest 0 1 in
            case (if rest ! 0 AND rfbHextileRaw \<noteq> 0 then raw_tile P rest s else coded_tile P rest s) of
              (r, oob', s) \<Rightarrow> (r, oob \<or> oob', s)))"

section \<open>The walk over the rectangle\<close>

lemma tile_extent_frame [simp]:
  "rfb_x (tile_extent s) = rfb_x s" "rfb_y (tile_extent s) = rfb_y s"
  "rfb_rx (tile_extent s) = rfb_rx s" "rfb_ry (tile_extent s) = rfb_ry s"
  "rfb_rw (tile_extent s) = rfb_rw s" "rfb_rh (tile_extent s) = rfb_rh s"
  "rfb_bg (tile_extent s) = rfb_bg s" "rfb_fg (tile_extent s) = rfb_fg s"
  "rfb_panel (tile_extent s) = rfb_panel s" "rfb_gpio (tile_extent s) = rfb_gpio s"
  by (simp_all add: tile_extent_def Let_def)

text \<open>What a tile leaves alone: the position and the rectangle.\<close>

definition place :: "'d rfb \<Rightarrow> int \<times> int \<times> int \<times> int \<times> int \<times> int" where
  "place s = (rfb_x s, rfb_y s, rfb_rx s, rfb_ry s, rfb_rw s, rfb_rh s)"

lemma draw_subrects_place: "place (snd (draw_subrects P e rest n ptr s)) = place s"
  by (induction n arbitrary: ptr s) (simp_all add: Let_def split_beta, simp_all add: place_def)

lemma raw_tile_place: "place (snd (snd (raw_tile P rest s))) = place s"
  by (simp add: raw_tile_def setup_tile_def Let_def place_def)

lemma draw_tile_place: "place (snd (draw_tile P e rest n ptr s)) = place s"
  using draw_subrects_place [of P e rest n ptr]
  by (simp add: draw_tile_def setup_tile_def Let_def split_beta) (simp add: place_def)

lemma handle_tile_place: "place (snd (snd (handle_tile P rest s))) = place s"
proof -
  have "place (tile_extent s) = place s" by (simp add: place_def)
  moreover have "place (snd (snd (coded_tile P rest t))) = place t" for t
    using draw_tile_place [of P]
    by (auto simp: coded_tile_def read_bg_def read_fg_def read_subrects_def Let_def split_beta)
      (simp_all add: place_def)
  ultimately show ?thesis using raw_tile_place [of P rest] by (simp add: handle_tile_def Let_def split_beta)
qed

function handle_loop :: "'d tile_panel \<Rightarrow> bytes \<Rightarrow> nat \<Rightarrow> 'd rfb \<Rightarrow> nat \<times> bool \<times> 'd rfb" where
  "handle_loop P rfbBuffer progress s =
     (if rfb_y s < rfb_ry s + rfb_rh s
      then (if rfb_x s < rfb_rx s + rfb_rw s
            then (case handle_tile P (drop progress rfbBuffer) s of
                    (None, oob, t) \<Rightarrow> (progress, oob, t)
                  | (Some readLength, oob, t) \<Rightarrow>
                      (case handle_loop P rfbBuffer (progress + readLength) (t\<lparr>rfb_x := rfb_x t + 16\<rparr>) of
                         (progress, oob', t) \<Rightarrow> (progress, oob \<or> oob', t)))
            else handle_loop P rfbBuffer progress (s\<lparr>rfb_y := rfb_y s + 16, rfb_x := rfb_rx s\<rparr>))
      else (progress, False, s))"
  by pat_completeness auto
termination
proof (relation "measures [\<lambda>(P, b, p, s). nat (rfb_ry s + rfb_rh s - rfb_y s),
    \<lambda>(P, b, p, s). nat (rfb_rx s + rfb_rw s - rfb_x s)]", goal_cases)
  case (2 P b p s a y ob t n)
  then show ?case
    using handle_tile_place [of P "drop p b" s]
    by (cases "handle_tile P (drop p b) s") (auto simp: place_def)
qed auto

declare handle_loop.simps [simp del]

definition HandleHextile :: "'d tile_panel \<Rightarrow> bytes \<Rightarrow> 'd rfb \<Rightarrow> nat \<times> bool \<times> 'd rfb" where
  "HandleHextile P rfbBuffer s = handle_loop P rfbBuffer 0 s"

end
