(* ===== verification/RfbFile.thy ===== *)
theory RfbFile
  imports RfbHextile
begin

text \<open>
  \<open>RFBFileTest/main.c\<close>: the program that shows a recorded rectangle. The file is in flash
  memory and is given to \<open>HandleHextile\<close> in pieces that fit the buffer; the theorem is that
  this decodes it, tile by tile, as long as no tile is larger than the buffer. As it stands
  the program never gets there: the loop before it has no end.
\<close>

section \<open>The program\<close>

definition MAX_TILE_SIZE :: nat where "MAX_TILE_SIZE = 16 * (16 * 8 div 8) + 1"
definition RFBFILE_HEADER_SIZE :: nat where "RFBFILE_HEADER_SIZE = 12"

text \<open>The four 16-bit numbers at the start of the file; as \<open>int\<close> arguments they are signed.\<close>

definition file_word :: "bytes \<Rightarrow> nat \<Rightarrow> u16" where
  "file_word rawData i = ucast (rawData ! i) * 256 + ucast (rawData ! (i + 1))"

definition file_rect :: "bytes \<Rightarrow> 'd rfb \<Rightarrow> 'd rfb" where
  "file_rect rawData s =
     SetupHandleHextile (sint (file_word rawData 0)) (sint (file_word rawData 2))
       (sint (file_word rawData 4)) (sint (file_word rawData 6)) s"

text \<open>The loop over the file. None is a loop that does not end: a call may take nothing.\<close>

partial_function (option) decode_file :: "'d tile_panel \<Rightarrow> bytes \<Rightarrow> nat \<Rightarrow> 'd rfb \<Rightarrow> 'd rfb option" where
  "decode_file P rawData position s =
     (if position < length rawData
      then (let remaining = length rawData - position;
                remaining = (if remaining > MAX_TILE_SIZE then MAX_TILE_SIZE else remaining)
            in case HandleHextile P (take remaining (drop position rawData)) s of
                 (ret, oob, s) \<Rightarrow> decode_file P rawData (position + ret) s)
      else Some s)"

text \<open>The part of \<open>main\<close> behind its endless loop.\<close>

definition show_file :: "'d tile_panel \<Rightarrow> bytes \<Rightarrow> 'd rfb \<Rightarrow> 'd rfb option" where
  "show_file P rawData s = decode_file P rawData RFBFILE_HEADER_SIZE (file_rect rawData s)"

section \<open>A tile and more of the buffer\<close>

text \<open>What the program relies on: a raw tile is drawn from its own pixels.\<close>

locale raw_panel =
  fixes P :: "'d tile_panel"
  assumes raw_prefix: "unat n \<le> length xs \<Longrightarrow> tp_DrawRawTile P n (xs @ ys) d = tp_DrawRawTile P n xs d"

lemma draw_subrects_append:
  "ptr + n * (if e AND rfbHextileSubrectsColoured \<noteq> 0 then 3 else 2) \<le> length xs \<Longrightarrow>
    draw_subrects P e (xs @ ys) n ptr s = draw_subrects P e xs n ptr s"
proof (induction n arbitrary: ptr s)
  case (Suc n)
  have n: "(xs @ ys) ! ptr = xs ! ptr" "(xs @ ys) ! Suc ptr = xs ! Suc ptr"
    using Suc.prems by (auto simp: nth_append split: if_splits)
  show ?case
  proof (cases "e AND 16 = 0")
    case True
    with Suc n show ?thesis by (simp add: reads_past_def Let_def)
  next
    case False
    then have "(xs @ ys) ! Suc (Suc ptr) = xs ! Suc (Suc ptr)" using Suc.prems by (simp add: nth_append)
    with False Suc n show ?thesis by (simp add: reads_past_def Let_def)
  qed
qed simp

text \<open>The subrectangles are read inside the buffer if they end in it.\<close>

lemma draw_subrects_inside:
  "ptr + n * (if e AND rfbHextileSubrectsColoured \<noteq> 0 then 3 else 2) \<le> length rest \<Longrightarrow>
    \<not> fst (draw_subrects P e rest n ptr s)"
proof (induction n arbitrary: ptr s)
  case (Suc n)
  show ?case
  proof (cases "e AND 16 = 0")
    case True
    with Suc show ?thesis by (simp add: reads_past_def split_beta Let_def)
  next
    case False
    with Suc show ?thesis by (simp add: reads_past_def split_beta Let_def)
  qed
qed simp

lemma read_subrects_inside:
  assumes "read_subrects e rest k = (Some (n, ptr, len), oob)" and "len \<le> length rest"
  shows "\<not> fst (draw_tile P e rest n ptr s)"
proof -
  have "n = 0 \<or> ptr + n * (if e AND rfbHextileSubrectsColoured \<noteq> 0 then 3 else 2) \<le> length rest"
    using assms by (auto simp: read_subrects_def Let_def split: if_splits)
  then show ?thesis
    using draw_subrects_inside [of ptr n e rest P] by (auto simp: draw_tile_def split_beta Let_def)
qed

lemma tile_extent_twice: "tile_extent (tile_extent s) = tile_extent s"
  by (cases s) (simp add: tile_extent_def Let_def)

text \<open>The position is inside the rectangle.\<close>

definition inside :: "'d rfb \<Rightarrow> bool" where
  "inside s \<longleftrightarrow> rfb_x s < rfb_rx s + rfb_rw s \<and> rfb_y s < rfb_ry s + rfb_rh s"

lemma tile_area:
  assumes "inside s"
  shows "unat (word_of_int (rfb_w (tile_extent s) * rfb_h (tile_extent s)) :: u16) =
    nat (rfb_w (tile_extent s) * rfb_h (tile_extent s))"
proof -
  have w: "0 \<le> rfb_w (tile_extent s)" "rfb_w (tile_extent s) \<le> 16"
    and h: "0 \<le> rfb_h (tile_extent s)" "rfb_h (tile_extent s) \<le> 16"
    using assms by (simp_all add: tile_extent_def inside_def Let_def)
  then have "0 \<le> rfb_w (tile_extent s) * rfb_h (tile_extent s)" "rfb_w (tile_extent s) * rfb_h (tile_extent s) \<le> 16 * 16"
    using mult_mono [of "rfb_w (tile_extent s)" 16 "rfb_h (tile_extent s)" 16] by simp_all
  moreover have "unat (word_of_int k :: u16) = nat k" if "0 \<le> k" "k \<le> 16 * 16" for k :: int
    using that by (simp add: unsigned_of_int take_bit_int_eq_self)
  ultimately show ?thesis by blast
qed

text \<open>A tile of the coded kind in one equation: colours, subrectangles, picture.\<close>

definition set_bg :: "bool \<Rightarrow> u8 \<Rightarrow> 'd rfb \<Rightarrow> 'd rfb" where
  "set_bg b v s = (if b then s\<lparr>rfb_bg := v\<rparr> else s)"

definition set_fg :: "bool \<Rightarrow> u8 \<Rightarrow> 'd rfb \<Rightarrow> 'd rfb" where
  "set_fg f v s = (if f then s\<lparr>rfb_fg := v\<rparr> else s)"

lemma set_colours_again:
  "set_bg b v (set_bg b v s) = set_bg b v s" "set_fg f w (set_fg f w s) = set_fg f w s"
  "set_bg b v (set_fg f w (set_bg b v s)) = set_fg f w (set_bg b v s)"
  by (cases s; simp add: set_bg_def set_fg_def)+

definition tile_tail :: "'d tile_panel \<Rightarrow> bytes \<Rightarrow> nat \<Rightarrow> 'd rfb \<Rightarrow> nat option \<times> bool \<times> 'd rfb" where
  "tile_tail P rest nf s =
    (case read_subrects (rest ! 0) rest nf of
       (None, oob) \<Rightarrow> (None, oob, s)
     | (Some (n, ptr, len), oob) \<Rightarrow>
         if length rest < len then (None, oob, s) else (Some len, oob, snd (draw_tile P (rest ! 0) rest n ptr s)))"

lemma tile_tail_draws:
  "(case read_subrects (rest ! 0) rest nf of
     (None, oob) \<Rightarrow> (None, oob, s)
   | (Some (n, ptr, len), oob) \<Rightarrow>
       if length rest < len then (None, oob, s)
       else (case draw_tile P (rest ! 0) rest n ptr s of (drawn, s) \<Rightarrow> (Some len, oob \<or> drawn, s))) =
   tile_tail P rest nf s"
proof (cases "read_subrects (rest ! 0) rest nf")
  case (Pair r oob)
  show ?thesis
  proof (cases r)
    case (Some p)
    then obtain n ptr len where "read_subrects (rest ! 0) rest nf = (Some (n, ptr, len), oob)"
      using Pair by (cases p) auto
    with read_subrects_inside [OF this, of P s] show ?thesis by (simp add: tile_tail_def split_beta)
  qed (simp add: Pair tile_tail_def)
qed

lemma not_past: "i + n \<le> length rest \<Longrightarrow> \<not> reads_past rest i n"
  by (simp add: reads_past_def)

lemma handle_tile_eq:
  "handle_tile P rest s =
     (if rest = [] then (None, False, tile_extent s)
      else if rest ! 0 AND rfbHextileRaw \<noteq> 0 then raw_tile P rest (tile_extent s)
      else coded_tile P rest (tile_extent s))"
proof (cases rest)
  case (Cons x xs)
  then have "\<not> reads_past rest 0 1" by (simp add: reads_past_def)
  then show ?thesis by (simp only: handle_tile_def Let_def) (simp add: Cons)
qed (simp add: handle_tile_def)

definition has_bg :: "bytes \<Rightarrow> bool" where
  "has_bg rest \<longleftrightarrow> rest ! 0 AND rfbHextileBackgroundSpecified \<noteq> 0"

definition has_fg :: "bytes \<Rightarrow> bool" where
  "has_fg rest \<longleftrightarrow> rest ! 0 AND rfbHextileForegroundSpecified \<noteq> 0"

definition bg_end :: "bytes \<Rightarrow> nat" where "bg_end rest = (if has_bg rest then Suc (Suc 0) else Suc 0)"
definition fg_end :: "bytes \<Rightarrow> nat" where
  "fg_end rest = (if has_fg rest then Suc (bg_end rest) else bg_end rest)"

lemma coded_tile_eq:
  assumes "rest \<noteq> []"
  shows "coded_tile P rest s =
    (if length rest < bg_end rest then (None, False, s)
     else if length rest < fg_end rest then (None, False, set_bg (has_bg rest) (rest ! Suc 0) s)
     else tile_tail P rest (fg_end rest)
       (set_fg (has_fg rest) (rest ! bg_end rest) (set_bg (has_bg rest) (rest ! Suc 0) s)))"
  using assms
  by (cases "has_bg rest"; cases "has_fg rest")
    (simp_all add: coded_tile_def read_bg_def read_fg_def bg_end_def fg_end_def set_bg_def set_fg_def
      tile_tail_draws [symmetric] has_bg_def has_fg_def not_past not_less Let_def
      cong: if_cong cong del: option.case_cong_weak prod.case_cong_weak)

lemma header_append:
  assumes "xs \<noteq> []"
  shows "has_bg (xs @ ys) = has_bg xs" "has_fg (xs @ ys) = has_fg xs"
    "bg_end (xs @ ys) = bg_end xs" "fg_end (xs @ ys) = fg_end xs" "(xs @ ys) ! 0 = xs ! 0"
  using assms by (cases xs; simp add: has_bg_def has_fg_def bg_end_def fg_end_def)+

lemma colours_append:
  "bg_end xs \<le> length xs \<Longrightarrow> set_bg (has_bg xs) ((xs @ ys) ! Suc 0) s = set_bg (has_bg xs) (xs ! Suc 0) s"
  "fg_end xs \<le> length xs \<Longrightarrow> set_fg (has_fg xs) ((xs @ ys) ! bg_end xs) s = set_fg (has_fg xs) (xs ! bg_end xs) s"
  by (auto simp: set_bg_def set_fg_def bg_end_def fg_end_def nth_append split: if_splits)

lemma header_ends: "0 < bg_end rest \<and> bg_end rest \<le> fg_end rest"
  by (simp add: bg_end_def fg_end_def)

lemma read_subrects_ge:
  "read_subrects e rest k = (Some (m, p, len), oob) \<Longrightarrow> k \<le> len \<and> (k = length rest \<longrightarrow> oob \<longrightarrow> k < len)"
  by (auto simp: read_subrects_def Let_def split: if_splits)

lemma read_subrects_append:
  "k < length xs \<Longrightarrow> read_subrects e (xs @ ys) k = read_subrects e xs k"
  by (simp add: read_subrects_def Let_def nth_append not_past)

lemma tile_tail_append:
  assumes "xs \<noteq> []" and "tile_tail P xs k s = (Some n, ob, t)" and "0 < k" and "k \<le> length xs"
  shows "tile_tail P (xs @ ys) k s = (Some n, False, t) \<and> 0 < n \<and> n \<le> length xs \<and> \<not> ob"
proof -
  note z = header_append [OF assms(1)]
  obtain m ptr where r: "read_subrects (xs ! 0) xs k = (Some (m, ptr, n), ob)" "n \<le> length xs"
    "t = snd (draw_tile P (xs ! 0) xs m ptr s)"
    using assms(2) by (auto simp: tile_tail_def split: if_splits prod.splits option.splits)
  have r': "read_subrects (xs ! 0) (xs @ ys) k = (Some (m, ptr, n), False) \<and> \<not> ob \<and> 0 < n"
    using r(1,2) assms(3,4) by (auto simp: read_subrects_def reads_past_def nth_append Let_def split: if_splits)
  have "m = 0 \<or> ptr + m * (if xs ! 0 AND 16 \<noteq> 0 then 3 else 2) \<le> length xs"
    using r(1,2) by (auto simp: read_subrects_def Let_def split: if_splits)
  then have "draw_subrects P (xs ! 0) (xs @ ys) m ptr u = draw_subrects P (xs ! 0) xs m ptr u" for u
    using draw_subrects_append [of ptr m "xs ! 0" xs P ys u] by auto
  then have "snd (draw_tile P (xs ! 0) (xs @ ys) m ptr s) = t" unfolding r(3) draw_tile_def by simp
  with r(2) r' show ?thesis by (simp add: tile_tail_def z)
qed

lemma tile_tail_waits:
  assumes "xs \<noteq> []" and "tile_tail P xs k s = (None, ob, t)" and "k \<le> length xs"
  shows "t = s \<and> (fst (tile_tail P (xs @ ys) k s) = Some n \<longrightarrow> length xs < n)"
proof -
  note z = header_append [OF assms(1)]
  show ?thesis
  proof (cases "k < length xs")
    case True
    with assms(2) read_subrects_append [OF True, of "xs ! 0" ys] show ?thesis
      by (auto simp: tile_tail_def z split: prod.splits option.splits if_splits)
  next
    case False
    then have k: "k = length xs" using assms(3) by simp
    with assms(2) show ?thesis
      by (auto simp: tile_tail_def z read_subrects_def Let_def split: if_splits)
  qed
qed

lemma tile_tail_ge: "fst (tile_tail P rest k s) = Some n \<Longrightarrow> k \<le> n"
  using read_subrects_ge [of "rest ! 0" rest k]
  by (fastforce simp: tile_tail_def split: if_splits prod.splits option.splits)

lemma coded_tile_append:
  assumes "xs \<noteq> []" and "coded_tile P xs s = (Some n, ob, t)"
  shows "coded_tile P (xs @ ys) s = (Some n, False, t) \<and> 0 < n \<and> n \<le> length xs \<and> \<not> ob"
proof -
  note z = header_append [OF assms(1), of ys]
  have l: "bg_end xs \<le> length xs" "fg_end xs \<le> length xs" and tail: "tile_tail P xs (fg_end xs)
      (set_fg (has_fg xs) (xs ! bg_end xs) (set_bg (has_bg xs) (xs ! Suc 0) s)) = (Some n, ob, t)"
    using assms by (auto simp: coded_tile_eq split: if_splits)
  from tile_tail_append [OF assms(1) tail _ l(2), of ys] header_ends [of xs] l show ?thesis
    using assms(1) by (simp add: coded_tile_eq z colours_append)
qed

lemma coded_tile_waits:
  assumes "xs \<noteq> []" and "coded_tile P xs s = (None, ob, t)"
  shows "coded_tile P (xs @ ys) t = coded_tile P (xs @ ys) s \<and>
    (fst (coded_tile P (xs @ ys) s) = Some n \<longrightarrow> length xs < n)"
proof -
  note z = header_append [OF assms(1), of ys]
  note eq = coded_tile_eq [of "xs @ ys" P] coded_tile_eq [OF assms(1), of P]
  note h = header_ends [of xs]
  have big: "k < n" if "fst (coded_tile P (xs @ ys) s) = Some n" "k < fg_end xs" for k
    using that assms(1) tile_tail_ge [of P "xs @ ys" "fg_end xs"]
    by (fastforce simp: eq z split: if_splits)
  consider "length xs < bg_end xs" | "bg_end xs \<le> length xs" "length xs < fg_end xs" | "fg_end xs \<le> length xs"
    by linarith
  then show ?thesis
  proof cases
    case 1
    then have "t = s" using assms by (simp add: eq)
    with 1 big [of "length xs"] h show ?thesis by auto
  next
    case 2
    then have t: "t = set_bg (has_bg xs) (xs ! Suc 0) s" using assms by (simp add: eq)
    have "coded_tile P (xs @ ys) t = coded_tile P (xs @ ys) s"
      using assms(1) 2(1) unfolding t by (simp add: eq z colours_append set_colours_again)
    with 2 big [of "length xs"] show ?thesis by auto
  next
    case 3
    then have l: "bg_end xs \<le> length xs" using h by simp
    let ?s = "set_fg (has_fg xs) (xs ! bg_end xs) (set_bg (has_bg xs) (xs ! Suc 0) s)"
    have tail: "tile_tail P xs (fg_end xs) ?s = (None, ob, t)" using assms 3 l by (simp add: eq)
    from tile_tail_waits [OF assms(1) tail 3, of ys n] have t: "t = ?s"
      and n: "fst (tile_tail P (xs @ ys) (fg_end xs) ?s) = Some n \<longrightarrow> length xs < n" by auto
    have "coded_tile P (xs @ ys) t = coded_tile P (xs @ ys) s"
      using assms(1) 3 l unfolding t by (simp add: eq z colours_append set_colours_again)
    with n show ?thesis using assms(1) 3 l by (simp add: eq z colours_append)
  qed
qed

lemma raw_tile_waits:
  assumes "raw_tile P xs s = (None, ob, t)"
  shows "t = s \<and> (fst (raw_tile P (xs @ ys) s) = Some n \<longrightarrow> length xs < n)"
  using assms by (auto simp: raw_tile_def Let_def split: if_splits)

text \<open>A tile that is not complete changes nothing that is not changed again when it is.\<close>

lemma coded_tile_extent:
  "tile_extent s = s \<Longrightarrow> coded_tile P xs s = (None, ob, t) \<Longrightarrow> xs \<noteq> [] \<Longrightarrow> tile_extent t = t"
proof -
  have k: "tile_extent (set_bg b v u) = set_bg b v (tile_extent u)"
    "tile_extent (set_fg b v u) = set_fg b v (tile_extent u)" for b v and u :: "'a rfb"
    by (simp_all add: set_bg_def set_fg_def tile_extent_def Let_def)
  assume "tile_extent s = s" "coded_tile P xs s = (None, ob, t)" "xs \<noteq> []"
  then show ?thesis
    by (auto simp: coded_tile_eq tile_tail_def k split: if_splits prod.splits option.splits)
qed

lemma handle_tile_waits:
  assumes "handle_tile P xs s = (None, ob, t)"
  shows "handle_tile P (xs @ ys) t = handle_tile P (xs @ ys) s \<and>
    (fst (handle_tile P (xs @ ys) s) = Some n \<longrightarrow> length xs < n)"
proof (cases xs)
  case Nil
  with assms have "t = tile_extent s" by (simp add: handle_tile_eq)
  moreover have "0 < n" if "fst (handle_tile P ys s) = Some n"
    using that coded_tile_eq [of ys P "tile_extent s"] header_ends [of ys]
      tile_tail_ge [of P ys "fg_end ys" "set_fg (has_fg ys) (ys ! bg_end ys) (set_bg (has_bg ys) (ys ! Suc 0) (tile_extent s))" n]
    by (auto simp: handle_tile_eq raw_tile_def Let_def split: if_splits prod.splits)
  ultimately show ?thesis using Nil by (simp add: handle_tile_eq tile_extent_twice)
next
  case (Cons x xs')
  let ?s = "tile_extent s"
  show ?thesis
  proof (cases "x AND rfbHextileRaw \<noteq> 0")
    case True
    then obtain o2 where r: "raw_tile P xs ?s = (None, o2, t)"
      using assms by (auto simp: handle_tile_eq Cons split: prod.splits)
    from raw_tile_waits [OF r, of ys n] True show ?thesis
      by (auto simp: handle_tile_eq Cons tile_extent_twice split: prod.splits)
  next
    case False
    then have c: "coded_tile P xs ?s = (None, ob, t)" using assms by (simp add: handle_tile_eq Cons)
    have "xs \<noteq> []" by (simp add: Cons)
    from coded_tile_waits [OF this c, of ys n] coded_tile_extent [OF tile_extent_twice c this] False
    show ?thesis by (simp add: handle_tile_eq Cons)
  qed
qed

context raw_panel
begin

lemma raw_tile_append:
  assumes "inside s" and "raw_tile P xs (tile_extent s) = (Some n, ob, t)"
  shows "raw_tile P (xs @ ys) (tile_extent s) = (Some n, False, t) \<and> 0 < n \<and> n \<le> length xs \<and> \<not> ob"
proof -
  let ?s = "tile_extent s"
  have n: "n = 1 + nat (rfb_w ?s * rfb_h ?s)" "n \<le> length xs"
    using assms(2) by (simp_all add: raw_tile_def Let_def split: if_splits)
  then obtain x xs' where x: "xs = x # xs'" by (cases xs) auto
  have a: "unat (word_of_int (rfb_w ?s * rfb_h ?s) :: u16) \<le> length xs'"
    using n x unfolding tile_area [OF assms(1)] by simp
  then have "\<not> reads_past xs 1 (unat (word_of_int (rfb_w ?s * rfb_h ?s) :: u16))"
    "\<not> reads_past (xs @ ys) 1 (unat (word_of_int (rfb_w ?s * rfb_h ?s) :: u16))"
    using x by (simp_all add: not_past)
  with a show ?thesis
    using assms(2) n unfolding x by (auto simp: raw_tile_def setup_tile_def Let_def raw_prefix)
qed

lemma handle_tile_append:
  assumes "inside s" and "handle_tile P xs s = (Some n, ob, t)"
  shows "handle_tile P (xs @ ys) s = (Some n, False, t) \<and> 0 < n \<and> n \<le> length xs \<and> \<not> ob"
proof (cases xs)
  case (Cons x xs')
  then show ?thesis
    using assms raw_tile_append [OF assms(1), of xs n ob t ys] coded_tile_append [of xs P "tile_extent s" n ob t ys]
    by (auto simp: handle_tile_eq split: if_splits prod.splits)
qed (use assms in \<open>simp add: handle_tile_eq\<close>)

lemma handle_tile_prefix:
  assumes "inside s" and "handle_tile P (xs @ ys) s = (Some n, ob, t)" and "n \<le> length xs"
  shows "\<exists>ob. handle_tile P xs s = (Some n, ob, t)"
proof -
  obtain r ob' u where r: "handle_tile P xs s = (r, ob', u)" by (cases "handle_tile P xs s")
  show ?thesis
  proof (cases r)
    case None
    with handle_tile_waits [of P xs s ob' u ys n] r assms(2,3) show ?thesis by simp
  next
    case (Some m)
    with handle_tile_append [OF assms(1), of xs m ob' u ys] r assms(2) show ?thesis by auto
  qed
qed

end

section \<open>The tiles of a rectangle\<close>

text \<open>The rest of the rectangle is in \<open>rest\<close>, in tiles of \<open>ns\<close> bytes.\<close>

inductive tiles_read :: "'d tile_panel \<Rightarrow> bytes \<Rightarrow> 'd rfb \<Rightarrow> nat list \<Rightarrow> 'd rfb \<Rightarrow> bool" for P where
  finish: "\<not> rfb_y s < rfb_ry s + rfb_rh s \<Longrightarrow> tiles_read P rest s [] s"
| row: "rfb_y s < rfb_ry s + rfb_rh s \<Longrightarrow> \<not> rfb_x s < rfb_rx s + rfb_rw s \<Longrightarrow>
    tiles_read P rest (s\<lparr>rfb_y := rfb_y s + 16, rfb_x := rfb_rx s\<rparr>) ns u \<Longrightarrow> tiles_read P rest s ns u"
| tile: "inside s \<Longrightarrow> handle_tile P rest s = (Some n, ob, t) \<Longrightarrow>
    tiles_read P (drop n rest) (t\<lparr>rfb_x := rfb_x t + 16\<rparr>) ns u \<Longrightarrow> tiles_read P rest s (n # ns) u"

lemma tiles_read_none: "tiles_read P rest s ns u \<Longrightarrow> ns = [] \<Longrightarrow> rfb_panel u = rfb_panel s"
  by (induction rule: tiles_read.induct) simp_all

context raw_panel
begin

lemma tiles_read_positive: "tiles_read P rest s ns u \<Longrightarrow> list_all (\<lambda>n. 0 < n) ns"
proof (induction rule: tiles_read.induct)
  case (tile s rest n ob t ns u)
  from handle_tile_append [OF tile(1,2), of "[]"] tile(4) show ?case by simp
qed simp_all

text \<open>A call takes the tiles that are complete in its buffer, and leaves the others to be read.\<close>

lemma handle_loop_takes:
  assumes "tiles_read P zs s ns u" and "zs = xs @ ys"
    and "handle_loop P (pre @ xs) (length pre) s = (p, ob, t)"
  shows "\<exists>ks ms. ns = ks @ ms \<and> p = length pre + sum_list ks \<and> sum_list ks \<le> length xs \<and>
    tiles_read P (drop (sum_list ks) xs @ ys) t ms u \<and>
    (ks = [] \<longrightarrow> ns = [] \<or> length xs < hd ns)"
  using assms
proof (induction arbitrary: pre xs p ob rule: tiles_read.induct)
  case (finish s rest)
  then show ?case
    by (intro exI [of _ "[]"]) (auto simp: handle_loop.simps [of P _ _ s] intro: tiles_read.finish)
next
  case (row s rest ns u)
  then have "handle_loop P (pre @ xs) (length pre) (s\<lparr>rfb_y := rfb_y s + 16, rfb_x := rfb_rx s\<rparr>) = (p, ob, t)"
    by (simp add: handle_loop.simps [of P _ _ s])
  from row.IH [OF row.prems(1) this] show ?case .
next
  case (tile s rest n ob' v ns u)
  have ins: "rfb_y s < rfb_ry s + rfb_rh s" "rfb_x s < rfb_rx s + rfb_rw s"
    using tile.hyps(1) by (simp_all add: inside_def)
  show ?case
  proof (cases "n \<le> length xs")
    case True
    obtain o2 where x: "handle_tile P xs s = (Some n, o2, v)"
      using handle_tile_prefix [OF tile.hyps(1) tile.hyps(2) [unfolded tile.prems(1)] True] by blast
    obtain o3 where l: "handle_loop P (pre @ xs) (length pre + n) (v\<lparr>rfb_x := rfb_x v + 16\<rparr>) = (p, o3, t)"
      using tile.prems(2) ins x by (auto simp: handle_loop.simps [of P _ _ s] split: prod.splits)
    have "handle_loop P ((pre @ take n xs) @ drop n xs) (length (pre @ take n xs)) (v\<lparr>rfb_x := rfb_x v + 16\<rparr>) =
        (p, o3, t)" using l True by simp
    moreover have "drop n rest = drop n xs @ ys" using True tile.prems(1) by simp
    ultimately obtain ks ms where k: "ns = ks @ ms" "p = length pre + n + sum_list ks"
      "sum_list ks \<le> length xs - n" "tiles_read P (drop (sum_list ks) (drop n xs) @ ys) t ms u"
      using tile.IH [of "drop n xs" "pre @ take n xs" p o3] True by auto
    then show ?thesis
      using True by (intro exI [of _ "n # ks"] exI [of _ ms]) (simp add: add.commute)
  next
    case False
    obtain r o2 w where r: "handle_tile P xs s = (r, o2, w)" by (cases "handle_tile P xs s")
    have "r = None"
      using handle_tile_append [OF tile.hyps(1), of xs _ o2 w ys] r tile.hyps(2) tile.prems(1) False
      by (cases r) auto
    then have x: "handle_tile P xs s = (None, o2, w)" using r by simp
    have "p = length pre" "t = w"
      using tile.prems(2) ins x by (auto simp: handle_loop.simps [of P _ _ s])
    moreover have "tiles_read P rest w (n # ns) u"
    proof (rule tiles_read.tile)
      show "inside w" using tile.hyps(1) handle_tile_place [of P xs s] x by (simp add: inside_def place_def)
      show "handle_tile P rest w = (Some n, ob', v)"
        using handle_tile_waits [OF x, of ys n] tile.hyps(2) tile.prems(1) by simp
    qed (rule tile.hyps(3))
    ultimately show ?thesis
      using tile.prems(1) False by (intro exI [of _ "[]"] exI [of _ "n # ns"]) auto
  qed
qed

text \<open>The program decodes the file if its tiles fit the buffer and nothing follows them.\<close>

lemma decode_file_reads:
  assumes "tiles_read P (drop position rawData) s ns u"
    and "sum_list ns = length rawData - position" and "list_all (\<lambda>n. n \<le> MAX_TILE_SIZE) ns"
  shows "\<exists>t. decode_file P rawData position s = Some t \<and> rfb_panel t = rfb_panel u"
  using assms
proof (induction ns arbitrary: position s rule: length_induct)
  case (1 ns)
  show ?case
  proof (cases "position < length rawData")
    case False
    moreover have "ns = []"
      using tiles_read_positive [OF "1.prems"(1)] "1.prems"(2) False by (cases ns) auto
    ultimately show ?thesis
      using tiles_read_none [OF "1.prems"(1)] by (simp add: decode_file.simps [of P _ _ s])
  next
    case True
    define n where "n = (if length rawData - position > MAX_TILE_SIZE then MAX_TILE_SIZE else length rawData - position)"
    define xs where "xs = take n (drop position rawData)"
    define ys where "ys = drop n (drop position rawData)"
    obtain ret ob v where h: "HandleHextile P xs s = (ret, ob, v)" by (cases "HandleHextile P xs s")
    have split: "drop position rawData = xs @ ys" by (simp only: xs_def ys_def append_take_drop_id)
    have len: "length xs = n" "n \<le> length rawData - position" by (simp_all add: xs_def n_def)
    have l: "handle_loop P ([] @ xs) (length []) s = (ret, ob, v)" using h by (simp add: HandleHextile_def)
    obtain ks ms where
      t: "ns = ks @ ms" "ret = length ([] :: bytes) + sum_list ks" "sum_list ks \<le> length xs"
        "tiles_read P (drop (sum_list ks) xs @ ys) v ms u" "ks = [] \<longrightarrow> ns = [] \<or> length xs < hd ns"
      using handle_loop_takes [OF "1.prems"(1) split l] by blast
    then have k: "ns = ks @ ms" "ret = sum_list ks" "ret \<le> length xs"
        "tiles_read P (drop ret xs @ ys) v ms u" "ks = [] \<longrightarrow> ns = [] \<or> length xs < hd ns"
      by simp_all
    have "ns \<noteq> []" using "1.prems"(2) True by auto
    moreover have "hd ns \<le> length xs"
      using "1.prems"(2,3) \<open>ns \<noteq> []\<close> by (cases ns) (auto simp: len(1) n_def)
    ultimately have "ks \<noteq> []" using k(5) by auto
    then have shorter: "length ms < length ns" using k(1) by (cases ks) auto
    have rest: "drop (position + ret) rawData = drop ret xs @ ys"
    proof -
      have "drop (position + ret) rawData = drop ret (drop position rawData)" by (simp add: add.commute)
      also have "\<dots> = drop ret xs @ ys" unfolding split using k(3) by simp
      finally show ?thesis .
    qed
    have "sum_list ms = length rawData - (position + ret)" "list_all (\<lambda>n. n \<le> MAX_TILE_SIZE) ms"
      using k(1,2) "1.prems"(2,3) by simp_all
    with "1.IH" [rule_format, OF shorter, of "position + ret" v] k(4) rest
    obtain t where "decode_file P rawData (position + ret) v = Some t" "rfb_panel t = rfb_panel u" by auto
    then show ?thesis
      using True h by (simp add: decode_file.simps [of P _ _ s] Let_def xs_def n_def)
  qed
qed

text \<open>A tile that does not fit the buffer is never taken, and the loop does not end.\<close>

lemma stuck_decodes_nothing:
  assumes "inside s" and "fst (handle_tile P (drop position rawData) s) = Some n" and "MAX_TILE_SIZE < n"
  shows "decode_file P rawData position s = None"
proof -
  obtain ob t where all: "handle_tile P (drop position rawData) s = (Some n, ob, t)"
    using assms(2) by (cases "handle_tile P (drop position rawData) s") auto
  have long: "length rawData - position > MAX_TILE_SIZE" "position < length rawData"
    using handle_tile_append [OF assms(1) all, of "[]"] assms(3) by auto
  define xs where "xs = take MAX_TILE_SIZE (drop position rawData)"
  define ys where "ys = drop MAX_TILE_SIZE (drop position rawData)"
  have split: "drop position rawData = xs @ ys" by (simp only: xs_def ys_def append_take_drop_id)
  have len: "length xs < n" using assms(3) by (simp add: xs_def)
  define stuck where "stuck u \<longleftrightarrow> inside u \<and> handle_tile P (xs @ ys) u = (Some n, ob, t)" for u
  have step: "\<exists>o2 v. HandleHextile P xs u = (0, o2, v) \<and> stuck v" if "stuck u" for u
  proof -
    obtain r o2 v where r: "handle_tile P xs u = (r, o2, v)" by (cases "handle_tile P xs u")
    have "r = None"
      using handle_tile_append [of u xs _ o2 v ys] r that len by (cases r) (auto simp: stuck_def)
    with r have w: "handle_tile P xs u = (None, o2, v)" by simp
    have "inside v" using that handle_tile_place [of P xs u] w by (simp add: stuck_def inside_def place_def)
    then have "stuck v" using that handle_tile_waits [OF w, of ys n] by (simp add: stuck_def)
    then show ?thesis using w that
      by (auto simp: HandleHextile_def handle_loop.simps [of P _ _ u] stuck_def inside_def)
  qed
  have never: "Q = P \<longrightarrow> raw = rawData \<longrightarrow> pos = position \<longrightarrow> \<not> stuck u"
    if "decode_file Q raw pos u = Some v" for Q raw pos u v
  proof (rule decode_file.raw_induct [where Pa = "\<lambda>(((Q, raw), pos), u) v. Q = P \<longrightarrow> raw = rawData \<longrightarrow> pos = position \<longrightarrow> \<not> stuck u",
        OF _ that, simplified prod.case], intro impI notI)
    fix f :: "'d tile_panel \<Rightarrow> bytes \<Rightarrow> nat \<Rightarrow> 'd rfb \<Rightarrow> 'd rfb option" and Q raw pos u v
    assume IH: "\<And>Q raw pos u v. f Q raw pos u = Some v \<Longrightarrow>
        Q = P \<longrightarrow> raw = rawData \<longrightarrow> pos = position \<longrightarrow> \<not> stuck u"
      and body: "(if pos < length raw
        then let remaining = length raw - pos;
                 remaining = if MAX_TILE_SIZE < remaining then MAX_TILE_SIZE else remaining
             in case HandleHextile Q (take remaining (drop pos raw)) u of (ret, oob, s) \<Rightarrow> f Q raw (pos + ret) s
        else Some u) = Some v"
      and eq: "Q = P" "raw = rawData" "pos = position" and "stuck u"
    from step [OF this(6)] obtain o2 w where w: "HandleHextile P xs u = (0, o2, w)" "stuck w" by blast
    with body eq long have "f P rawData position w = Some v" by (simp add: Let_def xs_def)
    from IH [OF this] w(2) show False by simp
  qed
  have "stuck s" using assms(1) all by (simp add: stuck_def split)
  then show ?thesis using never by (cases "decode_file P rawData position s") auto
qed

end

text \<open>
  The read behind the buffer: the header ends where the buffer does. No other read leaves it.
\<close>

lemma handle_tile_overreads:
  assumes "inside s"
  shows "fst (snd (handle_tile P rest s)) \<longleftrightarrow>
     rest \<noteq> [] \<and> rest ! 0 AND rfbHextileRaw = 0 \<and> rest ! 0 AND rfbHextileAnySubrects \<noteq> 0 \<and>
     length rest = fg_end rest"
proof (cases "rest = [] \<or> rest ! 0 AND rfbHextileRaw \<noteq> 0")
  case True
  have "\<not> fst (snd (raw_tile P rest (tile_extent s)))"
    by (auto simp: raw_tile_def setup_tile_def Let_def tile_area [OF assms] simp del: of_int_mult intro!: not_past)
  with True show ?thesis by (auto simp: handle_tile_eq)
next
  case False
  have tail: "fst (snd (tile_tail P rest k u)) \<longleftrightarrow> rest ! 0 AND 8 \<noteq> 0 \<and> length rest = k" if "k \<le> length rest" for k u
    using that by (auto simp: tile_tail_def read_subrects_def reads_past_def Let_def)
  show ?thesis
    using False tail [of "fg_end rest"] header_ends [of rest]
    by (auto simp: handle_tile_eq coded_tile_eq)
qed

end
