(* ===== verification/Eink.thy ===== *)
theory Eink
  imports SpiLcd RfbFile
begin

text \<open>
  The panels of the file viewer \<open>RFBFileTest\<close>: the e-paper driver \<open>eink.c\<close>, which is
  the one selected, and the drawing functions of its \<open>SpiLcd.c\<close> for the ST7735R panel with
  8-bit pixels (the rest of that file is the driver of theory \<open>SpiLcd\<close>). Both give the
  drawing calls of the hextile decoder; those of the e-paper driver are compiled out. Then
  the program that uses the e-paper panel, \<open>main.c\<close>.
\<close>

section \<open>The e-paper driver\<close>

text \<open>\<open>ek_wire\<close> records each transfer with the levels of the data/command and chip-select lines.\<close>

record eink =
  ek_DDRB :: u8
  ek_PORTB :: u8
  ek_DDRD :: u8
  ek_PORTD :: u8
  ek_SPCR :: u8
  ek_SPDR :: u8
  ek_wire :: "lcd_event list"

definition eink_boot :: eink where
  "eink_boot =
    \<lparr>ek_DDRB = 0, ek_PORTB = 0, ek_DDRD = 0, ek_PORTD = 0, ek_SPCR = 0, ek_SPDR = 0, ek_wire = []\<rparr>"

abbreviation (input) "DD_EINK_CS1 \<equiv> 6 :: nat"
abbreviation (input) "DD_EINK_DC \<equiv> 5 :: nat"
abbreviation (input) "DD_EINK_CS2 \<equiv> 4 :: nat"

text \<open>The six macros make the pin an output and set its level.\<close>

definition eink_pin_low :: "nat \<Rightarrow> eink \<Rightarrow> eink" where
  "eink_pin_low n s =
     (let s = s\<lparr>ek_DDRD := ek_DDRD s OR push_bit n 1\<rparr>
      in s\<lparr>ek_PORTD := ek_PORTD s AND NOT (push_bit n 1)\<rparr>)"

definition eink_pin_high :: "nat \<Rightarrow> eink \<Rightarrow> eink" where
  "eink_pin_high n s =
     (let s = s\<lparr>ek_DDRD := ek_DDRD s OR push_bit n 1\<rparr>
      in s\<lparr>ek_PORTD := ek_PORTD s OR push_bit n 1\<rparr>)"

definition eink_SPI_MasterTransmit :: "u8 \<Rightarrow> eink \<Rightarrow> eink" where
  "eink_SPI_MasterTransmit cData s =
     s\<lparr>ek_SPDR := cData,
       ek_wire := ek_wire s @ [Transfer (bit (ek_PORTD s) DD_EINK_DC) (bit (ek_PORTD s) DD_EINK_CS1) cData]\<rparr>"

definition writeComm :: "u8 \<Rightarrow> eink \<Rightarrow> eink" where
  "writeComm c s =
     (let s = eink_pin_high DD_EINK_CS1 s;
          s = eink_pin_low DD_EINK_DC s;
          s = eink_pin_low DD_EINK_CS1 s;
          s = eink_SPI_MasterTransmit c s
      in eink_pin_high DD_EINK_CS1 s)"

definition writeData :: "u8 \<Rightarrow> eink \<Rightarrow> eink" where
  "writeData d s =
     (let s = eink_pin_high DD_EINK_CS1 s;
          s = eink_pin_high DD_EINK_DC s;
          s = eink_pin_low DD_EINK_CS1 s;
          s = eink_SPI_MasterTransmit d s
      in eink_pin_high DD_EINK_CS1 s)"

definition eink_delay_ms :: "nat \<Rightarrow> eink \<Rightarrow> eink" where
  "eink_delay_ms n s = s\<lparr>ek_wire := ek_wire s @ [Delay n]\<rparr>"

text \<open>A straight line of \<open>writeComm\<close>, \<open>writeData\<close> and \<open>_delay_ms\<close>, as in theory \<open>SpiLcd\<close>.\<close>

primrec eink_stmt_run :: "lcd_stmt \<Rightarrow> eink \<Rightarrow> eink" where
  "eink_stmt_run (Cmd c) s = writeComm c s"
| "eink_stmt_run (Dat d) s = writeData d s"
| "eink_stmt_run (Wait n) s = eink_delay_ms n s"

definition eink_seq :: "lcd_stmt list \<Rightarrow> eink \<Rightarrow> eink" where
  "eink_seq prog s = fold eink_stmt_run prog s"

definition init_data :: bytes where
  "init_data =
    [0x82,0x00,0x00,0x00,0xAA,0x00,0x00,0x00,
     0xAA,0xAA,0x00,0x00,0xAA,0xAA,0xAA,0x00,
     0x55,0xAA,0xAA,0x00,0x55,0x55,0x55,0x55,
     0xAA,0xAA,0xAA,0xAA,0x55,0x55,0x55,0x55,
     0xAA,0xAA,0xAA,0xAA,0x15,0x15,0x15,0x15,
     0x05,0x05,0x05,0x05,0x01,0x01,0x01,0x01,
     0x00,0x00,0x00,0x00,0x00,0x00,0x00,0x00,
     0x00,0x00,0x00,0x00,0x00,0x00,0x00,0x00,
     0x00,0x00,0x00,0x00,0x00,0x00,0x00,0x00,
     0x00,0x00,0x00,0x00,0x00,0x00,0x00,0x00,
     0x41,0x45,0xF1,0xFF,0x5F,0x55,0x01,0x00,
     0x00,0x00]"

definition configureLUTRegister :: "eink \<Rightarrow> eink" where
  "configureLUTRegister s = fold (\<lambda>i s. writeData (init_data ! i) s) [0..<90] (writeComm 0x32 s)"

definition initEink_seq :: "lcd_stmt list" where
  "initEink_seq =
    [Cmd 0x10, Dat 0x00, Cmd 0x11, Dat 0x03,
     Cmd 0x44, Dat 0x00, Dat 0x11, Cmd 0x45, Dat 0x00, Dat 0xAB,
     Cmd 0x4E, Dat 0x00, Cmd 0x4F, Dat 0x00,
     Cmd 0x21, Dat 0x03, Cmd 0xF0, Dat 0x1F,
     Cmd 0x2C, Dat 0xA0, Cmd 0x3C, Dat 0x63, Cmd 0x22, Dat 0xC4]"

definition initEink :: "eink \<Rightarrow> eink" where
  "initEink s = configureLUTRegister (eink_seq initEink_seq s)"

definition closeBump :: "eink \<Rightarrow> eink" where
  "closeBump s = writeComm 0x20 (writeData 0x03 (writeComm 0x22 s))"

definition refreshScreen :: "eink \<Rightarrow> eink" where
  "refreshScreen s =
     (let s = writeComm 0x20 s;
          s = closeBump s
      in eink_delay_ms 5000 s)"

definition clearScreen :: "eink \<Rightarrow> eink" where
  "clearScreen s =
     (let s = initEink s;
          s = writeComm 0x24 s;
          s = fold (\<lambda>i s. writeData 0xff s) [0..<3096] s
      in eink_delay_ms 1000 s)"

definition setPositionXY :: "u8 \<Rightarrow> u8 \<Rightarrow> u8 \<Rightarrow> u8 \<Rightarrow> eink \<Rightarrow> eink" where
  "setPositionXY Xs Xe Ys Ye s =
     eink_seq [Cmd 0x44, Dat Xs, Dat Xe, Cmd 0x45, Dat Ys, Dat Ye, Cmd 0x4E, Dat Xs, Cmd 0x4F, Dat Ys] s"

definition EinkSetup :: "eink \<Rightarrow> eink" where
  "EinkSetup s =
     (let s = eink_pin_high DD_EINK_CS2 s;
          s = s\<lparr>ek_DDRB := ek_DDRB s OR push_bit DD_MOSI 1\<rparr>;
          s = s\<lparr>ek_DDRB := ek_DDRB s OR push_bit DD_SCK 1\<rparr>;
          s = s\<lparr>ek_PORTB := ek_PORTB s OR push_bit DD_SPI_SS 1\<rparr>
      in s\<lparr>ek_SPCR := push_bit SPE 1 OR push_bit MSTR 1\<rparr>)"

definition eink_LcdInit :: "eink \<Rightarrow> eink" where
  "eink_LcdInit s = clearScreen (EinkSetup s)"

text \<open>The bodies of the drawing functions are compiled out.\<close>

definition eink_SetupTile :: "u16 \<Rightarrow> u16 \<Rightarrow> u8 \<Rightarrow> u8 \<Rightarrow> eink \<Rightarrow> eink" where
  "eink_SetupTile tileX tileY tileW tileH s = s"
definition eink_DrawRawTile :: "u16 \<Rightarrow> bytes \<Rightarrow> eink \<Rightarrow> eink" where
  "eink_DrawRawTile pixelCount pixelBuffer s = s"
definition eink_DrawHextile :: "u8 \<Rightarrow> u8 \<Rightarrow> eink \<Rightarrow> eink" where
  "eink_DrawHextile tileW tileH s = s"
definition eink_FillSubRectangle :: "u8 \<Rightarrow> u8 \<Rightarrow> u8 \<Rightarrow> u8 \<Rightarrow> u16 \<Rightarrow> eink \<Rightarrow> eink" where
  "eink_FillSubRectangle x y w h pixel s = s"

definition eink_panel :: "eink tile_panel" where
  "eink_panel = \<lparr>tp_SetupTile = eink_SetupTile, tp_DrawRawTile = eink_DrawRawTile,
     tp_FillSubRectangle = eink_FillSubRectangle, tp_DrawHextile = eink_DrawHextile\<rparr>"

interpretation eink: raw_panel eink_panel
  by unfold_locales (simp add: eink_panel_def eink_DrawRawTile_def)

section \<open>The program of the e-paper panel\<close>

text \<open>
  \<open>main\<close> up to its loop and the rounds of the loop, which has no end. The watchdog flag
  \<open>MCUSR\<close> and the interrupt flag are not used by the driver; \<open>DEBUG_SET_GPIOS_OUTPUT\<close>
  makes PB6 and PB7 outputs.
\<close>

definition eink_main_init :: "eink \<Rightarrow> eink" where
  "eink_main_init s =
     (let s = s\<lparr>ek_DDRB := ek_DDRB s OR (push_bit 6 1 OR push_bit 7 1)\<rparr>;
          s = eink_LcdInit s
      in refreshScreen s)"

definition eink_main_round :: "eink \<Rightarrow> eink" where
  "eink_main_round s =
     (let s = eink_delay_ms 2000 s;
          s = clearScreen s
      in refreshScreen s)"

section \<open>What reaches the e-paper panel\<close>

primrec eink_event :: "lcd_stmt \<Rightarrow> lcd_event" where
  "eink_event (Cmd c) = cmd_event c"
| "eink_event (Dat d) = dat_event d"
| "eink_event (Wait n) = Delay n"

lemma ek_wire_writeComm: "ek_wire (writeComm c s) = ek_wire s @ [cmd_event c]"
  by (simp add: writeComm_def eink_SPI_MasterTransmit_def eink_pin_low_def eink_pin_high_def cmd_event_def Let_def bit_simps)

lemma ek_wire_writeData: "ek_wire (writeData d s) = ek_wire s @ [dat_event d]"
  by (simp add: writeData_def eink_SPI_MasterTransmit_def eink_pin_low_def eink_pin_high_def dat_event_def Let_def bit_simps)

lemma ek_wire_delay: "ek_wire (eink_delay_ms n s) = ek_wire s @ [Delay n]"
  by (simp add: eink_delay_ms_def)

lemmas ek_wire_simps = ek_wire_writeComm ek_wire_writeData ek_wire_delay

lemma ek_wire_seq: "ek_wire (eink_seq prog s) = ek_wire s @ map eink_event prog"
proof (induction prog arbitrary: s)
  case (Cons x prog)
  then show ?case by (cases x) (simp_all add: eink_seq_def ek_wire_simps)
qed (simp add: eink_seq_def)

lemma ek_wire_fold:
  assumes "\<And>x s. ek_wire (f x s) = ek_wire s @ [g x]"
  shows "ek_wire (fold f xs s) = ek_wire s @ map g xs"
  by (induction xs arbitrary: s) (simp_all add: assms)

text \<open>The writes of the whole RAM window: its corners, and as many bytes as it has cells.\<close>

definition eink_window :: "u8 \<times> u8 \<times> u8 \<times> u8" where
  "eink_window = (0x00, 0x11, 0x00, 0xAB)"

definition eink_white :: "lcd_stmt list" where
  "eink_white =
     (case eink_window of (xs, xe, ys, ye) \<Rightarrow>
       [Cmd 0x10, Dat 0x00, Cmd 0x11, Dat 0x03] @
       [Cmd 0x44, Dat xs, Dat xe, Cmd 0x45, Dat ys, Dat ye, Cmd 0x4E, Dat xs, Cmd 0x4F, Dat ys] @
       [Cmd 0x21, Dat 0x03, Cmd 0xF0, Dat 0x1F, Cmd 0x2C, Dat 0xA0, Cmd 0x3C, Dat 0x63, Cmd 0x22, Dat 0xC4] @
       Cmd 0x32 # map Dat init_data @
       Cmd 0x24 # replicate ((unat xe - unat xs + 1) * (unat ye - unat ys + 1)) (Dat 0xff) @ [Wait 1000])"

definition eink_show :: "lcd_stmt list" where
  "eink_show = [Cmd 0x20, Cmd 0x22, Dat 0x03, Cmd 0x20, Wait 5000]"

lemma ek_wire_LUT: "ek_wire (configureLUTRegister s) = ek_wire s @ map eink_event (Cmd 0x32 # map Dat init_data)"
proof -
  have "map (\<lambda>i. dat_event (init_data ! i)) [0..<90] = map dat_event init_data"
    by (simp add: init_data_def numeral_eq_Suc upt_conv_Cons del: upt_Suc)
  then show ?thesis
    by (simp add: configureLUTRegister_def ek_wire_fold [where g = "\<lambda>i. dat_event (init_data ! i)"] ek_wire_simps comp_def)
qed

lemma ek_wire_clearScreen: "ek_wire (clearScreen s) = ek_wire s @ map eink_event eink_white"
proof -
  have "ek_wire (fold (\<lambda>i s. writeData 0xff s) [0..<3096] t) = ek_wire t @ replicate 3096 (dat_event 0xff)" for t
    by (simp add: ek_wire_fold [where g = "\<lambda>_. dat_event 0xff"] ek_wire_simps map_replicate_const)
  moreover have "(unat (0x11 :: u8) - unat (0x00 :: u8) + 1) * (unat (0xAB :: u8) - unat (0x00 :: u8) + 1) = 3096"
    by simp
  ultimately show ?thesis
    unfolding eink_white_def eink_window_def prod.case
    by (simp only:) (simp add: clearScreen_def initEink_def initEink_seq_def Let_def ek_wire_simps ek_wire_LUT ek_wire_seq)
qed

lemma ek_wire_refreshScreen: "ek_wire (refreshScreen s) = ek_wire s @ map eink_event eink_show"
  by (simp add: refreshScreen_def closeBump_def eink_show_def Let_def ek_wire_simps)

lemma ek_wire_EinkSetup: "ek_wire (EinkSetup s) = ek_wire s"
  by (simp add: EinkSetup_def eink_pin_high_def Let_def)

lemma ek_wire_main_init: "ek_wire (eink_main_init s) = ek_wire s @ map eink_event (eink_white @ eink_show)"
  by (simp add: eink_main_init_def eink_LcdInit_def Let_def ek_wire_refreshScreen ek_wire_clearScreen ek_wire_EinkSetup)

lemma ek_wire_main_round:
  "ek_wire (eink_main_round s) = ek_wire s @ map eink_event (Wait 2000 # eink_white @ eink_show)"
  by (simp add: eink_main_round_def Let_def ek_wire_refreshScreen ek_wire_clearScreen ek_wire_delay)

lemma ek_wire_main:
  "ek_wire ((eink_main_round ^^ n) (eink_main_init s)) =
     ek_wire s @ map eink_event (eink_white @ eink_show @ concat (replicate n (Wait 2000 # eink_white @ eink_show)))"
proof (induction n)
  case (Suc n)
  have "concat (replicate (Suc n) x) = concat (replicate n x) @ x" for x :: "lcd_stmt list"
    by (induction n) simp_all
  then show ?case using Suc by (simp only: funpow.simps comp_apply ek_wire_main_round map_append append_assoc)
qed (simp add: ek_wire_main_init)

lemma setPositionXY_window:
  "eink_seq initEink_seq s =
     eink_seq [Cmd 0x21, Dat 0x03, Cmd 0xF0, Dat 0x1F, Cmd 0x2C, Dat 0xA0, Cmd 0x3C, Dat 0x63, Cmd 0x22, Dat 0xC4]
       (setPositionXY 0x00 0x11 0x00 0xAB (eink_seq [Cmd 0x10, Dat 0x00, Cmd 0x11, Dat 0x03] s))"
  by (simp add: initEink_seq_def eink_seq_def setPositionXY_def)

section \<open>The 8-bit drawing functions\<close>

text \<open>
  \<open>hextileBuffer[16][16]\<close> row after row. A store outside the 256 bytes sets the fault flag
  and is dropped. The counters of \<open>FillSubRectangle\<close> are \<open>unsigned char\<close>: for a
  rectangle that ends at 256 or behind it the loop of the program has no end; the decoder passes
  ends of at most 31. The bookkeeping of \<open>freeMemory\<close> is left out.
\<close>

record lcd8 =
  l8_panel :: spi_lcd
  l8_buffer :: bytes
  l8_fault :: bool

definition lcd8_boot :: "spi_lcd \<Rightarrow> lcd8" where
  "lcd8_boot d = \<lparr>l8_panel = d, l8_buffer = replicate 256 0, l8_fault = False\<rparr>"

definition lcd8_store :: "nat \<Rightarrow> nat \<Rightarrow> u8 \<Rightarrow> lcd8 \<Rightarrow> lcd8" where
  "lcd8_store j i v s =
     (if j * 16 + i < length (l8_buffer s) then s\<lparr>l8_buffer := (l8_buffer s)[j * 16 + i := v]\<rparr>
      else s\<lparr>l8_fault := True\<rparr>)"

definition lcd8_SetupTile :: "u16 \<Rightarrow> u16 \<Rightarrow> u8 \<Rightarrow> u8 \<Rightarrow> lcd8 \<Rightarrow> lcd8" where
  "lcd8_SetupTile tileX tileY tileW tileH s = s\<lparr>l8_panel := spi_SetupTile tileX tileY tileW tileH (l8_panel s)\<rparr>"

definition lcd8_DrawRawTile :: "u16 \<Rightarrow> bytes \<Rightarrow> lcd8 \<Rightarrow> lcd8" where
  "lcd8_DrawRawTile pixelCount pixelBuffer s =
     s\<lparr>l8_panel := fold (\<lambda>i d. Write8bitPixel (pixelBuffer ! i) d) [0..<unat pixelCount] (l8_panel s)\<rparr>"

definition lcd8_DrawHextile :: "u8 \<Rightarrow> u8 \<Rightarrow> lcd8 \<Rightarrow> lcd8" where
  "lcd8_DrawHextile tileW tileH s =
     s\<lparr>l8_panel := fold (\<lambda>j d. fold (\<lambda>i d. Write8bitPixel (l8_buffer s ! (j * 16 + i)) d)
         [0..<unat tileW] d) [0..<unat tileH] (l8_panel s)\<rparr>"

definition lcd8_FillSubRectangle :: "u8 \<Rightarrow> u8 \<Rightarrow> u8 \<Rightarrow> u8 \<Rightarrow> u16 \<Rightarrow> lcd8 \<Rightarrow> lcd8" where
  "lcd8_FillSubRectangle x y w h pixel s =
     fold (\<lambda>j s. fold (\<lambda>i s. lcd8_store j i (ucast pixel) s) [unat x..<unat x + unat w] s)
       [unat y..<unat y + unat h] s"

definition lcd8_panel :: "lcd8 tile_panel" where
  "lcd8_panel = \<lparr>tp_SetupTile = lcd8_SetupTile, tp_DrawRawTile = lcd8_DrawRawTile,
     tp_FillSubRectangle = lcd8_FillSubRectangle, tp_DrawHextile = lcd8_DrawHextile\<rparr>"

interpretation lcd8: raw_panel lcd8_panel
proof
  fix n :: u16 and xs ys :: bytes and d
  assume "unat n \<le> length xs"
  then have "fold (\<lambda>i d. Write8bitPixel ((xs @ ys) ! i) d) [0..<unat n] p =
      fold (\<lambda>i d. Write8bitPixel (xs ! i) d) [0..<unat n] p" for p
    by (intro fold_cong) (auto simp: nth_append)
  then show "tp_DrawRawTile lcd8_panel n (xs @ ys) d = tp_DrawRawTile lcd8_panel n xs d"
    by (simp add: lcd8_panel_def lcd8_DrawRawTile_def)
qed

end
