(* ===== verification/FrameServer.thy ===== *)
theory FrameServer
  imports Prelude
begin

text \<open>
  \<open>FrameServer/frameserver.c\<close>: the VNC server of the repository. libvncserver serves the
  frame buffer; the program takes pictures from one file and puts key presses in another. The
  library's calls are logged (\<open>fs_marks\<close>, \<open>fs_closed\<close>). Whether a file opens and
  what it holds are arguments of a round. Sizes are \<open>nat\<close> and C \<open>int\<close>s are integers:
  the screen of 128 by 160 pixels is far from the limits of the type.
\<close>

section \<open>State\<close>

definition bpp :: nat where "bpp = 4"

record frame_server =
  fs_maxx :: nat
  fs_maxy :: nat
  fs_frame :: bytes
  fs_saved :: u8
  fs_runonce :: bool
  fs_input :: "bytes option"
  fs_marks :: "(int \<times> int \<times> int \<times> int) list"
  fs_closed :: nat

text \<open>The frame buffer comes from \<open>malloc\<close>, its contents are an argument.\<close>

definition fs_boot :: "bytes \<Rightarrow> frame_server" where
  "fs_boot frame =
    \<lparr>fs_maxx = 128, fs_maxy = 160, fs_frame = frame, fs_saved = 0, fs_runonce = False,
     fs_input = None, fs_marks = [], fs_closed = 0\<rparr>"

definition newframebuffer :: "nat \<Rightarrow> nat \<Rightarrow> bytes \<Rightarrow> frame_server \<Rightarrow> frame_server" where
  "newframebuffer width height newfb s =
     (let s = s\<lparr>fs_maxx := width\<rparr>;
          s = s\<lparr>fs_maxy := height\<rparr>
      in s\<lparr>fs_frame := take (fs_maxx s * fs_maxy s * bpp) newfb\<rparr>)"

text \<open>The values are positive, so that \<open>/\<close> of C is \<open>div\<close>.\<close>

definition init_pixel :: "nat \<Rightarrow> nat \<Rightarrow> nat \<Rightarrow> nat \<Rightarrow> bytes \<Rightarrow> bytes" where
  "init_pixel maxx maxy j i buffer =
     (let buffer = buffer[(j*maxx+i)*bpp+0 := of_nat ((i+j)*128 div (maxx+maxy))];
          buffer = buffer[(j*maxx+i)*bpp+1 := of_nat (i*128 div maxx)]
      in buffer[(j*maxx+i)*bpp+2 := of_nat (j*256 div maxy)])"

definition init_row :: "nat \<Rightarrow> nat \<Rightarrow> nat \<Rightarrow> bytes \<Rightarrow> bytes" where
  "init_row maxx maxy j buffer =
     (let buffer = fold (init_pixel maxx maxy j) [0..<maxx] buffer;
          buffer = buffer[j*maxx*bpp+0 := 0xff];
          buffer = buffer[j*maxx*bpp+1 := 0xff];
          buffer = buffer[j*maxx*bpp+2 := 0xff]
      in buffer[j*maxx*bpp+3 := 0xff])"

definition initBuffer :: "frame_server \<Rightarrow> bytes \<Rightarrow> bytes" where
  "initBuffer s buffer = fold (init_row (fs_maxx s) (fs_maxy s)) [0..<fs_maxy s] buffer"

section \<open>Keys\<close>

abbreviation (input) "XK_Escape \<equiv> 0xff1b :: u32"
abbreviation (input) "XK_a \<equiv> 0x61 :: u32"
abbreviation (input) "XK_b \<equiv> 0x62 :: u32"
abbreviation (input) "XK_c \<equiv> 0x63 :: u32"
abbreviation (input) "XK_r \<equiv> 0x72 :: u32"

text \<open>\<open>opens\<close> tells whether \<open>vncinput.bin\<close> can be opened; it is emptied then.\<close>

definition dokey :: "bool \<Rightarrow> bool \<Rightarrow> u32 \<Rightarrow> frame_server \<Rightarrow> frame_server" where
  "dokey opens down key s =
     (if down
      then if key = XK_Escape then s\<lparr>fs_closed := fs_closed s + 1\<rparr>
           else if key = XK_a \<or> key = XK_b \<or> key = XK_c \<or> key = XK_r
                then if opens then s\<lparr>fs_input := Some [ucast key]\<rparr> else s\<lparr>fs_saved := ucast key\<rparr>
                else s
      else s)"

text \<open>
  Keys come in a thread of their own (\<open>rfbRunEventLoop\<close> with TRUE): between the rounds of the main loop,
  and in a round between the write of the saved key and the line that clears it.
\<close>

type_synonym fs_press = "bool \<times> bool \<times> u32"

definition press_key :: "fs_press \<Rightarrow> frame_server \<Rightarrow> frame_server" where
  "press_key e s = (case e of (opens, down, key) \<Rightarrow> dokey opens down key s)"

definition write_saved :: "bool \<Rightarrow> fs_press list \<Rightarrow> frame_server \<Rightarrow> frame_server" where
  "write_saved opens meanwhile s =
     (if fs_saved s \<noteq> 0
      then if opens
           then (let s = s\<lparr>fs_input := Some [fs_saved s]\<rparr>;
                     s = fold press_key meanwhile s
                 in s\<lparr>fs_saved := 0\<rparr>)
           else s
      else s)"

section \<open>Pictures\<close>

text \<open>A short file leaves the end of the array as it was on the stack.\<close>

definition fread :: "bytes \<Rightarrow> nat \<Rightarrow> bytes \<Rightarrow> bytes" where
  "fread file n buffer = take n file @ drop (length (take n file)) buffer"

definition fs_changed :: "bytes \<Rightarrow> bytes \<Rightarrow> nat \<Rightarrow> nat \<Rightarrow> nat \<Rightarrow> bool" where
  "fs_changed pixelbuffer frame maxx j i \<longleftrightarrow>
     pixelbuffer ! (j * maxx * bpp + i * bpp + 0) \<noteq> frame ! (j * maxx * bpp + i * bpp + 0) \<or>
     pixelbuffer ! (j * maxx * bpp + i * bpp + 1) \<noteq> frame ! (j * maxx * bpp + i * bpp + 1) \<or>
     pixelbuffer ! (j * maxx * bpp + i * bpp + 2) \<noteq> frame ! (j * maxx * bpp + i * bpp + 2)"

definition mod_pixel :: "int \<Rightarrow> int \<Rightarrow> int \<times> int \<times> int \<times> int \<Rightarrow> int \<times> int \<times> int \<times> int" where
  "mod_pixel j i r =
     (case r of (modx0, modx1, mody0, mody1) \<Rightarrow>
       let modx0 = (if modx0 < 0 \<or> i < modx0 then i else modx0);
           modx1 = (if i > modx1 then i + 2 else modx1);
           mody0 = (if mody0 < 0 \<or> j < mody0 then j else mody0);
           mody1 = (if j > mody1 then j + 2 else mody1)
       in (modx0, modx1, mody0, mody1))"

definition mod_rect :: "bytes \<Rightarrow> bytes \<Rightarrow> nat \<Rightarrow> nat \<Rightarrow> int \<times> int \<times> int \<times> int" where
  "mod_rect pixelbuffer frame maxx maxy =
     fold (\<lambda>j r. fold (\<lambda>i r. if fs_changed pixelbuffer frame maxx j i then mod_pixel (int j) (int i) r else r)
       [0..<maxx] r) [0..<maxy] (-1, -1, -1, -1)"

definition show_picture :: "bytes \<Rightarrow> frame_server \<Rightarrow> frame_server" where
  "show_picture pixelbuffer s =
     (let s = (if \<not> fs_runonce s
               then (let s = s\<lparr>fs_runonce := True\<rparr> in s\<lparr>fs_frame := pixelbuffer\<rparr>)
               else s);
          r = mod_rect pixelbuffer (fs_frame s) (fs_maxx s) (fs_maxy s)
      in if fst r \<ge> 0
         then (let s = s\<lparr>fs_frame := pixelbuffer\<rparr>
               in case r of (modx0, modx1, mody0, mody1) \<Rightarrow>
                    s\<lparr>fs_marks := fs_marks s @ [(modx0, mody0, modx1, mody1)]\<rparr>)
         else s)"

text \<open>One round of the loop; None is \<open>return -1\<close>, when the picture cannot be opened.\<close>

definition fs_round :: "bool \<Rightarrow> fs_press list \<Rightarrow> bytes option \<Rightarrow> bytes \<Rightarrow> frame_server \<Rightarrow> frame_server option" where
  "fs_round opens meanwhile picture stack s =
     (let s = write_saved opens meanwhile s in
      case picture of
        Some file \<Rightarrow> Some (show_picture (fread file (fs_maxx s * fs_maxy s * bpp) stack) s)
      | None \<Rightarrow> None)"

datatype fs_event = Press fs_press | Round bool "fs_press list" "bytes option" bytes

primrec fs_run :: "fs_event list \<Rightarrow> frame_server \<Rightarrow> frame_server option" where
  "fs_run [] s = Some s"
| "fs_run (e # es) s =
     (case e of
        Press p \<Rightarrow> fs_run es (press_key p s)
      | Round opens meanwhile picture stack \<Rightarrow>
          (case fs_round opens meanwhile picture stack s of None \<Rightarrow> None | Some t \<Rightarrow> fs_run es t))"

section \<open>The rectangle of the changed pixels\<close>

definition fs_cells :: "nat \<Rightarrow> nat \<Rightarrow> (nat \<times> nat) list" where
  "fs_cells maxx maxy = concat (map (\<lambda>j. map (Pair j) [0..<maxx]) [0..<maxy])"

definition fs_diff :: "bytes \<Rightarrow> bytes \<Rightarrow> nat \<Rightarrow> nat \<Rightarrow> (nat \<times> nat) list" where
  "fs_diff pixelbuffer frame maxx maxy = filter (\<lambda>(j, i). fs_changed pixelbuffer frame maxx j i) (fs_cells maxx maxy)"

definition mod_points :: "(nat \<times> nat) list \<Rightarrow> int \<times> int \<times> int \<times> int" where
  "mod_points ps = fold (\<lambda>(j, i). mod_pixel (int j) (int i)) ps (-1, -1, -1, -1)"

lemma fold_filtered: "fold (\<lambda>x r. if P x then f x r else r) xs r = fold f (filter P xs) r"
  by (induction xs arbitrary: r) simp_all

lemma fold_fs_cells: "fold f (fs_cells maxx maxy) r = fold (\<lambda>j. fold (\<lambda>i. f (j, i)) [0..<maxx]) [0..<maxy] r"
  by (simp add: fs_cells_def fold_concat_map fold_map comp_def)

lemma mod_rect_points: "mod_rect pixelbuffer frame maxx maxy = mod_points (fs_diff pixelbuffer frame maxx maxy)"
  by (simp add: mod_rect_def mod_points_def fs_diff_def fold_fs_cells cong: if_cong flip: fold_filtered)

lemma set_fs_diff:
  "(j, i) \<in> set (fs_diff pixelbuffer frame maxx maxy) \<longleftrightarrow>
     j < maxy \<and> i < maxx \<and> fs_changed pixelbuffer frame maxx j i"
  by (auto simp: fs_diff_def fs_cells_def image_iff)

text \<open>The upper corner is exact. The lower one is at most two behind the last changed pixel.\<close>

lemma mod_points_bounds:
  assumes "mod_points ps = (x0, x1, y0, y1)" and "ps \<noteq> []"
  shows "x0 \<in> (\<lambda>p. int (snd p)) ` set ps \<and> x1 - 2 \<in> (\<lambda>p. int (snd p)) ` set ps \<and>
    y0 \<in> (\<lambda>p. int (fst p)) ` set ps \<and> y1 - 2 \<in> (\<lambda>p. int (fst p)) ` set ps \<and>
    (\<forall>(j, i) \<in> set ps. x0 \<le> int i \<and> int i \<le> x1 \<and> y0 \<le> int j \<and> int j \<le> y1)"
  using assms
proof (induction ps arbitrary: x0 x1 y0 y1 rule: rev_induct)
  case (snoc p ps)
  obtain j i where p: "p = (j, i)" by fastforce
  obtain a b c d where r: "mod_points ps = (a, b, c, d)" by (metis surj_pair)
  have step: "(x0, x1, y0, y1) = mod_pixel (int j) (int i) (a, b, c, d)"
    using snoc.prems(1) r by (simp add: mod_points_def p)
  show ?case
  proof (cases "ps = []")
    case True
    with r have "(a, b, c, d) = (-1, -1, -1, -1)" by (simp add: mod_points_def)
    with step True show ?thesis by (simp add: p mod_pixel_def)
  next
    case False
    from snoc.IH [OF r this]
    have ih: "a \<in> (\<lambda>p. int (snd p)) ` set ps" "b - 2 \<in> (\<lambda>p. int (snd p)) ` set ps"
      "c \<in> (\<lambda>p. int (fst p)) ` set ps" "d - 2 \<in> (\<lambda>p. int (fst p)) ` set ps"
      "\<forall>(j, i) \<in> set ps. a \<le> int i \<and> int i \<le> b \<and> c \<le> int j \<and> int j \<le> d" by blast+
    have nn: "0 \<le> a" "0 \<le> c" using ih(1,3) by auto
    have eqs: "x0 = (if int i < a then int i else a)" "x1 = (if int i > b then int i + 2 else b)"
      "y0 = (if int j < c then int j else c)" "y1 = (if int j > d then int j + 2 else d)"
      using step nn by (simp_all add: mod_pixel_def)
    have "x0 \<in> (\<lambda>p. int (snd p)) ` set (ps @ [p]) \<and> x1 - 2 \<in> (\<lambda>p. int (snd p)) ` set (ps @ [p])"
      "y0 \<in> (\<lambda>p. int (fst p)) ` set (ps @ [p]) \<and> y1 - 2 \<in> (\<lambda>p. int (fst p)) ` set (ps @ [p])"
      using ih(1-4) unfolding eqs p by auto
    moreover have "\<forall>(j, i) \<in> set (ps @ [p]). x0 \<le> int i \<and> int i \<le> x1 \<and> y0 \<le> int j \<and> int j \<le> y1"
      using ih(5) unfolding eqs p by fastforce
    ultimately show ?thesis by blast
  qed
qed simp

lemma mod_points_sign: "mod_points ps = (x0, r) \<Longrightarrow> 0 \<le> x0 \<longleftrightarrow> ps \<noteq> []"
  using mod_points_bounds [of ps] by (cases r; cases "ps = []") (auto simp: mod_points_def)

lemma mod_rect_bounds:
  assumes "mod_rect pixelbuffer frame maxx maxy = (x0, x1, y0, y1)"
    and "j < maxy" and "i < maxx" and "fs_changed pixelbuffer frame maxx j i"
  shows "0 \<le> x0 \<and> x0 \<le> int i \<and> int i \<le> x1 \<and> 0 \<le> y0 \<and> y0 \<le> int j \<and> int j \<le> y1 \<and>
    x1 \<le> int maxx + 1 \<and> y1 \<le> int maxy + 1"
proof -
  have m: "(j, i) \<in> set (fs_diff pixelbuffer frame maxx maxy)" using assms by (simp add: set_fs_diff)
  then have "fs_diff pixelbuffer frame maxx maxy \<noteq> []" by auto
  from mod_points_bounds [OF assms(1) [unfolded mod_rect_points] this] m show ?thesis
    by (auto simp: set_fs_diff)
qed

text \<open>After a round the frame buffer shows the picture, up to the fourth bytes of its pixels.\<close>

lemma fs_changed_self: "\<not> fs_changed pixelbuffer pixelbuffer maxx j i"
  by (simp add: fs_changed_def)

lemma show_picture_shows:
  "j < fs_maxy s \<Longrightarrow> i < fs_maxx s \<Longrightarrow> \<not> fs_changed pixelbuffer (fs_frame (show_picture pixelbuffer s)) (fs_maxx s) j i"
  using mod_rect_bounds [of pixelbuffer "fs_frame s" "fs_maxx s" "fs_maxy s" _ _ _ _ j i]
  by (cases "mod_rect pixelbuffer (fs_frame s) (fs_maxx s) (fs_maxy s)")
    (auto simp: show_picture_def Let_def fs_changed_self split: prod.splits)

lemma show_picture_frame:
  "fs_saved (show_picture p s) = fs_saved s" "fs_input (show_picture p s) = fs_input s"
  "fs_closed (show_picture p s) = fs_closed s"
  "fs_maxx (show_picture p s) = fs_maxx s" "fs_maxy (show_picture p s) = fs_maxy s"
  by (simp_all add: show_picture_def Let_def split: prod.splits)

text \<open>The rectangle has no room to spare: its edges are those of changed pixels, two further at the end.\<close>

definition changed_pixels :: "bytes \<Rightarrow> frame_server \<Rightarrow> (nat \<times> nat) set" where
  "changed_pixels pixelbuffer s =
     {(j, i). j < fs_maxy s \<and> i < fs_maxx s \<and> fs_changed pixelbuffer (fs_frame s) (fs_maxx s) j i}"

lemma changed_pixels_diff:
  "changed_pixels pixelbuffer s = set (fs_diff pixelbuffer (fs_frame s) (fs_maxx s) (fs_maxy s))"
  by (auto simp: changed_pixels_def set_fs_diff)

lemma mark_tight:
  assumes "changed_pixels pixelbuffer s \<noteq> {}" and "fs_runonce s"
  shows "\<exists>x0 y0 x1 y1. fs_marks (show_picture pixelbuffer s) = fs_marks s @ [(x0, y0, x1, y1)] \<and>
    fs_frame (show_picture pixelbuffer s) = pixelbuffer \<and>
    x0 \<in> int ` snd ` changed_pixels pixelbuffer s \<and> x1 - 2 \<in> int ` snd ` changed_pixels pixelbuffer s \<and>
    y0 \<in> int ` fst ` changed_pixels pixelbuffer s \<and> y1 - 2 \<in> int ` fst ` changed_pixels pixelbuffer s \<and>
    (\<forall>(j, i) \<in> changed_pixels pixelbuffer s. x0 \<le> int i \<and> int i \<le> x1 \<and> y0 \<le> int j \<and> int j \<le> y1)"
proof -
  let ?ps = "fs_diff pixelbuffer (fs_frame s) (fs_maxx s) (fs_maxy s)"
  obtain x0 x1 y0 y1 where r: "mod_points ?ps = (x0, x1, y0, y1)" by (metis surj_pair)
  have ne: "?ps \<noteq> []" using assms(1) by (auto simp: changed_pixels_diff)
  have "fs_marks (show_picture pixelbuffer s) = fs_marks s @ [(x0, y0, x1, y1)]"
    "fs_frame (show_picture pixelbuffer s) = pixelbuffer"
    using mod_points_sign [OF r] ne assms(2) by (simp_all add: show_picture_def mod_rect_points r Let_def)
  with mod_points_bounds [OF r ne] show ?thesis
    unfolding changed_pixels_diff image_image by (intro exI [of _ x0] exI [of _ y0] exI [of _ x1] exI [of _ y1]) simp
qed

section \<open>Key presses\<close>

abbreviation (input) "game_keys \<equiv> {XK_a, XK_b, XK_c, XK_r}"

text \<open>Events that save no key and do not write the saved one: the file is locked in every round.\<close>

fun keeps_saved :: "fs_event \<Rightarrow> bool" where
  "keeps_saved (Press (opens, down, key)) \<longleftrightarrow> opens \<or> \<not> down \<or> key \<notin> game_keys"
| "keeps_saved (Round opens meanwhile picture stack) \<longleftrightarrow> \<not> opens \<and> picture \<noteq> None"

lemma locked_rounds:
  "list_all keeps_saved es \<Longrightarrow> \<exists>t. fs_run (es @ fs) s = fs_run fs t \<and> fs_saved t = fs_saved s"
proof (induction es arbitrary: s)
  case (Cons e es)
  show ?case
  proof (cases e)
    case (Press p)
    then have "fs_saved (press_key p s) = fs_saved s"
      using Cons.prems by (cases p) (auto simp: press_key_def dokey_def)
    then show ?thesis using Cons.IH [of "press_key p s"] Cons.prems by (simp add: Press)
  next
    case (Round opens meanwhile picture stack)
    then obtain pic where e: "e = Round False meanwhile (Some pic) stack" using Cons.prems by auto
    let ?s = "show_picture (fread pic (fs_maxx s * fs_maxy s * bpp) stack) s"
    obtain t where "fs_run (es @ fs) ?s = fs_run fs t" "fs_saved t = fs_saved ?s"
      using Cons.IH [of ?s] Cons.prems by auto
    then show ?thesis
      by (auto simp: e fs_round_def write_saved_def show_picture_frame)
  qed
qed auto

text \<open>A key that is saved while the one before it is being written is cleared with it.\<close>

lemma saved_meanwhile_lost:
  assumes "fs_saved s \<noteq> 0" and "key \<in> game_keys"
  shows "\<exists>t. fs_round True [(False, True, key)] (Some picture) stack s = Some t \<and>
    fs_input t = Some [fs_saved s] \<and> fs_saved t = 0"
  using assms by (auto simp: fs_round_def write_saved_def press_key_def dokey_def show_picture_frame Let_def)

section \<open>A block of changed pixels\<close>

text \<open>The lower bound moves on by three: it reaches behind a block unless three divides its width.\<close>

definition jump :: "int \<Rightarrow> int \<Rightarrow> int" where
  "jump i x1 = (if i > x1 then i + 2 else x1)"

definition drop_to :: "int \<Rightarrow> int \<Rightarrow> int" where
  "drop_to i x0 = (if x0 < 0 \<or> i < x0 then i else x0)"

lemma mod_pixel_parts: "mod_pixel j i (a, b, c, d) = (drop_to i a, jump i b, drop_to j c, jump j d)"
  by (simp add: mod_pixel_def drop_to_def jump_def)

lemma mod_points_parts:
  "mod_points ps =
     (fold (\<lambda>p. drop_to (int (snd p))) ps (-1), fold (\<lambda>p. jump (int (snd p))) ps (-1),
      fold (\<lambda>p. drop_to (int (fst p))) ps (-1), fold (\<lambda>p. jump (int (fst p))) ps (-1))"
proof -
  have "fold (\<lambda>(j, i). mod_pixel (int j) (int i)) ps (a, b, c, d) =
     (fold (\<lambda>p. drop_to (int (snd p))) ps a, fold (\<lambda>p. jump (int (snd p))) ps b,
      fold (\<lambda>p. drop_to (int (fst p))) ps c, fold (\<lambda>p. jump (int (fst p))) ps d)" for a b c d
    by (induction ps arbitrary: a b c d) (auto simp: mod_pixel_parts)
  then show ?thesis by (simp add: mod_points_def)
qed

definition reach :: "nat \<Rightarrow> nat \<Rightarrow> int" where
  "reach a w = int a + 3 * (int (w - 1) div 3) + 2"

lemma reach_Suc:
  assumes "0 < w"
  shows "jump (int (a + w)) (reach a w) = reach a (Suc w)"
proof -
  obtain n where w: "w = Suc n" using assms by (cases w) auto
  define q where "q = int n div 3"
  have "3 * q \<le> int n" "int n \<le> 3 * q + 2" unfolding q_def by presburger+
  then have "int (Suc n) div 3 = (if int n = 3 * q + 2 then q + 1 else q)" by auto
  then show ?thesis
    using \<open>int n \<le> 3 * q + 2\<close> \<open>3 * q \<le> int n\<close> unfolding w jump_def reach_def by (auto simp: q_def [symmetric])
qed

lemma reach_covers: "i < a + w \<Longrightarrow> int i \<le> reach a w"
  unfolding reach_def by linarith

lemma jump_upt: "0 < w \<Longrightarrow> fold (\<lambda>i. jump (int i)) [a..<a + w] (-1) = reach a w"
proof (induction w)
  case (Suc w)
  then show ?case using reach_Suc [of w a]
    by (cases "w = 0") (simp_all add: jump_def [of _ "-1"] reach_def [of _ "Suc 0"])
qed simp

lemma drop_to_upt: "0 < w \<Longrightarrow> fold (\<lambda>i. drop_to (int i)) [a..<a + w] (-1) = int a"
proof (induction w)
  case (Suc w)
  then show ?case by (cases "w = 0") (simp_all add: drop_to_def)
qed simp

lemma fold_settled: "(\<And>x. x \<in> set xs \<Longrightarrow> f x s = s) \<Longrightarrow> fold f xs s = s"
  by (induction xs) simp_all

lemma fold_settles:
  assumes "0 < n" and "f b s = t" and "\<And>x. b \<le> x \<Longrightarrow> x < b + n \<Longrightarrow> f x t = t"
  shows "fold f [b..<b + n] s = t"
proof -
  have "[b..<b + n] = b # [Suc b..<b + n]" using assms(1) by (simp add: upt_conv_Cons)
  moreover have "fold f [Suc b..<b + n] t = t" by (rule fold_settled) (auto intro: assms(3))
  ultimately show ?thesis using assms(2) by simp
qed

definition fs_block :: "nat \<Rightarrow> nat \<Rightarrow> nat \<Rightarrow> nat \<Rightarrow> (nat \<times> nat) list" where
  "fs_block a b w h = concat (map (\<lambda>j. map (Pair j) [a..<a + w]) [b..<b + h])"

lemma fold_block: "fold f (fs_block a b w h) s = fold (\<lambda>j. fold (\<lambda>i. f (j, i)) [a..<a + w]) [b..<b + h] s"
  by (simp add: fs_block_def fold_concat_map fold_map comp_def)

lemma block_rect:
  assumes "0 < w" and "0 < h"
  shows "mod_points (fs_block a b w h) = (int a, reach a w, int b, reach b h)"
proof -
  have same: "fold (\<lambda>i. drop_to x) [a..<a + w] = drop_to x" "fold (\<lambda>i. jump x) [a..<a + w] = jump x" for x
    by (rule ext, rule fold_settles [OF assms(1)]; simp add: drop_to_def jump_def)+
  have "fold (\<lambda>j. fold (\<lambda>i. drop_to (int i)) [a..<a + w]) [b..<b + h] (-1) = int a"
    by (rule fold_settles [OF assms(2)]) (auto simp: drop_to_upt [OF assms(1)] drop_to_def intro!: fold_settled)
  moreover have "fold (\<lambda>j. fold (\<lambda>i. jump (int i)) [a..<a + w]) [b..<b + h] (-1) = reach a w"
    by (rule fold_settles [OF assms(2)])
      (auto simp: jump_upt [OF assms(1)] jump_def reach_covers not_less intro!: fold_settled)
  ultimately show ?thesis
    by (simp add: mod_points_parts fold_block same drop_to_upt [OF assms(2)] jump_upt [OF assms(2)])
qed

lemma reach_misses: "0 < w \<Longrightarrow> reach a w \<le> int (a + w - 1) \<longleftrightarrow> 3 dvd w"
proof -
  assume "0 < w"
  then obtain n where w: "w = Suc n" by (cases w) auto
  have "int n div 3 = int (n div 3)" by simp
  then have "reach a w \<le> int (a + w - 1) \<longleftrightarrow> 3 * (n div 3) + 2 \<le> n"
    unfolding reach_def w by simp linarith
  moreover have "3 * (n div 3) + 2 \<le> n \<longleftrightarrow> 3 dvd Suc n" by presburger
  ultimately show ?thesis by (simp add: w)
qed

end
