(* ===== verification/VUsb.thy ===== *)
theory VUsb
  imports Prelude
begin

text \<open>
  The control endpoint of the software USB driver \<open>libusbtest/firmware/usbdrv/usbdrv.c\<close> in
  the configuration of \<open>usbconfig.h\<close>: \<open>usbFunctionWrite\<close> is used, \<open>usbFunctionRead\<close>,
  interrupt endpoints, flow control and long transfers are not. The application's functions are
  a record of operations, and its contract is a locale. The interrupt routine in assembler and the
  host are the events \<open>Packet\<close> and \<open>Sent\<close>. A read outside an object or in the wrong
  memory sets the fault flag; what it reads is any value, here 0.
\<close>

section \<open>State\<close>

text \<open>Pointers: an object and a position in it. Descriptors are in flash memory.\<close>

datatype usb_object = Null | Tx_Buf | Conf | Rom nat | App nat

record 'a usb_app =
  ua_Setup :: "bytes \<Rightarrow> 'a \<Rightarrow> u8 \<times> (usb_object \<times> nat) option \<times> 'a"
  ua_Write :: "bytes \<Rightarrow> 'a \<Rightarrow> u8 \<times> 'a"
  ua_memory :: "nat \<Rightarrow> 'a \<Rightarrow> bytes"

record 'a vusb =
  vu_TxLen :: u8
  vu_TxBuf :: bytes
  vu_MsgPtr :: "usb_object \<times> nat"
  vu_MsgLen :: u8
  vu_MsgFlags :: u8
  vu_NewDeviceAddr :: u8
  vu_DeviceAddr :: u8
  vu_Configuration :: u8
  vu_RxLen :: nat
  vu_RxToken :: u8
  vu_RxData :: bytes
  vu_app :: 'a
  vu_fault :: bool
  vu_sent :: "bytes list"

abbreviation (input) "USBPID_SETUP \<equiv> 0x2d :: u8"
abbreviation (input) "USBPID_OUT \<equiv> 0xe1 :: u8"
abbreviation (input) "USBPID_DATA0 \<equiv> 0xc3 :: u8"
abbreviation (input) "USBPID_DATA1 \<equiv> 0x4b :: u8"
abbreviation (input) "USBPID_NAK \<equiv> 0x5a :: u8"
abbreviation (input) "USBPID_STALL \<equiv> 0x1e :: u8"
abbreviation (input) "USB_NO_MSG \<equiv> 0xff :: u8"
abbreviation (input) "USB_FLG_MSGPTR_IS_ROM \<equiv> 0x40 :: u8"
abbreviation (input) "USB_FLG_USE_USER_RW \<equiv> 0x80 :: u8"

definition vusb_boot :: "'a \<Rightarrow> 'a vusb" where
  "vusb_boot a =
    \<lparr>vu_TxLen = USBPID_NAK, vu_TxBuf = replicate 11 0, vu_MsgPtr = (Null, 0), vu_MsgLen = USB_NO_MSG,
     vu_MsgFlags = 0, vu_NewDeviceAddr = 0, vu_DeviceAddr = 0, vu_Configuration = 0, vu_RxLen = 0,
     vu_RxToken = 0, vu_RxData = [], vu_app = a, vu_fault = False, vu_sent = []\<rparr>"

section \<open>Ports\<close>

text \<open>
  The registers that \<open>usbInit\<close> and the connection set, those of an ATmega8: the interrupt of
  pin INT0 and the direction of the data lines. The edge is chosen by whether \<open>USB_COUNT_SOF\<close> is
  defined, which it is, as 0.
\<close>

record vusb_ports =
  USB_INTR_CFG :: u8
  USB_INTR_ENABLE :: u8
  USBDDR :: u8

abbreviation (input) "ISC01 \<equiv> 1 :: nat"
abbreviation (input) "INT0 \<equiv> 6 :: nat"
abbreviation (input) "USBMINUS \<equiv> 4 :: nat"

definition usbInit :: "vusb_ports \<Rightarrow> vusb_ports" where
  "usbInit p =
     (let p = p\<lparr>USB_INTR_CFG := USB_INTR_CFG p OR push_bit ISC01 1\<rparr>
      in p\<lparr>USB_INTR_ENABLE := USB_INTR_ENABLE p OR push_bit INT0 1\<rparr>)"

definition usbDeviceConnect :: "vusb_ports \<Rightarrow> vusb_ports" where
  "usbDeviceConnect p = p\<lparr>USBDDR := USBDDR p AND NOT (push_bit USBMINUS 1)\<rparr>"

definition usbDeviceDisconnect :: "vusb_ports \<Rightarrow> vusb_ports" where
  "usbDeviceDisconnect p = p\<lparr>USBDDR := USBDDR p OR push_bit USBMINUS 1\<rparr>"

section \<open>Descriptors\<close>

text \<open>Strings are 16-bit units behind a header of length and type.\<close>

definition vusb_string_descriptor :: "bytes \<Rightarrow> bytes" where
  "vusb_string_descriptor cs = of_nat (2 * length cs + 2) # 3 # concat (map (\<lambda>c. [c, 0]) cs)"

definition usbDescriptorString0 :: bytes where
  "usbDescriptorString0 = [4, 3, 0x09, 0x04]"

definition USB_CFG_VENDOR_NAME :: bytes where
  "USB_CFG_VENDOR_NAME =
    [0x45, 0x6d, 0x62, 0x65, 0x64, 0x64, 0x65, 0x64, 0x20, 0x43, 0x72, 0x65, 0x61, 0x74, 0x69, 0x6f, 0x6e, 0x73]"

definition USB_CFG_DEVICE_NAME :: bytes where
  "USB_CFG_DEVICE_NAME = [0x6c, 0x69, 0x62, 0x75, 0x73, 0x62, 0x74, 0x65, 0x73, 0x74]"

definition usbDescriptorStringVendor :: bytes where
  "usbDescriptorStringVendor = vusb_string_descriptor USB_CFG_VENDOR_NAME"

definition usbDescriptorStringDevice :: bytes where
  "usbDescriptorStringDevice = vusb_string_descriptor USB_CFG_DEVICE_NAME"

definition usbDescriptorDevice :: bytes where
  "usbDescriptorDevice =
    [18, 1, 0x10, 0x01, 0xff, 0, 0, 8, 0xc0, 0x16, 0xdc, 0x05, 0x04, 0x01, 1, 2, 0, 1]"

definition usbDescriptorConfiguration :: bytes where
  "usbDescriptorConfiguration =
    [9, 2, 18 + 7 * 0 + 7 * 0 + 0, 0, 1, 1, 0, push_bit 7 1, 40 div 2,
     9, 4, 0, 0, 0 + 0, 0, 0, 0, 0]"

definition rom_object :: "nat \<Rightarrow> bytes" where
  "rom_object k =
    (if k = 0 then usbDescriptorDevice
     else if k = 1 then usbDescriptorConfiguration
     else if k = 2 then usbDescriptorString0
     else if k = 3 then usbDescriptorStringVendor
     else if k = 4 then usbDescriptorStringDevice
     else [])"

definition usb_memory :: "'a usb_app \<Rightarrow> usb_object \<Rightarrow> 'a vusb \<Rightarrow> bytes" where
  "usb_memory A reg s =
    (case reg of
       Null \<Rightarrow> []
     | Tx_Buf \<Rightarrow> vu_TxBuf s
     | Conf \<Rightarrow> [vu_Configuration s]
     | Rom k \<Rightarrow> rom_object k
     | App k \<Rightarrow> ua_memory A k (vu_app s))"

section \<open>Requests\<close>

text \<open>\<open>usbRequest_t\<close>: \<open>bmRequestType\<close>, \<open>bRequest\<close>, \<open>wValue\<close>, \<open>wIndex\<close>, \<open>wLength\<close>, low byte first.\<close>

abbreviation (input) "rq_bmRequestType rq \<equiv> rq ! 0"
abbreviation (input) "rq_bRequest rq \<equiv> rq ! 1"
abbreviation (input) "rq_wValue_lo rq \<equiv> rq ! 2"
abbreviation (input) "rq_wValue_hi rq \<equiv> rq ! 3"
abbreviation (input) "rq_wLength_lo rq \<equiv> rq ! 6"
abbreviation (input) "rq_wLength_hi rq \<equiv> rq ! 7"

text \<open>\<open>GET_DESCRIPTOR\<close> for a property that is the length of a static descriptor.\<close>

definition static_descriptor :: "nat \<Rightarrow> 'a vusb \<Rightarrow> u8 \<times> 'a vusb" where
  "static_descriptor k s = (of_nat (length (rom_object k)), s\<lparr>vu_MsgPtr := (Rom k, 0)\<rparr>)"

definition usbDriverDescriptor :: "bytes \<Rightarrow> 'a vusb \<Rightarrow> u8 \<times> 'a vusb" where
  "usbDriverDescriptor rq s =
     (case (if rq_wValue_hi rq = 1 then static_descriptor 0 s
            else if rq_wValue_hi rq = 2 then static_descriptor 1 s
            else if rq_wValue_hi rq = 3
            then (if rq_wValue_lo rq = 0 then static_descriptor 2 s
                  else if rq_wValue_lo rq = 1 then static_descriptor 3 s
                  else if rq_wValue_lo rq = 2 then static_descriptor 4 s
                  else (0, s))
            else (0, s)) of
       (len, s) \<Rightarrow> (len, s\<lparr>vu_MsgFlags := USB_FLG_MSGPTR_IS_ROM\<rparr>))"

definition usbDriverSetup :: "bytes \<Rightarrow> 'a vusb \<Rightarrow> u8 \<times> 'a vusb" where
  "usbDriverSetup rq s =
     (let dataPtr = (Tx_Buf, 9);
          value = rq_wValue_lo rq;
          s = s\<lparr>vu_TxBuf := (vu_TxBuf s)[9 := 0]\<rparr>
      in if rq_bRequest rq = 0
         then (let s = s\<lparr>vu_TxBuf := (vu_TxBuf s)[10 := 0]\<rparr> in (2, s\<lparr>vu_MsgPtr := dataPtr\<rparr>))
         else if rq_bRequest rq = 5
         then (let s = s\<lparr>vu_NewDeviceAddr := value\<rparr> in (0, s\<lparr>vu_MsgPtr := dataPtr\<rparr>))
         else if rq_bRequest rq = 6 then usbDriverDescriptor rq s
         else if rq_bRequest rq = 8 then (1, s\<lparr>vu_MsgPtr := (Conf, 0)\<rparr>)
         else if rq_bRequest rq = 9
         then (let s = s\<lparr>vu_Configuration := value\<rparr> in (0, s\<lparr>vu_MsgPtr := dataPtr\<rparr>))
         else if rq_bRequest rq = 10 then (1, s\<lparr>vu_MsgPtr := dataPtr\<rparr>)
         else (0, s\<lparr>vu_MsgPtr := dataPtr\<rparr>))"

definition app_setup :: "'a usb_app \<Rightarrow> bytes \<Rightarrow> 'a vusb \<Rightarrow> u8 \<times> 'a vusb" where
  "app_setup A rq s =
     (case ua_Setup A rq (vu_app s) of
        (replyLen, p, a) \<Rightarrow>
          (replyLen, s\<lparr>vu_app := a, vu_MsgPtr := (case p of None \<Rightarrow> vu_MsgPtr s | Some q \<Rightarrow> q)\<rparr>))"

definition process_setup :: "'a usb_app \<Rightarrow> bytes \<Rightarrow> 'a vusb \<Rightarrow> 'a vusb" where
  "process_setup A rq s =
     (let s = s\<lparr>vu_TxBuf := (vu_TxBuf s)[0 := USBPID_DATA0]\<rparr>;
          s = s\<lparr>vu_TxLen := USBPID_NAK\<rparr>;
          s = s\<lparr>vu_MsgFlags := 0\<rparr>
      in case (if rq_bmRequestType rq AND 0x60 \<noteq> 0 then app_setup A rq s else usbDriverSetup rq s) of
        (replyLen, s) \<Rightarrow>
          if replyLen = USB_NO_MSG
          then (let replyLen = (if rq_bmRequestType rq AND 0x80 \<noteq> 0 then rq_wLength_lo rq else replyLen);
                    s = s\<lparr>vu_MsgFlags := USB_FLG_USE_USER_RW\<rparr>
                in s\<lparr>vu_MsgLen := replyLen\<rparr>)
          else (let replyLen = (if rq_wLength_hi rq = 0 \<and> replyLen > rq_wLength_lo rq then rq_wLength_lo rq else replyLen)
                in s\<lparr>vu_MsgLen := replyLen\<rparr>))"

definition process_out :: "'a usb_app \<Rightarrow> bytes \<Rightarrow> 'a vusb \<Rightarrow> 'a vusb" where
  "process_out A data s =
     (if vu_MsgFlags s AND USB_FLG_USE_USER_RW \<noteq> 0
      then (case ua_Write A data (vu_app s) of
        (rval, a) \<Rightarrow>
          let s = s\<lparr>vu_app := a\<rparr>
          in if rval = 0xff then s\<lparr>vu_TxLen := USBPID_STALL\<rparr>
             else if rval \<noteq> 0 then s\<lparr>vu_MsgLen := 0\<rparr>
             else s)
      else s)"

definition usbProcessRx :: "'a usb_app \<Rightarrow> bytes \<Rightarrow> 'a vusb \<Rightarrow> 'a vusb" where
  "usbProcessRx A data s =
     (if vu_RxToken s = USBPID_SETUP
      then (if length data \<noteq> 8 then s else process_setup A data s)
      else process_out A data s)"

section \<open>Replies\<close>

text \<open>The bytes are copied upwards; the source in \<open>usbTxBuf\<close> lies behind the destination.\<close>

definition usbDeviceRead :: "'a usb_app \<Rightarrow> nat \<Rightarrow> 'a vusb \<Rightarrow> nat \<times> 'a vusb" where
  "usbDeviceRead A len s =
     (if len > 0
      then (case vu_MsgPtr s of
        (reg, off) \<Rightarrow>
          let mem = usb_memory A reg s;
              rom = (vu_MsgFlags s AND USB_FLG_MSGPTR_IS_ROM \<noteq> 0);
              inside = (off + len \<le> length mem \<and> rom = (\<exists>k. reg = Rom k));
              out = map (\<lambda>i. if i < length mem then mem ! i else 0) [off..<off + len];
              s = s\<lparr>vu_TxBuf := take 1 (vu_TxBuf s) @ out @ drop (1 + len) (vu_TxBuf s)\<rparr>;
              s = s\<lparr>vu_fault := vu_fault s \<or> \<not> inside\<rparr>
          in (len, s\<lparr>vu_MsgPtr := (reg, off + len)\<rparr>))
      else (len, s))"

text \<open>\<open>crc\<close> is \<open>usbCrc16\<close> of the assembler part.\<close>

definition finish_block :: "(bytes \<Rightarrow> u8 \<times> u8) \<Rightarrow> nat \<Rightarrow> 'a vusb \<Rightarrow> 'a vusb" where
  "finish_block crc len s =
     (if len \<le> 8
      then (let c = crc (take len (drop 1 (vu_TxBuf s)));
                s = s\<lparr>vu_TxBuf := (vu_TxBuf s)[1 + len := fst c, 2 + len := snd c]\<rparr>;
                len = len + 4;
                s = (if len < 12 then s\<lparr>vu_MsgLen := USB_NO_MSG\<rparr> else s)
            in s\<lparr>vu_TxLen := of_nat len\<rparr>)
      else (let s = s\<lparr>vu_MsgLen := USB_NO_MSG\<rparr> in s\<lparr>vu_TxLen := USBPID_STALL\<rparr>))"

definition usbBuildTxBlock :: "'a usb_app \<Rightarrow> (bytes \<Rightarrow> u8 \<times> u8) \<Rightarrow> 'a vusb \<Rightarrow> 'a vusb" where
  "usbBuildTxBlock A crc s =
     (let wantLen = vu_MsgLen s;
          wantLen = (if wantLen > 8 then 8 else wantLen);
          s = s\<lparr>vu_MsgLen := vu_MsgLen s - wantLen\<rparr>;
          s = s\<lparr>vu_TxBuf := (vu_TxBuf s)[0 := vu_TxBuf s ! 0 XOR (USBPID_DATA0 XOR USBPID_DATA1)]\<rparr>
      in case usbDeviceRead A (unat wantLen) s of (len, s) \<Rightarrow> finish_block crc len s)"

text \<open>\<open>se0\<close>: all samples of the data lines are zero, the host resets the device.\<close>

definition poll_rx :: "'a usb_app \<Rightarrow> 'a vusb \<Rightarrow> 'a vusb" where
  "poll_rx A s =
     (if vu_RxLen s \<ge> 3
      then (let s = usbProcessRx A (take (vu_RxLen s - 3) (vu_RxData s)) s in s\<lparr>vu_RxLen := 0\<rparr>)
      else s)"

definition poll_tx :: "'a usb_app \<Rightarrow> (bytes \<Rightarrow> u8 \<times> u8) \<Rightarrow> 'a vusb \<Rightarrow> 'a vusb" where
  "poll_tx A crc s =
     (if vu_TxLen s AND 0x10 \<noteq> 0
      then if vu_MsgLen s \<noteq> USB_NO_MSG then usbBuildTxBlock A crc s else s
      else s)"

definition usbPoll :: "'a usb_app \<Rightarrow> (bytes \<Rightarrow> u8 \<times> u8) \<Rightarrow> bool \<Rightarrow> 'a vusb \<Rightarrow> 'a vusb" where
  "usbPoll A crc se0 s =
     (let s = poll_rx A s;
          s = poll_tx A crc s
      in if se0 then (let s = s\<lparr>vu_NewDeviceAddr := 0\<rparr> in s\<lparr>vu_DeviceAddr := 0\<rparr>) else s)"

section \<open>The device on the bus\<close>

text \<open>
  \<open>Packet\<close>: the interrupt routine stores a packet if the buffer is free (the host is told to
  try again otherwise). \<open>Sent\<close>: the host has taken what was to be transmitted, if there was
  something.
\<close>

datatype line_event = Packet u8 bytes | Sent | Poll bool

definition bus_step :: "'a usb_app \<Rightarrow> (bytes \<Rightarrow> u8 \<times> u8) \<Rightarrow> line_event \<Rightarrow> 'a vusb \<Rightarrow> 'a vusb" where
  "bus_step A crc e s =
     (case e of
        Packet token data \<Rightarrow>
          if vu_RxLen s = 0 then s\<lparr>vu_RxLen := length data + 3, vu_RxToken := token, vu_RxData := data\<rparr> else s
      | Sent \<Rightarrow>
          if vu_TxLen s AND 0x10 = 0
          then s\<lparr>vu_sent := vu_sent s @ [take (unat (vu_TxLen s) - 4) (drop 1 (vu_TxBuf s))], vu_TxLen := USBPID_NAK\<rparr>
          else s
      | Poll se0 \<Rightarrow> usbPoll A crc se0 s)"

definition bus_run :: "'a usb_app \<Rightarrow> (bytes \<Rightarrow> u8 \<times> u8) \<Rightarrow> line_event list \<Rightarrow> 'a vusb \<Rightarrow> 'a vusb" where
  "bus_run A crc es s = fold (bus_step A crc) es s"

lemma bus_run_simps [simp]:
  "bus_run A crc [] s = s"
  "bus_run A crc (e # es) s = bus_run A crc es (bus_step A crc e s)"
  "bus_run A crc (es @ fs) s = bus_run A crc fs (bus_run A crc es s)"
  by (simp_all add: bus_run_def)

lemma bus_step_simps:
  "vu_RxLen s = 0 \<Longrightarrow> bus_step A crc (Packet token data) s =
     s\<lparr>vu_RxLen := length data + 3, vu_RxToken := token, vu_RxData := data\<rparr>"
  "bus_step A crc (Poll False) s = poll_tx A crc (poll_rx A s)"
  by (simp_all add: bus_step_def usbPoll_def Let_def)

section \<open>A reply in blocks\<close>

text \<open>A device that has a reply of \<open>m\<close> bytes to send, from position \<open>off\<close> of an object of the application.\<close>

definition replying :: "'a usb_app \<Rightarrow> nat \<Rightarrow> nat \<Rightarrow> nat \<Rightarrow> 'a vusb \<Rightarrow> bool" where
  "replying A k off m s \<longleftrightarrow> vu_RxLen s = 0 \<and> vu_TxLen s = USBPID_NAK \<and> length (vu_TxBuf s) = 11 \<and>
     vu_MsgPtr s = (App k, off) \<and> vu_MsgFlags s AND USB_FLG_MSGPTR_IS_ROM = 0 \<and> vu_MsgLen s = of_nat m \<and>
     m < 255 \<and> off + m \<le> length (ua_memory A k (vu_app s))"

definition idle_after :: "'a vusb \<Rightarrow> 'a vusb \<Rightarrow> bool" where
  "idle_after s t \<longleftrightarrow> vu_RxLen t = 0 \<and> vu_TxLen t = USBPID_NAK \<and> length (vu_TxBuf t) = 11 \<and>
     vu_MsgLen t = USB_NO_MSG \<and> vu_app t = vu_app s \<and> vu_fault t = vu_fault s"

lemma block_size: "n \<le> 8 \<Longrightarrow> (of_nat (n + 4) :: u8) AND 0x10 = 0 \<and> unat (of_nat (n + 4) :: u8) = n + 4"
proof -
  assume "n \<le> 8"
  then have "n \<in> {0, 1, 2, 3, 4, 5, 6, 7, 8}" by auto
  then show ?thesis by (elim insertE) simp_all
qed

lemma sent_bytes:
  "length buf = 11 \<Longrightarrow> length out = n \<Longrightarrow> n \<le> 8 \<Longrightarrow>
    take n (drop 1 ((take 1 buf @ out @ drop (1 + n) buf)[1 + n := x, 2 + n := y])) = out"
  by (simp add: list_update_append min_def)

lemma reply_block:
  assumes "replying A k off m s" and "n = min 8 m" and "t = bus_run A crc [Poll False, Sent] s"
  shows "vu_sent t = vu_sent s @ [take n (drop off (ua_memory A k (vu_app s)))] \<and>
    vu_app t = vu_app s \<and> vu_fault t = vu_fault s \<and>
    (if n < 8 then idle_after s t else replying A k (off + 8) (m - 8) t)"
proof -
  let ?mem = "ua_memory A k (vu_app s)"
  define x where "x = vu_TxBuf s ! 0 XOR (USBPID_DATA0 XOR USBPID_DATA1)"
  define u where "u = s\<lparr>vu_MsgLen := of_nat (m - n)\<rparr>\<lparr>vu_TxBuf := (vu_TxBuf s)[0 := x]\<rparr>"
  define out where "out = take n (drop off ?mem)"
  have s: "vu_RxLen s = 0" "vu_TxLen s = 0x5a" "length (vu_TxBuf s) = 11" "vu_MsgPtr s = (App k, off)"
    "vu_MsgFlags s AND 0x40 = 0" "vu_MsgLen s = of_nat m" "m < 255" "off + m \<le> length ?mem"
    using assms(1) by (simp_all add: replying_def)
  have n: "n \<le> 8" "n \<le> m" "m - n < 255" using assms(2) s(7) by auto
  have m: "unat (of_nat m :: u8) = m" using s(7) by (simp add: unsigned_of_nat take_bit_nat_eq_self)
  have want: "(if vu_MsgLen s > 8 then 8 else vu_MsgLen s) = of_nat n"
    using assms(2) m s(6) by (auto simp: word_less_nat_alt min_def)
  have un: "unat (of_nat n :: u8) = n" using n by (simp add: unsigned_of_nat take_bit_nat_eq_self)
  have out: "length out = n" using s(8) n by (simp add: out_def)
  have diff: "(of_nat m :: u8) - of_nat n = of_nat (m - n)" using n(2) by (simp add: of_nat_diff)
  have map: "map (\<lambda>i. if i < length ?mem then ?mem ! i else 0) [off..<off + n] = out"
    using s(8) n by (intro nth_equalityI) (auto simp: out_def)
  define v where "v = (if n = 0 then u else u\<lparr>vu_TxBuf := take 1 (vu_TxBuf u) @ out @ drop (1 + n) (vu_TxBuf u),
    vu_MsgPtr := (App k, off + n)\<rparr>)"
  have read: "usbDeviceRead A n u = (n, v)"
    using s n map by (auto simp: usbDeviceRead_def v_def u_def usb_memory_def Let_def)
  have v: "take 1 (vu_TxBuf v) @ out @ drop (1 + n) (vu_TxBuf v) = vu_TxBuf v \<and> length (vu_TxBuf v) = 11"
  proof (cases "n = 0")
    case True
    then have "out = []" using out by simp
    moreover have "v = u" using True by (simp add: v_def)
    moreover have "length (vu_TxBuf u) = 11" using s(3) by (simp add: u_def)
    ultimately show ?thesis using True by (simp only: append_Nil add_0_right append_take_drop_id)
  next
    case False
    then show ?thesis using s(3) out n by (simp add: v_def u_def)
  qed
  have ne: "(of_nat m :: u8) \<noteq> 255"
  proof
    assume "(of_nat m :: u8) = 255"
    with m s(7) show False by simp
  qed
  have build: "usbBuildTxBlock A crc s = finish_block crc n v"
    unfolding usbBuildTxBlock_def Let_def want using read diff s(6) by (simp add: u_def x_def un)
  define w where "w = finish_block crc n v"
  have w: "vu_sent w = vu_sent s" "vu_app w = vu_app s" "vu_fault w = vu_fault s" "vu_RxLen w = 0"
    "vu_TxLen w = of_nat (n + 4)" "length (vu_TxBuf w) = 11" "vu_MsgFlags w = vu_MsgFlags s"
    "vu_MsgPtr w = (App k, off + n)" "vu_MsgLen w = (if n < 8 then 255 else of_nat (m - n))"
    "take n (drop 1 (vu_TxBuf w)) = out"
    using s n v sent_bytes [OF _ out n(1), of "vu_TxBuf v"]
    by (auto simp: w_def finish_block_def v_def u_def Let_def)
  have "t = bus_step A crc Sent w"
    using s ne build assms(3) by (simp add: bus_step_simps poll_rx_def poll_tx_def w_def)
  then have t: "t = w\<lparr>vu_sent := vu_sent w @ [out], vu_TxLen := 0x5a\<rparr>"
    using w(10) block_size [OF n(1)] by (simp add: bus_step_def w(5))
  show ?thesis
  proof (cases "n < 8")
    case True
    then show ?thesis using w by (simp add: t out_def idle_after_def)
  next
    case False
    then have "n = 8" "8 \<le> m" using n by auto
    then show ?thesis using w s by (simp add: t out_def replying_def)
  qed
qed

lemma reply_all:
  assumes "replying A k off m s"
  shows "\<exists>t out. bus_run A crc (concat (replicate (m div 8 + 1) [Poll False, Sent])) s = t \<and>
    vu_sent t = vu_sent s @ out \<and> concat out = take m (drop off (ua_memory A k (vu_app s))) \<and>
    idle_after s t \<and> list_all (\<lambda>p. length p \<le> 8) out"
  using assms
proof (induction m arbitrary: s off rule: less_induct)
  case (less m)
  define t where "t = bus_run A crc [Poll False, Sent] s"
  note b = reply_block [OF less.prems refl t_def]
  show ?case
  proof (cases "m < 8")
    case True
    with b show ?thesis by (auto simp: min_def t_def [symmetric] simp del: bus_run_simps)
  next
    case False
    then have r: "replying A k (off + 8) (m - 8) t" "vu_app t = vu_app s" "vu_fault t = vu_fault s"
      "vu_sent t = vu_sent s @ [take 8 (drop off (ua_memory A k (vu_app s)))]"
      using b by (simp_all add: min_def)
    obtain v out where v: "bus_run A crc (concat (replicate ((m - 8) div 8 + 1) [Poll False, Sent])) t = v"
      "vu_sent v = vu_sent t @ out" "concat out = take (m - 8) (drop (off + 8) (ua_memory A k (vu_app t)))"
      "idle_after t v" "list_all (\<lambda>p. length p \<le> 8) out"
      using less.IH [OF _ r(1)] False by auto
    have "m div 8 + 1 = Suc ((m - 8) div 8 + 1)" using False by (simp add: le_div_geq)
    then have "bus_run A crc (concat (replicate (m div 8 + 1) [Poll False, Sent])) s = v"
      using v(1) by (simp only: replicate_Suc concat.simps bus_run_simps(3) t_def [symmetric])
    moreover have "take 8 (drop off l) @ take (m - 8) (drop (off + 8) l) = take m (drop off l)" for l :: bytes
      using False take_add [of 8 "m - 8" "drop off l"] by (simp add: add.commute)
    ultimately show ?thesis
      using v(2-5) r by (intro exI [of _ v] exI) (auto simp: idle_after_def simp del: bus_run_simps)
  qed
qed

text \<open>As long as full blocks are left, each round sends one.\<close>

lemma reply_rounds:
  "replying A k off m s \<Longrightarrow> 8 * j \<le> m \<Longrightarrow> t = bus_run A crc (concat (replicate j [Poll False, Sent])) s \<Longrightarrow>
    \<exists>out. vu_sent t = vu_sent s @ out \<and> length out = j \<and> list_all (\<lambda>p. length p = 8) out \<and>
      concat out = take (8 * j) (drop off (ua_memory A k (vu_app s))) \<and>
      replying A k (off + 8 * j) (m - 8 * j) t \<and> vu_app t = vu_app s"
proof (induction j arbitrary: s off m)
  case (Suc j)
  define u where "u = bus_run A crc [Poll False, Sent] s"
  let ?mem = "ua_memory A k (vu_app s)"
  have m: "\<not> m < 8" "8 * j \<le> m - 8" "min 8 m = 8" using Suc.prems(2) by auto
  then have u: "replying A k (off + 8) (m - 8) u" "vu_app u = vu_app s" "vu_sent u = vu_sent s @ [take 8 (drop off ?mem)]"
    using reply_block [OF Suc.prems(1) refl u_def] by simp_all
  have "t = bus_run A crc (concat (replicate j [Poll False, Sent])) u"
    using Suc.prems(3) by (simp only: replicate_Suc concat.simps bus_run_simps(3) u_def)
  from Suc.IH [OF u(1) m(2) this] obtain out where
    o: "vu_sent t = vu_sent u @ out" "length out = j" "list_all (\<lambda>p. length p = 8) out"
      "concat out = take (8 * j) (drop (off + 8) ?mem)" "replying A k (off + 8 + 8 * j) (m - 8 - 8 * j) t"
      "vu_app t = vu_app u" using u(2) by auto
  have "length (take 8 (drop off ?mem)) = 8" using Suc.prems(1) m by (auto simp: replying_def)
  moreover have "take 8 (drop off ?mem) @ take (8 * j) (drop (off + 8) ?mem) = take (8 * Suc j) (drop off ?mem)"
    using take_add [of 8 "8 * j" "drop off ?mem"] by (simp add: add.commute)
  ultimately show ?case
    using o u by (intro exI [of _ "take 8 (drop off ?mem) # out"]) (simp add: algebra_simps)
qed simp

section \<open>The contract of an application\<close>

text \<open>
  \<open>ok\<close> is the invariant of the application. A reply it announces lies in one of its objects,
  whose sizes do not change. \<open>unread\<close> are the requests it answers by \<open>usbFunctionRead\<close>.
\<close>

locale usb_application =
  fixes A :: "'a usb_app"
    and ok :: "'a \<Rightarrow> bool"
    and unread :: "bytes \<Rightarrow> bool"
  assumes setup_ok: "ok a \<Longrightarrow> length rq = 8 \<Longrightarrow> ua_Setup A rq a = (r, p, b) \<Longrightarrow> ok b"
    and setup_reply: "ok a \<Longrightarrow> length rq = 8 \<Longrightarrow> ua_Setup A rq a = (r, p, b) \<Longrightarrow> r \<noteq> USB_NO_MSG \<Longrightarrow> r \<noteq> 0 \<Longrightarrow>
        \<exists>k off. p = Some (App k, off) \<and> off + unat r \<le> length (ua_memory A k b)"
    and setup_unread: "ok a \<Longrightarrow> length rq = 8 \<Longrightarrow> \<not> unread rq \<Longrightarrow> rq_bmRequestType rq AND 0x80 \<noteq> 0 \<Longrightarrow>
        ua_Setup A rq a = (r, p, b) \<Longrightarrow> r \<noteq> USB_NO_MSG"
    and write_ok: "ok a \<Longrightarrow> ua_Write A data a = (r, b) \<Longrightarrow> ok b"
    and sizes: "ok a \<Longrightarrow> ok b \<Longrightarrow> length (ua_memory A k a) = length (ua_memory A k b)"
begin

definition polite :: "line_event \<Rightarrow> bool" where
  "polite e \<longleftrightarrow> (case e of Packet token data \<Rightarrow> \<not> (token = USBPID_SETUP \<and> length data = 8 \<and> unread data) | _ \<Rightarrow> True)"

text \<open>What is left of a message lies in its object.\<close>

definition reply_in :: "u8 \<Rightarrow> 'a vusb \<Rightarrow> bool" where
  "reply_in n s \<longleftrightarrow> n = 0 \<or>
     (fst (vu_MsgPtr s) \<noteq> Null \<and> snd (vu_MsgPtr s) + unat n \<le> length (usb_memory A (fst (vu_MsgPtr s)) s) \<and>
        (vu_MsgFlags s AND USB_FLG_MSGPTR_IS_ROM \<noteq> 0) = (\<exists>k. fst (vu_MsgPtr s) = Rom k))"

definition core_ok :: "'a vusb \<Rightarrow> bool" where
  "core_ok s \<longleftrightarrow> ok (vu_app s) \<and> length (vu_TxBuf s) = 11 \<and> \<not> vu_fault s"

definition rx_ok :: "'a vusb \<Rightarrow> bool" where
  "rx_ok s \<longleftrightarrow> vu_RxToken s = USBPID_SETUP \<longrightarrow> length (take (vu_RxLen s - 3) (vu_RxData s)) = 8 \<longrightarrow>
     \<not> unread (take (vu_RxLen s - 3) (vu_RxData s))"

definition usb_ok :: "'a vusb \<Rightarrow> bool" where
  "usb_ok s \<longleftrightarrow> core_ok s \<and> (vu_MsgLen s = USB_NO_MSG \<or> reply_in (vu_MsgLen s) s) \<and> rx_ok s"

lemma reply_in_le: "reply_in n s \<Longrightarrow> m \<le> n \<Longrightarrow> reply_in m s"
  by (auto simp: reply_in_def word_le_nat_alt unat_eq_0)

lemma driver_reply:
  assumes "usbDriverSetup rq s = (r, t)" and "core_ok s" and "vu_MsgFlags s = 0"
  shows "core_ok t \<and> r \<noteq> USB_NO_MSG \<and> reply_in r t"
proof -
  have rom: "length (rom_object 0) = 18" "length (rom_object 1) = 18" "length (rom_object 2) = 4"
    "length (rom_object 3) = 38" "length (rom_object 4) = 22"
    by (simp_all add: rom_object_def usbDescriptorDevice_def usbDescriptorConfiguration_def usbDescriptorString0_def
        usbDescriptorStringVendor_def usbDescriptorStringDevice_def vusb_string_descriptor_def
        USB_CFG_VENDOR_NAME_def USB_CFG_DEVICE_NAME_def)
  then show ?thesis using assms
    by (auto simp: usbDriverSetup_def usbDriverDescriptor_def static_descriptor_def Let_def core_ok_def reply_in_def
        usb_memory_def split: if_splits)
qed

lemma app_reply:
  assumes "app_setup A rq s = (r, t)" and "core_ok s" and "vu_MsgFlags s = 0"
    and "length rq = 8" and "\<not> unread rq"
  shows "core_ok t \<and> (rq_bmRequestType rq AND 0x80 \<noteq> 0 \<longrightarrow> r \<noteq> USB_NO_MSG) \<and> (r \<noteq> USB_NO_MSG \<longrightarrow> reply_in r t)"
proof -
  obtain p b where u: "ua_Setup A rq (vu_app s) = (r, p, b)" using assms(1)
    by (auto simp: app_setup_def split: prod.splits)
  have a: "ok (vu_app s)" using assms(2) by (simp add: core_ok_def)
  from setup_ok [OF a assms(4) u] setup_reply [OF a assms(4) u] setup_unread [OF a assms(4,5) _ u] show ?thesis
    using assms(1-3) u by (auto simp: app_setup_def core_ok_def reply_in_def usb_memory_def)
qed

lemma process_setup_ok:
  assumes "core_ok s" and "length rq = 8" and "\<not> unread rq"
  shows "core_ok (process_setup A rq s) \<and>
    (vu_MsgLen (process_setup A rq s) = USB_NO_MSG \<or>
      reply_in (vu_MsgLen (process_setup A rq s)) (process_setup A rq s))"
proof -
  let ?s = "s\<lparr>vu_TxBuf := (vu_TxBuf s)[0 := USBPID_DATA0]\<rparr>\<lparr>vu_TxLen := USBPID_NAK\<rparr>\<lparr>vu_MsgFlags := 0\<rparr>"
  let ?c = "if rq_bmRequestType rq AND 0x60 \<noteq> 0 then app_setup A rq ?s else usbDriverSetup rq ?s"
  obtain r t where c: "?c = (r, t)" by fastforce
  have s: "core_ok ?s" "vu_MsgFlags ?s = 0" using assms(1) by (simp_all add: core_ok_def)
  have r: "core_ok t" "rq_bmRequestType rq AND 0x80 \<noteq> 0 \<longrightarrow> r \<noteq> USB_NO_MSG" "r \<noteq> USB_NO_MSG \<longrightarrow> reply_in r t"
    using driver_reply [OF _ s, of rq r t] app_reply [OF _ s assms(2,3), of r t] c
    by (auto split: if_splits)
  have upd: "core_ok (t\<lparr>vu_MsgFlags := f, vu_MsgLen := n\<rparr>) = core_ok t" "core_ok (t\<lparr>vu_MsgLen := n\<rparr>) = core_ok t"
    "reply_in m (t\<lparr>vu_MsgLen := n\<rparr>) = reply_in m t" for f m n
    by (simp_all add: core_ok_def reply_in_def usb_memory_def cong: usb_object.case_cong)
  show ?thesis
  proof (cases "r = USB_NO_MSG")
    case True
    with c r show ?thesis by (simp add: process_setup_def Let_def upd)
  next
    case False
    with r have "reply_in (if rq_wLength_hi rq = 0 \<and> r > rq_wLength_lo rq then rq_wLength_lo rq else r) t"
      by (auto intro: reply_in_le)
    with c r False show ?thesis by (simp add: process_setup_def Let_def upd)
  qed
qed

lemma process_out_ok:
  assumes "core_ok s" and "vu_MsgLen s = USB_NO_MSG \<or> reply_in (vu_MsgLen s) s"
  shows "core_ok (process_out A data s) \<and>
    (vu_MsgLen (process_out A data s) = USB_NO_MSG \<or>
      reply_in (vu_MsgLen (process_out A data s)) (process_out A data s))"
proof -
  obtain r a where w: "ua_Write A data (vu_app s) = (r, a)" by fastforce
  have "ok (vu_app s)" using assms(1) by (simp add: core_ok_def)
  moreover from write_ok [OF this w] have "ok a" .
  ultimately have mem: "length (ua_memory A k (vu_app s)) = length (ua_memory A k a)" for k by (rule sizes)
  have "reply_in n (s\<lparr>vu_app := a\<rparr>) = reply_in n s" "reply_in n (s\<lparr>vu_app := a, vu_TxLen := l\<rparr>) = reply_in n s" for n l
    by (auto simp: reply_in_def usb_memory_def mem split: usb_object.splits)
  moreover have "reply_in 0 t" for t by (simp add: reply_in_def)
  ultimately show ?thesis using assms \<open>ok a\<close> w
    by (auto simp: process_out_def Let_def core_ok_def)
qed

text \<open>A block of a reply: eight bytes, or fewer at its end.\<close>

lemma device_read_ok:
  assumes "core_ok s" and "reply_in (of_nat n) s" and "n \<le> 8" and "usbDeviceRead A n s = (l, t)"
  shows "l = n \<and> core_ok t \<and> vu_MsgLen t = vu_MsgLen s \<and> vu_RxLen t = vu_RxLen s \<and>
    vu_RxToken t = vu_RxToken s \<and> vu_RxData t = vu_RxData s \<and> vu_MsgFlags t = vu_MsgFlags s \<and>
    vu_MsgPtr t = (if n = 0 then vu_MsgPtr s else (fst (vu_MsgPtr s), snd (vu_MsgPtr s) + n)) \<and>
    (\<forall>reg. length (usb_memory A reg t) = length (usb_memory A reg s))"
proof -
  have "unat (of_nat n :: u8) = n" using assms(3) by (simp add: unsigned_of_nat take_bit_nat_eq_self)
  then show ?thesis using assms
    by (cases "n = 0"; cases "vu_MsgPtr s")
      (auto simp: usbDeviceRead_def core_ok_def reply_in_def usb_memory_def Let_def split: usb_object.splits)
qed

lemma build_ok:
  assumes "core_ok s" and "reply_in (vu_MsgLen s) s"
  shows "core_ok (usbBuildTxBlock A crc s) \<and>
    (vu_MsgLen (usbBuildTxBlock A crc s) = USB_NO_MSG \<or>
      reply_in (vu_MsgLen (usbBuildTxBlock A crc s)) (usbBuildTxBlock A crc s)) \<and>
    vu_RxLen (usbBuildTxBlock A crc s) = vu_RxLen s \<and> vu_RxToken (usbBuildTxBlock A crc s) = vu_RxToken s \<and>
    vu_RxData (usbBuildTxBlock A crc s) = vu_RxData s"
proof -
  define w where "w = (if vu_MsgLen s > 8 then 8 else vu_MsgLen s)"
  define u where "u = s\<lparr>vu_MsgLen := vu_MsgLen s - w\<rparr>"
  define v where "v = u\<lparr>vu_TxBuf := (vu_TxBuf u)[0 := vu_TxBuf u ! 0 XOR (USBPID_DATA0 XOR USBPID_DATA1)]\<rparr>"
  have w: "w \<le> vu_MsgLen s" "unat w \<le> 8" by (auto simp: w_def word_le_nat_alt word_less_nat_alt not_less)
  have mem: "length (usb_memory A reg v) = length (usb_memory A reg s)" for reg
    by (simp add: v_def u_def usb_memory_def split: usb_object.splits)
  then have r: "core_ok v" "reply_in (vu_MsgLen s) v"
    using assms by (simp_all add: v_def u_def core_ok_def reply_in_def)
  then have "reply_in (of_nat (unat w)) v" using reply_in_le [of "vu_MsgLen s" v w] w(1) by simp
  moreover obtain l t where t: "usbDeviceRead A (unat w) v = (l, t)" by fastforce
  ultimately have d: "l = unat w" "core_ok t" "vu_MsgLen t = vu_MsgLen s - w" "vu_RxLen t = vu_RxLen s"
    "vu_RxToken t = vu_RxToken s" "vu_RxData t = vu_RxData s" "vu_MsgFlags t = vu_MsgFlags s"
    "vu_MsgPtr t = (if unat w = 0 then vu_MsgPtr s else (fst (vu_MsgPtr s), snd (vu_MsgPtr s) + unat w))"
    "\<forall>reg. length (usb_memory A reg t) = length (usb_memory A reg s)"
    using device_read_ok [OF r(1) _ w(2), of l t] mem by (simp_all add: v_def u_def)
  have rest: "reply_in (vu_MsgLen s - w) t"
    using assms(2) d(7-9) w(1) by (auto simp: reply_in_def unat_sub word_le_nat_alt unat_eq_0)
  have upd: "core_ok (t\<lparr>vu_TxBuf := (vu_TxBuf t)[i := x, j := y]\<rparr>) = core_ok t"
    "core_ok (z\<lparr>vu_MsgLen := n\<rparr>) = core_ok z" "core_ok (z\<lparr>vu_TxLen := n\<rparr>) = core_ok z"
    "reply_in m (t\<lparr>vu_TxBuf := (vu_TxBuf t)[i := x, j := y], vu_TxLen := n\<rparr>) = reply_in m t" for i j x y n m z
    by (auto simp: core_ok_def reply_in_def usb_memory_def split: usb_object.splits)
  have "usbBuildTxBlock A crc s = finish_block crc l t"
    by (simp only: usbBuildTxBlock_def Let_def w_def [symmetric] u_def [symmetric] v_def [symmetric] t prod.case)
  then show ?thesis using d rest w(2) by (simp add: finish_block_def Let_def upd)
qed

lemma poll_ok:
  assumes "usb_ok s"
  shows "usb_ok (usbPoll A crc se0 s)"
proof -
  let ?d = "take (vu_RxLen s - 3) (vu_RxData s)"
  let ?good = "\<lambda>s. core_ok s \<and> (vu_MsgLen s = USB_NO_MSG \<or> reply_in (vu_MsgLen s) s)"
  have upd: "core_ok (t\<lparr>vu_RxLen := n\<rparr>) = core_ok t" "reply_in m (t\<lparr>vu_RxLen := n\<rparr>) = reply_in m t" for t m n
    by (auto simp: core_ok_def reply_in_def usb_memory_def split: usb_object.splits)
  have "?good (usbProcessRx A ?d s)"
    using assms process_setup_ok [of s ?d] process_out_ok [of s ?d]
    by (auto simp: usbProcessRx_def usb_ok_def rx_ok_def)
  then have r: "?good (poll_rx A s)" "vu_RxLen (poll_rx A s) < 3"
    using assms by (auto simp: poll_rx_def usb_ok_def Let_def upd)
  then have x: "?good (poll_tx A crc (poll_rx A s))" "vu_RxLen (poll_tx A crc (poll_rx A s)) < 3"
    using build_ok [of "poll_rx A s" crc] by (auto simp: poll_tx_def)
  have "?good (t\<lparr>vu_NewDeviceAddr := 0, vu_DeviceAddr := 0\<rparr>) = ?good t" for t
    by (auto simp: core_ok_def reply_in_def usb_memory_def split: usb_object.splits)
  with x show ?thesis by (simp add: usbPoll_def usb_ok_def rx_ok_def Let_def)
qed

lemma bus_step_ok: "usb_ok s \<Longrightarrow> polite e \<Longrightarrow> usb_ok (bus_step A crc e s)"
proof (cases e)
  case (Packet token data)
  then show "usb_ok s \<Longrightarrow> polite e \<Longrightarrow> usb_ok (bus_step A crc e s)"
    by (auto simp: bus_step_def polite_def usb_ok_def rx_ok_def core_ok_def reply_in_def usb_memory_def
        split: usb_object.splits)
next
  case Sent
  then show "usb_ok s \<Longrightarrow> polite e \<Longrightarrow> usb_ok (bus_step A crc e s)"
    by (auto simp: bus_step_def usb_ok_def rx_ok_def core_ok_def reply_in_def usb_memory_def
        split: usb_object.splits)
qed (simp add: bus_step_def poll_ok)

lemma bus_run_ok: "usb_ok s \<Longrightarrow> list_all polite es \<Longrightarrow> usb_ok (bus_run A crc es s)"
  by (induction es arbitrary: s) (simp_all add: bus_step_ok)

lemma boot_ok: "ok a \<Longrightarrow> usb_ok (vusb_boot a)"
  by (simp add: vusb_boot_def usb_ok_def core_ok_def rx_ok_def)

end

end
