(* ===== verification/UsbTestDevice.thy ===== *)
theory UsbTestDevice
  imports VUsb
begin

text \<open>
  The test device \<open>libusbtest/firmware/main.c\<close>: an application of the driver of theory
  \<open>VUsb\<close> with a buffer the host can write and read. A store outside the buffer sets the
  fault flag and is dropped.
\<close>

section \<open>The application\<close>

abbreviation (input) "CUSTOM_RQ_ECHO \<equiv> 0 :: u8"
abbreviation (input) "CUSTOM_RQ_SET_STATUS \<equiv> 1 :: u8"
abbreviation (input) "CUSTOM_RQ_GET_STATUS \<equiv> 2 :: u8"
abbreviation (input) "CUSTOM_RQ_TEST_READ \<equiv> 3 :: u8"
abbreviation (input) "CUSTOM_RQ_TEST_WRITE \<equiv> 4 :: u8"

definition READ_WRITE_BUFFER_SIZE :: nat where "READ_WRITE_BUFFER_SIZE = 230"

record test_device =
  td_currentPosition :: u8
  td_bytesRemaining :: u8
  td_readWriteBuffer :: bytes
  td_dataBuffer :: bytes
  td_DDRB :: u8
  td_PORTB :: u8
  td_DDRD :: u8
  td_PORTD :: u8
  td_fault :: bool

definition test_device_boot :: test_device where
  "test_device_boot =
    \<lparr>td_currentPosition = 0, td_bytesRemaining = 0, td_readWriteBuffer = replicate READ_WRITE_BUFFER_SIZE 0,
     td_dataBuffer = replicate 4 0, td_DDRB = 0, td_PORTB = 0, td_DDRD = 0, td_PORTD = 0, td_fault = False\<rparr>"

text \<open>Object 0 is \<open>dataBuffer\<close>, object 1 \<open>readWriteBuffer\<close>. The middle result is a new \<open>usbMsgPtr\<close>.\<close>

definition td_memory :: "nat \<Rightarrow> test_device \<Rightarrow> bytes" where
  "td_memory k s = (if k = 0 then td_dataBuffer s else if k = 1 then td_readWriteBuffer s else [])"

definition usbFunctionSetup :: "bytes \<Rightarrow> test_device \<Rightarrow> u8 \<times> (usb_object \<times> nat) option \<times> test_device" where
  "usbFunctionSetup data s =
     (if data ! 1 = CUSTOM_RQ_ECHO
      then (let s = s\<lparr>td_DDRD := td_DDRD s OR push_bit 7 1\<rparr>;
                s = s\<lparr>td_PORTD := td_PORTD s AND NOT (push_bit 7 1)\<rparr>;
                s = s\<lparr>td_dataBuffer := (td_dataBuffer s)[0 := data ! 2]\<rparr>;
                s = s\<lparr>td_dataBuffer := (td_dataBuffer s)[1 := data ! 3]\<rparr>;
                s = s\<lparr>td_dataBuffer := (td_dataBuffer s)[2 := data ! 4]\<rparr>;
                s = s\<lparr>td_dataBuffer := (td_dataBuffer s)[3 := data ! 5]\<rparr>;
                s = s\<lparr>td_PORTD := td_PORTD s OR push_bit 7 1\<rparr>
            in (4, Some (App 0, 0), s))
      else if data ! 1 = CUSTOM_RQ_SET_STATUS
      then (if data ! 2 AND 1 \<noteq> 0
            then (0, None, s\<lparr>td_PORTB := td_PORTB s OR push_bit 0 1\<rparr>)
            else (0, None, s\<lparr>td_PORTB := td_PORTB s AND NOT (push_bit 0 1)\<rparr>))
      else if data ! 1 = CUSTOM_RQ_GET_STATUS
      then (1, Some (App 0, 0),
            s\<lparr>td_dataBuffer := (td_dataBuffer s)[0 := (if td_PORTB s AND push_bit 0 1 \<noteq> 0 then 1 else 0)]\<rparr>)
      else if data ! 1 = CUSTOM_RQ_TEST_READ
      then (230, Some (App 1, 0), s\<lparr>td_currentPosition := 0\<rparr>)
      else if data ! 1 = CUSTOM_RQ_TEST_WRITE
      then (let s = s\<lparr>td_currentPosition := 0\<rparr>;
                s = s\<lparr>td_bytesRemaining := ucast (ucast (data ! 6) + 256 * ucast (data ! 7) :: u16)\<rparr>;
                s = (if unat (td_bytesRemaining s) > READ_WRITE_BUFFER_SIZE
                     then s\<lparr>td_bytesRemaining := of_nat READ_WRITE_BUFFER_SIZE\<rparr> else s)
            in (USB_NO_MSG, None, s))
      else (0, None, s))"

definition td_store :: "u8 \<Rightarrow> test_device \<Rightarrow> test_device" where
  "td_store v s =
     (let i = unat (td_currentPosition s);
          s = (if i < length (td_readWriteBuffer s)
               then s\<lparr>td_readWriteBuffer := (td_readWriteBuffer s)[i := v]\<rparr> else s\<lparr>td_fault := True\<rparr>)
      in s\<lparr>td_currentPosition := td_currentPosition s + 1\<rparr>)"

definition usbFunctionWrite :: "bytes \<Rightarrow> test_device \<Rightarrow> u8 \<times> test_device" where
  "usbFunctionWrite data s =
     (let s = s\<lparr>td_DDRD := td_DDRD s OR push_bit 7 1\<rparr>;
          s = s\<lparr>td_PORTD := td_PORTD s OR push_bit 7 1\<rparr>;
          len = length data;
          len = (if len > unat (td_bytesRemaining s) then unat (td_bytesRemaining s) else len);
          s = s\<lparr>td_bytesRemaining := td_bytesRemaining s - of_nat len\<rparr>;
          s = fold (\<lambda>i s. td_store (data ! i) s) [0..<len] s;
          s = s\<lparr>td_PORTD := td_PORTD s AND NOT (push_bit 7 1)\<rparr>
      in (if td_bytesRemaining s = 0 then 1 else 0, s))"

text \<open>\<open>usbFunctionRead\<close> is not used by the driver in this configuration.\<close>

definition td_fetch :: "nat \<Rightarrow> bytes \<times> test_device \<Rightarrow> bytes \<times> test_device" where
  "td_fetch i x =
     (case x of (data, s) \<Rightarrow>
       let p = unat (td_currentPosition s);
           data = (if p < length (td_readWriteBuffer s) then data[i := td_readWriteBuffer s ! p] else data);
           s = (if p < length (td_readWriteBuffer s) then s else s\<lparr>td_fault := True\<rparr>)
       in (data, s\<lparr>td_currentPosition := td_currentPosition s + 1\<rparr>))"

definition usbFunctionRead :: "bytes \<Rightarrow> test_device \<Rightarrow> nat \<times> bytes \<times> test_device" where
  "usbFunctionRead data s =
     (let len = length data;
          len = (if len > unat (td_bytesRemaining s) then unat (td_bytesRemaining s) else len);
          s = s\<lparr>td_bytesRemaining := td_bytesRemaining s - of_nat len\<rparr>
      in (len, fold td_fetch [0..<len] (data, s)))"

definition test_app :: "test_device usb_app" where
  "test_app = \<lparr>ua_Setup = usbFunctionSetup, ua_Write = usbFunctionWrite, ua_memory = td_memory\<rparr>"

text \<open>The wait of \<open>main\<close> before the device connects: the passes of \<open>while(--i)\<close>.\<close>

function disconnect_wait :: "u8 \<Rightarrow> nat \<Rightarrow> nat" where
  "disconnect_wait i n = (let i = i - 1 in if i \<noteq> 0 then disconnect_wait i (n + 1) else n)"
  by pat_completeness auto
termination
proof (relation "measure (\<lambda>(i, n). unat (i - 1))", goal_cases)
  case (2 i n j)
  then have "j \<noteq> 0" by simp
  then have "unat (j - 1) < unat j" by (simp add: unat_minus_one unat_gt_0)
  with 2 show ?case by simp
qed simp

declare disconnect_wait.simps [simp del]

text \<open>The milliseconds the device stays off the bus, the ports and the device after the start.\<close>

definition test_device_start :: "vusb_ports \<Rightarrow> test_device \<Rightarrow> nat \<times> vusb_ports \<times> test_device" where
  "test_device_start p s =
     (let p = usbDeviceDisconnect (usbInit p);
          ms = disconnect_wait 0 0;
          p = usbDeviceConnect p
      in (ms, p, s\<lparr>td_DDRB := td_DDRB s OR push_bit 0 1\<rparr>))"

section \<open>The buffer is respected\<close>

definition td_ok :: "test_device \<Rightarrow> bool" where
  "td_ok s \<longleftrightarrow> length (td_readWriteBuffer s) = 230 \<and> length (td_dataBuffer s) = 4 \<and>
     unat (td_currentPosition s) + unat (td_bytesRemaining s) \<le> 230 \<and> \<not> td_fault s"

definition patch :: "nat \<Rightarrow> bytes \<Rightarrow> bytes \<Rightarrow> bytes" where
  "patch p bs buf = take p buf @ bs @ drop (p + length bs) buf"

lemma length_patch: "p + length bs \<le> length buf \<Longrightarrow> length (patch p bs buf) = length buf"
  by (simp add: patch_def)

lemma patch_snoc:
  assumes "p + length bs < length buf"
  shows "(patch p bs buf)[p + length bs := v] = patch p (bs @ [v]) buf"
proof -
  have d: "drop (p + length bs) buf = buf ! (p + length bs) # drop (Suc (p + length bs)) buf"
    using assms by (rule Cons_nth_drop_Suc [symmetric])
  show ?thesis using assms unfolding patch_def d by (simp add: list_update_append)
qed

lemma patch_append: "p + length bs \<le> length buf \<Longrightarrow> patch (p + length bs) cs (patch p bs buf) = patch p (bs @ cs) buf"
  by (simp add: patch_def add.commute add.left_commute)

lemma store_bytes:
  assumes "n \<le> length data" and "unat (td_currentPosition s) + n \<le> length (td_readWriteBuffer s)"
    and "length (td_readWriteBuffer s) < 256"
  shows "fold (\<lambda>i s. td_store (data ! i) s) [0..<n] s =
    s\<lparr>td_readWriteBuffer := patch (unat (td_currentPosition s)) (take n data) (td_readWriteBuffer s),
      td_currentPosition := td_currentPosition s + of_nat n\<rparr>"
  using assms
proof (induction n)
  case (Suc n)
  have "unat (td_currentPosition s + of_nat n) = unat (td_currentPosition s) + n"
    using Suc.prems by (simp add: unat_word_ariths unsigned_of_nat take_bit_nat_eq_self mod_less)
  moreover have "(patch (unat (td_currentPosition s)) (take n data) (td_readWriteBuffer s))
      [unat (td_currentPosition s) + n := data ! n] =
      patch (unat (td_currentPosition s)) (take (Suc n) data) (td_readWriteBuffer s)"
    using Suc.prems patch_snoc [of "unat (td_currentPosition s)" "take n data" "td_readWriteBuffer s" "data ! n"]
    by (simp add: take_Suc_conv_app_nth)
  ultimately show ?case using Suc by (simp add: td_store_def Let_def length_patch algebra_simps)
qed (simp add: patch_def)

text \<open>A write in full: the bytes that fit go behind the ones before.\<close>

lemma write_stores:
  assumes "td_ok s" and "usbFunctionWrite data s = (r, t)"
  shows "td_ok t \<and> (let n = min (length data) (unat (td_bytesRemaining s)) in
    td_readWriteBuffer t = patch (unat (td_currentPosition s)) (take n data) (td_readWriteBuffer s) \<and>
    unat (td_currentPosition t) = unat (td_currentPosition s) + n \<and>
    unat (td_bytesRemaining t) = unat (td_bytesRemaining s) - n \<and>
    r = (if unat (td_bytesRemaining s) = n then 1 else 0))"
proof -
  define n where "n = min (length data) (unat (td_bytesRemaining s))"
  have n: "(if unat (td_bytesRemaining s) < length data then unat (td_bytesRemaining s) else length data) = n"
    by (simp add: n_def)
  define u where "u = s\<lparr>td_DDRD := td_DDRD s OR push_bit 7 1\<rparr>\<lparr>td_PORTD := td_PORTD s OR push_bit 7 1\<rparr>
    \<lparr>td_bytesRemaining := td_bytesRemaining s - of_nat n\<rparr>"
  have le: "n \<le> length data" "n \<le> unat (td_bytesRemaining s)" "n < 256"
    using unat_u8_less [of "td_bytesRemaining s"] by (auto simp: n_def)
  have un: "unat (of_nat n :: u8) = n" using le(3) by (simp add: unsigned_of_nat take_bit_nat_eq_self)
  have fit: "unat (td_currentPosition s) + n \<le> 230" using assms(1) le(2) by (simp add: td_ok_def)
  have rem: "unat (td_bytesRemaining s - of_nat n) = unat (td_bytesRemaining s) - n"
    using le(2) by (simp add: un word_le_nat_alt unat_sub)
  have pos: "unat (td_currentPosition s + of_nat n) = unat (td_currentPosition s) + n"
    using fit by (simp add: unat_word_ariths un)
  have f: "fold (\<lambda>i s. td_store (data ! i) s) [0..<n] u =
    u\<lparr>td_readWriteBuffer := patch (unat (td_currentPosition u)) (take n data) (td_readWriteBuffer u),
      td_currentPosition := td_currentPosition u + of_nat n\<rparr>"
    by (rule store_bytes) (use le fit assms(1) in \<open>simp_all add: u_def td_ok_def\<close>)
  have "usbFunctionWrite data s = (let v = fold (\<lambda>i s. td_store (data ! i) s) [0..<n] u; v = v\<lparr>td_PORTD := td_PORTD v AND NOT (push_bit 7 1)\<rparr>
      in (if td_bytesRemaining v = 0 then 1 else 0, v))"
    by (simp add: usbFunctionWrite_def Let_def u_def n cong: if_cong)
  then have "r = (if td_bytesRemaining u = 0 then 1 else 0)" and
    t: "t = u\<lparr>td_readWriteBuffer := patch (unat (td_currentPosition s)) (take n data) (td_readWriteBuffer s),
      td_currentPosition := td_currentPosition s + of_nat n\<rparr>\<lparr>td_PORTD := td_PORTD u AND NOT (push_bit 7 1)\<rparr>"
    unfolding f assms(2) by (simp_all add: Let_def u_def)
  then have r: "r = (if unat (td_bytesRemaining s) = n then 1 else 0)"
    using le(2) rem by (simp add: u_def flip: unat_eq_0)
  have "length (patch (unat (td_currentPosition s)) (take n data) (td_readWriteBuffer s)) = 230"
    using le fit assms(1) by (subst length_patch) (simp_all add: td_ok_def)
  then show ?thesis using assms(1) fit le r pos rem
    unfolding t n_def [symmetric] Let_def by (simp add: u_def td_ok_def)
qed

lemma setup_td_ok: "td_ok s \<Longrightarrow> usbFunctionSetup data s = (r, p, t) \<Longrightarrow> td_ok t"
  by (auto simp: usbFunctionSetup_def td_ok_def READ_WRITE_BUFFER_SIZE_def Let_def split: if_splits)

text \<open>A request to read that the application answers as a write.\<close>

definition td_unread :: "bytes \<Rightarrow> bool" where
  "td_unread rq \<longleftrightarrow> rq ! 0 AND 0x80 \<noteq> 0 \<and> rq ! 1 = CUSTOM_RQ_TEST_WRITE"

interpretation test: usb_application test_app td_ok td_unread
proof (unfold_locales, goal_cases)
  case (1 a rq r p b)
  then show ?case by (auto simp: test_app_def intro: setup_td_ok)
next
  case (2 a rq r p b)
  then show ?case
    by (auto simp: test_app_def usbFunctionSetup_def td_memory_def td_ok_def Let_def split: if_splits)
next
  case (3 a rq r p b)
  then show ?case
    by (auto simp: test_app_def usbFunctionSetup_def td_unread_def Let_def split: if_splits)
next
  case (4 a data r b)
  then show ?case using write_stores
    by (auto simp: test_app_def)
next
  case (5 a b k)
  then show ?case by (simp add: test_app_def td_memory_def td_ok_def)
qed

text \<open>An event that is no such request.\<close>

definition polite_event :: "line_event \<Rightarrow> bool" where
  "polite_event e \<longleftrightarrow>
     (case e of Packet token data \<Rightarrow> \<not> (token = USBPID_SETUP \<and> length data = 8 \<and> td_unread data) | _ \<Rightarrow> True)"

lemma polite_events: "list_all polite_event es \<Longrightarrow> list_all test.polite es"
  unfolding list_all_iff test.polite_def polite_event_def by blast

lemma test_device_boot_ok: "td_ok test_device_boot"
  by (simp add: td_ok_def test_device_boot_def READ_WRITE_BUFFER_SIZE_def)

lemma disconnect_wait_passes: "disconnect_wait 0 0 = 255"
proof -
  have wait: "disconnect_wait (of_nat (Suc k)) n = n + k" if "k < 255" for k n
    using that
  proof (induction k arbitrary: n)
    case 0
    then show ?case by (simp add: disconnect_wait.simps [of 1])
  next
    case (Suc k)
    have "unat (of_nat (Suc k) :: u8) = Suc k" using Suc.prems by (simp add: unsigned_of_nat take_bit_nat_eq_self del: of_nat_Suc)
    then have "(of_nat (Suc k) :: u8) \<noteq> 0" by fastforce
    moreover have "(of_nat (Suc (Suc k)) :: u8) - 1 = of_nat (Suc k)" by simp
    ultimately show ?case using Suc by (subst disconnect_wait.simps) (simp only: Let_def if_True if_not_P, simp)
  qed
  have "(0 :: u8) - 1 = of_nat (Suc 254)" by simp
  then show ?thesis using wait [of 254 1] by (subst disconnect_wait.simps) (simp only: Let_def, simp)
qed

text \<open>
  After the start the host has seen no device for 255 milliseconds, the line is released and
  the interrupt of the driver is on.
\<close>

lemma test_device_starts:
  assumes "test_device_start p s = (ms, q, t)"
  shows "ms = 255" and "\<not> bit (USBDDR q) USBMINUS" and "bit (USB_INTR_ENABLE q) INT0"
    and "td_ok s \<Longrightarrow> td_ok t"
  using assms
  by (auto simp: test_device_start_def usbInit_def usbDeviceConnect_def usbDeviceDisconnect_def Let_def
      disconnect_wait_passes td_ok_def bit_simps)

end
