(* ===== verification/UsbTestHost.thy ===== *)
theory UsbTestHost
  imports Prelude
begin

text \<open>
  The host program of the test device, \<open>libusbtest/commandline/main.c\<close>, in both variants:
  for libusb 0.1, which is built, and for libusb 1.0. The libraries are parameters: what a device
  answers when it is opened and asked for its names is part of the list of devices (each is asked
  at most once), and the control transfer is an argument. The messages are recorded by their contents.
\<close>

section \<open>Opening the device\<close>

abbreviation (input) "USB_ERROR_NOTFOUND \<equiv> 1 :: int"
abbreviation (input) "USB_ERROR_ACCESS \<equiv> 2 :: int"
abbreviation (input) "USB_ERROR_IO \<equiv> 3 :: int"

record 'h seen_device =
  sd_idVendor :: int
  sd_idProduct :: int
  sd_open :: "'h option"
  sd_manufacturer :: "string option"
  sd_product :: "string option"

text \<open>
  The rest of a scan: the handle it ends with, the error code and the handles that were closed.
  A name that is not \<open>None\<close> is compared; \<open>strcmp\<close> with a single null pointer, which is not
  defined, is taken as unequal.
\<close>

fun scan_devices :: "int \<Rightarrow> string option \<Rightarrow> int \<Rightarrow> string option \<Rightarrow> 'h seen_device list \<Rightarrow> int \<Rightarrow> 'h list \<Rightarrow>
    'h option \<times> int \<times> 'h list" where
  "scan_devices vendor vendorName product productName [] errorCode closed = (None, errorCode, closed)"
| "scan_devices vendor vendorName product productName (dev # devs) errorCode closed =
     (if sd_idVendor dev = vendor \<and> sd_idProduct dev = product
      then (case sd_open dev of
          None \<Rightarrow> scan_devices vendor vendorName product productName devs USB_ERROR_ACCESS closed
        | Some handle \<Rightarrow>
            if vendorName = None \<and> productName = None then (Some handle, errorCode, closed)
            else (case sd_manufacturer dev of
                None \<Rightarrow> scan_devices vendor vendorName product productName devs USB_ERROR_IO (closed @ [handle])
              | Some name \<Rightarrow>
                  if vendorName = Some name
                  then (case sd_product dev of
                      None \<Rightarrow> scan_devices vendor vendorName product productName devs USB_ERROR_IO (closed @ [handle])
                    | Some name \<Rightarrow>
                        if productName = Some name then (Some handle, USB_ERROR_NOTFOUND, closed)
                        else scan_devices vendor vendorName product productName devs USB_ERROR_NOTFOUND (closed @ [handle]))
                  else scan_devices vendor vendorName product productName devs USB_ERROR_NOTFOUND (closed @ [handle])))
      else scan_devices vendor vendorName product productName devs errorCode closed)"

fun scan_busses :: "int \<Rightarrow> string option \<Rightarrow> int \<Rightarrow> string option \<Rightarrow> 'h seen_device list list \<Rightarrow> int \<Rightarrow> 'h list \<Rightarrow>
    'h option \<times> int \<times> 'h list" where
  "scan_busses vendor vendorName product productName [] errorCode closed = (None, errorCode, closed)"
| "scan_busses vendor vendorName product productName (bus # busses) errorCode closed =
     (case scan_devices vendor vendorName product productName bus errorCode closed of
        (Some handle, errorCode, closed) \<Rightarrow> (Some handle, errorCode, closed)
      | (None, errorCode, closed) \<Rightarrow> scan_busses vendor vendorName product productName busses errorCode closed)"

definition usbOpenDevice :: "'h seen_device list list \<Rightarrow> int \<Rightarrow> string option \<Rightarrow> int \<Rightarrow> string option \<Rightarrow>
    int \<times> 'h option \<times> 'h list" where
  "usbOpenDevice busses vendor vendorName product productName =
     (case scan_busses vendor vendorName product productName busses USB_ERROR_NOTFOUND [] of
        (Some handle, errorCode, closed) \<Rightarrow> (0, Some handle, closed)
      | (None, errorCode, closed) \<Rightarrow> (errorCode, None, closed))"

text \<open>The variant for libusb 1.0, with one list of devices and the result in an error code.\<close>

datatype libusb_result =
  LIBUSB_SUCCESS | LIBUSB_ERROR_IO | LIBUSB_ERROR_INVALID_PARAM | LIBUSB_ERROR_ACCESS | LIBUSB_ERROR_NO_DEVICE
  | LIBUSB_ERROR_NOT_FOUND | LIBUSB_ERROR_BUSY | LIBUSB_ERROR_TIMEOUT | LIBUSB_ERROR_OVERFLOW | LIBUSB_ERROR_PIPE
  | LIBUSB_ERROR_INTERRUPTED | LIBUSB_ERROR_NO_MEM | LIBUSB_ERROR_NOT_SUPPORTED | LIBUSB_ERROR_OTHER

datatype errno =
  NoError | EIO | EINVAL | EACCES | ENXIO | ENOENT | EBUSY | ETIMEDOUT | EOVERFLOW | EPIPE | EINTR | ENOMEM | ENOSYS | ERANGE

fun libusb_to_errno :: "libusb_result \<Rightarrow> errno" where
  "libusb_to_errno LIBUSB_SUCCESS = NoError"
| "libusb_to_errno LIBUSB_ERROR_IO = EIO"
| "libusb_to_errno LIBUSB_ERROR_INVALID_PARAM = EINVAL"
| "libusb_to_errno LIBUSB_ERROR_ACCESS = EACCES"
| "libusb_to_errno LIBUSB_ERROR_NO_DEVICE = ENXIO"
| "libusb_to_errno LIBUSB_ERROR_NOT_FOUND = ENOENT"
| "libusb_to_errno LIBUSB_ERROR_BUSY = EBUSY"
| "libusb_to_errno LIBUSB_ERROR_TIMEOUT = ETIMEDOUT"
| "libusb_to_errno LIBUSB_ERROR_OVERFLOW = EOVERFLOW"
| "libusb_to_errno LIBUSB_ERROR_PIPE = EPIPE"
| "libusb_to_errno LIBUSB_ERROR_INTERRUPTED = EINTR"
| "libusb_to_errno LIBUSB_ERROR_NO_MEM = ENOMEM"
| "libusb_to_errno LIBUSB_ERROR_NOT_SUPPORTED = ENOSYS"
| "libusb_to_errno LIBUSB_ERROR_OTHER = ERANGE"

text \<open>One pass of the loop; the flag tells whether it ends there. The handle is null before.\<close>

definition try_device :: "int \<Rightarrow> string option \<Rightarrow> int \<Rightarrow> string option \<Rightarrow> 'h seen_device \<Rightarrow> int \<times> 'h list \<Rightarrow>
    bool \<times> 'h option \<times> int \<times> 'h list" where
  "try_device vendor vendorName product productName dev x =
     (case x of (errorCode, closed) \<Rightarrow>
       if sd_idVendor dev = vendor \<and> sd_idProduct dev = product
       then (case sd_open dev of
           None \<Rightarrow> (False, None, USB_ERROR_ACCESS, closed)
         | Some handle \<Rightarrow>
             if vendorName = None \<and> productName = None then (True, Some handle, errorCode, closed)
             else (case sd_manufacturer dev of
                 None \<Rightarrow> (False, None, USB_ERROR_IO, closed @ [handle])
               | Some name \<Rightarrow>
                   if vendorName = Some name
                   then (case sd_product dev of
                       None \<Rightarrow> (False, None, USB_ERROR_IO, closed @ [handle])
                     | Some name \<Rightarrow>
                         if productName = Some name then (True, Some handle, USB_ERROR_NOTFOUND, closed)
                         else (False, None, USB_ERROR_NOTFOUND, closed @ [handle]))
                   else (False, None, USB_ERROR_NOTFOUND, closed @ [handle])))
       else (False, None, errorCode, closed))"

fun try_devices :: "int \<Rightarrow> string option \<Rightarrow> int \<Rightarrow> string option \<Rightarrow> 'h seen_device list \<Rightarrow> int \<times> 'h list \<Rightarrow>
    'h option \<times> int \<times> 'h list" where
  "try_devices vendor vendorName product productName [] x = (None, x)"
| "try_devices vendor vendorName product productName (dev # devs) x =
     (case try_device vendor vendorName product productName dev x of
        (True, handle, y) \<Rightarrow> (handle, y)
      | (False, handle, y) \<Rightarrow> try_devices vendor vendorName product productName devs y)"

definition usbOpenDevice_1_0 :: "'h seen_device list \<Rightarrow> int \<Rightarrow> string option \<Rightarrow> int \<Rightarrow> string option \<Rightarrow>
    int \<times> 'h option \<times> 'h list" where
  "usbOpenDevice_1_0 devs vendor vendorName product productName =
     (case try_devices vendor vendorName product productName devs (USB_ERROR_NOTFOUND, []) of
        (Some handle, errorCode, closed) \<Rightarrow> (0, Some handle, closed)
      | (None, errorCode, closed) \<Rightarrow> (errorCode, None, closed))"

abbreviation (input) "USBDEVICE_SHARED_VID \<equiv> 0x16C0 :: int"
abbreviation (input) "USBDEVICE_SHARED_PID \<equiv> 0x05DC :: int"

definition usbdevice_open :: "'h seen_device list list \<Rightarrow> int \<times> 'h option" where
  "usbdevice_open busses =
     (case usbOpenDevice busses USBDEVICE_SHARED_VID (Some ''Embedded Creations'') USBDEVICE_SHARED_PID
         (Some ''libusbtest'') of
        (errorCode, device, closed) \<Rightarrow> if errorCode \<noteq> 0 then (-1, device) else (0, device))"

section \<open>Transfers\<close>

text \<open>
  The library's transfer: request type, request, value, index, buffer and its size, to the number of
  bytes or a negative error, and the buffer after it.
\<close>

type_synonym 'd transfer = "int \<Rightarrow> int \<Rightarrow> int \<Rightarrow> int \<Rightarrow> bytes \<Rightarrow> int \<Rightarrow> 'd \<Rightarrow> int \<times> bytes \<times> 'd"

definition usbdevice_transmit :: "'d transfer \<Rightarrow> u8 \<Rightarrow> u8 \<Rightarrow> bytes \<Rightarrow> bytes \<Rightarrow> int \<Rightarrow> 'd \<Rightarrow> int \<times> bytes \<times> 'd" where
  "usbdevice_transmit T receive functionid send buffer buffersize d =
     (case T (0x40 + 128 * uint receive) (uint functionid) (256 * uint (send ! 1) + uint (send ! 0))
         (256 * uint (send ! 3) + uint (send ! 2)) buffer buffersize d of
        (nbytes, buffer, d) \<Rightarrow> if nbytes < 0 then (-1, buffer, d) else (nbytes, buffer, d))"

datatype host_message = Sent_successfully | Send_fail int | Got u32 bytes | No_capabilities

definition testWrite :: "'d transfer \<Rightarrow> 'd \<Rightarrow> host_message \<times> 'd" where
  "testWrite T d =
     (let temp = replicate 4 0;
          res = map (\<lambda>i. 64 - of_nat i) [0..<64]
      in case usbdevice_transmit T 0 4 temp res 64 d of
        (len, res, d) \<Rightarrow> (if len = 64 then Sent_successfully else Send_fail len, d))"

text \<open>
  The length is unsigned. The second result tells that the loop reads behind \<open>res\<close>; the bytes
  shown are those inside it, which \<open>res0\<close> holds before the transfer.
\<close>

definition usbasp_initialize :: "'d transfer \<Rightarrow> bytes \<Rightarrow> 'd \<Rightarrow> host_message \<times> bool \<times> 'd" where
  "usbasp_initialize T res0 d =
     (let temp = replicate 4 0
      in case usbdevice_transmit T 1 3 temp res0 230 d of
        (n, res, d) \<Rightarrow>
          let len = word_of_int n :: u32
          in if len \<noteq> 0 then (Got len (take (unat len) res), unat len > length res, d)
             else (No_capabilities, False, d))"

text \<open>\<open>main\<close>: nothing is sent if the device is not found.\<close>

definition host_main :: "'h seen_device list list \<Rightarrow> ('h \<Rightarrow> 'd transfer) \<Rightarrow> bytes \<Rightarrow> 'd \<Rightarrow>
    (host_message \<times> host_message \<times> bool) option \<times> 'd" where
  "host_main busses T res0 d =
     (case usbdevice_open busses of
        (r, Some h) \<Rightarrow>
          if r = 0
          then (case testWrite (T h) d of
            (m1, d) \<Rightarrow> case usbasp_initialize (T h) res0 d of (m2, over, d) \<Rightarrow> (Some (m1, m2, over), d))
          else (None, d)
      | (r, None) \<Rightarrow> (None, d))"

section \<open>Which device is opened\<close>

definition device_matches :: "int \<Rightarrow> string option \<Rightarrow> int \<Rightarrow> string option \<Rightarrow> 'h seen_device \<Rightarrow> bool" where
  "device_matches vendor vendorName product productName dev \<longleftrightarrow>
     sd_idVendor dev = vendor \<and> sd_idProduct dev = product \<and> sd_open dev \<noteq> None \<and>
     (vendorName = None \<and> productName = None \<or>
      sd_manufacturer dev \<noteq> None \<and> vendorName = sd_manufacturer dev \<and>
      sd_product dev \<noteq> None \<and> productName = sd_product dev)"

lemma scan_devices_try:
  "scan_devices vendor vendorName product productName devs errorCode closed =
    try_devices vendor vendorName product productName devs (errorCode, closed)"
  by (induction devs arbitrary: errorCode closed) (auto simp: try_device_def split: option.splits)

lemma try_devices_append:
  "try_devices vendor vendorName product productName (xs @ ys) x =
    (case try_devices vendor vendorName product productName xs x of
       (Some h, y) \<Rightarrow> (Some h, y) | (None, y) \<Rightarrow> try_devices vendor vendorName product productName ys y)"
  by (induction xs arbitrary: x) (auto simp: try_device_def split: option.splits prod.splits if_splits)

lemma scan_busses_concat:
  "scan_busses vendor vendorName product productName busses errorCode closed =
    try_devices vendor vendorName product productName (concat busses) (errorCode, closed)"
  by (induction busses arbitrary: errorCode closed)
    (auto simp: scan_devices_try try_devices_append split: option.splits prod.splits)

lemma variants_agree:
  "usbOpenDevice busses vendor vendorName product productName =
    usbOpenDevice_1_0 (concat busses) vendor vendorName product productName"
  by (simp add: usbOpenDevice_def usbOpenDevice_1_0_def scan_busses_concat)

lemma try_devices_find:
  "fst (try_devices vendor vendorName product productName devs x) =
    (case find (device_matches vendor vendorName product productName) devs of None \<Rightarrow> None | Some d \<Rightarrow> sd_open d)"
  by (induction devs arbitrary: x)
    (auto simp: try_device_def device_matches_def split: option.splits prod.splits if_splits)

lemma try_devices_error:
  "try_devices vendor vendorName product productName devs x = (None, e, c) \<Longrightarrow> fst x \<noteq> 0 \<Longrightarrow> e \<noteq> 0"
  by (induction devs arbitrary: x)
    (auto simp: try_device_def split: option.splits prod.splits if_splits)

lemma open_finds_first:
  "case find (device_matches vendor vendorName product productName) (concat busses) of
     None \<Rightarrow> fst (usbOpenDevice busses vendor vendorName product productName) \<noteq> 0 \<and>
       fst (snd (usbOpenDevice busses vendor vendorName product productName)) = None
   | Some d \<Rightarrow> fst (usbOpenDevice busses vendor vendorName product productName) = 0 \<and>
       fst (snd (usbOpenDevice busses vendor vendorName product productName)) = sd_open d"
proof -
  obtain h e c where t: "try_devices vendor vendorName product productName (concat busses) (1, []) = (h, e, c)"
    by (metis surj_pair)
  have f: "h = (case find (device_matches vendor vendorName product productName) (concat busses) of
      None \<Rightarrow> None | Some d \<Rightarrow> sd_open d)"
    using try_devices_find [of vendor vendorName product productName "concat busses" "(1, [])"] t by simp
  have "device_matches vendor vendorName product productName d"
    if "find (device_matches vendor vendorName product productName) (concat busses) = Some d" for d
    using that by (auto simp: find_Some_iff)
  then show ?thesis
    using f t try_devices_error [of vendor vendorName product productName "concat busses" "(1, [])" e c]
    by (auto simp: usbOpenDevice_def scan_busses_concat t device_matches_def split: option.splits)
qed

section \<open>A transfer that fails\<close>

lemma failed_read_overreads:
  assumes "fst (T 0xC0 3 0 0 res0 230 d) < 0" and "length (fst (snd (T 0xC0 3 0 0 res0 230 d))) = 230"
  shows "fst (usbasp_initialize T res0 d) = Got 0xFFFFFFFF (fst (snd (T 0xC0 3 0 0 res0 230 d))) \<and>
    fst (snd (usbasp_initialize T res0 d))"
proof -
  have "unat (-1 :: u32) = 4294967295" by (simp add: unsigned_minus_1_eq_mask mask_eq_exp_minus_1)
  then show ?thesis using assms by (cases "T 0xC0 3 0 0 res0 230 d")
    (simp add: usbasp_initialize_def usbdevice_transmit_def Let_def)
qed

end
