(* ===== verification/UsbTestLink.thy ===== *)
theory UsbTestLink
  imports UsbTestDevice UsbTestHost
begin

text \<open>
  The test device as its host sees it: control transfers as packets, polls of the device and
  packets taken by the host. What a host writes it reads back. With the host program of theory
  \<open>UsbTestHost\<close> on the other end this is the whole of \<open>libusbtest\<close>.
\<close>

section \<open>Control transfers\<close>

text \<open>The packets \<open>cs\<close> of a write of their total length, and its empty answer.\<close>

definition out_phase :: "bytes list \<Rightarrow> line_event list" where
  "out_phase cs = concat (map (\<lambda>c. [Packet USBPID_OUT c, Poll False]) cs)"

definition host_write :: "bytes list \<Rightarrow> line_event list" where
  "host_write cs =
     [Packet USBPID_SETUP [0x40, CUSTOM_RQ_TEST_WRITE, 0, 0, 0, 0, of_nat (length (concat cs)), 0], Poll False] @
     out_phase cs @ [Sent]"

text \<open>A read of \<open>k\<close> packets, and the packets the device has sent then.\<close>

definition read_events :: "bytes \<Rightarrow> nat \<Rightarrow> line_event list" where
  "read_events rq k = Packet USBPID_SETUP rq # concat (replicate k [Poll False, Sent])"

definition answers :: "(bytes \<Rightarrow> u8 \<times> u8) \<Rightarrow> bytes \<Rightarrow> nat \<Rightarrow> test_device vusb \<Rightarrow> bytes list" where
  "answers crc rq k d = drop (length (vu_sent d)) (vu_sent (bus_run test_app crc (read_events rq k) d))"

definition at_rest :: "test_device vusb \<Rightarrow> bool" where
  "at_rest s \<longleftrightarrow> vu_RxLen s = 0 \<and> length (vu_TxBuf s) = 11 \<and> td_ok (vu_app s)"

section \<open>The write\<close>

text \<open>A device that waits for the packets of a write.\<close>

definition receiving :: "test_device vusb \<Rightarrow> bool" where
  "receiving s \<longleftrightarrow> at_rest s \<and> vu_TxLen s = USBPID_NAK \<and> vu_MsgFlags s = USB_FLG_USE_USER_RW \<and>
     vu_MsgLen s = USB_NO_MSG"

lemma poll_tx_none: "vu_MsgLen s = USB_NO_MSG \<Longrightarrow> poll_tx A crc s = s"
  by (simp add: poll_tx_def)

lemma poll_tx_empty:
  assumes "vu_TxLen s = USBPID_NAK" and "vu_MsgLen s = 0" and "length (vu_TxBuf s) = 11"
  shows "\<exists>b. length b = 11 \<and> poll_tx A crc s = s\<lparr>vu_TxBuf := b, vu_MsgLen := USB_NO_MSG, vu_TxLen := 4\<rparr>"
proof -
  let ?b = "(vu_TxBuf s)[0 := vu_TxBuf s ! 0 XOR (USBPID_DATA0 XOR USBPID_DATA1)]"
  have "poll_tx A crc s = s\<lparr>vu_TxBuf := ?b[1 := fst (crc []), 2 := snd (crc [])],
      vu_MsgLen := USB_NO_MSG, vu_TxLen := 4\<rparr>"
    using assms by (simp add: poll_tx_def usbBuildTxBlock_def usbDeviceRead_def finish_block_def Let_def)
  then show ?thesis using assms(3) by (intro exI [of _ "?b[1 := fst (crc []), 2 := snd (crc [])]"]) simp
qed

lemma out_packet:
  assumes "receiving s" and "usbFunctionWrite c (vu_app s) = (r, a)" and "r = 0 \<or> r = 1"
  shows "\<exists>t. bus_run test_app crc [Packet USBPID_OUT c, Poll False] s = t \<and> vu_app t = a \<and>
    vu_sent t = vu_sent s \<and>
    (if r = 0 then receiving t
     else at_rest t \<and> vu_TxLen t = 4)"
proof -
  have a: "td_ok a" using write_stores [OF _ assms(2)] assms(1) by (simp add: receiving_def at_rest_def)
  let ?s = "s\<lparr>vu_RxLen := length c + 3, vu_RxToken := USBPID_OUT, vu_RxData := c\<rparr>"
  let ?n = "if r = 0 then 0xff else 0 :: u8"
  let ?t = "?s\<lparr>vu_app := a, vu_MsgLen := ?n, vu_RxLen := 0\<rparr>"
  have rx: "poll_rx test_app ?s = ?t"
    using assms by (auto simp: receiving_def at_rest_def poll_rx_def usbProcessRx_def process_out_def test_app_def Let_def)
  have t: "bus_run test_app crc [Packet USBPID_OUT c, Poll False] s = poll_tx test_app crc ?t"
    using assms(1) by (simp add: bus_step_simps rx receiving_def at_rest_def)
  show ?thesis
  proof (cases "r = 0")
    case True
    then show ?thesis using assms(1) a unfolding t by (simp add: poll_tx_none receiving_def at_rest_def)
  next
    case False
    then obtain b where "length b = 11" "poll_tx test_app crc ?t = ?t\<lparr>vu_TxBuf := b, vu_MsgLen := 0xff, vu_TxLen := 4\<rparr>"
      using poll_tx_empty [of ?t test_app crc] assms(1) by (auto simp: receiving_def at_rest_def)
    then show ?thesis using False a unfolding t by (simp add: at_rest_def)
  qed
qed

lemma out_phase_stores:
  assumes "receiving s" and "cs \<noteq> []" and "list_all (\<lambda>c. c \<noteq> []) cs"
    and "length (concat cs) = unat (td_bytesRemaining (vu_app s))"
  shows "\<exists>t. bus_run test_app crc (out_phase cs) s = t \<and> at_rest t \<and> vu_TxLen t = 4 \<and> vu_sent t = vu_sent s \<and>
    td_readWriteBuffer (vu_app t) =
      patch (unat (td_currentPosition (vu_app s))) (concat cs) (td_readWriteBuffer (vu_app s))"
  using assms
proof (induction cs arbitrary: s)
  case (Cons c cs)
  let ?a = "vu_app s"
  obtain r b where w: "usbFunctionWrite c ?a = (r, b)" by fastforce
  have ok: "td_ok ?a" using Cons.prems(1) by (simp add: receiving_def at_rest_def)
  have le: "min (length c) (unat (td_bytesRemaining ?a)) = length c" using Cons.prems(4) by simp
  define m where "m = length (concat cs)"
  have rem: "unat (td_bytesRemaining ?a) = length c + m" using Cons.prems(4) by (simp add: m_def)
  from write_stores [OF ok w] have b: "td_ok b"
    "td_readWriteBuffer b = patch (unat (td_currentPosition ?a)) c (td_readWriteBuffer ?a)"
    "unat (td_currentPosition b) = unat (td_currentPosition ?a) + length c"
    "unat (td_bytesRemaining b) = m" "r = (if m = 0 then 1 else 0)"
    unfolding le Let_def rem by simp_all
  then have "r = 0 \<or> r = 1" by simp
  from out_packet [OF Cons.prems(1) w this, of crc] obtain t where
    t: "bus_run test_app crc [Packet USBPID_OUT c, Poll False] s = t" "vu_app t = b" "vu_sent t = vu_sent s"
      "if r = 0 then receiving t else at_rest t \<and> vu_TxLen t = 4" by blast
  have split: "bus_run test_app crc (out_phase (c # cs)) s = bus_run test_app crc (out_phase cs) t"
    unfolding t(1) [symmetric] by (simp add: out_phase_def)
  show ?case
  proof (cases cs)
    case Nil
    then show ?thesis using t b unfolding split by (simp add: out_phase_def m_def)
  next
    case (Cons d ds)
    then have "m \<noteq> 0" using Cons.prems(3) by (auto simp: m_def)
    with t b have "receiving t" by simp
    moreover have "patch (unat (td_currentPosition ?a) + length c) (concat cs)
        (patch (unat (td_currentPosition ?a)) c (td_readWriteBuffer ?a)) =
        patch (unat (td_currentPosition ?a)) (concat (c # cs)) (td_readWriteBuffer ?a)"
      using ok Cons.prems(4) patch_append [of "unat (td_currentPosition ?a)" c "td_readWriteBuffer ?a" "concat cs"]
      by (simp add: td_ok_def)
    ultimately show ?thesis
      using Cons.IH [of t] Cons.prems(3) b t(2,3) Cons unfolding split m_def by auto
  qed
qed simp

text \<open>The set-up packets of both requests.\<close>

lemma write_setup:
  assumes "at_rest s" and "n \<le> 230"
  shows "\<exists>t. bus_run test_app crc
      [Packet USBPID_SETUP [0x40, CUSTOM_RQ_TEST_WRITE, 0, 0, 0, 0, of_nat n, 0], Poll False] s = t \<and>
    receiving t \<and> vu_sent t = vu_sent s \<and> td_readWriteBuffer (vu_app t) = td_readWriteBuffer (vu_app s) \<and>
    td_currentPosition (vu_app t) = 0 \<and> unat (td_bytesRemaining (vu_app t)) = n"
proof -
  have "unat (of_nat n :: u8) = n" using assms(2) by (simp add: unsigned_of_nat take_bit_nat_eq_self)
  moreover have "(ucast (ucast (of_nat n :: u8) :: u16) :: u8) = of_nat n"
    by (rule bit_word_eqI) (simp add: bit_simps)
  ultimately show ?thesis using assms
    by (simp add: bus_step_simps at_rest_def poll_rx_def usbProcessRx_def process_setup_def app_setup_def test_app_def
        usbFunctionSetup_def READ_WRITE_BUFFER_SIZE_def Let_def poll_tx_none receiving_def td_ok_def)
qed

lemma read_setup:
  assumes "at_rest s"
  shows "\<exists>t. bus_run test_app crc
      (Packet USBPID_SETUP [0xC0, CUSTOM_RQ_TEST_READ, 0, 0, 0, 0, 230, 0] # Poll False # es) s =
        bus_run test_app crc (Poll False # es) t \<and>
    replying test_app 1 0 230 t \<and> vu_sent t = vu_sent s \<and>
    td_readWriteBuffer (vu_app t) = td_readWriteBuffer (vu_app s)"
proof -
  let ?p = "[0xC0, CUSTOM_RQ_TEST_READ, 0, 0, 0, 0, 230, 0]"
  let ?s = "s\<lparr>vu_RxLen := 11, vu_RxToken := USBPID_SETUP, vu_RxData := ?p\<rparr>"
  let ?t = "poll_rx test_app ?s"
  have t: "replying test_app 1 0 230 ?t" "vu_sent ?t = vu_sent s"
    "td_readWriteBuffer (vu_app ?t) = td_readWriteBuffer (vu_app s)"
    using assms by (simp_all add: at_rest_def replying_def poll_rx_def usbProcessRx_def process_setup_def app_setup_def
        test_app_def usbFunctionSetup_def Let_def td_ok_def td_memory_def)
  then have "poll_rx test_app ?t = ?t" by (simp add: replying_def poll_rx_def)
  then show ?thesis using assms t
    by (intro exI [of _ ?t]) (simp add: bus_step_simps at_rest_def)
qed

section \<open>The round trip\<close>

text \<open>The memory comes in 28 full packets and one of six bytes.\<close>

lemma read_answers:
  assumes "at_rest s"
  defines "rq \<equiv> [0xC0, CUSTOM_RQ_TEST_READ, 0, 0, 0, 0, 230, 0]"
  shows "j \<le> 28 \<Longrightarrow> length (answers crc rq j s) = j \<and> list_all (\<lambda>p. length p = 8) (answers crc rq j s)"
    and "concat (answers crc rq 29 s) = td_readWriteBuffer (vu_app s)"
proof -
  have rounds: "concat (replicate (Suc j) [Poll False, Sent]) = Poll False # Sent # concat (replicate j [Poll False, Sent])" for j
    by simp
  have l: "length (td_readWriteBuffer (vu_app s)) = 230" using assms(1) by (simp add: at_rest_def td_ok_def)
  have start: "\<exists>t. bus_run test_app crc (read_events rq (Suc j)) s = bus_run test_app crc (concat (replicate (Suc j) [Poll False, Sent])) t \<and>
      replying test_app 1 0 230 t \<and> vu_sent t = vu_sent s \<and> td_readWriteBuffer (vu_app t) = td_readWriteBuffer (vu_app s)" for j
    unfolding read_events_def rounds rq_def using read_setup [OF assms(1)] by blast
  show "length (answers crc rq j s) = j \<and> list_all (\<lambda>p. length p = 8) (answers crc rq j s)" if "j \<le> 28"
  proof (cases j)
    case 0
    then show ?thesis using assms(1) by (simp add: answers_def read_events_def bus_step_simps at_rest_def)
  next
    case (Suc i)
    with start [of i] obtain t where t: "bus_run test_app crc (read_events rq j) s =
        bus_run test_app crc (concat (replicate j [Poll False, Sent])) t" "replying test_app 1 0 230 t" "vu_sent t = vu_sent s"
      by auto
    from reply_rounds [OF t(2) _ refl, of j crc] that t show ?thesis by (auto simp: answers_def simp del: bus_run_simps)
  qed
  obtain t where t: "bus_run test_app crc (read_events rq 29) s =
      bus_run test_app crc (concat (replicate (28 + 1) [Poll False, Sent])) t" "replying test_app 1 0 230 t"
    "vu_sent t = vu_sent s" "td_readWriteBuffer (vu_app t) = td_readWriteBuffer (vu_app s)"
    using start [of 28] by auto
  from reply_all [OF t(2), of crc] t l show "concat (answers crc rq 29 s) = td_readWriteBuffer (vu_app s)"
    by (auto simp: answers_def test_app_def td_memory_def simp del: bus_run_simps replicate.simps)
qed

lemma write_leaves:
  assumes "at_rest s" and "cs \<noteq> []" and "list_all (\<lambda>c. c \<noteq> []) cs" and "length (concat cs) \<le> 230"
    and "t = bus_run test_app crc (host_write cs) s"
  shows "at_rest t \<and> vu_sent t = vu_sent s @ [[]] \<and>
    td_readWriteBuffer (vu_app t) = concat cs @ drop (length (concat cs)) (td_readWriteBuffer (vu_app s))"
proof -
  obtain v where v: "bus_run test_app crc
      [Packet USBPID_SETUP [0x40, CUSTOM_RQ_TEST_WRITE, 0, 0, 0, 0, of_nat (length (concat cs)), 0], Poll False] s = v"
    "receiving v" "vu_sent v = vu_sent s" "td_readWriteBuffer (vu_app v) = td_readWriteBuffer (vu_app s)"
    "td_currentPosition (vu_app v) = 0" "unat (td_bytesRemaining (vu_app v)) = length (concat cs)"
    using write_setup [OF assms(1,4), of crc] by blast
  obtain u where u: "bus_run test_app crc (out_phase cs) v = u" "at_rest u" "vu_TxLen u = 4" "vu_sent u = vu_sent s"
    "td_readWriteBuffer (vu_app u) = concat cs @ drop (length (concat cs)) (td_readWriteBuffer (vu_app s))"
    using out_phase_stores [OF v(2) assms(2,3), of crc] v(3-6) by (auto simp: patch_def)
  have "t = u\<lparr>vu_sent := vu_sent u @ [[]], vu_TxLen := 0x5a\<rparr>"
    unfolding assms(5) host_write_def bus_run_simps(3) v(1) u(1) by (simp add: bus_step_def u(3))
  then show ?thesis using u by (simp add: at_rest_def)
qed

text \<open>A request to read that the application answers as a write: the driver sends what is behind its last reply.\<close>

lemma read_of_write_overreads:
  assumes "at_rest s" and "vu_MsgPtr s = (App k, off)" and "length (td_memory k (vu_app s)) \<le> off"
    and "0 < n" and "n < 255"
  shows "vu_fault (bus_run test_app crc
    [Packet USBPID_SETUP [0xC0, CUSTOM_RQ_TEST_WRITE, 0, 0, 0, 0, n, 0], Poll False] s)"
proof -
  let ?p = "[0xC0, CUSTOM_RQ_TEST_WRITE, 0, 0, 0, 0, n, 0]"
  let ?s = "s\<lparr>vu_RxLen := 11, vu_RxToken := USBPID_SETUP, vu_RxData := ?p\<rparr>"
  let ?t = "poll_rx test_app ?s"
  have t: "vu_TxLen ?t = USBPID_NAK" "vu_MsgLen ?t = n" "vu_MsgPtr ?t = (App k, off)"
    "td_memory k (vu_app ?t) = td_memory k (vu_app s)"
    using assms by (auto simp: at_rest_def poll_rx_def usbProcessRx_def process_setup_def app_setup_def
        test_app_def usbFunctionSetup_def Let_def td_memory_def)
  let ?w = "if n > 8 then 8 else n"
  have w: "0 < unat ?w" using assms(4) by (auto simp: unat_gt_0)
  have "n \<noteq> 255" using assms(5) by auto
  then have "vu_fault (poll_tx test_app crc ?t)"
    using t assms(3) w by (simp add: poll_tx_def usbBuildTxBlock_def usbDeviceRead_def finish_block_def usb_memory_def
        test_app_def Let_def)
  then show ?thesis using assms(1) by (simp add: bus_step_simps at_rest_def)
qed

section \<open>The host program\<close>

text \<open>
  The transfers of the USB library are a parameter. This is what the program relies on, for a library
  with the device on its bus: it does what the standard says of control transfers over packets of
  eight bytes, and its result tells what the device did. The device is polled after each packet.

  In a write the data goes out, and an empty packet of the device at the end means success; anything
  else is an error. A read takes packets until the data is complete or a packet is not full, trying
  \<open>N\<close> times at most, and returns what has come.
\<close>

definition setup_bytes :: "int \<Rightarrow> int \<Rightarrow> int \<Rightarrow> int \<Rightarrow> int \<Rightarrow> bytes" where
  "setup_bytes requesttype request value index n =
     [word_of_int requesttype, word_of_int request, word_of_int value, word_of_int (value div 256),
      word_of_int index, word_of_int (index div 256), word_of_int n, word_of_int (n div 256)]"

fun out_packets :: "bytes \<Rightarrow> bytes list" where
  "out_packets [] = []"
| "out_packets (x # xs) = (x # take 7 xs) # out_packets (drop 7 xs)"

definition write_events :: "bytes \<Rightarrow> bytes \<Rightarrow> line_event list" where
  "write_events rq data = [Packet USBPID_SETUP rq, Poll False] @ out_phase (out_packets data) @ [Sent]"

definition bus_writes :: "(bytes \<Rightarrow> u8 \<times> u8) \<Rightarrow> test_device vusb transfer \<Rightarrow> bool" where
  "bus_writes crc T \<longleftrightarrow>
     (\<forall>requesttype request value index data d e. requesttype < 128 \<longrightarrow> data \<noteq> [] \<longrightarrow>
        e = bus_run test_app crc (write_events (setup_bytes requesttype request value index (int (length data))) data) d \<longrightarrow>
        (\<exists>r. T requesttype request value index data (int (length data)) d = (r, data, e) \<and>
          (if vu_sent e = vu_sent d @ [[]] then r = int (length data) else r < 0)))"

definition read_done :: "int \<Rightarrow> bytes list \<Rightarrow> bool" where
  "read_done n ps \<longleftrightarrow> n \<le> int (length (concat ps)) \<or> ps \<noteq> [] \<and> length (last ps) < 8"

definition bus_reads :: "(bytes \<Rightarrow> u8 \<times> u8) \<Rightarrow> nat \<Rightarrow> test_device vusb transfer \<Rightarrow> bool" where
  "bus_reads crc N T \<longleftrightarrow>
     (\<forall>requesttype request value index buf n d k rq got. 128 \<le> requesttype \<longrightarrow> k \<le> N \<longrightarrow>
        rq = setup_bytes requesttype request value index n \<longrightarrow>
        read_done n (answers crc rq k d) \<longrightarrow> (\<forall>j<k. \<not> read_done n (answers crc rq j d)) \<longrightarrow>
        got = take (nat n) (concat (answers crc rq k d)) \<longrightarrow>
        (\<exists>e. T requesttype request value index buf n d = (int (length got), got @ drop (length got) buf, e)))"

lemma bus_readsD:
  assumes "bus_reads crc N T" and "128 \<le> ty" and "k \<le> N"
    and "read_done n (answers crc (setup_bytes ty request value index n) k d)"
    and "\<And>j. j < k \<Longrightarrow> \<not> read_done n (answers crc (setup_bytes ty request value index n) j d)"
    and "got = take (nat n) (concat (answers crc (setup_bytes ty request value index n) k d))"
  shows "\<exists>e. T ty request value index buf n d = (int (length got), got @ drop (length got) buf, e)"
  using assms unfolding bus_reads_def by simp

lemma out_packets_all: "concat (out_packets xs) = xs \<and> list_all (\<lambda>c. c \<noteq> []) (out_packets xs) \<and> (xs \<noteq> [] \<longrightarrow> out_packets xs \<noteq> [])"
  by (induction xs rule: out_packets.induct) simp_all

lemma transfer_write:
  assumes "bus_writes crc T" and "at_rest d" and "length bs = 64"
  shows "T 64 4 0 0 bs 64 d = (64, bs, bus_run test_app crc (host_write (out_packets bs)) d)"
proof -
  have ne: "bs \<noteq> []" using assms(3) by auto
  let ?e = "bus_run test_app crc (host_write (out_packets bs)) d"
  have "write_events (setup_bytes 64 4 0 0 (int (length bs))) bs = host_write (out_packets bs)"
    using out_packets_all [of bs] assms(3) by (simp add: write_events_def host_write_def setup_bytes_def)
  then obtain r where "T 64 4 0 0 bs (int (length bs)) d = (r, bs, ?e)"
    "if vu_sent ?e = vu_sent d @ [[]] then r = int (length bs) else r < 0"
    using assms(1) ne unfolding bus_writes_def by (metis numeral_less_iff semiring_norm(76,78))
  moreover have "vu_sent ?e = vu_sent d @ [[]]"
    using write_leaves [OF assms(2), of "out_packets bs" _ crc, OF _ _ _ refl] out_packets_all [of bs] assms(3) ne by simp
  ultimately show ?thesis using assms(3) by simp
qed

lemma transfer_read:
  assumes "bus_reads crc N T" and "29 \<le> N" and "at_rest d" and "length buf = 230"
  shows "\<exists>e. T 192 3 0 0 buf 230 d = (230, td_readWriteBuffer (vu_app d), e)"
proof -
  let ?rq = "setup_bytes 192 3 0 0 230"
  have rq: "?rq = [0xC0, CUSTOM_RQ_TEST_READ, 0, 0, 0, 0, 230, 0]" by (simp add: setup_bytes_def)
  note a = read_answers [OF assms(3), where crc = crc, folded rq]
  have l: "length (td_readWriteBuffer (vu_app d)) = 230" using assms(3) by (simp add: at_rest_def td_ok_def)
  have full: "length (concat ps) = 8 * length ps" if "list_all (\<lambda>p. length p = 8) ps" for ps :: "bytes list"
    using that by (induction ps) auto
  have "\<not> read_done 230 (answers crc ?rq j d)" if "j < 29" for j
  proof -
    have j: "length (answers crc ?rq j d) = j" "list_all (\<lambda>p. length p = 8) (answers crc ?rq j d)"
      using a(1) [of j] that by auto
    then have "\<not> (answers crc ?rq j d \<noteq> [] \<and> length (last (answers crc ?rq j d)) < 8)"
      by (auto simp: list_all_iff dest: last_in_set)
    with full [OF j(2)] j(1) that show ?thesis by (simp add: read_done_def)
  qed
  moreover have "read_done 230 (answers crc ?rq 29 d)" using a(2) l by (simp add: read_done_def)
  ultimately obtain e where "T 192 3 0 0 buf 230 d =
      (int (length (td_readWriteBuffer (vu_app d))),
       td_readWriteBuffer (vu_app d) @ drop (length (td_readWriteBuffer (vu_app d))) buf, e)"
    using bus_readsD [OF assms(1) _ assms(2), of 192 230 3 0 0 d "td_readWriteBuffer (vu_app d)" buf] a(2) l by auto
  then show ?thesis using l assms(4) by simp
qed

definition pattern :: bytes where
  "pattern = map (\<lambda>i. 64 - of_nat i) [0..<64]"

lemma host_and_device:
  assumes "bus_writes crc (T h)" and "bus_reads crc N (T h)" and "29 \<le> N" and "at_rest d" and "length res0 = 230"
    and "find (device_matches 0x16C0 (Some ''Embedded Creations'') 0x05DC (Some ''libusbtest'')) (concat busses) = Some dev"
    and "sd_open dev = Some h"
  shows "fst (host_main busses T res0 d) =
    Some (Sent_successfully, Got 230 (pattern @ drop 64 (td_readWriteBuffer (vu_app d))), False)"
proof -
  have o: "usbdevice_open busses = (0, Some h)"
    using open_finds_first [of busses "0x16C0" "Some ''Embedded Creations''" "0x05DC" "Some ''libusbtest''"] assms(6,7)
    by (auto simp: usbdevice_open_def split: prod.splits)
  define e where "e = bus_run test_app crc (host_write (out_packets pattern)) d"
  have p: "length pattern = 64" by (simp add: pattern_def)
  then have "out_packets pattern \<noteq> []" using out_packets_all [of pattern] by force
  from write_leaves [OF assms(4) this, of e crc] out_packets_all [of pattern] p
  have e: "at_rest e" "td_readWriteBuffer (vu_app e) = pattern @ drop 64 (td_readWriteBuffer (vu_app d))"
    by (simp_all add: e_def)
  have w: "testWrite (T h) d = (Sent_successfully, e)"
    using transfer_write [OF assms(1,4) p]
    by (simp add: testWrite_def usbdevice_transmit_def Let_def e_def pattern_def [symmetric])
  obtain d' where r: "T h 192 3 0 0 res0 230 e = (230, td_readWriteBuffer (vu_app e), d')"
    using transfer_read [OF assms(2,3) e(1) assms(5)] by blast
  have "length (td_readWriteBuffer (vu_app e)) = 230" using e(1) by (simp add: at_rest_def td_ok_def)
  then have "usbasp_initialize (T h) res0 e = (Got 230 (td_readWriteBuffer (vu_app e)), False, d')"
    by (simp add: usbasp_initialize_def usbdevice_transmit_def Let_def r)
  then show ?thesis using o w e(2) by (simp add: host_main_def)
qed

text \<open>A library of this kind that can be run; -110 is its result when time has run out.\<close>

definition bus_transfer :: "(bytes \<Rightarrow> u8 \<times> u8) \<Rightarrow> nat \<Rightarrow> test_device vusb transfer" where
  "bus_transfer crc N requesttype request value index buffer n d =
     (let rq = setup_bytes requesttype request value index n
      in if requesttype \<ge> 128
         then (case List.find (\<lambda>k. read_done n (answers crc rq k d)) [0..<Suc N] of
                 None \<Rightarrow> (- 110, buffer, bus_run test_app crc (read_events rq N) d)
               | Some k \<Rightarrow> (let got = take (nat n) (concat (answers crc rq k d))
                           in (int (length got), got @ drop (length got) buffer, bus_run test_app crc (read_events rq k) d)))
         else (let e = bus_run test_app crc (write_events rq buffer) d
               in (if vu_sent e = vu_sent d @ [[]] then n else - 110, buffer, e)))"

lemma bus_transfer_writes: "bus_writes crc (bus_transfer crc N)"
  unfolding bus_writes_def by (auto simp: bus_transfer_def Let_def)

lemma bus_transfer_reads: "bus_reads crc N (bus_transfer crc N)"
proof -
  have "List.find P [0..<Suc N] = Some k" if "k \<le> N" "P k" "\<forall>j<k. \<not> P j" for P k
    using that by (auto simp: find_Some_iff intro!: exI [of _ k] simp del: upt_Suc)
  then show ?thesis unfolding bus_reads_def by (simp add: bus_transfer_def Let_def del: upt_Suc)
qed

end
