(* ===== verification/LufaLemmas.thy ===== *)
theory LufaLemmas
  imports ServerComms
begin

text \<open>
  What the serial link over the LUFA library does. The controller and the host are parameters;
  their documented behaviour is stated as predicates over functions that read the state of an
  endpoint off the controller: the packets that have arrived, the bytes in the bank being
  filled, the packets given to the host.
\<close>

section \<open>Endpoint sizes\<close>

text \<open>The loop over the sizes ends exactly for sizes up to 32768.\<close>

lemma push_bit_8_bound: "push_bit k (8 :: u16) \<le> 0x8000"
proof (cases "k \<le> 12")
  case True
  then have "k \<in> {0, 1, 2, 3, 4, 5, 6, 7, 8, 9, 10, 11, 12}" by (simp, presburger)
  then show ?thesis by auto
next
  case False
  then have "push_bit k (8 :: u16) = push_bit (k - 13) (push_bit 13 8)"
    by (simp only: push_bit_push_bit le_add_diff_inverse2 not_le)
  also have "push_bit 13 (8 :: u16) = 0" by simp
  finally show ?thesis by simp
qed

lemma size_mask_bound:
  assumes "size_mask m c n = Some r"
  shows "(\<exists>k. c = push_bit k 8) \<longrightarrow> n \<le> 0x8000"
  using assms
proof (rule size_mask.raw_induct [where P = "\<lambda>m c n r. (\<exists>k. c = push_bit k 8) \<longrightarrow> n \<le> 0x8000", rotated])
  fix f :: "u8 \<Rightarrow> u16 \<Rightarrow> u16 \<Rightarrow> u8 option" and m r :: u8 and c n :: u16
  assume IH: "\<And>m c n r. f m c n = Some r \<Longrightarrow> (\<exists>k. c = push_bit k 8) \<longrightarrow> n \<le> 0x8000"
    and body: "(if c < n then f (m + 1) (push_bit 1 c) n else Some (push_bit EPSIZE0 m)) = Some (r :: u8)"
  show "(\<exists>k. c = push_bit k 8) \<longrightarrow> n \<le> 0x8000"
  proof
    assume "\<exists>k. c = push_bit k 8"
    then obtain k where k: "c = push_bit k 8" ..
    show "n \<le> 0x8000"
    proof (cases "c < n")
      case True
      have "push_bit 1 c = push_bit (Suc k) 8" by (simp only: k push_bit_push_bit plus_1_eq_Suc)
      then have "\<exists>k. push_bit 1 c = push_bit k 8" by (rule exI)
      moreover have "f (m + 1) (push_bit 1 c) n = Some r" using True body by (simp only: if_True)
      ultimately show ?thesis using IH by blast
    next
      case False
      then show ?thesis using push_bit_8_bound [of k] k by simp
    qed
  qed
qed

lemma size_mask_least:
  assumes "j + d \<le> 12" and "n \<le> push_bit (j + d) (8 :: u16)" and "\<And>i. i < j + d \<Longrightarrow> push_bit i (8 :: u16) < n"
  shows "size_mask m (push_bit j 8) n = Some (push_bit EPSIZE0 (m + of_nat d))"
  using assms
proof (induction d arbitrary: j m)
  case 0
  then show ?case by (subst size_mask.simps) (simp add: leD)
next
  case (Suc d)
  have "size_mask (m + 1) (push_bit (Suc j) 8) n = Some (push_bit EPSIZE0 (m + 1 + of_nat d))"
    using Suc.prems by (intro Suc.IH) auto
  moreover have "push_bit 1 (push_bit j (8 :: u16)) = push_bit (Suc j) 8"
    by (simp only: push_bit_push_bit plus_1_eq_Suc)
  moreover have "push_bit j (8 :: u16) < n" using Suc.prems(3) by simp
  ultimately have "size_mask m (push_bit j 8) n = Some (push_bit EPSIZE0 (m + 1 + of_nat d))"
    by (subst size_mask.simps) (simp only: if_True)
  then show ?case by (simp add: add.assoc)
qed

lemma size_mask_value:
  assumes "k \<le> 12" and "n \<le> push_bit k (8 :: u16)" and "\<And>i. i < k \<Longrightarrow> push_bit i (8 :: u16) < n"
  shows "Endpoint_BytesToEPSizeMask n = Some (push_bit EPSIZE0 (of_nat k))"
  using size_mask_least [of 0 k n 0] assms by (simp add: Endpoint_BytesToEPSizeMask_def)

lemma size_mask_stops: "Endpoint_BytesToEPSizeMask n \<noteq> None \<longleftrightarrow> n \<le> 0x8000"
proof
  assume "Endpoint_BytesToEPSizeMask n \<noteq> None"
  then obtain r where "size_mask 0 8 n = Some r"
    by (auto simp: Endpoint_BytesToEPSizeMask_def)
  moreover have "(8 :: u16) = push_bit 0 8" by simp
  ultimately show "n \<le> 0x8000" using size_mask_bound by blast
next
  assume n: "n \<le> 0x8000"
  define k where "k = (LEAST k. n \<le> push_bit k (8 :: u16))"
  have 12: "n \<le> push_bit 12 (8 :: u16)" using n by simp
  have "k \<le> 12" unfolding k_def using 12 by (rule Least_le)
  moreover have "n \<le> push_bit k 8" unfolding k_def using 12 by (rule LeastI)
  moreover have "push_bit i (8 :: u16) < n" if "i < k" for i
    using not_less_Least [OF that [unfolded k_def]] by simp
  ultimately have "Endpoint_BytesToEPSizeMask n = Some (push_bit EPSIZE0 (of_nat k))"
    by (rule size_mask_value)
  then show "Endpoint_BytesToEPSizeMask n \<noteq> None" by simp
qed

lemma size_mask_used:
  "Endpoint_BytesToEPSizeMask 8 = Some 0x00" "Endpoint_BytesToEPSizeMask 16 = Some 0x10"
  by (simp_all add: Endpoint_BytesToEPSizeMask_def size_mask.simps)

section \<open>Receiving\<close>

text \<open>
  An OUT endpoint: \<open>sel\<close> is the endpoint selected, \<open>pend\<close> the packets that have arrived, the
  first with what has not been read of it. Reading its data register takes a byte, releasing
  the bank takes the first packet.
\<close>

definition out_endpoint :: "'h platform \<Rightarrow> u8 \<Rightarrow> ('h \<Rightarrow> u8) \<Rightarrow> ('h \<Rightarrow> bytes list) \<Rightarrow> bool" where
  "out_endpoint P n sel pend \<longleftrightarrow>
     (\<forall>h. sel (reg_out (controller P) UENUM n h) = n \<and> pend (reg_out (controller P) UENUM n h) = pend h) \<and>
     (\<forall>h r. sel h = n \<longrightarrow> r \<in> {UEINTX, UEBCHX, UEBCLX} \<longrightarrow>
        sel (snd (reg_in (controller P) r h)) = n \<and> pend (snd (reg_in (controller P) r h)) = pend h) \<and>
     (\<forall>h. sel h = n \<longrightarrow> bit (fst (reg_in (controller P) UEINTX h)) RXOUTI = (pend h \<noteq> [])) \<and>
     (\<forall>h p ps. sel h = n \<longrightarrow> pend h = p # ps \<longrightarrow>
        unat (fst (reg_in (controller P) UEBCHX h)) = length p div 256 \<and>
        unat (fst (reg_in (controller P) UEBCLX h)) = length p mod 256) \<and>
     (\<forall>h b bs ps. sel h = n \<longrightarrow> pend h = (b # bs) # ps \<longrightarrow>
        fst (reg_in (controller P) UEDATX h) = b \<and> sel (snd (reg_in (controller P) UEDATX h)) = n \<and>
        pend (snd (reg_in (controller P) UEDATX h)) = bs # ps) \<and>
     (\<forall>h v. sel h = n \<longrightarrow> \<not> bit v RXOUTI \<longrightarrow> \<not> bit v FIFOCON \<longrightarrow>
        pend (reg_out (controller P) UEINTX v h) = tl (pend h))"

lemma reg_get_eq:
  "reg_get P r s = (fst (reg_in (controller P) r (lhw s)), s\<lparr>lhw := snd (reg_in (controller P) r (lhw s))\<rparr>)"
  by (simp add: reg_get_def split: prod.split)

lemma lhw_update_eq [simp]: "s\<lparr>lhw := a\<rparr> = s\<lparr>lhw := b\<rparr> \<longleftrightarrow> a = b"
  by (auto dest: arg_cong [where f = lhw])

lemma acknowledged [simp]:
  "\<not> bit (v AND NOT (mask_bit RXOUTI OR mask_bit FIFOCON) :: u8) RXOUTI"
  "\<not> bit (v AND NOT (mask_bit RXOUTI OR mask_bit FIFOCON) :: u8) FIFOCON"
  "\<not> bit (v AND NOT (mask_bit TXINI OR mask_bit FIFOCON) :: u8) TXINI"
  "\<not> bit (v AND NOT (mask_bit TXINI OR mask_bit FIFOCON) :: u8) FIFOCON"
  by (simp_all add: bit_simps)

lemma rx_select:
  assumes "out_endpoint P n sel pend"
  shows "\<exists>h. Endpoint_SelectEndpoint P n s = s\<lparr>lhw := h\<rparr> \<and> sel h = n \<and> pend h = pend (lhw s)"
  using assms unfolding out_endpoint_def Endpoint_SelectEndpoint_def reg_put_def by simp

lemma rx_received:
  assumes "out_endpoint P n sel pend" and "sel (lhw s) = n"
  shows "\<exists>h. Endpoint_IsOUTReceived P s = (pend (lhw s) \<noteq> [], s\<lparr>lhw := h\<rparr>) \<and> sel h = n \<and>
    pend h = pend (lhw s)"
  using assms unfolding out_endpoint_def Endpoint_IsOUTReceived_def reg_bit_def reg_get_eq by simp

lemma bytes_word:
  assumes "unat (hi :: u8) = k div 256" and "unat (lo :: u8) = k mod 256"
  shows "push_bit 8 (ucast hi) OR ucast lo = (of_nat k :: u16)"
proof -
  have "push_bit 8 (ucast hi) AND ucast lo = (0 :: u16)"
    by (rule bit_eqI) (auto simp: bit_simps dest: bit_imp_le_length)
  then have "push_bit 8 (ucast hi) OR ucast lo = (push_bit 8 (ucast hi) + ucast lo :: u16)"
    by (simp add: disjunctive_add_eq_or)
  moreover have "unat (push_bit 8 (ucast hi) + ucast lo :: u16) = k"
    using unat_be16 [of hi lo] assms by (simp add: be16_def)
  ultimately show ?thesis by auto
qed

lemma rx_bytes:
  assumes ep: "out_endpoint P n sel pend" and "sel (lhw s) = n" and "pend (lhw s) = p # ps"
  shows "\<exists>h. Endpoint_BytesInEndpoint P s = (of_nat (length p), s\<lparr>lhw := h\<rparr>) \<and>
    sel h = n \<and> pend h = p # ps \<and> length p < 65536"
proof -
  define h where "h = snd (reg_in (controller P) UEBCHX (lhw s))"
  have 1: "unat (fst (reg_in (controller P) UEBCHX (lhw s))) = length p div 256"
      "sel h = n" "pend h = p # ps"
    using assms unfolding out_endpoint_def h_def by simp_all
  then have 2: "unat (fst (reg_in (controller P) UEBCLX h)) = length p mod 256"
      "sel (snd (reg_in (controller P) UEBCLX h)) = n" "pend (snd (reg_in (controller P) UEBCLX h)) = p # ps"
    using ep unfolding out_endpoint_def by simp_all
  have "length p < 65536"
    using unat_u8_less [of "fst (reg_in (controller P) UEBCHX (lhw s))"] 1(1) by simp
  with bytes_word [OF 1(1) 2(1)] 2 show ?thesis
    by (auto simp: Endpoint_BytesInEndpoint_def reg_get_eq h_def [symmetric])
qed

lemma rx_read:
  assumes "out_endpoint P n sel pend" and "sel (lhw s) = n" and "pend (lhw s) = (b # bs) # ps"
  shows "\<exists>h. Endpoint_Read_8 P s = (b, s\<lparr>lhw := h\<rparr>) \<and> sel h = n \<and> pend h = bs # ps"
  using assms unfolding out_endpoint_def Endpoint_Read_8_def reg_get_eq by simp

lemma rx_clear:
  assumes "out_endpoint P n sel pend" and "sel (lhw s) = n"
  shows "\<exists>h. Endpoint_ClearOUT P s = s\<lparr>lhw := h\<rparr> \<and> pend h = tl (pend (lhw s))"
  using assms acknowledged(1,2)
  unfolding out_endpoint_def Endpoint_ClearOUT_def clear_bits_def reg_get_eq reg_put_def by simp

text \<open>What one attempt and the loop take from the packets that have arrived.\<close>

fun take_byte :: "bytes list \<Rightarrow> int \<times> bytes list" where
  "take_byte [] = (- 1, [])"
| "take_byte ([] # ps) = (- 1, ps)"
| "take_byte ((b # bs) # ps) = (uint b, if bs = [] then ps else bs # ps)"

lemma receive_byte:
  assumes ep: "out_endpoint P (DataOUTEndpointNumber C) sel pend" and "cdc_open s"
  shows "\<exists>h. CDC_Device_ReceiveByte P C s = (fst (take_byte (pend (lhw s))), s\<lparr>lhw := h\<rparr>) \<and>
    pend h = snd (take_byte (pend (lhw s)))"
proof -
  let ?n = "DataOUTEndpointNumber C"
  obtain h0 where 0: "Endpoint_SelectEndpoint P ?n s = s\<lparr>lhw := h0\<rparr>" "sel h0 = ?n" "pend h0 = pend (lhw s)"
    using rx_select [OF ep] by blast
  obtain h1 where 1: "Endpoint_IsOUTReceived P (s\<lparr>lhw := h0\<rparr>) = (pend (lhw s) \<noteq> [], s\<lparr>lhw := h1\<rparr>)"
      "sel h1 = ?n" "pend h1 = pend (lhw s)"
    using rx_received [OF ep, of "s\<lparr>lhw := h0\<rparr>"] 0 by auto
  show ?thesis
  proof (cases "pend (lhw s)")
    case Nil
    with assms(2) 0 1 show ?thesis by (simp add: CDC_Device_ReceiveByte_def)
  next
    case (Cons p ps)
    obtain h2 where 2: "Endpoint_BytesInEndpoint P (s\<lparr>lhw := h1\<rparr>) = (of_nat (length p), s\<lparr>lhw := h2\<rparr>)"
        "sel h2 = ?n" "pend h2 = p # ps" and len: "length p < 65536"
      using rx_bytes [OF ep, of "s\<lparr>lhw := h1\<rparr>"] 1 Cons by auto
    have zero: "of_nat k = (0 :: u16) \<longleftrightarrow> k = 0" if "k < 65536" for k
      using that by (simp add: word_unat_eq_iff unat_of_nat)
    show ?thesis
    proof (cases p)
      case Nil
      obtain h3 where 3: "Endpoint_BytesInEndpoint P (s\<lparr>lhw := h2\<rparr>) = (0, s\<lparr>lhw := h3\<rparr>)"
          "sel h3 = ?n" "pend h3 = [] # ps"
        using rx_bytes [OF ep, of "s\<lparr>lhw := h2\<rparr>"] 2 Nil by auto
      with rx_clear [OF ep, of "s\<lparr>lhw := h3\<rparr>"] assms(2) 0 1 2 Nil Cons show ?thesis
        by (auto simp: CDC_Device_ReceiveByte_def)
    next
      case p: (Cons b bs)
      obtain h3 where 3: "Endpoint_Read_8 P (s\<lparr>lhw := h2\<rparr>) = (b, s\<lparr>lhw := h3\<rparr>)"
          "sel h3 = ?n" "pend h3 = bs # ps"
        using rx_read [OF ep, of "s\<lparr>lhw := h2\<rparr>"] 2 p by auto
      obtain h4 where 4: "Endpoint_BytesInEndpoint P (s\<lparr>lhw := h3\<rparr>) = (of_nat (length bs), s\<lparr>lhw := h4\<rparr>)"
          "sel h4 = ?n" "pend h4 = bs # ps"
        using rx_bytes [OF ep, of "s\<lparr>lhw := h3\<rparr>"] 3 by auto
      have "1 + of_nat (length bs) \<noteq> (0 :: u16)" "of_nat (length bs) = (0 :: u16) \<longleftrightarrow> bs = []"
        using zero [of "Suc (length bs)"] zero [of "length bs"] len p by simp_all
      with rx_clear [OF ep, of "s\<lparr>lhw := h4\<rparr>"] assms(2) 0 1 2 3 4 Cons p show ?thesis
        by (auto simp: CDC_Device_ReceiveByte_def)
    qed
  qed
qed

fun receive_packets :: "nat \<Rightarrow> bytes list \<Rightarrow> bytes \<times> bytes list" where
  "receive_packets 0 ps = ([], ps)"
| "receive_packets (Suc n) [] = ([], [])"
| "receive_packets (Suc n) ([] # ps) = ([], ps)"
| "receive_packets (Suc n) ((b # bs) # ps) =
     (case receive_packets n (if bs = [] then ps else bs # ps) of (out, qs) \<Rightarrow> (b # out, qs))"

lemma receive_packets_concat:
  "receive_packets n ps = (out, qs) \<Longrightarrow> out @ concat qs = concat ps"
  by (induction n ps arbitrary: out qs rule: receive_packets.induct) (auto split: prod.splits if_splits)

lemma receive_packets_all:
  "[] \<notin> set ps \<Longrightarrow> fst (receive_packets n ps) = take n (concat ps)"
proof (induction n ps rule: receive_packets.induct)
  case (4 n b bs ps)
  then show ?case by (cases "bs = []") (auto split: prod.splits)
qed auto

lemma receive_loop_packets:
  assumes ep: "out_endpoint P (DataOUTEndpointNumber C) sel pend" and "cdc_open s"
  shows "\<exists>a' h. receive_loop (\<lambda>l. Some (CDC_Device_ReceiveByte P C l)) n a s =
      Some (fst (receive_packets n (pend (lhw s))), a', s\<lparr>lhw := h\<rparr>) \<and>
    pend h = snd (receive_packets n (pend (lhw s)))"
  using assms(2)
proof (induction n arbitrary: a s)
  case 0
  show ?case by (rule exI [of _ a], rule exI [of _ "lhw s"]) simp
next
  case (Suc n)
  obtain h where h: "CDC_Device_ReceiveByte P C s = (fst (take_byte (pend (lhw s))), s\<lparr>lhw := h\<rparr>)"
      "pend h = snd (take_byte (pend (lhw s)))"
    using receive_byte [OF ep Suc.prems] by blast
  have op: "cdc_open (s\<lparr>lhw := h\<rparr>)" using Suc.prems by (simp add: cdc_open_def)
  obtain a' h' where IH: "receive_loop (\<lambda>l. Some (CDC_Device_ReceiveByte P C l)) n (count_byte a) (s\<lparr>lhw := h\<rparr>) =
      Some (fst (receive_packets n (pend h)), a', s\<lparr>lhw := h'\<rparr>)" "pend h' = snd (receive_packets n (pend h))"
    using Suc.IH [OF op, of "count_byte a"] by auto
  show ?case
  proof (cases "pend (lhw s)" rule: take_byte.cases)
    case (3 b bs ps)
    with h IH show ?thesis by (auto split: prod.splits)
  qed (use h in auto)
qed

section \<open>Waiting for the host\<close>

text \<open>
  A frame clock: \<open>frame\<close> is the number of the USB frame, which the controller shows in a pair
  of registers; each round of a waiting loop goes at least into the next frame.
\<close>

definition lufa_clock :: "'h platform \<Rightarrow> ('h \<Rightarrow> u16) \<Rightarrow> bool" where
  "lufa_clock P frame \<longleftrightarrow>
     (\<forall>h r. frame (snd (reg_in (controller P) r h)) = frame h) \<and>
     (\<forall>h. fst (reg_in (controller P) UDFNUML h) = ucast (frame h)) \<and>
     (\<forall>h. fst (reg_in (controller P) UDFNUMH h) = ucast (drop_bit 8 (frame h))) \<and>
     (\<forall>s. frame (lhw (turn P s)) \<noteq> frame (lhw s))"

lemma two_bytes: "ucast (ucast (w :: u16) :: u8) OR push_bit 8 (ucast (ucast (drop_bit 8 w) :: u8)) = w"
  by (rule bit_word_eqI) (auto simp: bit_simps)

lemma frame_number:
  assumes "lufa_clock P frame"
  shows "\<exists>h. USB_Device_GetFrameNumber P s = (frame (lhw s), s\<lparr>lhw := h\<rparr>) \<and> frame h = frame (lhw s)"
  using assms two_bytes
  by (simp add: lufa_clock_def USB_Device_GetFrameNumber_def reg_get_eq)

lemma look_ready_frame:
  "lufa_clock P frame \<Longrightarrow> frame (lhw (snd (look_ready P s))) = frame (lhw s)"
  by (simp add: lufa_clock_def look_ready_def Endpoint_GetEndpointDirection_def Endpoint_IsINReady_def
      Endpoint_IsOUTReceived_def Endpoint_IsStalled_def reg_bit_def reg_get_eq)

lemma wait_ready_returns:
  assumes clock: "lufa_clock P frame"
    and "if frame (lhw s) = prev then unat left < n else unat left \<le> n"
  shows "wait_ready P n left prev s \<noteq> None"
  using assms(2)
proof (induction n arbitrary: left prev s)
  case (0 left prev s)
  obtain code s1 where l: "look_ready P s = (code, s1)" by fastforce
  have f1: "frame (lhw s1) = frame (lhw s)" using look_ready_frame [OF clock, of s] l by simp
  obtain h where "USB_Device_GetFrameNumber P s1 = (frame (lhw s), s1\<lparr>lhw := h\<rparr>)"
    using frame_number [OF clock, of s1] f1 by auto
  moreover have "frame (lhw s) \<noteq> prev" "left = 0"
    using 0 by (simp_all add: unat_eq_zero split: if_splits)
  ultimately show ?case
    by (subst wait_ready.simps) (simp add: l split: option.split)
next
  case (Suc n left prev s)
  obtain code s1 where l: "look_ready P s = (code, s1)" by fastforce
  have f1: "frame (lhw s1) = frame (lhw s)" using look_ready_frame [OF clock, of s] l by simp
  obtain h where h: "USB_Device_GetFrameNumber P s1 = (frame (lhw s), s1\<lparr>lhw := h\<rparr>)"
      "frame h = frame (lhw s)"
    using frame_number [OF clock, of s1] f1 by auto
  let ?s2 = "turn P (s1\<lparr>lhw := h\<rparr>)"
  have "frame (lhw ?s2) \<noteq> frame (lhw (s1\<lparr>lhw := h\<rparr>))" using clock unfolding lufa_clock_def by blast
  then have f2: "frame (lhw ?s2) \<noteq> frame (lhw s)" using h(2) by simp
  show ?case
  proof (cases code)
    case (Some e)
    then show ?thesis by (subst wait_ready.simps) (simp add: l)
  next
    case None
    show ?thesis
    proof (cases "frame (lhw s) = prev")
      case True
      with Suc.prems have "unat left \<le> n" by simp
      then have "wait_ready P n left (frame (lhw s)) ?s2 \<noteq> None" using Suc.IH f2 by simp
      with True show ?thesis by (subst wait_ready.simps) (simp add: l None h)
    next
      case False
      with Suc.prems have "left \<noteq> 0 \<Longrightarrow> unat (left - 1) \<le> n"
        by (simp add: unat_minus_one)
      then have "left \<noteq> 0 \<Longrightarrow> wait_ready P n (left - 1) (frame (lhw s)) ?s2 \<noteq> None"
        using Suc.IH f2 by simp
      with False show ?thesis by (subst wait_ready.simps) (simp add: l None h)
    qed
  qed
qed

lemma WaitUntilReady_returns:
  assumes clock: "lufa_clock P frame" and "100 < patience P"
  shows "Endpoint_WaitUntilReady P s \<noteq> None"
proof -
  obtain h where h: "USB_Device_GetFrameNumber P s = (frame (lhw s), s\<lparr>lhw := h\<rparr>)" "frame h = frame (lhw s)"
    using frame_number [OF clock] by blast
  have "wait_ready P (patience P) USB_STREAM_TIMEOUT_MS (frame (lhw s)) (s\<lparr>lhw := h\<rparr>) \<noteq> None"
    using assms(2) h(2) by (intro wait_ready_returns [OF clock]) (simp add: USB_STREAM_TIMEOUT_MS_def)
  then show ?thesis by (simp add: Endpoint_WaitUntilReady_def h)
qed

section \<open>Sending\<close>

text \<open>
  An IN endpoint of \<open>cap\<close> bytes: \<open>bank\<close> is what has been written to the bank being filled,
  \<open>given\<close> what has been given to the host. Both ready flags mean that the bank takes a byte.
  Interrupts leave the selected endpoint and its bank as they are.
\<close>

definition in_endpoint ::
    "'h platform \<Rightarrow> u8 \<Rightarrow> nat \<Rightarrow> ('h \<Rightarrow> u8) \<Rightarrow> ('h \<Rightarrow> bytes) \<Rightarrow> ('h \<Rightarrow> bytes) \<Rightarrow> bool"
where
  "in_endpoint P n cap sel bank given \<longleftrightarrow>
     (\<forall>h. sel (reg_out (controller P) UENUM n h) = n \<and> bank (reg_out (controller P) UENUM n h) = bank h \<and>
        given (reg_out (controller P) UENUM n h) = given h) \<and>
     (\<forall>h r. sel h = n \<longrightarrow> r \<noteq> UEDATX \<longrightarrow>
        sel (snd (reg_in (controller P) r h)) = n \<and> bank (snd (reg_in (controller P) r h)) = bank h \<and>
        given (snd (reg_in (controller P) r h)) = given h) \<and>
     (\<forall>h. sel h = n \<longrightarrow>
        bit (fst (reg_in (controller P) UEINTX h)) RWAL \<or> bit (fst (reg_in (controller P) UEINTX h)) TXINI \<longrightarrow>
        length (bank h) < cap) \<and>
     (\<forall>h. sel h = n \<longrightarrow> bit (fst (reg_in (controller P) UECFG0X h)) EPDIR) \<and>
     (\<forall>h v. sel h = n \<longrightarrow> length (bank h) < cap \<longrightarrow>
        sel (reg_out (controller P) UEDATX v h) = n \<and> bank (reg_out (controller P) UEDATX v h) = bank h @ [v] \<and>
        given (reg_out (controller P) UEDATX v h) = given h) \<and>
     (\<forall>h v. sel h = n \<longrightarrow> \<not> bit v TXINI \<longrightarrow> \<not> bit v FIFOCON \<longrightarrow>
        sel (reg_out (controller P) UEINTX v h) = n \<and> bank (reg_out (controller P) UEINTX v h) = [] \<and>
        given (reg_out (controller P) UEINTX v h) = given h @ bank h) \<and>
     (\<forall>s. sel (lhw s) = n \<longrightarrow> sel (lhw (turn P s)) = n \<and> bank (lhw (turn P s)) = bank (lhw s) \<and>
        given (lhw (turn P s)) = given (lhw s))"

text \<open>What has been written to the endpoint, whether the host has it already or not.\<close>

definition in_stream :: "('h \<Rightarrow> bytes) \<Rightarrow> ('h \<Rightarrow> bytes) \<Rightarrow> 'h lufa \<Rightarrow> bytes" where
  "in_stream bank given s = given (lhw s) @ bank (lhw s)"

lemma tx_select:
  assumes "in_endpoint P n cap sel bank given"
  shows "sel (lhw (Endpoint_SelectEndpoint P n s)) = n"
    and "in_stream bank given (Endpoint_SelectEndpoint P n s) = in_stream bank given s"
  using assms unfolding in_endpoint_def Endpoint_SelectEndpoint_def reg_put_def in_stream_def by simp_all

lemma tx_look:
  assumes ep: "in_endpoint P n cap sel bank given" and "sel (lhw s) = n"
    and l: "look_ready P s = (code, s1)"
  shows "sel (lhw s1) = n" and "bank (lhw s1) = bank (lhw s)" and "given (lhw s1) = given (lhw s)"
    and "code = Some 0 \<Longrightarrow> length (bank (lhw s1)) < cap"
proof -
  have read: "sel (snd (reg_in (controller P) r h)) = n \<and> bank (snd (reg_in (controller P) r h)) = bank h \<and>
      given (snd (reg_in (controller P) r h)) = given h" if "sel h = n" "r \<noteq> UEDATX" for h r
    using ep that unfolding in_endpoint_def by blast
  have ready: "length (bank h) < cap" if "sel h = n" "bit (fst (reg_in (controller P) UEINTX h)) 0" for h
    using ep that unfolding in_endpoint_def by blast
  have dir: "bit (fst (reg_in (controller P) UECFG0X (lhw s))) 0"
    using ep assms(2) unfolding in_endpoint_def by blast
  note look = l [unfolded look_ready_def Endpoint_GetEndpointDirection_def Endpoint_IsINReady_def
      Endpoint_IsStalled_def reg_bit_def reg_get_eq]
  show "sel (lhw s1) = n" "bank (lhw s1) = bank (lhw s)" "given (lhw s1) = given (lhw s)"
    using look dir assms(2) by (auto simp: read split: if_splits)
  show "length (bank (lhw s1)) < cap" if "code = Some 0"
    using look dir assms(2) that ready [of "snd (reg_in (controller P) UECFG0X (lhw s))"]
    by (auto simp: read split: if_splits)
qed

text \<open>The endpoint \<open>n\<close> stays selected and nothing is written to it or released.\<close>

definition tx_same :: "u8 \<Rightarrow> ('h \<Rightarrow> u8) \<Rightarrow> ('h \<Rightarrow> bytes) \<Rightarrow> ('h \<Rightarrow> bytes) \<Rightarrow> 'h lufa \<Rightarrow> 'h lufa \<Rightarrow> bool" where
  "tx_same n sel bank given s t \<longleftrightarrow>
     (sel (lhw s) = n \<longrightarrow> sel (lhw t) = n \<and> bank (lhw t) = bank (lhw s) \<and> given (lhw t) = given (lhw s))"

lemma tx_same_trans:
  "tx_same n sel bank given s t \<Longrightarrow> tx_same n sel bank given t u \<Longrightarrow> tx_same n sel bank given s u"
  by (auto simp: tx_same_def)

lemma tx_frame_number:
  assumes ep: "in_endpoint P n cap sel bank given" and "USB_Device_GetFrameNumber P s = (f, t)"
  shows "tx_same n sel bank given s t"
proof -
  have read: "sel (snd (reg_in (controller P) r h)) = n \<and> bank (snd (reg_in (controller P) r h)) = bank h \<and>
      given (snd (reg_in (controller P) r h)) = given h" if "sel h = n" "r \<noteq> UEDATX" for h r
    using ep that unfolding in_endpoint_def by blast
  show ?thesis
    using assms(2) by (auto simp: USB_Device_GetFrameNumber_def reg_get_eq tx_same_def read)
qed

lemma tx_turn: "in_endpoint P n cap sel bank given \<Longrightarrow> tx_same n sel bank given s (turn P s)"
  unfolding in_endpoint_def tx_same_def by blast

lemma lufa_tx_wait_ready:
  assumes ep: "in_endpoint P n cap sel bank given" and "sel (lhw s) = n"
    and "wait_ready P k left prev s = Some (e, t)"
  shows "tx_same n sel bank given s t \<and> (e = 0 \<longrightarrow> length (bank (lhw t)) < cap)"
  using assms(2,3)
proof (induction k arbitrary: left prev s)
  case (0 left prev s)
  obtain code s1 where l: "look_ready P s = (code, s1)" by fastforce
  obtain f s2 where f: "USB_Device_GetFrameNumber P s1 = (f, s2)" by fastforce
  note same = tx_look [OF ep 0(1) l] tx_frame_number [OF ep f]
  from 0(2) same l f show ?case
    by (subst (asm) wait_ready.simps) (auto simp: tx_same_def split: option.splits if_splits)
next
  case (Suc k left prev s)
  obtain code s1 where l: "look_ready P s = (code, s1)" by fastforce
  obtain f s2 where f: "USB_Device_GetFrameNumber P s1 = (f, s2)" by fastforce
  note look = tx_look [OF ep Suc.prems(1) l]
  have s2: "tx_same n sel bank given s s2"
    using look tx_frame_number [OF ep f] by (auto simp: tx_same_def)
  have s3: "tx_same n sel bank given s (turn P s2)" using s2 tx_turn [OF ep] by (rule tx_same_trans)
  have IH: "tx_same n sel bank given s t \<and> (e = 0 \<longrightarrow> length (bank (lhw t)) < cap)"
    if "wait_ready P k left' f (turn P s2) = Some (e, t)" for left'
    using Suc.IH [OF _ that] s3 Suc.prems(1) by (auto simp: tx_same_def)
  from Suc.prems(2) l f s2 look IH show ?case
    by (subst (asm) wait_ready.simps) (auto simp: tx_same_def split: option.splits if_splits)
qed

lemma lufa_tx_wait:
  assumes ep: "in_endpoint P n cap sel bank given" and "sel (lhw s) = n"
    and "Endpoint_WaitUntilReady P s = Some (e, t)"
  shows "tx_same n sel bank given s t \<and> (e = 0 \<longrightarrow> length (bank (lhw t)) < cap)"
proof -
  obtain f s1 where f: "USB_Device_GetFrameNumber P s = (f, s1)" by fastforce
  have s1: "tx_same n sel bank given s s1" using tx_frame_number [OF ep f] .
  with assms(2) have "sel (lhw s1) = n" by (simp add: tx_same_def)
  then have "tx_same n sel bank given s1 t \<and> (e = 0 \<longrightarrow> length (bank (lhw t)) < cap)"
    using assms(3) f by (intro lufa_tx_wait_ready [OF ep]) (simp_all add: Endpoint_WaitUntilReady_def)
  with tx_same_trans [OF s1] show ?thesis by blast
qed

lemma tx_allowed:
  assumes ep: "in_endpoint P n cap sel bank given" and "sel (lhw s) = n"
    and "Endpoint_IsReadWriteAllowed P s = (ok, t)"
  shows "tx_same n sel bank given s t \<and> (ok \<longrightarrow> length (bank (lhw t)) < cap)"
proof -
  have "sel (snd (reg_in (controller P) UEINTX (lhw s))) = n \<and>
      bank (snd (reg_in (controller P) UEINTX (lhw s))) = bank (lhw s) \<and>
      given (snd (reg_in (controller P) UEINTX (lhw s))) = given (lhw s)"
    using ep assms(2) unfolding in_endpoint_def by blast
  moreover have "bit (fst (reg_in (controller P) UEINTX (lhw s))) RWAL \<Longrightarrow> length (bank (lhw s)) < cap"
    using ep assms(2) unfolding in_endpoint_def by blast
  ultimately show ?thesis
    using assms(3) by (auto simp: Endpoint_IsReadWriteAllowed_def reg_bit_def reg_get_eq tx_same_def)
qed

lemma tx_write:
  assumes ep: "in_endpoint P n cap sel bank given" and "sel (lhw s) = n" and "length (bank (lhw s)) < cap"
  shows "sel (lhw (Endpoint_Write_8 P b s)) = n"
    and "in_stream bank given (Endpoint_Write_8 P b s) = in_stream bank given s @ [b]"
  using assms unfolding in_endpoint_def by (simp_all add: Endpoint_Write_8_def reg_put_def in_stream_def)

lemma tx_clear:
  assumes ep: "in_endpoint P n cap sel bank given" and "sel (lhw s) = n"
  shows "sel (lhw (Endpoint_ClearIN P s)) = n"
    and "in_stream bank given (Endpoint_ClearIN P s) = in_stream bank given s"
proof -
  let ?h = "snd (reg_in (controller P) UEINTX (lhw s))"
  have "sel ?h = n \<and> bank ?h = bank (lhw s) \<and> given ?h = given (lhw s)"
    using ep assms(2) unfolding in_endpoint_def by blast
  moreover have "sel (reg_out (controller P) UEINTX v ?h) = n \<and> bank (reg_out (controller P) UEINTX v ?h) = [] \<and>
      given (reg_out (controller P) UEINTX v ?h) = given ?h @ bank ?h"
    if "\<not> bit v TXINI" "\<not> bit v FIFOCON" "sel ?h = n" for v
    using ep that unfolding in_endpoint_def by blast
  ultimately show "sel (lhw (Endpoint_ClearIN P s)) = n"
    and "in_stream bank given (Endpoint_ClearIN P s) = in_stream bank given s"
    using acknowledged(3,4)
    by (simp_all add: Endpoint_ClearIN_def clear_bits_def reg_get_eq reg_put_def in_stream_def)
qed

lemma send_byte:
  assumes ep: "in_endpoint P (DataINEndpointNumber C) cap sel bank given"
    and "CDC_Device_SendByte P C b s = Some (e, t)"
  shows "in_stream bank given t = in_stream bank given s @ (if e = 0 then [b] else [])"
proof (cases "cdc_open s")
  case False
  with assms(2) show ?thesis by (auto simp: CDC_Device_SendByte_def)
next
  case True
  let ?n = "DataINEndpointNumber C" and ?s1 = "Endpoint_SelectEndpoint P (DataINEndpointNumber C) s"
  obtain ok s2 where a: "Endpoint_IsReadWriteAllowed P ?s1 = (ok, s2)" by fastforce
  note sel1 = tx_select [OF ep, of s] and al = tx_allowed [OF ep tx_select(1) [OF ep] a]
  have s2: "sel (lhw s2) = ?n" "in_stream bank given s2 = in_stream bank given s"
    using al sel1 by (simp_all add: tx_same_def in_stream_def)
  show ?thesis
  proof (cases ok)
    case ok: True
    with al have "length (bank (lhw s2)) < cap" by simp
    with tx_write [OF ep s2(1)] assms(2) True a ok s2 show ?thesis by (auto simp: CDC_Device_SendByte_def)
  next
    case notok: False
    obtain e' s4 where w: "Endpoint_WaitUntilReady P (Endpoint_ClearIN P s2) = Some (e', s4)"
      using assms(2) True a notok by (auto simp: CDC_Device_SendByte_def split: option.splits)
    note cl = tx_clear [OF ep s2(1)] and wt = lufa_tx_wait [OF ep tx_clear(1) [OF ep s2(1)] w]
    have s4: "sel (lhw s4) = ?n" "in_stream bank given s4 = in_stream bank given s"
      using wt cl s2 by (simp_all add: tx_same_def in_stream_def)
    show ?thesis
    proof (cases "e' = 0")
      case True
      with wt have "length (bank (lhw s4)) < cap" by simp
      with tx_write [OF ep s4(1)] assms(2) \<open>cdc_open s\<close> a notok w True s4 show ?thesis
        by (auto simp: CDC_Device_SendByte_def)
    next
      case False
      with assms(2) \<open>cdc_open s\<close> a notok w s4 show ?thesis by (auto simp: CDC_Device_SendByte_def)
    qed
  qed
qed

lemma send_byte_returns:
  assumes "lufa_clock P frame" and "100 < patience P"
  shows "CDC_Device_SendByte P C b s \<noteq> None"
  by (simp add: CDC_Device_SendByte_def WaitUntilReady_returns [OF assms] split: option.split prod.split)

lemma lufa_send_stream:
  assumes ep: "in_endpoint P (DataINEndpointNumber VirtualSerial_CDC_Interface) cap sel bank given"
    and "lufa_send P bs l = Some (k, l')"
  shows "in_stream bank given l' = in_stream bank given l @ take k bs \<and> k \<le> length bs"
  using assms(2)
proof (induction bs arbitrary: k l)
  case (Cons b bs)
  obtain e l1 where b: "CDC_Device_SendByte P VirtualSerial_CDC_Interface b l = Some (e, l1)"
    using Cons.prems by (auto split: option.splits)
  note s = send_byte [OF ep b]
  show ?case
  proof (cases "e = 0")
    case True
    with Cons.prems b obtain k' where "lufa_send P bs l1 = Some (k', l')" "k = Suc k'"
      by (auto split: option.splits)
    with Cons.IH [of l1 k'] s True show ?thesis by simp
  next
    case False
    with Cons.prems b s show ?thesis by simp
  qed
qed simp

lemma lufa_send_returns:
  assumes "lufa_clock P frame" and "100 < patience P"
  shows "\<exists>k l'. lufa_send P bs l = Some (k, l')"
proof (induction bs arbitrary: l)
  case (Cons b bs)
  obtain e l1 where b: "CDC_Device_SendByte P VirtualSerial_CDC_Interface b l = Some (e, l1)"
    using send_byte_returns [OF assms, of VirtualSerial_CDC_Interface b l] by auto
  with Cons.IH [of l1] show ?case by auto
qed simp

end
