(* ===== verification/LufaRequests.thy ===== *)
theory LufaRequests
  imports LufaLemmas
begin

text \<open>
  The control endpoint of the serial link over the LUFA library: a descriptor reaches the host
  in packets whose end it can tell, a request the device does not know is refused, and a device
  that wakes up without a configuration takes itself for configured.
\<close>

section \<open>Descriptors in packets\<close>

text \<open>
  A host that reads: every packet given to it is taken at once, no other request interrupts,
  and it sends the packet of the status stage when it has all of the \<open>want\<close> bytes it asked for
  or a packet that is not full. \<open>bank\<close> is what has been written to the bank, \<open>pkts\<close> the packets.
\<close>

definition host_has_all :: "nat \<Rightarrow> bytes list \<Rightarrow> bool" where
  "host_has_all want ps \<longleftrightarrow> want \<le> length (concat ps) \<or> (ps \<noteq> [] \<and> length (last ps) < 8)"

definition control_host ::
    "'h platform \<Rightarrow> nat \<Rightarrow> ('h \<Rightarrow> u8) \<Rightarrow> ('h \<Rightarrow> bytes) \<Rightarrow> ('h \<Rightarrow> bytes list) \<Rightarrow> bool"
where
  "control_host P want sel bank pkts \<longleftrightarrow>
     (\<forall>h r. sel h = 0 \<longrightarrow> r \<noteq> UEDATX \<longrightarrow>
        sel (snd (reg_in (controller P) r h)) = 0 \<and> bank (snd (reg_in (controller P) r h)) = bank h \<and>
        pkts (snd (reg_in (controller P) r h)) = pkts h) \<and>
     (\<forall>h. sel h = 0 \<longrightarrow> bit (fst (reg_in (controller P) UEINTX h)) TXINI \<and>
        \<not> bit (fst (reg_in (controller P) UEINTX h)) RXSTPI \<and>
        bit (fst (reg_in (controller P) UEINTX h)) RXOUTI = host_has_all want (pkts h)) \<and>
     (\<forall>h. sel h = 0 \<longrightarrow> unat (fst (reg_in (controller P) UEBCHX h)) = length (bank h) div 256 \<and>
        unat (fst (reg_in (controller P) UEBCLX h)) = length (bank h) mod 256) \<and>
     (\<forall>h v. sel h = 0 \<longrightarrow> length (bank h) < 8 \<longrightarrow>
        sel (reg_out (controller P) UEDATX v h) = 0 \<and> bank (reg_out (controller P) UEDATX v h) = bank h @ [v] \<and>
        pkts (reg_out (controller P) UEDATX v h) = pkts h) \<and>
     (\<forall>h v. sel h = 0 \<longrightarrow> bit v TXINI \<longrightarrow>
        sel (reg_out (controller P) UEINTX v h) = 0 \<and> bank (reg_out (controller P) UEINTX v h) = bank h \<and>
        pkts (reg_out (controller P) UEINTX v h) = pkts h) \<and>
     (\<forall>h v. sel h = 0 \<longrightarrow> \<not> bit v TXINI \<longrightarrow> \<not> bit v FIFOCON \<longrightarrow>
        sel (reg_out (controller P) UEINTX v h) = 0 \<and> bank (reg_out (controller P) UEINTX v h) = [] \<and>
        pkts (reg_out (controller P) UEINTX v h) = pkts h @ [bank h]) \<and>
     (\<forall>s. sel (lhw s) = 0 \<longrightarrow> sel (lhw (turn P s)) = 0 \<and> bank (lhw (turn P s)) = bank (lhw s) \<and>
        pkts (lhw (turn P s)) = pkts (lhw s) \<and> USB_DeviceState (turn P s) = USB_DeviceState s)"

text \<open>Endpoint 0 is selected, with this bank and these packets; the device is still there.\<close>

definition at0 ::
    "('h \<Rightarrow> u8) \<Rightarrow> ('h \<Rightarrow> bytes) \<Rightarrow> ('h \<Rightarrow> bytes list) \<Rightarrow> bytes \<Rightarrow> bytes list \<Rightarrow> 'h lufa \<Rightarrow> bool"
where
  "at0 sel bank pkts b ps s \<longleftrightarrow> sel (lhw s) = 0 \<and> bank (lhw s) = b \<and> pkts (lhw s) = ps \<and>
     USB_DeviceState s \<noteq> DEVICE_STATE_Unattached \<and> USB_DeviceState s \<noteq> DEVICE_STATE_Suspended"

lemma ctl_read:
  assumes "control_host P want sel bank pkts" and "at0 sel bank pkts b ps s" and "r \<noteq> UEDATX"
  shows "at0 sel bank pkts b ps (s\<lparr>lhw := snd (reg_in (controller P) r (lhw s))\<rparr>)"
  using assms unfolding control_host_def at0_def by simp

lemma ctl_flags:
  assumes "control_host P want sel bank pkts" and "at0 sel bank pkts b ps s"
  shows "bit (fst (reg_in (controller P) UEINTX (lhw s))) TXINI"
    and "\<not> bit (fst (reg_in (controller P) UEINTX (lhw s))) RXSTPI"
    and "bit (fst (reg_in (controller P) UEINTX (lhw s))) RXOUTI = host_has_all want ps"
  using assms unfolding control_host_def at0_def by simp_all

lemma ctl_turn:
  assumes "control_host P want sel bank pkts" and "at0 sel bank pkts b ps s"
  shows "at0 sel bank pkts b ps (turn P s)"
  using assms unfolding control_host_def at0_def by simp

lemma ctl_tests:
  assumes H: "control_host P want sel bank pkts" and a: "at0 sel bank pkts b ps s"
  shows "\<exists>t. Endpoint_IsSETUPReceived P s = (False, t) \<and> at0 sel bank pkts b ps t"
    and "\<exists>t. Endpoint_IsOUTReceived P s = (host_has_all want ps, t) \<and> at0 sel bank pkts b ps t"
    and "\<exists>t. Endpoint_IsINReady P s = (True, t) \<and> at0 sel bank pkts b ps t"
  using ctl_flags [OF H a] ctl_read [OF H a]
  by (simp_all add: Endpoint_IsSETUPReceived_def Endpoint_IsOUTReceived_def Endpoint_IsINReady_def
      reg_bit_def reg_get_eq)

lemma ctl_bytes:
  assumes H: "control_host P want sel bank pkts" and a: "at0 sel bank pkts b ps s"
  shows "\<exists>t. Endpoint_BytesInEndpoint P s = (of_nat (length b), t) \<and> at0 sel bank pkts b ps t"
proof -
  let ?t = "s\<lparr>lhw := snd (reg_in (controller P) UEBCHX (lhw s))\<rparr>"
  have t: "at0 sel bank pkts b ps ?t" using ctl_read [OF H a] by simp
  have 1: "unat (fst (reg_in (controller P) UEBCHX (lhw s))) = length b div 256"
    using H a unfolding control_host_def at0_def by blast
  have 2: "unat (fst (reg_in (controller P) UEBCLX (lhw ?t))) = length b mod 256"
    using H t unfolding control_host_def at0_def by blast
  show ?thesis
    using bytes_word [OF 1 2] ctl_read [OF H t, of UEBCLX]
    by (simp add: Endpoint_BytesInEndpoint_def reg_get_eq)
qed

lemma ctl_write:
  assumes "control_host P want sel bank pkts" and "at0 sel bank pkts b ps s" and "length b < 8"
  shows "at0 sel bank pkts (b @ [v]) ps (Endpoint_Write_8 P v s)"
  using assms unfolding control_host_def at0_def by (simp add: Endpoint_Write_8_def reg_put_def)

lemma ctl_acknowledge:
  assumes H: "control_host P want sel bank pkts" and a: "at0 sel bank pkts b ps s"
  shows "at0 sel bank pkts b ps (Endpoint_ClearSETUP P s)"
    and "at0 sel bank pkts b ps (Endpoint_ClearOUT P s)"
    and "at0 sel bank pkts [] (ps @ [b]) (Endpoint_ClearIN P s)"
proof -
  let ?v = "fst (reg_in (controller P) UEINTX (lhw s))" and ?t = "s\<lparr>lhw := snd (reg_in (controller P) UEINTX (lhw s))\<rparr>"
  have t: "at0 sel bank pkts b ps ?t" using ctl_read [OF H a] by simp
  have keep: "at0 sel bank pkts b ps (reg_put P UEINTX w ?t)" if "bit w TXINI" for w
    using H t that unfolding control_host_def at0_def by (simp add: reg_put_def)
  have give: "at0 sel bank pkts [] (ps @ [b]) (reg_put P UEINTX w ?t)" if "\<not> bit w TXINI" "\<not> bit w FIFOCON" for w
    using H t that unfolding control_host_def at0_def by (simp add: reg_put_def)
  show "at0 sel bank pkts b ps (Endpoint_ClearSETUP P s)"
    using keep [of "?v AND NOT (mask_bit RXSTPI)"] ctl_flags(1) [OF H a]
    by (simp add: Endpoint_ClearSETUP_def clear_bits_def reg_get_eq bit_simps)
  show "at0 sel bank pkts b ps (Endpoint_ClearOUT P s)"
    using keep [of "?v AND NOT (mask_bit RXOUTI OR mask_bit FIFOCON)"] ctl_flags(1) [OF H a]
    by (simp add: Endpoint_ClearOUT_def clear_bits_def reg_get_eq bit_simps)
  show "at0 sel bank pkts [] (ps @ [b]) (Endpoint_ClearIN P s)"
    using give [OF acknowledged(3,4)] by (simp add: Endpoint_ClearIN_def clear_bits_def reg_get_eq)
qed

lemma ctl_fill:
  assumes H: "control_host P want sel bank pkts" and "at0 sel bank pkts b ps s" and "length b \<le> 8"
  shows "\<exists>t. fill_bank P bs (of_nat (length b)) s =
      (drop (8 - length b) bs, of_nat (length b + min (8 - length b) (length bs)), t) \<and>
    at0 sel bank pkts (b @ take (8 - length b) bs) ps t"
  using assms(2,3)
proof (induction bs arbitrary: b s)
  case (Cons x bs)
  have lt: "of_nat (length b) < (ucast FIXED_CONTROL_ENDPOINT_SIZE :: u16) \<longleftrightarrow> length b < 8"
    using Cons.prems(2) by (simp add: FIXED_CONTROL_ENDPOINT_SIZE_def word_less_nat_alt unat_of_nat)
  show ?case
  proof (cases "length b < 8")
    case True
    have w: "at0 sel bank pkts (b @ [x]) ps (Endpoint_Write_8 P x s)"
      using ctl_write [OF H Cons.prems(1) True] .
    obtain m where m: "8 - length b = Suc m" using True by (metis Suc_diff_Suc)
    then have m': "8 - Suc (length b) = m" by simp
    from Cons.IH [OF w] True m m' lt show ?thesis by (simp add: add.commute)
  next
    case False
    with Cons.prems lt show ?thesis by simp
  qed
qed simp

lemma ctl_packets:
  assumes H: "control_host P want sel bank pkts" and "at0 sel bank pkts [] ps s"
    and "list_all (\<lambda>p. length p = 8) ps" and "full \<longleftrightarrow> ps \<noteq> []" and "bs \<noteq> [] \<or> full"
    and "length (concat ps) + length bs \<le> want" and "length bs div 8 < n"
  shows "\<exists>t qs. control_packets P n bs full s = Some (None, t) \<and> at0 sel bank pkts [] (ps @ qs) t \<and>
    concat qs = bs \<and> list_all (\<lambda>p. length p = 8) (butlast (ps @ qs)) \<and>
    length (last (ps @ qs)) \<le> 8 \<and> host_has_all want (ps @ qs)"
  using assms(2-)
proof (induction n arbitrary: bs full ps s)
  case (Suc n bs full ps s)
  have st: "USB_DeviceState s \<noteq> DEVICE_STATE_Unattached" "USB_DeviceState s \<noteq> DEVICE_STATE_Suspended"
    using Suc.prems(1) by (simp_all add: at0_def)
  obtain s1 where s1: "Endpoint_IsSETUPReceived P s = (False, s1)" "at0 sel bank pkts [] ps s1"
    using ctl_tests(1) [OF H Suc.prems(1)] by blast
  obtain s2 where s2: "Endpoint_IsOUTReceived P s1 = (host_has_all want ps, s2)" "at0 sel bank pkts [] ps s2"
    using ctl_tests(2) [OF H s1(2)] by blast
  show ?case
  proof (cases "host_has_all want ps")
    case True
    have all8: "length (last ps) = 8" if "ps \<noteq> []"
      using Suc.prems(2) that by (simp add: list_all_iff)
    then have "want \<le> length (concat ps)" using True by (auto simp: host_has_all_def)
    then have "length bs = 0" using Suc.prems(5) by linarith
    then have bs: "bs = []" by simp
    then have "ps \<noteq> []" using Suc.prems(3,4) by simp
    moreover have "list_all (\<lambda>p. length p = 8) (butlast ps)"
      using Suc.prems(2) by (auto simp: list_all_iff dest: in_set_butlastD)
    ultimately show ?thesis
      using True s1 s2 st bs Suc.prems(3) all8
      by (intro exI [of _ s2] exI [of _ "[]"]) (subst control_packets.simps, simp)
  next
    case False
    obtain s3 where s3: "Endpoint_IsINReady P s2 = (True, s3)" "at0 sel bank pkts [] ps s3"
      using ctl_tests(3) [OF H s2(2)] by blast
    obtain s4 where s4: "Endpoint_BytesInEndpoint P s3 = (0, s4)" "at0 sel bank pkts [] ps s4"
      using ctl_bytes [OF H s3(2)] by auto
    obtain s5 where s5: "fill_bank P bs 0 s4 = (drop 8 bs, of_nat (min 8 (length bs)), s5)"
        "at0 sel bank pkts (take 8 bs) ps s5"
      using ctl_fill [OF H s4(2), of bs] by auto
    define s6 where "s6 = turn P (Endpoint_ClearIN P s5)"
    have s6: "at0 sel bank pkts [] (ps @ [take 8 bs]) s6"
      unfolding s6_def using ctl_turn [OF H ctl_acknowledge(3) [OF H s5(2)]] .
    let ?full = "8 \<le> length bs"
    have full: "of_nat (min 8 (length bs)) = (ucast FIXED_CONTROL_ENDPOINT_SIZE :: u16) \<longleftrightarrow> ?full"
      by (auto simp: FIXED_CONTROL_ENDPOINT_SIZE_def word_unat_eq_iff unat_of_nat min_def)
    have step: "control_packets P (Suc n) bs full s = control_packets P n (drop 8 bs) ?full s6"
      using Suc.prems(4) st s1 s2 s3 s4 s5 False full
      by (subst control_packets.simps) (auto simp: s6_def)
    show ?thesis
    proof (cases ?full)
      case True
      have "\<exists>t qs. control_packets P n (drop 8 bs) True s6 = Some (None, t) \<and>
          at0 sel bank pkts [] ((ps @ [take 8 bs]) @ qs) t \<and> concat qs = drop 8 bs \<and>
          list_all (\<lambda>p. length p = 8) (butlast ((ps @ [take 8 bs]) @ qs)) \<and>
          length (last ((ps @ [take 8 bs]) @ qs)) \<le> 8 \<and> host_has_all want ((ps @ [take 8 bs]) @ qs)"
        using Suc.prems True
        by (intro Suc.IH [OF s6]) (auto simp: le_div_geq)
      then obtain t qs where q: "control_packets P n (drop 8 bs) True s6 = Some (None, t)"
          "at0 sel bank pkts [] (ps @ (take 8 bs # qs)) t" "concat (take 8 bs # qs) = bs"
          "list_all (\<lambda>p. length p = 8) (butlast (ps @ (take 8 bs # qs)))"
          "length (last (ps @ (take 8 bs # qs))) \<le> 8" "host_has_all want (ps @ (take 8 bs # qs))"
        by auto
      have "control_packets P (Suc n) bs full s = Some (None, t)" using step True q(1) by simp
      with q(2-) show ?thesis by blast
    next
      case False
      then have "control_packets P n (drop 8 bs) ?full s6 = Some (None, s6)"
        by (subst control_packets.simps) simp
      with step s6 False Suc.prems(2) show ?thesis
        by (intro exI [of _ s6] exI [of _ "[take 8 bs]"]) (simp add: host_has_all_def)
    qed
  qed
qed simp

lemma wait_until_now:
  assumes "ready s = (True, t)"
  shows "wait_until P ready leave n s = Some (True, t)"
  using assms by (subst wait_until.simps) simp

lemma ctl_descriptor:
  assumes H: "control_host P (unat (wLength r)) sel bank pkts"
    and a: "at0 sel bank pkts [] [] s" and r: "USB_ControlRequest s = r"
    and obj: "CALLBACK_USB_GetDescriptor (wValue r) (ucast (wIndex r)) = (Some obj, n)"
    and "wValue r \<noteq> 0x03DC" and len: "wLength r \<noteq> 0" and "8 < patience P"
  shows "\<exists>t ps. USB_Device_GetDescriptor P s = Some t \<and> at0 sel bank pkts [] ps t \<and>
    concat ps = take (min (unat n) (unat (wLength r))) obj \<and>
    list_all (\<lambda>p. length p = 8) (butlast ps) \<and> length (last ps) \<le> 8 \<and>
    host_has_all (unat (wLength r)) ps"
proof -
  have n: "n \<noteq> 0" "unat n \<le> length obj" using callback_object [OF obj] by simp_all
  have n62: "unat n \<le> 62"
    using obj string_sizes length_DeviceDescriptor
    by (auto simp: CALLBACK_USB_GetDescriptor_def Let_def split: if_splits)
  let ?L = "min (unat n) (unat (wLength r))"
  have L: "(if n > wLength r then wLength r else n) \<noteq> 0"
    "unat (if n > wLength r then wLength r else n) = ?L"
    using n(1) len by (auto simp: word_less_nat_alt min_def)
  let ?bs = "take ?L obj"
  have pos: "0 < unat n" "0 < unat (wLength r)" using n(1) len by (simp_all add: unat_gt_0)
  then have bs: "?bs \<noteq> []" "length ?bs = ?L" using n(2) by auto
  have small: "length ?bs div 8 < patience P"
  proof -
    have "length ?bs \<le> 62" unfolding bs(2) using n62 by (rule min.coboundedI1)
    then have "length ?bs div 8 \<le> 62 div 8" by (rule div_le_mono)
    with assms(7) show ?thesis by simp
  qed
  have a1: "at0 sel bank pkts [] [] (Endpoint_ClearSETUP P s)" using ctl_acknowledge(1) [OF H a] .
  have r1: "USB_ControlRequest (Endpoint_ClearSETUP P s) = r"
    using r by (simp add: Endpoint_ClearSETUP_def clear_bits_def reg_get_eq reg_put_def)
  obtain t qs where t: "control_packets P (patience P) ?bs False (Endpoint_ClearSETUP P s) = Some (None, t)"
      "at0 sel bank pkts [] qs t" "concat qs = ?bs" "list_all (\<lambda>p. length p = 8) (butlast qs)"
      "length (last qs) \<le> 8" "host_has_all (unat (wLength r)) qs"
    using ctl_packets [OF H a1, of False ?bs "patience P"] bs small by auto
  obtain u where u: "Endpoint_IsOUTReceived P t = (True, u)" "at0 sel bank pkts [] qs u"
    using ctl_tests(2) [OF H t(2)] t(6) by auto
  have st: "control_status P t = Some (0, u)"
    by (simp add: control_status_def wait_until_now [of "Endpoint_IsOUTReceived P", OF u(1)])
  have "Endpoint_Write_Control_PStream_LE P obj n (Endpoint_ClearSETUP P s) = Some (0, u)"
    using L t(1) st n(1)
    by (auto simp: Endpoint_Write_Control_PStream_LE_def r1 split: if_splits)
  then have "USB_Device_GetDescriptor P s = Some (Endpoint_ClearOUT P u)"
    using assms(5) n(1) by (simp add: USB_Device_GetDescriptor_def Let_def r obj USE_INTERNAL_SERIAL_def)
  with ctl_acknowledge(2) [OF H u(2)] t(3-6) show ?thesis by blast
qed

section \<open>Requests the device does not know\<close>

text \<open>Whether one of the two switches has a branch that answers the request.\<close>

definition answered :: "usb_request \<Rightarrow> bool" where
  "answered r \<longleftrightarrow>
     (let t = bmRequestType r; q = bRequest r; lo = ucast (wValue r) :: u8 in
      wIndex r = 0 \<and> (q = 0x21 \<and> t = 0xA1 \<or> q \<in> {0x20, 0x22, 0x23} \<and> t = 0x21) \<or>
      q = 0 \<and> t \<in> {0x80, 0x82} \<or>
      q \<in> {1, 3} \<and> (t = 0 \<and> lo = 1 \<or> t = 2 \<and> (lo \<noteq> 0 \<or> ucast (wIndex r) AND 0x0F \<noteq> (0 :: u8))) \<or>
      q = 5 \<and> t = 0 \<or>
      q = 6 \<and> t \<in> {0x80, 0x81} \<and>
        (wValue r = 0x03DC \<or> fst (CALLBACK_USB_GetDescriptor (wValue r) (ucast (wIndex r))) \<noteq> None) \<or>
      q = 8 \<and> t = 0x80 \<or>
      q = 9 \<and> t = 0 \<and> lo \<le> 1)"

text \<open>
  \<open>flag\<close> is the flag of a received set-up packet and \<open>rest\<close> what has not been read of it; a
  read of the data register takes a byte, no other read changes either.
\<close>

definition setup_packet :: "'h platform \<Rightarrow> ('h \<Rightarrow> bool) \<Rightarrow> ('h \<Rightarrow> bytes) \<Rightarrow> bool" where
  "setup_packet P flag rest \<longleftrightarrow>
     (\<forall>h. bit (fst (reg_in (controller P) UEINTX h)) RXSTPI = flag h \<and>
        flag (snd (reg_in (controller P) UEINTX h)) = flag h) \<and>
     (\<forall>h b bs. rest h = b # bs \<longrightarrow> fst (reg_in (controller P) UEDATX h) = b \<and>
        rest (snd (reg_in (controller P) UEDATX h)) = bs \<and>
        flag (snd (reg_in (controller P) UEDATX h)) = flag h)"

lemma setup_test:
  assumes "setup_packet P flag rest" and "flag (lhw s)"
  shows "\<exists>h. Endpoint_IsSETUPReceived P s = (True, s\<lparr>lhw := h\<rparr>) \<and> flag h"
  using assms by (simp add: setup_packet_def Endpoint_IsSETUPReceived_def reg_bit_def reg_get_eq)

lemma setup_read:
  assumes P: "setup_packet P flag rest"
  shows "flag (lhw s) \<Longrightarrow> rest (lhw s) = bs @ os \<Longrightarrow>
    \<exists>h. read_header P (length bs) s = (bs, s\<lparr>lhw := h\<rparr>) \<and> flag h"
proof (induction bs arbitrary: s)
  case Nil
  then show ?case by (intro exI [of _ "lhw s"]) simp
next
  case (Cons b bs)
  let ?h = "snd (reg_in (controller P) UEDATX (lhw s))"
  have "fst (reg_in (controller P) UEDATX (lhw s)) = b" "rest ?h = bs @ os" "flag ?h"
    using P Cons.prems by (auto simp: setup_packet_def)
  with Cons.IH [of "s\<lparr>lhw := ?h\<rparr>"] show ?case
    by (auto simp: Endpoint_Read_8_def reg_get_eq)
qed

lemma class_unanswered:
  assumes P: "setup_packet P flag rest" and "flag (lhw s)" and no: "\<not> answered (USB_ControlRequest s)"
  shows "\<exists>h. CDC_Device_ProcessControlRequest P VirtualSerial_CDC_Interface s = Some (s\<lparr>lhw := h\<rparr>) \<and> flag h"
proof -
  obtain h where h: "Endpoint_IsSETUPReceived P s = (True, s\<lparr>lhw := h\<rparr>)" "flag h"
    using setup_test [OF P] assms(2) by blast
  then show ?thesis
    using no by (auto simp: CDC_Device_ProcessControlRequest_def answered_def Let_def VirtualSerial_CDC_Interface_def)
qed

lemma standard_unanswered:
  assumes no: "\<not> answered (USB_ControlRequest s)"
  shows "standard_request P s = Some s"
proof -
  let ?r = "USB_ControlRequest s"
  note n = no [unfolded answered_def Let_def]
  have status: "bRequest ?r = 0 \<Longrightarrow> bmRequestType ?r \<noteq> 0x80 \<and> bmRequestType ?r \<noteq> 0x82"
    and address: "bRequest ?r = 5 \<Longrightarrow> bmRequestType ?r \<noteq> 0"
    and get_conf: "bRequest ?r = 8 \<Longrightarrow> bmRequestType ?r \<noteq> 0x80"
    using n by blast+
  have descriptor: "USB_Device_GetDescriptor P s = Some s"
    if "bRequest ?r = 6" "bmRequestType ?r = 0x80 \<or> bmRequestType ?r = 0x81"
  proof -
    have "wValue ?r \<noteq> 0x03DC" "fst (CALLBACK_USB_GetDescriptor (wValue ?r) (ucast (wIndex ?r))) = None"
      using that n by blast+
    then show ?thesis
      by (auto simp: USB_Device_GetDescriptor_def Let_def USE_INTERNAL_SERIAL_def
          split: prod.splits option.splits)
  qed
  have set_conf: "USB_Device_SetConfiguration P s = Some s"
    if "bRequest ?r = 9" "bmRequestType ?r = 0"
  proof -
    have "\<not> ucast (wValue ?r) \<le> (1 :: u8)" using that n by blast
    then show ?thesis by (simp add: USB_Device_SetConfiguration_def FIXED_NUM_CONFIGURATIONS_def not_le)
  qed
  have feature: "USB_Device_ClearSetFeature P s = Some s"
    if "bRequest ?r = 1 \<or> bRequest ?r = 3" "bmRequestType ?r = 0 \<or> bmRequestType ?r = 2"
  proof -
    have "bmRequestType ?r = 0 \<and> ucast (wValue ?r) \<noteq> (1 :: u8) \<or>
      bmRequestType ?r = 2 \<and> ucast (wValue ?r) = (0 :: u8) \<and> ucast (wIndex ?r) AND 0x0F = (0 :: u8)"
      using that n by blast
    then show ?thesis by (elim disjE) (simp_all add: USB_Device_ClearSetFeature_def Let_def)
  qed
  show ?thesis
    unfolding standard_request_def Let_def
    using status address get_conf descriptor set_conf feature by auto
qed

lemma unanswered_refused:
  assumes P: "setup_packet P flag rest" and f: "flag (lhw s)" and rest: "rest (lhw s) = bs @ os"
    and 8: "length bs = 8" and no: "\<not> answered (request_of bs)"
  shows "\<exists>h. USB_Device_ProcessControlRequest P s =
    Some (Endpoint_ClearSETUP P (Endpoint_StallTransaction P
      (s\<lparr>USB_ControlRequest := request_of bs, lhw := h\<rparr>)))"
proof -
  obtain h1 where 1: "read_header P 8 s = (bs, s\<lparr>lhw := h1\<rparr>)" "flag h1"
    using setup_read [OF P f rest] 8 by auto
  let ?s = "s\<lparr>lhw := h1, USB_ControlRequest := request_of bs\<rparr>"
  obtain h2 where 2: "EVENT_USB_Device_ControlRequest P ?s = Some (?s\<lparr>lhw := h2\<rparr>)" "flag h2"
    using class_unanswered [OF P, of ?s] 1(2) no by (auto simp: EVENT_USB_Device_ControlRequest_def)
  obtain h3 where 3: "Endpoint_IsSETUPReceived P (?s\<lparr>lhw := h2\<rparr>) = (True, ?s\<lparr>lhw := h3\<rparr>)" "flag h3"
    using setup_test [OF P, of "?s\<lparr>lhw := h2\<rparr>"] 2(2) by auto
  have 4: "standard_request P (?s\<lparr>lhw := h3\<rparr>) = Some (?s\<lparr>lhw := h3\<rparr>)"
    using no by (intro standard_unanswered) simp
  obtain h5 where 5: "Endpoint_IsSETUPReceived P (?s\<lparr>lhw := h3\<rparr>) = (True, ?s\<lparr>lhw := h5\<rparr>)"
    using setup_test [OF P, of "?s\<lparr>lhw := h3\<rparr>"] 3(2) by auto
  from 1 2 3 4 5 show ?thesis
    by (intro exI [of _ h5]) (simp add: USB_Device_ProcessControlRequest_def)
qed

section \<open>Waking up without a configuration\<close>

text \<open>The state without the controller's, and operations that leave it as it is.\<close>

definition soft :: "'h lufa \<Rightarrow> 'h lufa" where
  "soft s = s\<lparr>lhw := undefined\<rparr>"

lemma soft_fields:
  assumes "soft t = soft s"
  shows "USB_Device_ConfigurationNumber t = USB_Device_ConfigurationNumber s"
    and "LineEncoding t = LineEncoding s" and "USB_DeviceState t = USB_DeviceState s"
  using arg_cong [OF assms, of USB_Device_ConfigurationNumber] arg_cong [OF assms, of LineEncoding]
    arg_cong [OF assms, of USB_DeviceState]
  by (simp_all add: soft_def)

lemma soft_reg [simp]:
  "soft (reg_put P r v s) = soft s" "soft (set_bits P r m s) = soft s" "soft (clear_bits P r m s) = soft s"
  "soft (snd (reg_get P r s)) = soft s" "soft (snd (reg_bit P r b s)) = soft s"
  by (simp_all add: soft_def reg_put_def set_bits_def clear_bits_def reg_bit_def reg_get_eq)

definition address_register :: "'h platform \<Rightarrow> ('h \<Rightarrow> u8) \<Rightarrow> bool" where
  "address_register P addr \<longleftrightarrow>
     (\<forall>h r. addr (snd (reg_in (controller P) r h)) = addr h) \<and>
     (\<forall>h. fst (reg_in (controller P) UDADDR h) = addr h) \<and>
     (\<forall>h r v. addr (reg_out (controller P) r v h) = (if r = UDADDR then v else addr h)) \<and>
     (\<forall>s. addr (lhw (turn P s)) = addr (lhw s) \<and> soft (turn P s) = soft s)"

lemma addr_reg:
  assumes "address_register P addr"
  shows "addr (lhw (reg_put P r v s)) = (if r = UDADDR then v else addr (lhw s))"
    and "r \<noteq> UDADDR \<Longrightarrow> addr (lhw (set_bits P r m s)) = addr (lhw s)"
    and "r \<noteq> UDADDR \<Longrightarrow> addr (lhw (clear_bits P r m s)) = addr (lhw s)"
    and "addr (lhw (snd (reg_bit P r b s))) = addr (lhw s)"
    and "fst (reg_bit P UDADDR b s) = bit (addr (lhw s)) b"
  using assms
  by (simp_all add: address_register_def reg_put_def set_bits_def clear_bits_def reg_bit_def reg_get_eq)

lemma wait_until_soft:
  assumes a: "address_register P addr"
    and ready: "\<And>s. soft (snd (ready s)) = soft s \<and> addr (lhw (snd (ready s))) = addr (lhw s)"
  shows "wait_until P ready leave n s = Some (ok, t) \<Longrightarrow> soft t = soft s \<and> addr (lhw t) = addr (lhw s)"
proof (induction n arbitrary: s)
  case (0 s)
  with ready [of s] show ?case
    by (subst (asm) wait_until.simps) (auto split: prod.splits if_splits)
next
  case (Suc n s)
  obtain k u where u: "ready s = (k, u)" by fastforce
  with ready [of s] have s: "soft u = soft s" "addr (lhw u) = addr (lhw s)" by simp_all
  have T: "soft (turn P u) = soft u" "addr (lhw (turn P u)) = addr (lhw u)"
    using a by (simp_all add: address_register_def)
  from Suc.prems u s T Suc.IH [of "turn P u"] show ?case
    by (subst (asm) wait_until.simps) (auto split: if_splits)
qed

lemma spin_soft:
  assumes a: "address_register P addr"
    and ready: "\<And>s. soft (snd (ready s)) = soft s \<and> addr (lhw (snd (ready s))) = addr (lhw s)"
    and "spin P ready s = Some t"
  shows "soft t = soft s \<and> addr (lhw t) = addr (lhw s)"
  using assms(3) wait_until_soft [OF a ready] by (auto simp: spin_def)

lemma status_soft:
  assumes a: "address_register P addr" and "Endpoint_ClearStatusStage P s = Some t"
  shows "soft t = soft s"
proof -
  have "soft (snd (Endpoint_IsOUTReceived P s)) = soft s \<and>
      addr (lhw (snd (Endpoint_IsOUTReceived P s))) = addr (lhw s)"
    "soft (snd (Endpoint_IsINReady P s)) = soft s \<and>
      addr (lhw (snd (Endpoint_IsINReady P s))) = addr (lhw s)" for s
    using addr_reg(4) [OF a] by (simp_all add: Endpoint_IsOUTReceived_def Endpoint_IsINReady_def)
  then have "wait_until P (Endpoint_IsOUTReceived P) leave n s = Some (ok, u) \<Longrightarrow> soft u = soft s"
    "wait_until P (Endpoint_IsINReady P) leave n s = Some (ok, u) \<Longrightarrow> soft u = soft s" for leave n ok u
    using wait_until_soft [OF a] by blast+
  with assms(2) show ?thesis
    by (auto simp: Endpoint_ClearStatusStage_def Let_def Endpoint_ClearOUT_def Endpoint_ClearIN_def
        split: if_splits option.splits)
qed

lemma configure_prv_soft: "soft (snd (Endpoint_ConfigureEndpoint_Prv P n a b s)) = soft s"
  by (simp add: Endpoint_ConfigureEndpoint_Prv_def Let_def Endpoint_IsConfigured_def
      Endpoint_EnableEndpoint_def Endpoint_SelectEndpoint_def)

lemma configure_soft: "configure_control P s = Some t \<Longrightarrow> soft t = soft s"
  unfolding configure_control_def Endpoint_ConfigureEndpoint_def
  using configure_prv_soft by (fastforce split: option.splits dest: arg_cong [where f = snd])

lemma soft_int [simp]:
  "soft (USB_INT_Enable P i s) = soft s" "soft (USB_INT_Disable P i s) = soft s" "soft (USB_INT_Clear P i s) = soft s"
  by (simp_all add: USB_INT_Enable_def USB_INT_Disable_def USB_INT_Clear_def split: prod.split)

lemma addr_int:
  assumes "address_register P addr"
  shows "addr (lhw (USB_INT_Enable P i s)) = addr (lhw s)" "addr (lhw (USB_INT_Disable P i s)) = addr (lhw s)"
    "addr (lhw (USB_INT_Clear P i s)) = addr (lhw s)"
  using addr_reg(2,3) [OF assms]
  by (cases i; simp add: USB_INT_Enable_def USB_INT_Disable_def USB_INT_Clear_def)+

lemma reset_fields:
  assumes "on_reset P s = Some t"
  shows "USB_Device_ConfigurationNumber t = 0" and "LineEncoding t = LineEncoding s"
    and "USB_DeviceState t = DEVICE_STATE_Default"
proof -
  let ?c = "USB_INT_Clear P USB_INT_EORSTI s"
  let ?s = "?c\<lparr>USB_DeviceState := DEVICE_STATE_Default, USB_Device_ConfigurationNumber := 0\<rparr>"
  have "soft t = soft ?s"
    using assms configure_soft by (fastforce simp: on_reset_def Let_def split: Option.bind_splits)
  moreover have "LineEncoding ?c = LineEncoding s" using soft_fields(2) [of ?c s] by simp
  ultimately show "USB_Device_ConfigurationNumber t = 0" "LineEncoding t = LineEncoding s"
    "USB_DeviceState t = DEVICE_STATE_Default"
    using soft_fields [of t ?s] by simp_all
qed

lemma set_address_fields:
  assumes a: "address_register P addr" and "USB_Device_SetAddress P s = Some t"
  shows "USB_Device_ConfigurationNumber t = USB_Device_ConfigurationNumber s"
    and "LineEncoding t = LineEncoding s" and "bit (addr (lhw t)) ADDEN"
    and "USB_DeviceState t \<noteq> DEVICE_STATE_Configured"
proof -
  let ?s = "s\<lparr>GlobalInt := GlobalInt s AND NOT (mask_bit 7)\<rparr>"
  let ?addr = "ucast (wValue (USB_ControlRequest s) AND 0x7F) :: u8"
  obtain u v where u: "Endpoint_ClearStatusStage P (Endpoint_ClearSETUP P ?s) = Some u"
      and v: "spin P (Endpoint_IsINReady P) u = Some v"
      and t: "t = (USB_Device_SetDeviceAddress P ?addr v)\<lparr>USB_DeviceState :=
          (if ?addr \<noteq> 0 then DEVICE_STATE_Addressed else DEVICE_STATE_Default), GlobalInt := GlobalInt s\<rparr>"
    using assms(2) by (auto simp: USB_Device_SetAddress_def Let_def split: Option.bind_splits)
  have ready: "soft (snd (Endpoint_IsINReady P x)) = soft x \<and>
      addr (lhw (snd (Endpoint_IsINReady P x))) = addr (lhw x)" for x
    using addr_reg(4) [OF a] by (simp add: Endpoint_IsINReady_def)
  have "soft u = soft ?s" using status_soft [OF a u] by (simp add: Endpoint_ClearSETUP_def)
  then have "soft v = soft ?s" using spin_soft [OF a ready v] by simp
  then have w: "soft (USB_Device_SetDeviceAddress P ?addr v) = soft ?s"
    by (simp add: USB_Device_SetDeviceAddress_def Let_def soft_def reg_get_eq reg_put_def)
  show "USB_Device_ConfigurationNumber t = USB_Device_ConfigurationNumber s" "LineEncoding t = LineEncoding s"
    using soft_fields [OF w] t by simp_all
  show "bit (addr (lhw t)) ADDEN"
    using addr_reg(1) [OF a] t
    by (simp add: USB_Device_SetDeviceAddress_def Let_def bit_simps split: prod.split)
  show "USB_DeviceState t \<noteq> DEVICE_STATE_Configured" using t by simp
qed

lemma wakeup_fields:
  assumes a: "address_register P addr" and "bit (addr (lhw s)) ADDEN"
    and "on_wakeup P (on_suspend P s) = Some t"
  shows "USB_Device_ConfigurationNumber t = USB_Device_ConfigurationNumber s"
    and "LineEncoding t = LineEncoding s" and "USB_DeviceState t = DEVICE_STATE_Configured"
proof -
  let ?s = "s\<lparr>USB_DeviceState := DEVICE_STATE_Suspended\<rparr>"
  have s1: "soft (on_suspend P s) = soft ?s" "addr (lhw (on_suspend P s)) = addr (lhw s)"
    using addr_reg [OF a] addr_int [OF a]
    by (simp_all add: on_suspend_def Let_def USB_PLL_Off_def USB_CLK_Freeze_def)
      (simp add: soft_def USB_INT_Enable_def USB_INT_Disable_def set_bits_def clear_bits_def reg_get_eq reg_put_def)
  obtain u where u: "spin P (USB_PLL_IsReady P) (USB_PLL_On P (on_suspend P s)) = Some u"
    and t: "t = configured_state P (USB_INT_Enable P USB_INT_SUSPI (USB_INT_Disable P USB_INT_WAKEUPI
        (USB_INT_Clear P USB_INT_WAKEUPI (USB_CLK_Unfreeze P u))))"
    using assms(3) by (auto simp: on_wakeup_def Let_def split: Option.bind_splits)
  have ready: "soft (snd (USB_PLL_IsReady P x)) = soft x \<and>
      addr (lhw (snd (USB_PLL_IsReady P x))) = addr (lhw x)" for x
    using addr_reg(4) [OF a] by (simp add: USB_PLL_IsReady_def)
  have "soft u = soft ?s \<and> addr (lhw u) = addr (lhw s)"
    using spin_soft [OF a ready u] s1 addr_reg(1) [OF a] by (simp add: USB_PLL_On_def)
  moreover define v where "v = USB_INT_Enable P USB_INT_SUSPI (USB_INT_Disable P USB_INT_WAKEUPI
        (USB_INT_Clear P USB_INT_WAKEUPI (USB_CLK_Unfreeze P u)))"
  ultimately have v: "soft v = soft ?s" "addr (lhw v) = addr (lhw s)"
    using addr_reg [OF a] addr_int [OF a] by (simp_all add: USB_CLK_Unfreeze_def)
  have w: "soft (snd (USB_Device_IsAddressSet P v)) = soft ?s" "fst (USB_Device_IsAddressSet P v)"
    using v assms(2) addr_reg(5) [OF a] by (simp_all add: USB_Device_IsAddressSet_def)
  obtain z where z: "USB_Device_IsAddressSet P v = (True, z)" "soft z = soft ?s"
    using w by (cases "USB_Device_IsAddressSet P v") auto
  show "USB_Device_ConfigurationNumber t = USB_Device_ConfigurationNumber s"
    "LineEncoding t = LineEncoding s" "USB_DeviceState t = DEVICE_STATE_Configured"
    using soft_fields [OF v(1)] soft_fields [OF z(2)]
    by (simp_all add: t v_def [symmetric] configured_state_def z(1))
qed

end
