(* ===== verification/LufaStreams.thy ===== *)
theory LufaStreams
  imports LufaLemmas
begin

text \<open>
  The endpoint functions and streams of the LUFA library that the serial link does not call:
  the rest of \<open>Endpoint_AVR8.h\<close> and \<open>Endpoint_AVR8.c\<close>, and the streams made from
  \<open>Template_Endpoint_RW.c\<close> and \<open>Template_Endpoint_Control_R.c\<close> in both byte orders, with the
  number of bytes done in earlier calls. The memory a stream works on (RAM, flash or EEPROM) is
  a list of bytes. The lemmas relate them to the streams the link uses.
\<close>

section \<open>Endpoint functions\<close>

definition Endpoint_GetBusyBanks :: "'h platform \<Rightarrow> 'h lufa \<Rightarrow> u8 \<times> 'h lufa" where
  "Endpoint_GetBusyBanks P s = (case reg_get P UESTA0X s of (v, s) \<Rightarrow> (v AND 0x03, s))"

text \<open>Each round of the outer loop has one turn of the controller.\<close>

fun abort_banks :: "'h platform \<Rightarrow> nat \<Rightarrow> 'h lufa \<Rightarrow> 'h lufa option" where
  "abort_banks P n s =
     (case Endpoint_GetBusyBanks P s of (busy, s) \<Rightarrow>
        if busy = 0 then Some s
        else (case spin P (\<lambda>s. case reg_bit P UEINTX RXOUTI s of (b, s) \<Rightarrow> (\<not> b, s))
                    (set_bits P UEINTX (mask_bit RXOUTI) s) of
            None \<Rightarrow> None
          | Some s \<Rightarrow> (case n of 0 \<Rightarrow> None | Suc n \<Rightarrow> abort_banks P n (turn P s))))"

declare abort_banks.simps [simp del]

definition Endpoint_AbortPendingIN :: "'h platform \<Rightarrow> 'h lufa \<Rightarrow> 'h lufa option" where
  "Endpoint_AbortPendingIN P s = abort_banks P (patience P) s"

definition Endpoint_GetEndpointInterrupts :: "'h platform \<Rightarrow> 'h lufa \<Rightarrow> u8 \<times> 'h lufa" where
  "Endpoint_GetEndpointInterrupts P = reg_get P UEINT"

definition Endpoint_HasEndpointInterrupted :: "'h platform \<Rightarrow> u8 \<Rightarrow> 'h lufa \<Rightarrow> bool \<times> 'h lufa" where
  "Endpoint_HasEndpointInterrupted P EndpointNumber s =
     (case Endpoint_GetEndpointInterrupts P s of (v, s) \<Rightarrow> (bit v (unat EndpointNumber), s))"

definition Endpoint_SetEndpointDirection :: "'h platform \<Rightarrow> u8 \<Rightarrow> 'h lufa \<Rightarrow> 'h lufa" where
  "Endpoint_SetEndpointDirection P DirectionMask s =
     (case reg_get P UECFG0X s of (v, s) \<Rightarrow>
        reg_put P UECFG0X ((v AND NOT (mask_bit EPDIR)) OR
          (if DirectionMask \<noteq> 0 then mask_bit EPDIR else 0)) s)"

definition Endpoint_Discard_8 :: "'h platform \<Rightarrow> 'h lufa \<Rightarrow> 'h lufa" where
  "Endpoint_Discard_8 P s = snd (reg_get P UEDATX s)"

definition Endpoint_Discard_16 :: "'h platform \<Rightarrow> 'h lufa \<Rightarrow> 'h lufa" where
  "Endpoint_Discard_16 P s = snd (reg_get P UEDATX (snd (reg_get P UEDATX s)))"

definition Endpoint_Discard_32 :: "'h platform \<Rightarrow> 'h lufa \<Rightarrow> 'h lufa" where
  "Endpoint_Discard_32 P s =
     snd (reg_get P UEDATX (snd (reg_get P UEDATX (snd (reg_get P UEDATX (snd (reg_get P UEDATX s)))))))"

definition Endpoint_Read_16_LE :: "'h platform \<Rightarrow> 'h lufa \<Rightarrow> u16 \<times> 'h lufa" where
  "Endpoint_Read_16_LE P s =
     (case reg_get P UEDATX s of (a, s) \<Rightarrow> case reg_get P UEDATX s of (b, s) \<Rightarrow>
        (ucast a OR push_bit 8 (ucast b), s))"

definition Endpoint_Read_16_BE :: "'h platform \<Rightarrow> 'h lufa \<Rightarrow> u16 \<times> 'h lufa" where
  "Endpoint_Read_16_BE P s =
     (case reg_get P UEDATX s of (a, s) \<Rightarrow> case reg_get P UEDATX s of (b, s) \<Rightarrow>
        (ucast b OR push_bit 8 (ucast a), s))"

definition Endpoint_Write_16_BE :: "'h platform \<Rightarrow> u16 \<Rightarrow> 'h lufa \<Rightarrow> 'h lufa" where
  "Endpoint_Write_16_BE P v s =
     reg_put P UEDATX (ucast (v AND 0xFF)) (reg_put P UEDATX (ucast (drop_bit 8 v)) s)"

definition Endpoint_Read_32_BE :: "'h platform \<Rightarrow> 'h lufa \<Rightarrow> u32 \<times> 'h lufa" where
  "Endpoint_Read_32_BE P s =
     (case reg_get P UEDATX s of (a, s) \<Rightarrow> case reg_get P UEDATX s of (b, s) \<Rightarrow>
      case reg_get P UEDATX s of (c, s) \<Rightarrow> case reg_get P UEDATX s of (d, s) \<Rightarrow>
        (ucast d OR push_bit 8 (ucast c) OR push_bit 16 (ucast b) OR push_bit 24 (ucast a), s))"

definition Endpoint_Write_32_BE :: "'h platform \<Rightarrow> u32 \<Rightarrow> 'h lufa \<Rightarrow> 'h lufa" where
  "Endpoint_Write_32_BE P v s =
     (let s = reg_put P UEDATX (ucast (drop_bit 24 v)) s;
          s = reg_put P UEDATX (ucast (drop_bit 16 v)) s;
          s = reg_put P UEDATX (ucast (drop_bit 8 v)) s
      in reg_put P UEDATX (ucast (v AND 0xFF)) s)"

definition clear_endpoint :: "'h platform \<Rightarrow> u8 \<Rightarrow> 'h lufa \<Rightarrow> 'h lufa" where
  "clear_endpoint P EPNum s =
     (let s = Endpoint_SelectEndpoint P EPNum s;
          s = reg_put P UEIENX 0 s;
          s = reg_put P UEINTX 0 s;
          s = reg_put P UECFG1X 0 s
      in Endpoint_DisableEndpoint P s)"

definition Endpoint_ClearEndpoints :: "'h platform \<Rightarrow> 'h lufa \<Rightarrow> 'h lufa" where
  "Endpoint_ClearEndpoints P s =
     fold (clear_endpoint P) (map of_nat [0..<unat ENDPOINT_TOTAL_ENDPOINTS]) (reg_put P UEINT 0 s)"

section \<open>Streams\<close>

abbreviation (input) "ENDPOINT_RWSTREAM_IncompleteTransfer \<equiv> 5 :: u8"

text \<open>
  The body of \<open>Template_Endpoint_RW.c\<close>. \<open>clear\<close> is its \<open>TEMPLATE_CLEAR_ENDPOINT\<close>, and
  \<open>transfer i buf\<close> its \<open>TEMPLATE_TRANSFER_BYTE\<close> for the byte that is the \<open>i\<close>th in the order of the
  stream. \<open>partial\<close> says that \<open>BytesProcessed\<close> is not NULL; \<open>k\<close> is \<open>BytesInTransfer\<close>.
\<close>

fun stream_loop ::
    "'h platform \<Rightarrow> ('h lufa \<Rightarrow> 'h lufa) \<Rightarrow> (nat \<Rightarrow> bytes \<Rightarrow> 'h lufa \<Rightarrow> bytes \<times> 'h lufa) \<Rightarrow> bool \<Rightarrow>
     nat \<Rightarrow> nat \<Rightarrow> nat \<Rightarrow> u16 \<Rightarrow> bytes \<Rightarrow> 'h lufa \<Rightarrow> (u8 \<times> u16 \<times> bytes \<times> 'h lufa) option"
where
  "stream_loop P clear transfer partial n 0 i k buf s = Some (ENDPOINT_RWSTREAM_NoError, k, buf, s)"
| "stream_loop P clear transfer partial n (Suc Length) i k buf s =
     (case Endpoint_IsReadWriteAllowed P s of (ok, s) \<Rightarrow>
        if ok then (case transfer i buf s of (buf, s) \<Rightarrow>
          stream_loop P clear transfer partial (patience P) Length (Suc i) (k + 1) buf s)
        else (let s = clear s in
          if partial then Some (ENDPOINT_RWSTREAM_IncompleteTransfer, k, buf, s)
          else (case Endpoint_WaitUntilReady P s of None \<Rightarrow> None
            | Some (e, s) \<Rightarrow>
                if e \<noteq> 0 then Some (e, k, buf, s)
                else (case n of 0 \<Rightarrow> None
                  | Suc n \<Rightarrow> stream_loop P clear transfer partial n (Suc Length) i k buf s))))"

text \<open>The result has the code, \<open>*BytesProcessed\<close> and the memory after the call.\<close>

definition endpoint_stream ::
    "'h platform \<Rightarrow> ('h lufa \<Rightarrow> 'h lufa) \<Rightarrow> (nat \<Rightarrow> bytes \<Rightarrow> 'h lufa \<Rightarrow> bytes \<times> 'h lufa) \<Rightarrow>
     bytes \<Rightarrow> u16 \<Rightarrow> u16 option \<Rightarrow> 'h lufa \<Rightarrow> (u8 \<times> u16 option \<times> bytes \<times> 'h lufa) option"
where
  "endpoint_stream P clear transfer buf Length BytesProcessed s =
     (case Endpoint_WaitUntilReady P s of None \<Rightarrow> None
      | Some (e, s) \<Rightarrow>
          if e \<noteq> 0 then Some (e, BytesProcessed, buf, s)
          else (let done = (case BytesProcessed of None \<Rightarrow> 0 | Some k \<Rightarrow> k) in
            case stream_loop P clear transfer (BytesProcessed \<noteq> None) (patience P)
                   (unat (Length - done)) (unat done) 0 buf s of
              None \<Rightarrow> None
            | Some (e, k, buf, s) \<Rightarrow>
                Some (e, if e = ENDPOINT_RWSTREAM_IncompleteTransfer then map_option (\<lambda>d. d + k) BytesProcessed
                         else BytesProcessed, buf, s)))"

text \<open>In memory order, or from the last byte of the buffer downwards.\<close>

definition index_LE :: "u16 \<Rightarrow> nat \<Rightarrow> nat" where
  "index_LE Length i = i"

definition index_BE :: "u16 \<Rightarrow> nat \<Rightarrow> nat" where
  "index_BE Length i = unat Length - 1 - i"

definition put_byte :: "'h platform \<Rightarrow> (nat \<Rightarrow> nat) \<Rightarrow> nat \<Rightarrow> bytes \<Rightarrow> 'h lufa \<Rightarrow> bytes \<times> 'h lufa" where
  "put_byte P ix i buf s = (buf, Endpoint_Write_8 P (buf ! ix i) s)"

definition get_byte :: "'h platform \<Rightarrow> (nat \<Rightarrow> nat) \<Rightarrow> nat \<Rightarrow> bytes \<Rightarrow> 'h lufa \<Rightarrow> bytes \<times> 'h lufa" where
  "get_byte P ix i buf s = (case Endpoint_Read_8 P s of (b, s) \<Rightarrow> (buf[ix i := b], s))"

definition Write_Stream_LE_from ::
    "'h platform \<Rightarrow> bytes \<Rightarrow> u16 \<Rightarrow> u16 option \<Rightarrow> 'h lufa \<Rightarrow> (u8 \<times> u16 option \<times> bytes \<times> 'h lufa) option"
where
  "Write_Stream_LE_from P Buffer Length BytesProcessed =
     endpoint_stream P (Endpoint_ClearIN P) (put_byte P (index_LE Length)) Buffer Length BytesProcessed"

definition Endpoint_Write_Stream_BE ::
    "'h platform \<Rightarrow> bytes \<Rightarrow> u16 \<Rightarrow> u16 option \<Rightarrow> 'h lufa \<Rightarrow> (u8 \<times> u16 option \<times> bytes \<times> 'h lufa) option"
where
  "Endpoint_Write_Stream_BE P Buffer Length BytesProcessed =
     endpoint_stream P (Endpoint_ClearIN P) (put_byte P (index_BE Length)) Buffer Length BytesProcessed"

definition Endpoint_Read_Stream_LE ::
    "'h platform \<Rightarrow> bytes \<Rightarrow> u16 \<Rightarrow> u16 option \<Rightarrow> 'h lufa \<Rightarrow> (u8 \<times> u16 option \<times> bytes \<times> 'h lufa) option"
where
  "Endpoint_Read_Stream_LE P Buffer Length BytesProcessed =
     endpoint_stream P (Endpoint_ClearOUT P) (get_byte P (index_LE Length)) Buffer Length BytesProcessed"

definition Endpoint_Read_Stream_BE ::
    "'h platform \<Rightarrow> bytes \<Rightarrow> u16 \<Rightarrow> u16 option \<Rightarrow> 'h lufa \<Rightarrow> (u8 \<times> u16 option \<times> bytes \<times> 'h lufa) option"
where
  "Endpoint_Read_Stream_BE P Buffer Length BytesProcessed =
     endpoint_stream P (Endpoint_ClearOUT P) (get_byte P (index_BE Length)) Buffer Length BytesProcessed"

text \<open>\<open>Endpoint_Discard_Stream\<close> and \<open>Endpoint_Null_Stream\<close> have the same loop and no memory.\<close>

definition Endpoint_Discard_Stream ::
    "'h platform \<Rightarrow> u16 \<Rightarrow> u16 option \<Rightarrow> 'h lufa \<Rightarrow> (u8 \<times> u16 option \<times> 'h lufa) option"
where
  "Endpoint_Discard_Stream P Length BytesProcessed s =
     map_option (\<lambda>(e, d, buf, s). (e, d, s))
       (endpoint_stream P (Endpoint_ClearOUT P) (\<lambda>i buf s. (buf, Endpoint_Discard_8 P s)) [] Length BytesProcessed s)"

definition Endpoint_Null_Stream ::
    "'h platform \<Rightarrow> u16 \<Rightarrow> u16 option \<Rightarrow> 'h lufa \<Rightarrow> (u8 \<times> u16 option \<times> 'h lufa) option"
where
  "Endpoint_Null_Stream P Length BytesProcessed s =
     map_option (\<lambda>(e, d, buf, s). (e, d, s))
       (endpoint_stream P (Endpoint_ClearIN P) (\<lambda>i buf s. (buf, Endpoint_Write_8 P 0 s)) [] Length BytesProcessed s)"

text \<open>
  The control streams that write: the big-endian one starts at the last byte of the buffer and
  goes down, whatever the host asked for.
\<close>

definition Endpoint_Write_Control_Stream_BE :: "'h platform \<Rightarrow> bytes \<Rightarrow> u16 \<Rightarrow> 'h lufa \<Rightarrow> (u8 \<times> 'h lufa) option"
where
  "Endpoint_Write_Control_Stream_BE P Buffer Length s =
     Endpoint_Write_Control_PStream_LE P (rev (take (unat Length) Buffer)) Length s"

text \<open>\<open>Template_Endpoint_Control_R.c\<close>: one bank, the packets, and the status stage.\<close>

fun read_bank ::
    "'h platform \<Rightarrow> (nat \<Rightarrow> nat) \<Rightarrow> nat \<Rightarrow> nat \<Rightarrow> bytes \<Rightarrow> 'h lufa \<Rightarrow> nat \<times> nat \<times> bytes \<times> 'h lufa"
where
  "read_bank P ix 0 i buf s = (0, i, buf, s)"
| "read_bank P ix (Suc Length) i buf s =
     (case Endpoint_BytesInEndpoint P s of (n, s) \<Rightarrow>
        if n = 0 then (Suc Length, i, buf, s)
        else (case get_byte P ix i buf s of (buf, s) \<Rightarrow> read_bank P ix Length (Suc i) buf s))"

fun control_read ::
    "'h platform \<Rightarrow> (nat \<Rightarrow> nat) \<Rightarrow> nat \<Rightarrow> nat \<Rightarrow> nat \<Rightarrow> bytes \<Rightarrow> 'h lufa \<Rightarrow> (u8 option \<times> bytes \<times> 'h lufa) option"
where
  "control_read P ix n Length i buf s =
     (if Length = 0 then Some (None, buf, s)
      else if USB_DeviceState s = DEVICE_STATE_Unattached then
        Some (Some ENDPOINT_RWCSTREAM_DeviceDisconnected, buf, s)
      else if USB_DeviceState s = DEVICE_STATE_Suspended then
        Some (Some ENDPOINT_RWCSTREAM_BusSuspended, buf, s)
      else (case Endpoint_IsSETUPReceived P s of (setup_packet, s) \<Rightarrow>
        if setup_packet then Some (Some ENDPOINT_RWCSTREAM_HostAborted, buf, s)
        else (case Endpoint_IsOUTReceived P s of (received, s) \<Rightarrow>
          case (if received then
                  (case read_bank P ix Length i buf s of (Length, i, buf, s) \<Rightarrow>
                     (Length, i, buf, Endpoint_ClearOUT P s))
                else (Length, i, buf, s)) of (Length, i, buf, s) \<Rightarrow>
          (case n of 0 \<Rightarrow> None | Suc n \<Rightarrow> control_read P ix n Length i buf (turn P s)))))"

declare control_read.simps [simp del]

definition control_read_status :: "'h platform \<Rightarrow> 'h lufa \<Rightarrow> (u8 \<times> 'h lufa) option" where
  "control_read_status P s =
     (case wait_until P (Endpoint_IsINReady P)
             (\<lambda>s. USB_DeviceState s \<in> {DEVICE_STATE_Unattached, DEVICE_STATE_Suspended})
             (patience P) s of
        None \<Rightarrow> None
      | Some (ok, s) \<Rightarrow>
          Some (if ok then ENDPOINT_RWCSTREAM_NoError
                else if USB_DeviceState s = DEVICE_STATE_Unattached
                then ENDPOINT_RWCSTREAM_DeviceDisconnected else ENDPOINT_RWCSTREAM_BusSuspended, s))"

definition control_read_stream ::
    "'h platform \<Rightarrow> (nat \<Rightarrow> nat) \<Rightarrow> bytes \<Rightarrow> u16 \<Rightarrow> 'h lufa \<Rightarrow> (u8 \<times> bytes \<times> 'h lufa) option"
where
  "control_read_stream P ix Buffer Length s =
     (case control_read P ix (patience P) (unat Length) 0 Buffer
             (if Length = 0 then Endpoint_ClearOUT P s else s) of
        None \<Rightarrow> None
      | Some (Some code, buf, s) \<Rightarrow> Some (code, buf, s)
      | Some (None, buf, s) \<Rightarrow> map_option (\<lambda>(e, s). (e, buf, s)) (control_read_status P s))"

definition Endpoint_Read_Control_Stream_LE ::
    "'h platform \<Rightarrow> bytes \<Rightarrow> u16 \<Rightarrow> 'h lufa \<Rightarrow> (u8 \<times> bytes \<times> 'h lufa) option"
where
  "Endpoint_Read_Control_Stream_LE P Buffer Length = control_read_stream P (index_LE Length) Buffer Length"

definition Endpoint_Read_Control_Stream_BE ::
    "'h platform \<Rightarrow> bytes \<Rightarrow> u16 \<Rightarrow> 'h lufa \<Rightarrow> (u8 \<times> bytes \<times> 'h lufa) option"
where
  "Endpoint_Read_Control_Stream_BE P Buffer Length = control_read_stream P (index_BE Length) Buffer Length"

section \<open>Writing\<close>

text \<open>Without a counter the stream in memory order is the one the link uses.\<close>

lemma stream_loop_write:
  assumes "\<And>j. j < m \<Longrightarrow> buf ! ix (i + j) = bs ! j" and "length bs = m"
  shows "map_option (\<lambda>(e, k, buf, s). (e, buf, s))
      (stream_loop P (Endpoint_ClearIN P) (put_byte P ix) False n m i k buf s) =
    map_option (\<lambda>(e, s). (e, buf, s)) (write_stream P n bs s)"
  using assms
proof (induction m arbitrary: n i k bs s)
  case 0
  then show ?case by simp
next
  case (Suc m)
  obtain b bs' where bs: "bs = b # bs'" using Suc.prems(2) by (cases bs) auto
  have b: "buf ! ix i = b" and rest: "\<And>j. j < m \<Longrightarrow> buf ! ix (Suc i + j) = bs' ! j" "length bs' = m"
    using Suc.prems(1) [of 0] Suc.prems(1) [of "Suc j" for j] Suc.prems(2) bs by simp_all
  note IH = Suc.IH [OF rest]
  show ?case
  proof (induction n arbitrary: s)
    case 0
    show ?case using IH by (simp add: bs b put_byte_def Let_def split: prod.split option.split)
  next
    case (Suc n)
    show ?case using IH Suc.IH by (auto simp: bs b put_byte_def Let_def split: prod.split option.split)
  qed
qed

lemma endpoint_stream_write:
  assumes "\<And>j. j < unat m \<Longrightarrow> buf ! ix j = bs ! j" and "length bs = unat m"
  shows "endpoint_stream P (Endpoint_ClearIN P) (put_byte P ix) buf m None s =
    map_option (\<lambda>(e, s). (e, None, buf, s)) (Endpoint_Write_Stream_LE P bs s)"
proof -
  have loop: "map_option (\<lambda>(e, k, buf, s). (e, buf, s))
      (stream_loop P (Endpoint_ClearIN P) (put_byte P ix) False (patience P) (unat m) 0 0 buf s) =
    map_option (\<lambda>(e, s). (e, buf, s)) (write_stream P (patience P) bs s)" for s
    by (rule stream_loop_write) (use assms in simp_all)
  show ?thesis
  proof (cases "Endpoint_WaitUntilReady P s")
    case None
    then show ?thesis by (simp add: endpoint_stream_def Endpoint_Write_Stream_LE_def)
  next
    case (Some r)
    obtain e u where r: "r = (e, u)" by fastforce
    show ?thesis
    proof (cases "write_stream P (patience P) bs u")
      case None
      then show ?thesis
        using loop [of u] Some r by (simp add: endpoint_stream_def Endpoint_Write_Stream_LE_def)
    next
      case w: (Some q)
      obtain e' t where q: "q = (e', t)" by fastforce
      obtain k where "stream_loop P (Endpoint_ClearIN P) (put_byte P ix) False (patience P) (unat m) 0 0 buf u =
          Some (e', k, buf, t)"
        using loop [of u] w q by auto
      then show ?thesis
        using Some r w q by (simp add: endpoint_stream_def Endpoint_Write_Stream_LE_def)
    qed
  qed
qed

lemma Write_Stream_LE_null:
  assumes "unat m \<le> length buf"
  shows "Write_Stream_LE_from P buf m None s =
    map_option (\<lambda>(e, s). (e, None, buf, s)) (Endpoint_Write_Stream_LE P (take (unat m) buf) s)"
  unfolding Write_Stream_LE_from_def by (rule endpoint_stream_write) (use assms in \<open>simp_all add: index_LE_def\<close>)

lemma Write_Stream_BE_null:
  assumes "unat m \<le> length buf"
  shows "Endpoint_Write_Stream_BE P buf m None s =
    map_option (\<lambda>(e, s). (e, None, buf, s)) (Endpoint_Write_Stream_LE P (rev (take (unat m) buf)) s)"
  unfolding Endpoint_Write_Stream_BE_def
  by (rule endpoint_stream_write) (use assms in \<open>simp_all add: index_BE_def rev_nth\<close>)

section \<open>Reading\<close>

text \<open>
  An OUT endpoint that can be read as a stream: reading and writing is allowed as long as
  there is a byte in its first packet, and it says that it is an OUT endpoint.
\<close>

definition out_stream :: "'h platform \<Rightarrow> u8 \<Rightarrow> ('h \<Rightarrow> u8) \<Rightarrow> ('h \<Rightarrow> bytes list) \<Rightarrow> bool" where
  "out_stream P n sel pend \<longleftrightarrow> out_endpoint P n sel pend \<and>
     (\<forall>h. sel h = n \<longrightarrow> bit (fst (reg_in (controller P) UEINTX h)) RWAL = (pend h \<noteq> [] \<and> hd (pend h) \<noteq> [])) \<and>
     (\<forall>h r. sel h = n \<longrightarrow> r \<in> {UDFNUML, UDFNUMH, UECFG0X} \<longrightarrow>
        sel (snd (reg_in (controller P) r h)) = n \<and> pend (snd (reg_in (controller P) r h)) = pend h) \<and>
     (\<forall>h. sel h = n \<longrightarrow> \<not> bit (fst (reg_in (controller P) UECFG0X h)) EPDIR) \<and>
     (\<forall>h v. sel h = n \<longrightarrow> sel (reg_out (controller P) UEINTX v h) = n)"

lemma out_streamD:
  assumes "out_stream P n sel pend"
  shows "out_endpoint P n sel pend"
    and "sel h = n \<Longrightarrow> bit (fst (reg_in (controller P) UEINTX h)) RWAL = (pend h \<noteq> [] \<and> hd (pend h) \<noteq> [])"
    and "sel h = n \<Longrightarrow> r \<in> {UDFNUML, UDFNUMH, UECFG0X} \<Longrightarrow> sel (snd (reg_in (controller P) r h)) = n"
    and "sel h = n \<Longrightarrow> r \<in> {UDFNUML, UDFNUMH, UECFG0X} \<Longrightarrow> pend (snd (reg_in (controller P) r h)) = pend h"
    and "sel h = n \<Longrightarrow> \<not> bit (fst (reg_in (controller P) UECFG0X h)) EPDIR"
    and "sel h = n \<Longrightarrow> sel (reg_out (controller P) UEINTX v h) = n"
  using assms unfolding out_stream_def by blast+

lemma out_endpoint_flags:
  assumes "out_endpoint P n sel pend" and "sel h = n"
  shows "sel (snd (reg_in (controller P) UEINTX h)) = n"
    and "pend (snd (reg_in (controller P) UEINTX h)) = pend h"
    and "bit (fst (reg_in (controller P) UEINTX h)) RXOUTI = (pend h \<noteq> [])"
    and "\<not> bit v RXOUTI \<Longrightarrow> \<not> bit v FIFOCON \<Longrightarrow> pend (reg_out (controller P) UEINTX v h) = tl (pend h)"
  using assms unfolding out_endpoint_def by simp_all

lemma out_stream_allowed:
  assumes st: "out_stream P n sel pend" and "sel (lhw s) = n"
  shows "\<exists>h. Endpoint_IsReadWriteAllowed P s = (pend (lhw s) \<noteq> [] \<and> hd (pend (lhw s)) \<noteq> [], s\<lparr>lhw := h\<rparr>) \<and>
    sel h = n \<and> pend h = pend (lhw s)"
  using out_endpoint_flags(1,2) [OF out_streamD(1) [OF st] assms(2)] out_streamD(2) [OF st assms(2)]
  by (simp add: Endpoint_IsReadWriteAllowed_def reg_bit_def reg_get_eq)

lemma out_stream_clear:
  assumes st: "out_stream P n sel pend" and "sel (lhw s) = n"
  shows "\<exists>h. Endpoint_ClearOUT P s = s\<lparr>lhw := h\<rparr> \<and> sel h = n \<and> pend h = tl (pend (lhw s))"
proof -
  let ?i = "reg_in (controller P) UEINTX (lhw s)"
  let ?h = "reg_out (controller P) UEINTX (fst ?i AND NOT (mask_bit RXOUTI OR mask_bit FIFOCON)) (snd ?i)"
  note ep = out_streamD(1) [OF st]
  note i = out_endpoint_flags(1,2) [OF ep assms(2)]
  have "pend ?h = tl (pend (lhw s))"
    using out_endpoint_flags(4) [OF ep i(1)] acknowledged(1,2) i(2) by simp
  moreover have "sel ?h = n" using out_streamD(6) [OF st i(1)] .
  moreover have "Endpoint_ClearOUT P s = s\<lparr>lhw := ?h\<rparr>"
    by (simp add: Endpoint_ClearOUT_def clear_bits_def reg_get_eq reg_put_def)
  ultimately show ?thesis by blast
qed

lemma out_stream_look:
  assumes st: "out_stream P n sel pend" and "sel (lhw s) = n" and "pend (lhw s) \<noteq> []"
  shows "\<exists>h. look_ready P s = (Some 0, s\<lparr>lhw := h\<rparr>) \<and> sel h = n \<and> pend h = pend (lhw s)"
proof -
  let ?h = "snd (reg_in (controller P) UECFG0X (lhw s))"
  have dir: "Endpoint_GetEndpointDirection P s = (ENDPOINT_DIR_OUT, s\<lparr>lhw := ?h\<rparr>)"
    using out_streamD(5) [OF st assms(2)] by (simp add: Endpoint_GetEndpointDirection_def reg_get_eq)
  have h: "sel ?h = n" "pend ?h = pend (lhw s)" using out_streamD(3,4) [OF st assms(2)] by simp_all
  obtain h' where "Endpoint_IsOUTReceived P (s\<lparr>lhw := ?h\<rparr>) = (True, s\<lparr>lhw := h'\<rparr>)" "sel h' = n" "pend h' = pend (lhw s)"
    using rx_received [OF out_streamD(1) [OF st], of "s\<lparr>lhw := ?h\<rparr>"] h assms(3) by auto
  then show ?thesis by (simp add: look_ready_def dir)
qed

lemma out_stream_wait:
  assumes st: "out_stream P n sel pend" and "sel (lhw s) = n" and "pend (lhw s) \<noteq> []"
  shows "\<exists>h. Endpoint_WaitUntilReady P s = Some (0, s\<lparr>lhw := h\<rparr>) \<and> sel h = n \<and> pend h = pend (lhw s)"
proof -
  let ?h1 = "snd (reg_in (controller P) UDFNUML (lhw s))"
  let ?h = "snd (reg_in (controller P) UDFNUMH ?h1)"
  have h1: "sel ?h1 = n" "pend ?h1 = pend (lhw s)" using out_streamD(3,4) [OF st assms(2)] by simp_all
  have h: "sel ?h = n" "pend ?h = pend (lhw s)" using out_streamD(3,4) [OF st h1(1)] h1(2) by simp_all
  obtain f where f: "USB_Device_GetFrameNumber P s = (f, s\<lparr>lhw := ?h\<rparr>)"
    by (simp add: USB_Device_GetFrameNumber_def reg_get_eq)
  obtain h' where "look_ready P (s\<lparr>lhw := ?h\<rparr>) = (Some 0, s\<lparr>lhw := h'\<rparr>)" "sel h' = n" "pend h' = pend (lhw s)"
    using out_stream_look [OF st, of "s\<lparr>lhw := ?h\<rparr>"] h assms(3) by auto
  then show ?thesis
    by (simp add: Endpoint_WaitUntilReady_def f) (subst wait_ready.simps, simp)
qed

text \<open>
  A stream that asks for no more than has arrived gets exactly that, across the packets and in
  order; what it has not asked for stays.
\<close>

lemma stream_loop_read:
  assumes st: "out_stream P c sel pend"
  shows "sel (lhw s) = c \<Longrightarrow> m \<le> length (concat (pend (lhw s))) \<Longrightarrow> length (pend (lhw s)) \<le> Suc n \<Longrightarrow>
    length (pend (lhw s)) \<le> Suc (patience P) \<Longrightarrow> i + m \<le> length buf \<Longrightarrow>
    \<exists>h k'. stream_loop P (Endpoint_ClearOUT P) (get_byte P (\<lambda>i. i)) False n m i k buf s =
      Some (0, k', take i buf @ take m (concat (pend (lhw s))) @ drop (i + m) buf, s\<lparr>lhw := h\<rparr>) \<and>
    sel h = c \<and> concat (pend h) = drop m (concat (pend (lhw s)))"
proof (induction m arbitrary: n i k buf s)
  case 0
  then show ?case by (intro exI [of _ "lhw s"]) simp
next
  case (Suc m)
  have step: "\<exists>h k'. stream_loop P (Endpoint_ClearOUT P) (get_byte P (\<lambda>i. i)) False n (Suc m) i k buf s =
      Some (0, k', take i buf @ take (Suc m) (concat (pend (lhw s))) @ drop (i + Suc m) buf, s\<lparr>lhw := h\<rparr>) \<and>
    sel h = c \<and> concat (pend h) = drop (Suc m) (concat (pend (lhw s)))"
    if H: "sel (lhw s) = c" "Suc m \<le> length (concat (pend (lhw s)))" "length (pend (lhw s)) \<le> Suc (patience P)"
      "i + Suc m \<le> length buf" "pend (lhw s) \<noteq> []" "hd (pend (lhw s)) \<noteq> []" for s n
  proof -
    obtain b bs ps where p: "pend (lhw s) = (b # bs) # ps"
      using H(5,6) by (cases "pend (lhw s)"; cases "hd (pend (lhw s))") auto
    obtain h1 where 1: "Endpoint_IsReadWriteAllowed P s = (True, s\<lparr>lhw := h1\<rparr>)" "sel h1 = c" "pend h1 = (b # bs) # ps"
      using out_stream_allowed [OF st H(1)] p by auto
    obtain h2 where 2: "Endpoint_Read_8 P (s\<lparr>lhw := h1\<rparr>) = (b, s\<lparr>lhw := h2\<rparr>)" "sel h2 = c" "pend h2 = bs # ps"
      using rx_read [OF out_streamD(1) [OF st], of "s\<lparr>lhw := h1\<rparr>" b bs ps] 1 by auto
    obtain h k' where h: "stream_loop P (Endpoint_ClearOUT P) (get_byte P (\<lambda>i. i)) False (patience P) m (Suc i) (k + 1)
        (buf[i := b]) (s\<lparr>lhw := h2\<rparr>) =
      Some (0, k', take (Suc i) (buf[i := b]) @ take m (bs @ concat ps) @ drop (Suc i + m) (buf[i := b]), s\<lparr>lhw := h\<rparr>)"
      "sel h = c" "concat (pend h) = drop m (bs @ concat ps)"
      using Suc.IH [of "s\<lparr>lhw := h2\<rparr>" "patience P" "Suc i" "buf[i := b]" "k + 1"] 2 H p by auto
    have "take (Suc i) (buf[i := b]) = take i buf @ [b]"
      using H(4) by (simp add: take_Suc_conv_app_nth)
    with 1 2 p h show ?thesis by (simp add: get_byte_def)
  qed
  show ?case using Suc.prems
  proof (induction n arbitrary: s)
    case (0 s)
    from "0"(2,3) obtain p where p: "pend (lhw s) = [p]" by (cases "pend (lhw s)") auto
    with "0"(2) have "p \<noteq> []" by auto
    with 0 p show ?case by (intro step) auto
  next
    case (Suc n s)
    show ?case
    proof (cases "hd (pend (lhw s)) = []")
      case False
      have "pend (lhw s) \<noteq> []" using Suc.prems(2) by auto
      then show ?thesis using False Suc.prems by (intro step) auto
    next
      case True
      have ne: "pend (lhw s) \<noteq> []" using Suc.prems(2) by auto
      then have tl: "concat (tl (pend (lhw s))) = concat (pend (lhw s))" "tl (pend (lhw s)) \<noteq> []"
        using True Suc.prems(2) by (cases "pend (lhw s)"; force)+
      obtain h1 where 1: "Endpoint_IsReadWriteAllowed P s = (False, s\<lparr>lhw := h1\<rparr>)" "sel h1 = c" "pend h1 = pend (lhw s)"
        using out_stream_allowed [OF st Suc.prems(1)] True by auto
      obtain h2 where 2: "Endpoint_ClearOUT P (s\<lparr>lhw := h1\<rparr>) = s\<lparr>lhw := h2\<rparr>" "sel h2 = c" "pend h2 = tl (pend (lhw s))"
        using out_stream_clear [OF st, of "s\<lparr>lhw := h1\<rparr>"] 1 by auto
      obtain h3 where 3: "Endpoint_WaitUntilReady P (s\<lparr>lhw := h2\<rparr>) = Some (0, s\<lparr>lhw := h3\<rparr>)" "sel h3 = c"
          "pend h3 = tl (pend (lhw s))"
        using out_stream_wait [OF st, of "s\<lparr>lhw := h2\<rparr>"] 2 tl by auto
      show ?thesis
        using Suc.IH [of "s\<lparr>lhw := h3\<rparr>"] Suc.prems 1 2 3 tl(1) by (auto simp: Let_def)
    qed
  qed
qed

lemma Read_Stream_LE_reads:
  assumes st: "out_stream P c sel pend" and "sel (lhw s) = c" and "pend (lhw s) \<noteq> []"
    and "unat m \<le> length (concat (pend (lhw s)))" and "length (pend (lhw s)) \<le> Suc (patience P)"
    and "unat m \<le> length buf"
  shows "\<exists>h. Endpoint_Read_Stream_LE P buf m None s =
      Some (0, None, take (unat m) (concat (pend (lhw s))) @ drop (unat m) buf, s\<lparr>lhw := h\<rparr>) \<and>
    concat (pend h) = drop (unat m) (concat (pend (lhw s)))"
proof -
  obtain h1 where 1: "Endpoint_WaitUntilReady P s = Some (0, s\<lparr>lhw := h1\<rparr>)" "sel h1 = c" "pend h1 = pend (lhw s)"
    using out_stream_wait [OF st assms(2,3)] by blast
  have ix: "index_LE m = (\<lambda>i. i)" by (simp add: index_LE_def fun_eq_iff)
  show ?thesis
    using stream_loop_read [OF st, of "s\<lparr>lhw := h1\<rparr>" "unat m" "patience P" 0 buf 0] 1 assms(4-6)
    by (auto simp: Endpoint_Read_Stream_LE_def endpoint_stream_def ix)
qed

text \<open>A byte that has arrived is returned by the blocking \<open>getchar\<close> without waiting.\<close>

lemma getchar_Blocking_byte:
  assumes ep: "out_endpoint P (DataOUTEndpointNumber C) sel pend" and "cdc_open s"
    and "pend (lhw s) = (b # bs) # ps"
  shows "\<exists>h. CDC_Device_getchar_Blocking P C s = Some (uint b, s\<lparr>lhw := h\<rparr>) \<and>
    pend h = (if bs = [] then ps else bs # ps)"
  using receive_byte [OF ep assms(2)] assms(3)
  unfolding CDC_Device_getchar_Blocking_def by (subst getchar_wait.simps) auto

section \<open>Byte order\<close>

text \<open>The big-endian accesses are the little-endian ones with the bytes in the other order.\<close>

lemma write_bytes:
  "Endpoint_Write_16_LE P v s = fold (Endpoint_Write_8 P) [ucast v, ucast (drop_bit 8 v)] s"
  "Endpoint_Write_16_BE P v s = fold (Endpoint_Write_8 P) (rev [ucast v, ucast (drop_bit 8 v)]) s"
  "Endpoint_Write_32_LE P w s =
     fold (Endpoint_Write_8 P) [ucast w, ucast (drop_bit 8 w), ucast (drop_bit 16 w), ucast (drop_bit 24 w)] s"
  "Endpoint_Write_32_BE P w s =
     fold (Endpoint_Write_8 P) (rev [ucast w, ucast (drop_bit 8 w), ucast (drop_bit 16 w), ucast (drop_bit 24 w)]) s"
proof -
  have low: "ucast (x AND 0xFF) = (ucast x :: u8)" for x :: "'c::len word"
  proof -
    have "(0xFF :: 'c word) = mask 8" by (simp add: mask_eq_exp_minus_1)
    moreover have "ucast (x AND mask 8) = (ucast x :: u8)"
      by (rule bit_eqI) (auto simp: bit_simps dest: bit_imp_le_length)
    ultimately show ?thesis by simp
  qed
  show
    "Endpoint_Write_16_LE P v s = fold (Endpoint_Write_8 P) [ucast v, ucast (drop_bit 8 v)] s"
    "Endpoint_Write_16_BE P v s = fold (Endpoint_Write_8 P) (rev [ucast v, ucast (drop_bit 8 v)]) s"
    "Endpoint_Write_32_LE P w s =
       fold (Endpoint_Write_8 P) [ucast w, ucast (drop_bit 8 w), ucast (drop_bit 16 w), ucast (drop_bit 24 w)] s"
    "Endpoint_Write_32_BE P w s =
       fold (Endpoint_Write_8 P) (rev [ucast w, ucast (drop_bit 8 w), ucast (drop_bit 16 w), ucast (drop_bit 24 w)]) s"
    by (simp_all add: Endpoint_Write_16_LE_def Endpoint_Write_16_BE_def Endpoint_Write_32_LE_def
        Endpoint_Write_32_BE_def Endpoint_Write_8_def Let_def low)
qed

end
