(* ===== verification/LufaPlatform.thy ===== *)
theory LufaPlatform
  imports LufaRequests LufaStreams
begin

text \<open>
  A controller and a host in memory, small enough to run: packets that wait in the OUT endpoint
  of the serial link, a bank of two bytes in its IN endpoint, a control endpoint whose packets
  are taken at once, a frame counter and the address register. It satisfies the behaviour the
  lemmas on the link take as their hypotheses.
\<close>

record sim =
  sim_ep :: u8
  sim_pend :: "bytes list"
  sim_bank :: bytes
  sim_given :: bytes
  sim_bank0 :: bytes
  sim_pkts :: "bytes list"
  sim_setup :: bytes
  sim_flag :: bool
  sim_frame :: u16
  sim_addr :: u8

text \<open>Packets have at most 64 bytes, the bank of the control endpoint eight.\<close>

definition arrived :: "sim \<Rightarrow> bytes list" where
  "arrived h = map (take 64) (sim_pend h)"

definition bank0 :: "sim \<Rightarrow> bytes" where
  "bank0 h = take 8 (sim_bank0 h)"

definition sim_flags :: "nat \<Rightarrow> sim \<Rightarrow> u8" where
  "sim_flags want h =
     (if sim_ep h = CDC_RX_EPNUM
      then (if arrived h = [] then 0 else if hd (arrived h) = [] then 0x04 else 0x24)
      else if sim_ep h = CDC_TX_EPNUM then (if length (sim_bank h) < 2 then 0x21 else 0)
      else if sim_ep h = 0 then
        (0x01 OR (if sim_flag h then 0x08 else 0) OR (if host_has_all want (sim_pkts h) then 0x04 else 0))
      else 0)"

definition sim_count :: "sim \<Rightarrow> nat" where
  "sim_count h =
     (if sim_ep h = CDC_RX_EPNUM then (case arrived h of [] \<Rightarrow> 0 | p # ps \<Rightarrow> length p)
      else if sim_ep h = CDC_TX_EPNUM then min 64 (length (sim_bank h)) else length (bank0 h))"

fun sim_in :: "nat \<Rightarrow> reg \<Rightarrow> sim \<Rightarrow> u8 \<times> sim" where
  "sim_in want UENUM h = (sim_ep h, h)"
| "sim_in want UEINTX h = (sim_flags want h, h)"
| "sim_in want UEBCLX h = (of_nat (sim_count h), h)"
| "sim_in want UEDATX h =
     (if sim_ep h = CDC_RX_EPNUM then
        (case arrived h of (b # bs) # ps \<Rightarrow> (b, h\<lparr>sim_pend := bs # ps\<rparr>) | _ \<Rightarrow> (0, h))
      else (case sim_setup h of b # bs \<Rightarrow> (b, h\<lparr>sim_setup := bs\<rparr>) | [] \<Rightarrow> (0, h)))"
| "sim_in want UECFG0X h = (if sim_ep h = CDC_TX_EPNUM then 1 else 0, h)"
| "sim_in want UESTA0X h = (0x80, h)"
| "sim_in want PLLCSR h = (1, h)"
| "sim_in want UDFNUML h = (ucast (sim_frame h), h)"
| "sim_in want UDFNUMH h = (ucast (drop_bit 8 (sim_frame h)), h)"
| "sim_in want UDADDR h = (sim_addr h, h)"
| "sim_in want r h = (0, h)"

definition sim_ack :: "u8 \<Rightarrow> sim \<Rightarrow> sim" where
  "sim_ack v h =
     (if sim_ep h = CDC_RX_EPNUM then
        (if \<not> bit v RXOUTI \<and> \<not> bit v FIFOCON then h\<lparr>sim_pend := tl (sim_pend h)\<rparr> else h)
      else if sim_ep h = CDC_TX_EPNUM then
        (if \<not> bit v TXINI \<and> \<not> bit v FIFOCON
         then h\<lparr>sim_given := sim_given h @ sim_bank h, sim_bank := []\<rparr> else h)
      else if sim_ep h = 0 then
        (if \<not> bit v TXINI \<and> \<not> bit v FIFOCON
         then h\<lparr>sim_pkts := sim_pkts h @ [bank0 h], sim_bank0 := [], sim_flag := sim_flag h \<and> bit v RXSTPI\<rparr>
         else h\<lparr>sim_flag := sim_flag h \<and> bit v RXSTPI\<rparr>)
      else h)"

fun sim_out :: "reg \<Rightarrow> u8 \<Rightarrow> sim \<Rightarrow> sim" where
  "sim_out UENUM v h = h\<lparr>sim_ep := v\<rparr>"
| "sim_out UEINTX v h = sim_ack v h"
| "sim_out UEDATX v h =
     (if sim_ep h = CDC_TX_EPNUM then h\<lparr>sim_bank := sim_bank h @ [v]\<rparr>
      else if sim_ep h = CDC_RX_EPNUM then h else h\<lparr>sim_bank0 := sim_bank0 h @ [v]\<rparr>)"
| "sim_out UDADDR v h = h\<lparr>sim_addr := v\<rparr>"
| "sim_out r v h = h"

definition sim_platform :: "nat \<Rightarrow> sim platform" where
  "sim_platform want =
     \<lparr>controller = \<lparr>reg_in = sim_in want, reg_out = sim_out\<rparr>,
      turn = (\<lambda>s. s\<lparr>lhw := (lhw s)\<lparr>sim_frame := sim_frame (lhw s) + 1\<rparr>\<rparr>), patience = 101,
      boot_signature_byte_get = (\<lambda>a. a)\<rparr>"

definition sim_boot :: sim where
  "sim_boot = \<lparr>sim_ep = 0, sim_pend = [], sim_bank = [], sim_given = [], sim_bank0 = [], sim_pkts = [],
     sim_setup = [], sim_flag = False, sim_frame = 0, sim_addr = 0\<rparr>"

text \<open>The library with the port open at 9600 baud.\<close>

definition lufa_open :: "sim \<Rightarrow> sim lufa" where
  "lufa_open h =
     \<lparr>USB_DeviceState = DEVICE_STATE_Configured,
      USB_ControlRequest = \<lparr>bmRequestType = 0, bRequest = 0, wValue = 0, wIndex = 0, wLength = 0\<rparr>,
      USB_Device_ConfigurationNumber = 1, USB_Device_CurrentlySelfPowered = False,
      USB_Device_RemoteWakeupEnabled = False, USB_IsInitialized = True,
      LineEncoding = \<lparr>BaudRateBPS = 9600, CharFormat = 0, ParityType = 0, DataBits = 8\<rparr>,
      HostToDevice = 1, DeviceToHost = 0, usbConnectionReset = False, GlobalInt = 0x80, lhw = h\<rparr>"

lemma sim_fields [simp]:
  "reg_in (controller (sim_platform want)) = sim_in want" "reg_out (controller (sim_platform want)) = sim_out"
  "turn (sim_platform want) s = s\<lparr>lhw := (lhw s)\<lparr>sim_frame := sim_frame (lhw s) + 1\<rparr>\<rparr>"
  "patience (sim_platform want) = 101"
  by (simp_all add: sim_platform_def)

lemma sim_in_keeps:
  "sim_ep (snd (sim_in want r h)) = sim_ep h" "sim_bank (snd (sim_in want r h)) = sim_bank h"
  "sim_given (snd (sim_in want r h)) = sim_given h" "bank0 (snd (sim_in want r h)) = bank0 h"
  "sim_pkts (snd (sim_in want r h)) = sim_pkts h" "sim_frame (snd (sim_in want r h)) = sim_frame h"
  "sim_addr (snd (sim_in want r h)) = sim_addr h" "sim_flag (snd (sim_in want r h)) = sim_flag h"
  "r \<noteq> UEDATX \<Longrightarrow> sim_pend (snd (sim_in want r h)) = sim_pend h"
  by (cases r; auto simp: bank0_def split: list.split)+

lemma take_Cons_length: "take n z = b # bs \<Longrightarrow> length bs < n"
  by (metis Suc_le_eq length_Cons length_take min.cobounded2)

lemma sim_out_endpoint: "out_endpoint (sim_platform want) CDC_RX_EPNUM sim_ep arrived"
proof -
  have "length p \<le> 64" if "arrived h = p # ps" for p ps h
    using that by (auto simp: arrived_def)
  then have "unat (of_nat (length p) :: u8) = length p mod 256" "length p div 256 = 0"
    if "arrived h = p # ps" for p ps h
    using that by (force simp: unat_of_nat)+
  then show ?thesis
    unfolding out_endpoint_def
    by (auto simp: sim_in_keeps sim_flags_def sim_count_def sim_ack_def map_tl arrived_def
        dest: take_Cons_length)
qed

lemma sim_out_stream: "out_stream (sim_platform want) CDC_RX_EPNUM sim_ep arrived"
  unfolding out_stream_def
  by (intro conjI allI impI sim_out_endpoint)
    (auto simp: sim_flags_def sim_ack_def arrived_def CDC_TX_EPNUM_def CDC_RX_EPNUM_def bit_simps)

lemma endpoint_numbers [simp]: "CDC_TX_EPNUM \<noteq> CDC_RX_EPNUM" "CDC_RX_EPNUM \<noteq> CDC_TX_EPNUM"
  "0 \<noteq> CDC_RX_EPNUM" "0 \<noteq> CDC_TX_EPNUM"
  by (simp_all add: CDC_TX_EPNUM_def CDC_RX_EPNUM_def)

lemma sim_in_endpoint: "in_endpoint (sim_platform want) CDC_TX_EPNUM 2 sim_ep sim_bank sim_given"
  unfolding in_endpoint_def
  by (intro conjI allI impI) (auto simp: sim_in_keeps sim_flags_def sim_ack_def split: if_splits)

lemma sim_lufa_clock: "lufa_clock (sim_platform want) sim_frame"
  unfolding lufa_clock_def by (simp add: sim_in_keeps)

lemma sim_setup_packet:
  "setup_packet (sim_platform want) (\<lambda>h. sim_flag h \<and> sim_ep h = 0)
     (\<lambda>h. if sim_ep h = CDC_RX_EPNUM then [] else sim_setup h)"
  unfolding setup_packet_def
  by (auto simp: sim_flags_def split: if_splits)

lemma sim_address_register: "address_register (sim_platform want) sim_addr"
proof -
  have "sim_addr (sim_out r v h) = (if r = UDADDR then v else sim_addr h)" for r v h
    by (cases r) (simp_all add: sim_ack_def)
  then show ?thesis unfolding address_register_def by (simp add: sim_in_keeps soft_def)
qed

text \<open>The control endpoint counts as selected when no set-up packet is waiting.\<close>

definition sel0 :: "sim \<Rightarrow> u8" where
  "sel0 h = (if sim_flag h then 1 else sim_ep h)"

lemma sim_control_host: "control_host (sim_platform want) want sel0 bank0 sim_pkts"
proof -
  have "length (bank0 h) \<le> 8" for h by (simp add: bank0_def)
  then have count: "unat (of_nat (length (bank0 h)) :: u8) = length (bank0 h) mod 256"
      "length (bank0 h) div 256 = 0" for h
    by (simp_all add: unat_of_nat order_le_less_trans [of _ 8])
  show ?thesis
    unfolding control_host_def
    by (intro conjI allI impI)
      (auto simp: sel0_def sim_in_keeps sim_in_keeps(4) [unfolded bank0_def] sim_flags_def sim_count_def
        sim_ack_def count [unfolded bank0_def, simplified] bank0_def split: if_splits)
qed

section \<open>Runs\<close>

lemma wait_at_once: "ready s = (True, t) \<Longrightarrow> wait_until P ready leave n s = Some (True, t)"
  by (simp add: wait_until.simps)

lemma spin_at_once: "ready s = (True, t) \<Longrightarrow> spin P ready s = Some t"
  by (simp add: spin_def wait_at_once)

lemma sim_reg_get:
  "reg_get (sim_platform want) r s = (fst (sim_in want r (lhw s)), s\<lparr>lhw := snd (sim_in want r (lhw s))\<rparr>)"
  by (simp add: reg_get_eq)

lemma sim_reg_put: "reg_put (sim_platform want) r v s = s\<lparr>lhw := sim_out r v (lhw s)\<rparr>"
  by (simp add: reg_put_def)

lemmas sim_run = sim_reg_get sim_reg_put set_bits_def clear_bits_def reg_bit_def

lemma sim_ep_reg:
  shows "sim_ep (lhw (reg_put (sim_platform want) r v s)) = (if r = UENUM then v else sim_ep (lhw s))"
    and "r \<noteq> UENUM \<Longrightarrow> sim_ep (lhw (set_bits (sim_platform want) r m s)) = sim_ep (lhw s)"
    and "r \<noteq> UENUM \<Longrightarrow> sim_ep (lhw (clear_bits (sim_platform want) r m s)) = sim_ep (lhw s)"
proof -
  have out: "sim_ep (sim_out r v h) = (if r = UENUM then v else sim_ep h)" for v h
    by (cases r) (simp_all add: sim_ack_def)
  show "sim_ep (lhw (reg_put (sim_platform want) r v s)) = (if r = UENUM then v else sim_ep (lhw s))"
    by (simp add: sim_reg_put out)
  show "sim_ep (lhw (set_bits (sim_platform want) r m s)) = sim_ep (lhw s)"
    "sim_ep (lhw (clear_bits (sim_platform want) r m s)) = sim_ep (lhw s)" if "r \<noteq> UENUM"
    using that by (simp_all add: set_bits_def clear_bits_def sim_reg_get sim_reg_put out sim_in_keeps(1))
qed

lemma sim_pll: "USB_PLL_IsReady (sim_platform want) s = (True, s)"
  by (simp add: USB_PLL_IsReady_def sim_run)

lemma sim_in_ready: "sim_ep (lhw s) = 0 \<Longrightarrow> Endpoint_IsINReady (sim_platform want) s = (True, s)"
  by (simp add: Endpoint_IsINReady_def sim_run sim_flags_def bit_simps)

lemma control_size: "Endpoint_BytesToEPSizeMask 8 = Some 0"
  unfolding Endpoint_BytesToEPSizeMask_def by (subst size_mask.simps) simp

text \<open>The calls of a reset, a new address and a wake-up return.\<close>

lemma sim_reset: "\<exists>t. on_reset (sim_platform want) s = Some t \<and> sim_ep (lhw t) = 0"
  by (simp add: on_reset_def configure_control_def Endpoint_ConfigureEndpoint_def control_size Let_def
      FIXED_CONTROL_ENDPOINT_SIZE_def Endpoint_ConfigureEndpoint_Prv_def Endpoint_EnableEndpoint_def
      Endpoint_SelectEndpoint_def Endpoint_IsConfigured_def sim_ep_reg USB_INT_Enable_def
      USB_INT_Disable_def USB_INT_Clear_def reg_bit_def sim_reg_get)

lemma sim_set_address:
  assumes "sim_ep (lhw s) = 0" and "\<not> bit (bmRequestType (USB_ControlRequest s)) 7"
  shows "\<exists>t. USB_Device_SetAddress (sim_platform want) s = Some t"
  using assms
  by (simp add: USB_Device_SetAddress_def Let_def Endpoint_ClearStatusStage_def Endpoint_ClearSETUP_def
      Endpoint_ClearIN_def wait_at_once [OF sim_in_ready] spin_at_once [OF sim_in_ready] sim_ep_reg)
    (simp add: sim_run)

lemma sim_wakeup: "\<exists>t. on_wakeup (sim_platform want) s = Some t"
  by (simp add: on_wakeup_def Let_def spin_at_once [OF sim_pll])

text \<open>With two packets waiting in the OUT endpoint the two tasks of the library change nothing.\<close>

lemma sim_tasks:
  defines "h \<equiv> sim_boot\<lparr>sim_pend := [[1, 2], [3, 4]], sim_ep := CDC_TX_EPNUM\<rparr>"
  shows "CDC_Device_USBTask (sim_platform 0) VirtualSerial_CDC_Interface
      (lufa_open (sim_boot\<lparr>sim_pend := [[1, 2], [3, 4]]\<rparr>)) = Some (lufa_open h)"
    and "USB_DeviceTask (sim_platform 0) (lufa_open h) = Some (lufa_open h)"
  unfolding h_def
  by (simp_all add: CDC_Device_USBTask_def CDC_Device_Flush_def cdc_open_def lufa_open_def sim_run
      Endpoint_BytesInEndpoint_def Endpoint_SelectEndpoint_def VirtualSerial_CDC_Interface_def
      sim_boot_def sim_count_def sim_flags_def USB_DeviceTask_def Endpoint_GetCurrentEndpoint_def
      Endpoint_IsSETUPReceived_def CDC_TX_EPNUM_def CDC_RX_EPNUM_def bit_simps host_has_all_def)

end
