(* ===== verification/LufaEnumeration.thy ===== *)
theory LufaEnumeration
  imports LufaPlatform
begin

text \<open>
  How a host gets the serial link over the LUFA library to work: it resets the bus, gives the
  device an address, selects its configuration and sets the coding of the line. The set-up
  packets are served by the interrupt of the control endpoint.
\<close>

section \<open>The host\<close>

text \<open>
  A prompt host: while endpoint 0 is selected (\<open>sel\<close>) every wait finds its flag set. \<open>flag\<close> is
  the flag of a set-up packet, which shows at endpoint 0 only and goes down when it is written,
  and \<open>rest\<close> what has not been read of the packet and the data that follow; \<open>knock p\<close> is the arrival
  of the packet \<open>p\<close>.
\<close>

definition prompt_host ::
    "'h platform \<Rightarrow> (bytes \<Rightarrow> 'h \<Rightarrow> 'h) \<Rightarrow> ('h \<Rightarrow> u8) \<Rightarrow> ('h \<Rightarrow> bool) \<Rightarrow> ('h \<Rightarrow> bytes) \<Rightarrow> bool"
where
  "prompt_host P knock sel flag rest \<longleftrightarrow>
     (\<forall>h r. sel (snd (reg_in (controller P) r h)) = sel h \<and> flag (snd (reg_in (controller P) r h)) = flag h) \<and>
     (\<forall>h r. r \<noteq> UEDATX \<longrightarrow> rest (snd (reg_in (controller P) r h)) = rest h) \<and>
     (\<forall>h. sel h = 0 \<longrightarrow> bit (fst (reg_in (controller P) UEINTX h)) TXINI \<and>
        bit (fst (reg_in (controller P) UEINTX h)) RXOUTI) \<and>
     (\<forall>h. bit (fst (reg_in (controller P) UEINTX h)) RXSTPI = (sel h = 0 \<and> flag h)) \<and>
     (\<forall>h b bs. sel h = 0 \<longrightarrow> rest h = b # bs \<longrightarrow>
        fst (reg_in (controller P) UEDATX h) = b \<and> rest (snd (reg_in (controller P) UEDATX h)) = bs) \<and>
     (\<forall>h r v. sel (reg_out (controller P) r v h) = (if r = UENUM then v else sel h) \<and>
        rest (reg_out (controller P) r v h) = rest h \<and>
        flag (reg_out (controller P) r v h) =
          (if r = UEINTX \<and> sel h = 0 then flag h \<and> bit v RXSTPI else flag h)) \<and>
     (\<forall>h p. flag (knock p h) \<and> rest (knock p h) = p)"

definition set_address_packet :: "u8 \<Rightarrow> bytes" where
  "set_address_packet a = [0x00, 5, a, 0, 0, 0, 0, 0]"

definition set_configuration_packet :: "u8 \<Rightarrow> bytes" where
  "set_configuration_packet n = [0x00, 9, n, 0, 0, 0, 0, 0]"

definition line_coding_bytes :: "line_encoding \<Rightarrow> bytes" where
  "line_coding_bytes e =
     [ucast (BaudRateBPS e), ucast (drop_bit 8 (BaudRateBPS e)), ucast (drop_bit 16 (BaudRateBPS e)),
      ucast (drop_bit 24 (BaudRateBPS e)), CharFormat e, ParityType e, DataBits e]"

definition set_line_coding_packet :: "line_encoding \<Rightarrow> bytes" where
  "set_line_coding_packet e = [0x21, 0x20, 0, 0, 0, 0, 7, 0] @ line_coding_bytes e"

definition serve :: "'h platform \<Rightarrow> (bytes \<Rightarrow> 'h \<Rightarrow> 'h) \<Rightarrow> bytes \<Rightarrow> 'h lufa \<Rightarrow> 'h lufa option" where
  "serve P knock p s = lufa_COM_vect P (s\<lparr>lhw := knock p (lhw s)\<rparr>)"

definition host_enumerates ::
    "'h platform \<Rightarrow> (bytes \<Rightarrow> 'h \<Rightarrow> 'h) \<Rightarrow> u8 \<Rightarrow> line_encoding \<Rightarrow> 'h lufa \<Rightarrow> 'h lufa option"
where
  "host_enumerates P knock a e s = do {
     s \<leftarrow> on_reset P s;
     s \<leftarrow> serve P knock (set_address_packet a) s;
     s \<leftarrow> serve P knock (set_configuration_packet 1) s;
     serve P knock (set_line_coding_packet e) s }"

section \<open>What the operations do to it\<close>

lemma prompt_regs:
  assumes H: "prompt_host P knock sel flag rest"
  shows "sel (lhw (reg_put P r v s)) = (if r = UENUM then v else sel (lhw s))"
    and "rest (lhw (reg_put P r v s)) = rest (lhw s)"
    and "flag (lhw (reg_put P r v s)) = (if r = UEINTX \<and> sel (lhw s) = 0 then flag (lhw s) \<and> bit v RXSTPI else flag (lhw s))"
    and "sel (lhw (snd (reg_get P r s))) = sel (lhw s)"
    and "flag (lhw (snd (reg_get P r s))) = flag (lhw s)"
    and "r \<noteq> UEDATX \<Longrightarrow> rest (lhw (snd (reg_get P r s))) = rest (lhw s)"
    and "bit (fst (reg_get P UEINTX s)) RXSTPI = (sel (lhw s) = 0 \<and> flag (lhw s))"
    and "sel (lhw s) = 0 \<Longrightarrow> bit (fst (reg_get P UEINTX s)) TXINI"
    and "sel (lhw s) = 0 \<Longrightarrow> bit (fst (reg_get P UEINTX s)) RXOUTI"
    and "sel (lhw s) = 0 \<Longrightarrow> rest (lhw s) = b # bs \<Longrightarrow> fst (reg_get P UEDATX s) = b"
    and "sel (lhw s) = 0 \<Longrightarrow> rest (lhw s) = b # bs \<Longrightarrow> rest (lhw (snd (reg_get P UEDATX s))) = bs"
  using H by (simp_all add: prompt_host_def reg_get_eq reg_put_def)

text \<open>Same software state, selected endpoint, flag and bytes to come.\<close>

definition undisturbed ::
    "('h \<Rightarrow> u8) \<Rightarrow> ('h \<Rightarrow> bool) \<Rightarrow> ('h \<Rightarrow> bytes) \<Rightarrow> 'h lufa \<Rightarrow> 'h lufa \<Rightarrow> bool"
where
  "undisturbed sel flag rest s t \<longleftrightarrow> soft t = soft s \<and> sel (lhw t) = sel (lhw s) \<and>
     flag (lhw t) = flag (lhw s) \<and> rest (lhw t) = rest (lhw s)"

lemma undisturbed_trans:
  "undisturbed sel flag rest s t \<Longrightarrow> undisturbed sel flag rest t u \<Longrightarrow> undisturbed sel flag rest s u"
  by (simp add: undisturbed_def)

lemma prompt_tests:
  assumes H: "prompt_host P knock sel flag rest" and "sel (lhw s) = 0"
  shows "\<exists>t. Endpoint_IsSETUPReceived P s = (flag (lhw s), t) \<and> undisturbed sel flag rest s t"
    and "\<exists>t. Endpoint_IsOUTReceived P s = (True, t) \<and> undisturbed sel flag rest s t"
    and "\<exists>t. Endpoint_IsINReady P s = (True, t) \<and> undisturbed sel flag rest s t"
  using prompt_regs(4-6) [OF H, of UEINTX s] prompt_regs(7-9) [OF H, of s] assms(2)
  by (simp_all add: Endpoint_IsSETUPReceived_def Endpoint_IsOUTReceived_def Endpoint_IsINReady_def
      reg_bit_def undisturbed_def split_beta)

lemma prompt_not_here:
  assumes H: "prompt_host P knock sel flag rest" and "sel (lhw s) \<noteq> 0 \<or> \<not> flag (lhw s)"
  shows "\<exists>t. Endpoint_IsSETUPReceived P s = (False, t) \<and> undisturbed sel flag rest s t"
  using prompt_regs(4-6) [OF H, of UEINTX s] prompt_regs(7) [OF H, of s] assms(2)
  by (auto simp: Endpoint_IsSETUPReceived_def reg_bit_def undisturbed_def split_beta)

lemma prompt_clear:
  assumes H: "prompt_host P knock sel flag rest"
  shows "soft (Endpoint_ClearSETUP P s) = soft s" "sel (lhw (Endpoint_ClearSETUP P s)) = sel (lhw s)"
    and "rest (lhw (Endpoint_ClearSETUP P s)) = rest (lhw s)"
    and "sel (lhw s) = 0 \<Longrightarrow> \<not> flag (lhw (Endpoint_ClearSETUP P s))"
    and "undisturbed sel flag rest s (Endpoint_ClearIN P s)"
    and "undisturbed sel flag rest s (Endpoint_ClearOUT P s)"
  using prompt_regs(1-6) [OF H] prompt_regs(7) [OF H, of s]
  by (auto simp: Endpoint_ClearSETUP_def Endpoint_ClearIN_def Endpoint_ClearOUT_def undisturbed_def
      clear_bits_def split_beta bit_simps)

lemma prompt_select:
  assumes H: "prompt_host P knock sel flag rest"
  shows "soft (Endpoint_SelectEndpoint P n s) = soft s" "sel (lhw (Endpoint_SelectEndpoint P n s)) = n"
    and "flag (lhw (Endpoint_SelectEndpoint P n s)) = flag (lhw s)"
    and "rest (lhw (Endpoint_SelectEndpoint P n s)) = rest (lhw s)"
  using prompt_regs(1-3) [OF H] by (simp_all add: Endpoint_SelectEndpoint_def)

lemma prompt_bits:
  assumes H: "prompt_host P knock sel flag rest" and "r \<noteq> UENUM" "r \<noteq> UEDATX" "r \<noteq> UEINTX"
  shows "undisturbed sel flag rest s (set_bits P r m s)"
    and "undisturbed sel flag rest s (clear_bits P r m s)"
    and "undisturbed sel flag rest s (reg_put P r v s)"
  using prompt_regs(1-6) [OF H] assms(2-4)
  by (simp_all add: undisturbed_def set_bits_def clear_bits_def split_beta)

lemma prompt_status_stage:
  assumes H: "prompt_host P knock sel flag rest" and "sel (lhw s) = 0"
  shows "\<exists>t. Endpoint_ClearStatusStage P s = Some t \<and> undisturbed sel flag rest s t"
proof -
  obtain t where out: "Endpoint_IsOUTReceived P s = (True, t)" "undisturbed sel flag rest s t"
    using prompt_tests(2) [OF H assms(2)] by blast
  obtain u where "in": "Endpoint_IsINReady P s = (True, u)" "undisturbed sel flag rest s u"
    using prompt_tests(3) [OF H assms(2)] by blast
  show ?thesis
    using undisturbed_trans [OF out(2) prompt_clear(6) [OF H, of t]]
      undisturbed_trans [OF "in"(2) prompt_clear(5) [OF H, of u]]
    by (simp add: Endpoint_ClearStatusStage_def Let_def wait_at_once [of "Endpoint_IsOUTReceived P", OF out(1)]
        wait_at_once [of "Endpoint_IsINReady P", OF "in"(1)])
qed

lemma prompt_read:
  assumes H: "prompt_host P knock sel flag rest" and "sel (lhw s) = 0" and "rest (lhw s) = b # bs"
  shows "\<exists>t. Endpoint_Read_8 P s = (b, t) \<and> soft t = soft s \<and> sel (lhw t) = 0 \<and>
    flag (lhw t) = flag (lhw s) \<and> rest (lhw t) = bs"
  using prompt_regs(4,5) [OF H, of UEDATX s] prompt_regs(10,11) [OF H assms(2,3)] assms(2)
  by (intro exI [of _ "snd (reg_get P UEDATX s)"]) (simp add: Endpoint_Read_8_def prod_eq_iff)

lemma prompt_header:
  assumes H: "prompt_host P knock sel flag rest"
  shows "sel (lhw s) = 0 \<Longrightarrow> rest (lhw s) = bs @ os \<Longrightarrow>
    \<exists>t. read_header P (length bs) s = (bs, t) \<and> soft t = soft s \<and> sel (lhw t) = 0 \<and>
      flag (lhw t) = flag (lhw s) \<and> rest (lhw t) = os"
proof (induction bs arbitrary: s)
  case (Cons b bs)
  then obtain u where u: "Endpoint_Read_8 P s = (b, u)" "soft u = soft s" "sel (lhw u) = 0"
      "flag (lhw u) = flag (lhw s)" "rest (lhw u) = bs @ os"
    using prompt_read [OF H, of s b "bs @ os"] by auto
  with Cons.IH [of u] show ?case by auto
qed simp

section \<open>The requests\<close>

lemma soft_eq: "soft t = soft s \<Longrightarrow> t = s\<lparr>lhw := lhw t\<rparr>"
  by (cases t, cases s) (simp add: soft_def)

lemma undisturbedE:
  assumes "undisturbed sel flag rest s t"
  obtains h where "t = s\<lparr>lhw := h\<rparr>" "sel h = sel (lhw s)" "flag h = flag (lhw s)" "rest h = rest (lhw s)"
  using assms soft_eq [of t s] by (auto simp: undisturbed_def)

lemma prompt_clear_setup:
  assumes H: "prompt_host P knock sel flag rest" and "sel (lhw s) = 0"
  obtains h where "Endpoint_ClearSETUP P s = s\<lparr>lhw := h\<rparr>" "sel h = 0" "\<not> flag h" "rest h = rest (lhw s)"
  using soft_eq [OF prompt_clear(1) [OF H, of s]] prompt_clear(2-4) [OF H, of s] assms(2) by simp

lemma prompt_set_address:
  fixes a :: u8
  assumes H: "prompt_host P knock sel flag rest" and "sel (lhw s) = 0"
    and "wValue (USB_ControlRequest s) = ucast a"
  shows "\<exists>h. USB_Device_SetAddress P s = Some (s\<lparr>USB_DeviceState :=
      (if a AND 0x7F \<noteq> 0 then DEVICE_STATE_Addressed else DEVICE_STATE_Default), lhw := h\<rparr>) \<and> \<not> flag h"
proof -
  let ?s = "s\<lparr>GlobalInt := GlobalInt s AND NOT (mask_bit 7)\<rparr>"
  obtain h1 where 1: "Endpoint_ClearSETUP P ?s = ?s\<lparr>lhw := h1\<rparr>" "sel h1 = 0" "\<not> flag h1"
    using prompt_clear_setup [OF H, of ?s] assms(2) by auto
  obtain t2 where t2: "Endpoint_ClearStatusStage P (?s\<lparr>lhw := h1\<rparr>) = Some t2"
      "undisturbed sel flag rest (?s\<lparr>lhw := h1\<rparr>) t2"
    using prompt_status_stage [OF H, of "?s\<lparr>lhw := h1\<rparr>"] 1 by auto
  obtain h2 where 2: "t2 = ?s\<lparr>lhw := h2\<rparr>" "sel h2 = 0" "\<not> flag h2"
    using undisturbedE [OF t2(2)] 1 by auto
  obtain t3 where t3: "Endpoint_IsINReady P t2 = (True, t3)" "undisturbed sel flag rest t2 t3"
    using prompt_tests(3) [OF H, of t2] 2 by auto
  obtain h3 where 3: "t3 = ?s\<lparr>lhw := h3\<rparr>" "\<not> flag h3"
    using undisturbedE [OF t3(2)] 2 by auto
  let ?t = "USB_Device_SetDeviceAddress P (ucast (ucast a AND 0x7F :: u16)) t3"
  have "soft ?t = soft t3" by (simp add: USB_Device_SetDeviceAddress_def Let_def split_beta)
  moreover have "flag (lhw ?t) = flag (lhw t3)"
    using prompt_regs(3,5) [OF H] by (simp add: USB_Device_SetDeviceAddress_def Let_def split_beta)
  ultimately obtain h4 where 4: "?t = ?s\<lparr>lhw := h4\<rparr>" "\<not> flag h4"
    using soft_eq [of ?t t3] 3 by auto
  have a: "ucast (ucast a AND 0x7F :: u16) = (a AND 0x7F :: u8)"
  proof -
    have "ucast (ucast a :: u16) = a" by (rule bit_eqI) (auto simp: bit_simps dest: bit_imp_le_length)
    then show ?thesis by (simp add: unsigned_and_eq)
  qed
  show ?thesis
    using 1 2 t2 4 spin_at_once [of "Endpoint_IsINReady P", OF t3(1)] assms(3)
    by (intro exI [of _ h4]) (simp add: USB_Device_SetAddress_def Let_def a)
qed

lemma configure_calm:
  assumes H: "prompt_host P knock sel flag rest" and "\<not> flag (lhw s)" and "m \<in> {8, 16}"
  shows "\<exists>b h. Endpoint_ConfigureEndpoint P n ty dir m banks s = Some (b, s\<lparr>lhw := h\<rparr>) \<and> \<not> flag h"
proof -
  obtain k where k: "Endpoint_BytesToEPSizeMask m = Some k" using assms(3) size_mask_used by blast
  have "\<not> flag (lhw (snd (Endpoint_ConfigureEndpoint_Prv P n a b s)))" for a b
    using prompt_regs(1-6) [OF H] assms(2)
    by (simp add: Endpoint_ConfigureEndpoint_Prv_def Endpoint_SelectEndpoint_def Endpoint_EnableEndpoint_def
        Endpoint_IsConfigured_def set_bits_def reg_bit_def split_beta Let_def)
  then have "\<exists>c h. Endpoint_ConfigureEndpoint_Prv P n a b s = (c, s\<lparr>lhw := h\<rparr>) \<and> \<not> flag h" for a b
    using soft_eq [OF configure_prv_soft, of P n a b s] by (metis prod.collapse)
  then show ?thesis by (simp add: Endpoint_ConfigureEndpoint_def k)
qed

lemma configure_from_calm:
  assumes H: "prompt_host P knock sel flag rest"
  shows "\<not> flag (lhw s) \<Longrightarrow>
    \<exists>b h. configure_from P VirtualSerial_CDC_Interface n k s = Some (b, s\<lparr>lhw := h\<rparr>) \<and> \<not> flag h"
proof (induction n arbitrary: k s)
  case 0
  then show ?case by (intro exI [of _ True] exI [of _ "lhw s"]) simp
next
  case (Suc n)
  show ?case
  proof (cases "cdc_endpoint VirtualSerial_CDC_Interface k")
    case None
    then show ?thesis using Suc by simp
  next
    case (Some e)
    obtain ty dir m d where e: "e = (ty, dir, m, d)" by (cases e)
    have "m \<in> {8, 16}"
      using Some e by (auto simp: cdc_endpoint_def VirtualSerial_CDC_Interface_def CDC_TXRX_EPSIZE_def
          CDC_NOTIFICATION_EPSIZE_def split: if_splits)
    from configure_calm [OF H Suc.prems this] obtain b h where
      c: "Endpoint_ConfigureEndpoint P k ty dir m (if d then ENDPOINT_BANK_DOUBLE else ENDPOINT_BANK_SINGLE) s =
        Some (b, s\<lparr>lhw := h\<rparr>)" "\<not> flag h" by blast
    show ?thesis using Suc.IH [of "s\<lparr>lhw := h\<rparr>" "k + 1"] Some e c by auto
  qed
qed

lemma prompt_set_configuration:
  assumes H: "prompt_host P knock sel flag rest" and "sel (lhw s) = 0"
    and v: "wValue (USB_ControlRequest s) = 1"
  shows "\<exists>h. USB_Device_SetConfiguration P s = Some (s\<lparr>USB_Device_ConfigurationNumber := 1,
      USB_DeviceState := DEVICE_STATE_Configured,
      LineEncoding := \<lparr>BaudRateBPS = 0, CharFormat = 0, ParityType = 0, DataBits = 0\<rparr>,
      HostToDevice := 0, DeviceToHost := 0, lhw := h\<rparr>) \<and> \<not> flag h"
proof -
  obtain h1 where 1: "Endpoint_ClearSETUP P s = s\<lparr>lhw := h1\<rparr>" "sel h1 = 0" "\<not> flag h1"
    using prompt_clear_setup [OF H assms(2)] by metis
  let ?s = "s\<lparr>lhw := h1, USB_Device_ConfigurationNumber := 1\<rparr>"
  obtain t2 where t2: "Endpoint_ClearStatusStage P ?s = Some t2" "undisturbed sel flag rest ?s t2"
    using prompt_status_stage [OF H, of ?s] 1 by auto
  obtain h2 where 2: "t2 = ?s\<lparr>lhw := h2\<rparr>" "\<not> flag h2" using undisturbedE [OF t2(2)] 1 by auto
  let ?t = "t2\<lparr>USB_DeviceState := DEVICE_STATE_Configured,
      LineEncoding := \<lparr>BaudRateBPS = 0, CharFormat = 0, ParityType = 0, DataBits = 0\<rparr>,
      HostToDevice := 0, DeviceToHost := 0\<rparr>"
  obtain b h where "configure_from P VirtualSerial_CDC_Interface (unat (ENDPOINT_TOTAL_ENDPOINTS - 1)) 1 ?t =
      Some (b, ?t\<lparr>lhw := h\<rparr>)" "\<not> flag h"
    using configure_from_calm [OF H, of ?t "unat (ENDPOINT_TOTAL_ENDPOINTS - 1)" 1] 2 by auto
  then show ?thesis
    using 1 2 t2 v
    by (intro exI [of _ h]) (simp add: USB_Device_SetConfiguration_def FIXED_NUM_CONFIGURATIONS_def Let_def
        configured_state_def EVENT_USB_Device_ConfigurationChanged_def CDC_Device_ConfigureEndpoints_def)
qed

lemma prompt_read_8:
  assumes H: "prompt_host P knock sel flag rest" and "sel (lhw s) = 0" and "rest (lhw s) = b # bs"
  obtains h where "Endpoint_Read_8 P s = (b, s\<lparr>lhw := h\<rparr>)" "sel h = 0" "flag h = flag (lhw s)" "rest h = bs"
  using prompt_read [OF H assms(2,3)] soft_eq by metis

lemma word32_bytes:
  fixes v :: u32
  shows "ucast (ucast v :: u8) OR push_bit 8 (ucast (ucast (drop_bit 8 v) :: u8)) OR
    push_bit 16 (ucast (ucast (drop_bit 16 v) :: u8)) OR push_bit 24 (ucast (ucast (drop_bit 24 v) :: u8)) = v"
    (is "?w = v")
proof (rule bit_word_eqI)
  fix n
  assume "n < LENGTH(32)"
  then consider "n < 8" | "8 \<le> n" "n < 16" | "16 \<le> n" "n < 24" | "24 \<le> n" "n < 32" by fastforce
  then show "bit ?w n = bit v n" by cases (auto simp: bit_simps)
qed

lemma prompt_read_32:
  assumes H: "prompt_host P knock sel flag rest" and "sel (lhw s) = 0"
    and "rest (lhw s) = [ucast v, ucast (drop_bit 8 v), ucast (drop_bit 16 v), ucast (drop_bit 24 v)] @ bs"
  obtains h where "Endpoint_Read_32_LE P s = (v, s\<lparr>lhw := h\<rparr>)" "sel h = 0" "flag h = flag (lhw s)" "rest h = bs"
proof -
  obtain h1 where 1: "reg_get P UEDATX s = (ucast v, s\<lparr>lhw := h1\<rparr>)" "sel h1 = 0" "flag h1 = flag (lhw s)"
      "rest h1 = [ucast (drop_bit 8 v), ucast (drop_bit 16 v), ucast (drop_bit 24 v)] @ bs"
    using prompt_read_8 [OF H, of s, unfolded Endpoint_Read_8_def] assms(2,3) by auto
  obtain h2 where 2: "reg_get P UEDATX (s\<lparr>lhw := h1\<rparr>) = (ucast (drop_bit 8 v), s\<lparr>lhw := h2\<rparr>)" "sel h2 = 0"
      "flag h2 = flag (lhw s)" "rest h2 = [ucast (drop_bit 16 v), ucast (drop_bit 24 v)] @ bs"
    using prompt_read_8 [OF H, of "s\<lparr>lhw := h1\<rparr>", unfolded Endpoint_Read_8_def] 1 by auto
  obtain h3 where 3: "reg_get P UEDATX (s\<lparr>lhw := h2\<rparr>) = (ucast (drop_bit 16 v), s\<lparr>lhw := h3\<rparr>)" "sel h3 = 0"
      "flag h3 = flag (lhw s)" "rest h3 = [ucast (drop_bit 24 v)] @ bs"
    using prompt_read_8 [OF H, of "s\<lparr>lhw := h2\<rparr>", unfolded Endpoint_Read_8_def] 2 by auto
  obtain h4 where 4: "reg_get P UEDATX (s\<lparr>lhw := h3\<rparr>) = (ucast (drop_bit 24 v), s\<lparr>lhw := h4\<rparr>)" "sel h4 = 0"
      "flag h4 = flag (lhw s)" "rest h4 = bs"
    using prompt_read_8 [OF H, of "s\<lparr>lhw := h3\<rparr>", unfolded Endpoint_Read_8_def] 3 by auto
  show ?thesis
    by (rule that [of h4]) (simp_all add: Endpoint_Read_32_LE_def 1(1) 2(1) 3(1) 4 word32_bytes)
qed

lemma prompt_set_line_encoding:
  assumes H: "prompt_host P knock sel flag rest" and "sel (lhw s) = 0"
    and "rest (lhw s) = line_coding_bytes e"
  shows "\<exists>h. cdc_set_line_encoding P s = Some (s\<lparr>LineEncoding := e, lhw := h\<rparr>) \<and> \<not> flag h"
proof -
  obtain h1 where 1: "Endpoint_ClearSETUP P s = s\<lparr>lhw := h1\<rparr>" "sel h1 = 0" "\<not> flag h1" "rest h1 = line_coding_bytes e"
    using prompt_clear_setup [OF H assms(2)] assms(3) by metis
  obtain t2 where t2: "Endpoint_IsOUTReceived P (s\<lparr>lhw := h1\<rparr>) = (True, t2)" "undisturbed sel flag rest (s\<lparr>lhw := h1\<rparr>) t2"
    using prompt_tests(2) [OF H, of "s\<lparr>lhw := h1\<rparr>"] 1 by auto
  obtain h2 where 2: "t2 = s\<lparr>lhw := h2\<rparr>" "sel h2 = 0" "\<not> flag h2" "rest h2 = line_coding_bytes e"
    using undisturbedE [OF t2(2)] 1 by auto
  obtain h3 where 3: "Endpoint_Read_32_LE P t2 = (BaudRateBPS e, s\<lparr>lhw := h3\<rparr>)" "sel h3 = 0" "\<not> flag h3"
      "rest h3 = [CharFormat e, ParityType e, DataBits e]"
    using prompt_read_32 [OF H, of t2 "BaudRateBPS e" "[CharFormat e, ParityType e, DataBits e]"] 2
    by (auto simp: line_coding_bytes_def)
  let ?e = "LineEncoding s"
  let ?s4 = "s\<lparr>lhw := h3, LineEncoding := ?e\<lparr>BaudRateBPS := BaudRateBPS e\<rparr>\<rparr>"
  obtain h4 where 4: "Endpoint_Read_8 P ?s4 = (CharFormat e, ?s4\<lparr>lhw := h4\<rparr>)" "sel h4 = 0" "\<not> flag h4"
      "rest h4 = [ParityType e, DataBits e]"
    using prompt_read_8 [OF H, of ?s4] 3 by auto
  let ?s5 = "s\<lparr>lhw := h4, LineEncoding := ?e\<lparr>BaudRateBPS := BaudRateBPS e, CharFormat := CharFormat e\<rparr>\<rparr>"
  obtain h5 where 5: "Endpoint_Read_8 P ?s5 = (ParityType e, ?s5\<lparr>lhw := h5\<rparr>)" "sel h5 = 0" "\<not> flag h5"
      "rest h5 = [DataBits e]"
    using prompt_read_8 [OF H, of ?s5] 4 by auto
  let ?s6 = "s\<lparr>lhw := h5, LineEncoding :=
    ?e\<lparr>BaudRateBPS := BaudRateBPS e, CharFormat := CharFormat e, ParityType := ParityType e\<rparr>\<rparr>"
  obtain h6 where 6: "Endpoint_Read_8 P ?s6 = (DataBits e, ?s6\<lparr>lhw := h6\<rparr>)" "sel h6 = 0" "\<not> flag h6"
    using prompt_read_8 [OF H, of ?s6] 5 by auto
  let ?s7 = "s\<lparr>lhw := h6, LineEncoding := e\<rparr>"
  obtain h7 where 7: "Endpoint_ClearOUT P ?s7 = ?s7\<lparr>lhw := h7\<rparr>" "sel h7 = 0" "\<not> flag h7"
    using undisturbedE [OF prompt_clear(6) [OF H, of ?s7]] 6 by auto
  obtain t8 where t8: "Endpoint_ClearStatusStage P (?s7\<lparr>lhw := h7\<rparr>) = Some t8"
      "undisturbed sel flag rest (?s7\<lparr>lhw := h7\<rparr>) t8"
    using prompt_status_stage [OF H, of "?s7\<lparr>lhw := h7\<rparr>"] 7 by auto
  obtain h8 where 8: "t8 = ?s7\<lparr>lhw := h8\<rparr>" "\<not> flag h8" using undisturbedE [OF t8(2)] 7 by auto
  have e: "?e\<lparr>BaudRateBPS := BaudRateBPS e, CharFormat := CharFormat e, ParityType := ParityType e,
      DataBits := DataBits e\<rparr> = e" by (cases e) simp
  show ?thesis
    using 1(1) spin_at_once [of "Endpoint_IsOUTReceived P", OF t2(1)] 3(1) 4(1) 5(1) 6(1) 7(1) t8(1) 8
    by (simp add: cdc_set_line_encoding_def Let_def e)
qed

section \<open>The interrupt\<close>

lemma prompt_setup_packet:
  assumes "prompt_host P knock sel flag rest" and "sel (lhw s) = 0" and "flag (lhw s)"
  obtains h where "Endpoint_IsSETUPReceived P s = (True, s\<lparr>lhw := h\<rparr>)" "sel h = 0" "flag h" "rest h = rest (lhw s)"
  using prompt_tests(1) [OF assms(1,2)] assms(2,3) undisturbedE by metis

lemma prompt_no_setup_packet:
  assumes "prompt_host P knock sel flag rest" and "\<not> flag (lhw s)"
  obtains h where "Endpoint_IsSETUPReceived P s = (False, s\<lparr>lhw := h\<rparr>)"
  using prompt_not_here [OF assms(1)] assms(2) undisturbedE by metis

lemma prompt_request:
  assumes H: "prompt_host P knock sel flag rest" and "sel (lhw s) = 0" and "flag (lhw s)"
    and "rest (lhw s) = bs @ os" and "length bs = 8"
  obtains h where "read_header P 8 s = (bs, s\<lparr>lhw := h\<rparr>)" "sel h = 0" "flag h" "rest h = os"
  using prompt_header [OF H assms(2,4)] assms(3,5) soft_eq by metis

text \<open>A standard request that the class driver leaves alone.\<close>

lemma prompt_standard:
  assumes H: "prompt_host P knock sel flag rest" and "sel (lhw s) = 0" and "flag (lhw s)"
    and "rest (lhw s) = bs" and "length bs = 8" and "bRequest (request_of bs) \<notin> {0x20, 0x21, 0x22, 0x23}"
    and handler: "\<And>h. sel h = 0 \<Longrightarrow>
      \<exists>h'. standard_request P (s\<lparr>lhw := h, USB_ControlRequest := request_of bs\<rparr>) = Some (t\<lparr>lhw := h'\<rparr>) \<and> \<not> flag h'"
  shows "\<exists>h. USB_Device_ProcessControlRequest P s = Some (t\<lparr>lhw := h\<rparr>)"
proof -
  obtain h1 where 1: "read_header P 8 s = (bs, s\<lparr>lhw := h1\<rparr>)" "sel h1 = 0" "flag h1"
    using prompt_request [OF H assms(2,3) _ assms(5), of "[]"] assms(4) by auto
  let ?s = "s\<lparr>lhw := h1, USB_ControlRequest := request_of bs\<rparr>"
  obtain h2 where 2: "Endpoint_IsSETUPReceived P ?s = (True, ?s\<lparr>lhw := h2\<rparr>)" "sel h2 = 0" "flag h2"
    using prompt_setup_packet [OF H, of ?s] 1 by auto
  have cls: "EVENT_USB_Device_ControlRequest P ?s = Some (?s\<lparr>lhw := h2\<rparr>)"
    using 2(1) assms(6)
    by (simp add: EVENT_USB_Device_ControlRequest_def CDC_Device_ProcessControlRequest_def Let_def)
  obtain h3 where 3: "Endpoint_IsSETUPReceived P (?s\<lparr>lhw := h2\<rparr>) = (True, ?s\<lparr>lhw := h3\<rparr>)" "sel h3 = 0"
    using prompt_setup_packet [OF H, of "?s\<lparr>lhw := h2\<rparr>"] 2 by auto
  obtain h4 where 4: "standard_request P (s\<lparr>lhw := h3, USB_ControlRequest := request_of bs\<rparr>) = Some (t\<lparr>lhw := h4\<rparr>)"
      "\<not> flag h4"
    using handler [OF 3(2)] by blast
  obtain h5 where 5: "Endpoint_IsSETUPReceived P (t\<lparr>lhw := h4\<rparr>) = (False, t\<lparr>lhw := h5\<rparr>)"
    using prompt_no_setup_packet [OF H, of "t\<lparr>lhw := h4\<rparr>"] 4 by auto
  have "?s\<lparr>lhw := h3\<rparr> = s\<lparr>lhw := h3, USB_ControlRequest := request_of bs\<rparr>" by simp
  with 1(1) cls 3(1) 4(1) 5 show ?thesis
    by (intro exI [of _ h5]) (simp add: USB_Device_ProcessControlRequest_def)
qed

lemma prompt_line_coding:
  assumes H: "prompt_host P knock sel flag rest" and "sel (lhw s) = 0" and "flag (lhw s)"
    and "rest (lhw s) = set_line_coding_packet e"
  shows "\<exists>h. USB_Device_ProcessControlRequest P s = Some (s\<lparr>LineEncoding := e, USB_ControlRequest :=
      \<lparr>bmRequestType = 0x21, bRequest = 0x20, wValue = 0, wIndex = 0, wLength = 7\<rparr>, lhw := h\<rparr>)"
proof -
  let ?bs = "[0x21, 0x20, 0, 0, 0, 0, 7, 0] :: bytes"
  have r: "request_of ?bs = \<lparr>bmRequestType = 0x21, bRequest = 0x20, wValue = 0, wIndex = 0, wLength = 7\<rparr>"
    by (simp add: request_of_def be16_def)
  obtain h1 where 1: "read_header P 8 s = (?bs, s\<lparr>lhw := h1\<rparr>)" "sel h1 = 0" "flag h1" "rest h1 = line_coding_bytes e"
    using prompt_request [OF H assms(2,3), of ?bs "line_coding_bytes e"] assms(4)
    by (auto simp: set_line_coding_packet_def)
  let ?s = "s\<lparr>lhw := h1, USB_ControlRequest := request_of ?bs\<rparr>"
  obtain h2 where 2: "Endpoint_IsSETUPReceived P ?s = (True, ?s\<lparr>lhw := h2\<rparr>)" "sel h2 = 0" "rest h2 = line_coding_bytes e"
    using prompt_setup_packet [OF H, of ?s] 1 by auto
  obtain h3 where 3: "cdc_set_line_encoding P (?s\<lparr>lhw := h2\<rparr>) = Some (?s\<lparr>LineEncoding := e, lhw := h3\<rparr>)" "\<not> flag h3"
    using prompt_set_line_encoding [OF H, of "?s\<lparr>lhw := h2\<rparr>" e] 2 by auto
  let ?t = "?s\<lparr>LineEncoding := e\<rparr>"
  have cls: "EVENT_USB_Device_ControlRequest P ?s = Some (?t\<lparr>lhw := h3\<rparr>)"
    using 2(1) 3(1) unfolding r
    by (simp add: EVENT_USB_Device_ControlRequest_def CDC_Device_ProcessControlRequest_def Let_def
        VirtualSerial_CDC_Interface_def)
  obtain h4 where 4: "Endpoint_IsSETUPReceived P (?t\<lparr>lhw := h3\<rparr>) = (False, ?t\<lparr>lhw := h4\<rparr>)"
      "\<not> flag h4"
    using prompt_not_here [OF H, of "?t\<lparr>lhw := h3\<rparr>"] 3(2) by (auto elim!: undisturbedE)
  obtain h5 where 5: "Endpoint_IsSETUPReceived P (?t\<lparr>lhw := h4\<rparr>) = (False, ?t\<lparr>lhw := h5\<rparr>)"
    using prompt_no_setup_packet [OF H, of "?t\<lparr>lhw := h4\<rparr>"] 4(2) by auto
  show ?thesis
    using 1(1) cls 4(1) 5 unfolding r
    by (intro exI [of _ h5]) (simp add: USB_Device_ProcessControlRequest_def r)
qed

lemma prompt_serve:
  assumes H: "prompt_host P knock sel flag rest"
    and process: "\<And>h. sel h = 0 \<Longrightarrow> flag h \<Longrightarrow> rest h = p \<Longrightarrow>
      \<exists>h'. USB_Device_ProcessControlRequest P (s\<lparr>lhw := h, GlobalInt := GlobalInt s OR mask_bit 7\<rparr>) =
        Some (t\<lparr>lhw := h'\<rparr>)"
  shows "\<exists>h. serve P knock p s = Some (t\<lparr>lhw := h\<rparr>)"
proof -
  let ?s0 = "s\<lparr>lhw := knock p (lhw s)\<rparr>"
  have a: "flag (lhw ?s0)" "rest (lhw ?s0) = p" using H by (simp_all add: prompt_host_def)
  obtain n s1 where s1: "Endpoint_GetCurrentEndpoint P ?s0 = (n, s1)" by fastforce
  then have e: "s1 = snd (reg_get P UENUM ?s0)" by (auto simp: Endpoint_GetCurrentEndpoint_def split_beta)
  have "soft s1 = soft ?s0" unfolding e by simp
  moreover have "flag (lhw s1)" "rest (lhw s1) = p"
    using prompt_regs(5,6) [OF H, of UENUM ?s0] a unfolding e by simp_all
  moreover define s2 where "s2 = clear_bits P UEIENX (mask_bit RXSTPE) (Endpoint_SelectEndpoint P ENDPOINT_CONTROLEP s1)"
  moreover have "undisturbed sel flag rest (Endpoint_SelectEndpoint P ENDPOINT_CONTROLEP s1) s2"
    unfolding s2_def by (rule prompt_bits [OF H]) simp_all
  ultimately have s2: "soft s2 = soft s" "sel (lhw s2) = 0" "flag (lhw s2)" "rest (lhw s2) = p"
    using prompt_select [OF H, of ENDPOINT_CONTROLEP s1]
    by (simp_all add: undisturbed_def soft_def)
  then obtain h2 where h2: "s2 = s\<lparr>lhw := h2\<rparr>" "sel h2 = 0" "flag h2" "rest h2 = p"
    using soft_eq [of s2 s] by auto
  obtain h3 where h3: "USB_Device_ProcessControlRequest P (s\<lparr>lhw := h2, GlobalInt := GlobalInt s OR mask_bit 7\<rparr>) =
      Some (t\<lparr>lhw := h3\<rparr>)"
    using process [OF h2(2-4)] by blast
  let ?u = "Endpoint_SelectEndpoint P n (set_bits P UEIENX (mask_bit RXSTPE)
      (Endpoint_SelectEndpoint P ENDPOINT_CONTROLEP (t\<lparr>lhw := h3\<rparr>)))"
  have "soft ?u = soft t"
    using prompt_select(1) [OF H] by simp (simp add: soft_def)
  then have "?u = t\<lparr>lhw := lhw ?u\<rparr>" by (rule soft_eq)
  moreover have "serve P knock p s = Some ?u"
    using s1 h3 h2(1) unfolding serve_def lufa_COM_vect_def s2_def by (simp add: Let_def)
  ultimately show ?thesis by auto
qed

section \<open>The way to an open port\<close>

lemma reset_state:
  "\<exists>h. on_reset P s = Some (s\<lparr>USB_DeviceState := DEVICE_STATE_Default, USB_Device_ConfigurationNumber := 0, lhw := h\<rparr>)"
proof -
  let ?c = "USB_INT_Clear P USB_INT_EORSTI s"
  let ?s = "?c\<lparr>USB_DeviceState := DEVICE_STATE_Default, USB_Device_ConfigurationNumber := 0\<rparr>"
  obtain t where t: "on_reset P s = Some t"
    by (auto simp: on_reset_def configure_control_def Endpoint_ConfigureEndpoint_def control_size Let_def
        FIXED_CONTROL_ENDPOINT_SIZE_def split_beta)
  then have "soft t = soft ?s"
    using configure_soft by (fastforce simp: on_reset_def Let_def split: Option.bind_splits)
  then obtain k where k: "t = ?s\<lparr>lhw := k\<rparr>" using soft_eq by metis
  have "soft ?c = soft s" by simp
  then obtain h where "?c = s\<lparr>lhw := h\<rparr>" using soft_eq by metis
  with k have "t = s\<lparr>USB_DeviceState := DEVICE_STATE_Default, USB_Device_ConfigurationNumber := 0, lhw := k\<rparr>"
    by simp
  with t show ?thesis by metis
qed

lemma set_address_request: "request_of (set_address_packet a) =
    \<lparr>bmRequestType = 0, bRequest = 5, wValue = ucast a, wIndex = 0, wLength = 0\<rparr>"
  and set_configuration_request: "request_of (set_configuration_packet a) =
    \<lparr>bmRequestType = 0, bRequest = 9, wValue = ucast a, wIndex = 0, wLength = 0\<rparr>"
  by (simp_all add: request_of_def set_address_packet_def set_configuration_packet_def be16_def)

lemma serve_set_address:
  fixes a :: u8
  assumes H: "prompt_host P knock sel flag rest"
  shows "\<exists>h. serve P knock (set_address_packet a) s = Some (s\<lparr>GlobalInt := GlobalInt s OR mask_bit 7,
      USB_ControlRequest := request_of (set_address_packet a), USB_DeviceState :=
      (if a AND 0x7F \<noteq> 0 then DEVICE_STATE_Addressed else DEVICE_STATE_Default), lhw := h\<rparr>)"
proof -
  let ?r = "request_of (set_address_packet a)"
  let ?t = "s\<lparr>GlobalInt := GlobalInt s OR mask_bit 7, USB_ControlRequest := ?r, USB_DeviceState :=
      (if a AND 0x7F \<noteq> 0 then DEVICE_STATE_Addressed else DEVICE_STATE_Default)\<rparr>"
  have "\<exists>h'. standard_request P (s\<lparr>lhw := h, GlobalInt := GlobalInt s OR mask_bit 7, lhw := k,
      USB_ControlRequest := ?r\<rparr>) = Some (?t\<lparr>lhw := h'\<rparr>) \<and> \<not> flag h'" if "sel k = 0" for h k
  proof -
    let ?s = "s\<lparr>lhw := h, GlobalInt := GlobalInt s OR mask_bit 7, lhw := k, USB_ControlRequest := ?r\<rparr>"
    have "standard_request P ?s = USB_Device_SetAddress P ?s"
      by (simp add: standard_request_def set_address_request Let_def)
    moreover have "wValue (USB_ControlRequest ?s) = ucast a" by (simp add: set_address_request)
    ultimately show ?thesis using prompt_set_address [OF H, of ?s a] that by auto
  qed
  then have "\<exists>h'. USB_Device_ProcessControlRequest P (s\<lparr>lhw := h, GlobalInt := GlobalInt s OR mask_bit 7\<rparr>) =
      Some (?t\<lparr>lhw := h'\<rparr>)" if "sel h = 0" "flag h" "rest h = set_address_packet a" for h
    by (intro prompt_standard [OF H, of _ "set_address_packet a"])
      (use that in \<open>simp_all add: set_address_request\<close>, simp add: set_address_packet_def)
  then have "\<exists>h. serve P knock (set_address_packet a) s = Some (?t\<lparr>lhw := h\<rparr>)"
    by (rule prompt_serve [OF H])
  then show ?thesis by simp
qed

lemma serve_set_configuration:
  assumes H: "prompt_host P knock sel flag rest"
  shows "\<exists>h. serve P knock (set_configuration_packet 1) s = Some (s\<lparr>GlobalInt := GlobalInt s OR mask_bit 7,
      USB_ControlRequest := request_of (set_configuration_packet 1), USB_Device_ConfigurationNumber := 1,
      USB_DeviceState := DEVICE_STATE_Configured,
      LineEncoding := \<lparr>BaudRateBPS = 0, CharFormat = 0, ParityType = 0, DataBits = 0\<rparr>,
      HostToDevice := 0, DeviceToHost := 0, lhw := h\<rparr>)"
proof -
  let ?r = "request_of (set_configuration_packet 1)"
  let ?t = "s\<lparr>GlobalInt := GlobalInt s OR mask_bit 7, USB_ControlRequest := ?r,
      USB_Device_ConfigurationNumber := 1, USB_DeviceState := DEVICE_STATE_Configured,
      LineEncoding := \<lparr>BaudRateBPS = 0, CharFormat = 0, ParityType = 0, DataBits = 0\<rparr>,
      HostToDevice := 0, DeviceToHost := 0\<rparr>"
  have "\<exists>h'. standard_request P (s\<lparr>lhw := h, GlobalInt := GlobalInt s OR mask_bit 7, lhw := k,
      USB_ControlRequest := ?r\<rparr>) = Some (?t\<lparr>lhw := h'\<rparr>) \<and> \<not> flag h'" if "sel k = 0" for h k
  proof -
    let ?s = "s\<lparr>lhw := h, GlobalInt := GlobalInt s OR mask_bit 7, lhw := k, USB_ControlRequest := ?r\<rparr>"
    have "standard_request P ?s = USB_Device_SetConfiguration P ?s"
      by (simp add: standard_request_def set_configuration_request Let_def)
    moreover have "wValue (USB_ControlRequest ?s) = 1" by (simp add: set_configuration_request)
    ultimately show ?thesis using prompt_set_configuration [OF H, of ?s] that by auto
  qed
  then have "\<exists>h'. USB_Device_ProcessControlRequest P (s\<lparr>lhw := h, GlobalInt := GlobalInt s OR mask_bit 7\<rparr>) =
      Some (?t\<lparr>lhw := h'\<rparr>)" if "sel h = 0" "flag h" "rest h = set_configuration_packet 1" for h
    by (intro prompt_standard [OF H, of _ "set_configuration_packet 1"])
      (use that in \<open>simp_all add: set_configuration_request\<close>, simp add: set_configuration_packet_def)
  then have "\<exists>h. serve P knock (set_configuration_packet 1) s = Some (?t\<lparr>lhw := h\<rparr>)"
    by (rule prompt_serve [OF H])
  then show ?thesis by simp
qed

lemma serve_set_line_coding:
  assumes H: "prompt_host P knock sel flag rest"
  shows "\<exists>h. serve P knock (set_line_coding_packet e) s = Some (s\<lparr>GlobalInt := GlobalInt s OR mask_bit 7,
      LineEncoding := e, USB_ControlRequest :=
      \<lparr>bmRequestType = 0x21, bRequest = 0x20, wValue = 0, wIndex = 0, wLength = 7\<rparr>, lhw := h\<rparr>)"
proof (rule prompt_serve [OF H])
  fix h
  assume h: "sel h = 0" "flag h" "rest h = set_line_coding_packet e"
  show "\<exists>h'. USB_Device_ProcessControlRequest P (s\<lparr>lhw := h, GlobalInt := GlobalInt s OR mask_bit 7\<rparr>) =
      Some (s\<lparr>GlobalInt := GlobalInt s OR mask_bit 7, LineEncoding := e, USB_ControlRequest :=
      \<lparr>bmRequestType = 0x21, bRequest = 0x20, wValue = 0, wIndex = 0, wLength = 7\<rparr>, lhw := h'\<rparr>)"
    using prompt_line_coding [OF H, of "s\<lparr>lhw := h, GlobalInt := GlobalInt s OR mask_bit 7\<rparr>" e] h by simp
qed

lemma enumeration:
  assumes H: "prompt_host P knock sel flag rest"
  shows "\<exists>t. host_enumerates P knock a e s = Some t \<and> USB_DeviceState t = DEVICE_STATE_Configured \<and>
    USB_Device_ConfigurationNumber t = 1 \<and> LineEncoding t = e"
proof -
  obtain t0 where "on_reset P s = Some t0" using reset_state [of P s] by (elim exE)
  moreover obtain t1 where "serve P knock (set_address_packet a) t0 = Some t1"
    using serve_set_address [OF H, of a t0] by (elim exE)
  moreover obtain t2 where "serve P knock (set_configuration_packet 1) t1 = Some t2"
      "USB_DeviceState t2 = DEVICE_STATE_Configured" "USB_Device_ConfigurationNumber t2 = 1"
    using serve_set_configuration [OF H, of t1] by (elim exE) simp
  moreover obtain t3 where "serve P knock (set_line_coding_packet e) t2 = Some t3"
      "USB_DeviceState t3 = USB_DeviceState t2" "LineEncoding t3 = e"
      "USB_Device_ConfigurationNumber t3 = USB_Device_ConfigurationNumber t2"
    using serve_set_line_coding [OF H, of e t2] by (elim exE) simp
  ultimately show ?thesis by (simp add: host_enumerates_def)
qed

text \<open>The controller in memory, to which a packet comes, has such a host.\<close>

definition sim_arrive :: "bytes \<Rightarrow> sim \<Rightarrow> sim" where
  "sim_arrive p h = h\<lparr>sim_setup := p, sim_flag := True\<rparr>"

lemma sim_prompt_host: "prompt_host (sim_platform 0) sim_arrive sim_ep sim_flag sim_setup"
proof -
  have "sim_ep (sim_out r v h) = (if r = UENUM then v else sim_ep h)"
    "sim_setup (sim_out r v h) = sim_setup h"
    "sim_flag (sim_out r v h) = (if r = UEINTX \<and> sim_ep h = 0 then sim_flag h \<and> bit v RXSTPI else sim_flag h)"
    for r v h by (cases r; auto simp: sim_ack_def)+
  moreover have "r \<noteq> UEDATX \<Longrightarrow> sim_setup (snd (sim_in 0 r h)) = sim_setup h" for r h
    by (cases r) simp_all
  ultimately show ?thesis
    unfolding prompt_host_def
    by (auto simp: sim_in_keeps sim_flags_def bit_simps sim_arrive_def host_has_all_def)
qed

end
