(* ===== verification/Spec2Isabelle.thy ===== *)
theory Spec2Isabelle
  imports MainFeed VncSteps Eink FrameServer UsbTestLink LufaEnumeration
begin

text \<open>
  The Networked-Display repository: a small panel on an AVR microcontroller that shows the screen of
  a VNC server, with the programs that were written on the way to it. This development models
  four of its programs, with the part of the LUFA USB library that one of them can be built on, and
  proves what they do.

  \<^bold>\<open>The VNC client\<close> (\<open>LCD Test/\<close>). The main loop (\<open>main.c\<close>) takes bytes from a
  serial link (\<open>VncServerComms.c\<close> over \<open>usb_serial.c\<close>, \<open>buffuart.c\<close> or LUFA), hands
  all that it has to \<open>Vnc_ProcessVncBuffer\<close> (\<open>vnc.c\<close>), moves what was not decoded to the front of
  its buffer, and sends the message that \<open>Vnc_LoadResponseBuffer\<close> has prepared. The decoder draws
  through the panel driver that \<open>VncDisplay.h\<close> selects (\<open>SpiLcd.c\<close>, \<open>ParallelLcd.c\<close>);
  the debouncer (\<open>Buttons.c\<close>) gives keys to be sent.

    \<^item> \<open>Prelude\<close>: integer types, arithmetic of bytes, lists. \<open>RxCursor\<close>: \<open>dataPtr\<close> and
      \<open>dataSize\<close> as a cursor in a buffer that records reads behind its end; the locale
      \<open>incremental\<close> of routines that wait when bytes are missing and go on when they arrive.
    \<^item> \<open>DisplayIface\<close>: the panel driver as a record of operations; its contract as the locales
      \<open>raw_display\<close> and \<open>tile_display\<close>. \<open>SpiLcd\<close>, \<open>ParallelLcd\<close>, \<open>VncDisplay\<close>: the two
      drivers with the bytes they put on their buses, and their interpretations of the contract.
    \<^item> \<open>VncTypes\<close>, \<open>Hextile\<close>, \<open>VncMachine\<close>, \<open>VncResponse\<close>: the data of \<open>vnc.c\<close>,
      \<open>processHextile\<close>, \<open>pixelProcessor\<close> and \<open>Vnc_StateMachine\<close>, the messages. A \<open>case\<close> of a
      \<open>switch\<close> is a definition, and a loop \<open>while(f());\<close> a function with a measure.
    \<^item> \<open>HextileResume\<close>, \<open>VncResume\<close>, \<open>VncSafety\<close>, \<open>VncSession\<close>: each routine can be
      stopped anywhere in the stream, reads only inside its buffer and reports the undecoded end,
      so that the outcome depends on the bytes and not on their cuts (C4, C6).
    \<^item> \<open>HextileSpec\<close>, \<open>HextileRect\<close>, \<open>VncUpdate\<close>: an encoder of hextile tiles, rectangles
      and framebuffer updates as the protocol has them, and the decoder as its inverse (C2, C3, C5);
      what the decoder does with a subrectangle outside its tile is C11.
    \<^item> \<open>VncProtocol\<close>: the connection as an abstract machine (\<open>session\<close>) that decides on the bytes of
      the server and sends messages given by their bytes (\<open>message_bytes\<close>); the code (\<open>client\<close>, the
      calls with the bytes they take and the responses they load) refines it, and what it has sent and
      heard in each state is an invariant (C12 to C14). \<open>VncSteps\<close>: how often the loops turn (C27, C28).
    \<^item> \<open>UsbSerial\<close>, \<open>UsbControl\<close>, \<open>UsbLemmas\<close>: the USB serial port over a controller that is a
      parameter, in the state monad, with its descriptors, its functions and its two interrupts
      (C15 to C19). Loops that wait for the controller are given the turns it takes; None is a
      wait that does not end. The interrupts that come between the packets of \<open>usb_serial_write\<close> act
      where one packet ends. What is written is counted for the endpoint that is selected
      (\<open>ep_fifo\<close>). \<open>UsbPort\<close>: a controller in memory that a host feeds, for examples.
      \<open>BuffUart\<close> (C29, C30), \<open>Buttons\<close> (C31).
    \<^item> \<open>ServerComms\<close>: the link in three variants, with the locales \<open>server_comms\<close> and
      \<open>reliable_comms\<close>. \<open>MainLoop\<close>, \<open>VncSendState\<close>, \<open>MainSystem\<close>: the main loop over any
      reliable link and any display that keep their contracts, and the whole program as interpretations
      for both panels and the two links that send all they are given (C1, C7, C8, C10). \<open>MainTape\<close>:
      the same loop with a tape of what passes over the link, for what the program says to the server
      (C9). \<open>MainFeed\<close>: rounds over the controller of \<open>UsbPort\<close>, which show that the rounds these
      properties speak of exist.

  \<^bold>\<open>The link over LUFA\<close> (\<open>LUFA-120219/LUFA/Drivers/\<close>). The serial link can be built on the
  LUFA library instead of \<open>usb_serial.c\<close>; its device side is modelled with the options of
  \<open>Projects/USBtoSerial\<close>, from which the link was taken, for the ATmega32U4. The state of the library is
  the record \<open>lufa\<close> (device state, request, configuration, line encoding, the controller behind
  its registers); the functions take a \<open>platform\<close>, which is the controller, what happens between
  two rounds of a waiting loop, and how long a wait may be.

    \<^item> \<open>RingBuffer\<close> (\<open>Misc/RingBuffer.h\<close>), with the interpretation of the locale \<open>fifo\<close>.
      \<open>LufaEndpoint\<close> (\<open>Endpoint_AVR8\<close>, \<open>EndpointStream_AVR8\<close> and its templates),
      \<open>LufaDescriptors\<close> (\<open>LCD Test/Descriptors.c\<close>), \<open>LufaDevice\<close> (the requests:
      \<open>DeviceStandardReq.c\<close>, \<open>CDCClassDevice.c\<close>, \<open>USBTask.c\<close>), \<open>LufaController\<close>
      (\<open>USBController_AVR8\<close>, \<open>USBInterrupt_AVR8\<close>), \<open>LufaCdc\<close> (the data of the CDC class).
      \<open>ServerComms\<close> has the functions of \<open>VncServerComms.c\<close> on top of them.
    \<^item> \<open>LufaLemmas\<close>, \<open>LufaRequests\<close>: what is assumed of the controller (\<open>out_endpoint\<close>,
      \<open>in_endpoint\<close>, \<open>lufa_clock\<close>, \<open>control_host\<close>, \<open>setup_packet\<close>, \<open>address_register\<close>) and
      what follows for data (C20 to C22), descriptors (C23) and requests (C25, C26).
      \<open>LufaStreams\<close>: the endpoint functions and streams of the library that the link does not call,
      with the stream that reads across packets. \<open>LufaPlatform\<close>: a controller in memory that
      satisfies all that is assumed. \<open>LufaEnumeration\<close>: the way from a reset to an open port for a
      host that answers every wait (\<open>prompt_host\<close>), through the interrupts (C24).

  \<^bold>\<open>The file viewer\<close> (\<open>RFBFileTest/\<close>). An earlier decoder for recorded rectangles
  (\<open>hextile.c\<close>: \<open>RfbHextile\<close>), the program that cuts a file into pieces for it (\<open>main.c\<close>:
  \<open>RfbFile\<close>), and its panels (\<open>eink.c\<close>, \<open>SpiLcd.c\<close>: \<open>Eink\<close>). \<open>tiles_read\<close> says what the
  file holds; C32 and C33 say when the program gets through it, C34 what it reads too far (each
  read of the buffer is checked by itself, \<open>reads_past\<close>), and C35
  what it does in fact, as its loop has no end. The contract of the panel is the locale \<open>raw_panel\<close>.

  \<^bold>\<open>The frame server\<close> (\<open>FrameServer/frameserver.c\<close>: \<open>FrameServer\<close>). It compares a picture
  with its frame buffer and marks the rectangle that has changed (C36), and passes keys on (C37), which
  come in a thread of their own, between the rounds of the main loop or while it writes a saved key.

  \<^bold>\<open>The USB test\<close> (\<open>libusbtest/\<close>). The control endpoint of the software driver
  (\<open>usbdrv.c\<close>: \<open>VUsb\<close>) with the contract of its application as the locale \<open>usb_application\<close>, the
  test device (\<open>firmware/main.c\<close>: \<open>UsbTestDevice\<close>), the host program (\<open>commandline/main.c\<close>:
  \<open>UsbTestHost\<close>) and both together (\<open>UsbTestLink\<close>): C38 to C40. The USB library of the host is a
  parameter; \<open>bus_writes\<close> and \<open>bus_reads\<close> state what the program relies on, control transfers whose
  result depends on what the device has answered, and \<open>bus_transfer\<close> is one that keeps them.

  \<^bold>\<open>Conventions.\<close> AVR integers are words of their width, with \<open>int\<close> of 16 bits; where C has
  signed overflow, which is not defined, the theory says which range is meant. A result that is an
  error or a wait without end is None. An access outside an object sets a flag (\<open>oob\<close>,
  \<open>hoob\<close>, \<open>fault\<close>) and leaves memory alone, and the theorems say when the flag stays down or
  must rise. The flags \<open>hoob\<close> and \<open>memfault\<close> stay up: after such an access, which in C changes other
  variables, the model says nothing of the program any more (C7). Drivers log what leaves the processor: transfers with the levels of their control lines,
  latched words, delays. The properties below are in this theory; each rests on lemmas of the
  theory of its component.

  \<^bold>\<open>Bounds.\<close> The loops of \<open>vnc.c\<close> have measures (three rounds per byte and three more, and four per
  byte and four more) and need no fuel,
  the loop over the file is a partial function whose end is what C32 proves, and the waits for
  hardware of the other programs take a list of the events that come while they wait. C1 to C4
  hold for streams of any length that the 16-bit counters can hold. The waits of the LUFA library
  are given up after \<open>patience\<close> rounds with the result None. C21 needs 101, as the library itself
  gives up when the frame number has changed 101 times and the hypothesis \<open>lufa_clock\<close> changes it in
  each round; C23 needs nine, as a descriptor has at most 62 bytes in packets of eight. Both
  prove that the functions return. The library of C38 must try 29 times to read 230 bytes, in packets of
  eight.

  \<^bold>\<open>Not modelled.\<close> Of the LUFA library: host mode and pipes, the classes other than CDC, other
  controllers, the drivers for boards; its demos, projects and bootloaders are third-party
  programs that the repository keeps and does not build. The assembler part of the software USB
  driver (its packets are events); the tools on the desktop that only call image libraries
  (\<open>ImageTool\<close>); the e-paper demo for Arduino in C++; the Processing sketch. The copies of
  \<open>usb_serial.c\<close> and \<open>buffuart.c\<close> in the file viewer are the files modelled above. The texts of
  debug messages (\<open>Debug.c\<close>) and the contents of status registers that no code reads are left out.
\<close>

section \<open>The receive path\<close>

text \<open>A state whose receive routine is called with the bytes \<open>bs\<close>, for the examples.\<close>

definition feed :: "bytes \<Rightarrow> 'd vnc \<Rightarrow> 'd vnc" where
  "feed bs s = start_buffer bs (of_nat (length bs)) s"

lemmas feed_simps = feed_def start_buffer_def vnc_boot_def at_bytes_def cwf_def view_def

lemmas eval_process = process_loop vnc_loop.simps Vnc_StateMachine_def start_buffer_def vnc_boot_def
  consume_to_def view_def advance_def touch_def peek_def forget_def arrive_def Let_def

text \<open>
  C2. A framebuffer update of hextile rectangles is shown by the SPI panel however its bytes
  are cut into arrivals and whenever the client is called: once enough calls are made the
  whole message has been consumed, no access has left a buffer, the next refresh request is
  due, and the wire has carried the window and the pixels of each tile of each rectangle, in
  order and in the colours the protocol gives it, except for tiles not wholly on the screen.
\<close>

theorem spi_update_shown:
  assumes "VNCstate s \<in> {VNCSTATE_WAITFORUPDATE, VNCSTATE_CONNECTED_REFRESH}"
    and "length (hextileBuffer s) = 512" and "list_all rect_ok rs"
    and "length (encode_update rs) \<le> 65535" and "stream es = encode_update rs"
  shows "\<exists>i t. run spi_display (es @ replicate i Call) ([], s) = ([], t) \<and>
    VNCstate t = VNCSTATE_CONNECTED_REFRESH \<and> same_flags s t \<and>
    wire (panel t) = wire (panel s) @ update_log window_events pixel_events (colours s) rs"
  using spi.update_shown [OF assms(1,2) TrueI _ assms(3-5)] length_encode_update [of rs] assms(4)
  by simp

theorem spi_update_shown_witness:
  "\<exists>i t. run spi_display
      ([Arrive (take 9 (encode_update [(3, 4, 2, 1, [Raw [0xF800, 0x001F]])])), Call,
        Arrive (drop 9 (encode_update [(3, 4, 2, 1, [Raw [0xF800, 0x001F]])]))] @ replicate i Call)
      ([], (vnc_boot spi_boot)\<lparr>VNCstate := VNCSTATE_WAITFORUPDATE\<rparr>) = ([], t) \<and>
    wire (panel t) = window_events 3 4 2 1 @ pixel_events 0xF800 @ pixel_events 0x001F"
proof -
  let ?r = "(3, 4, 2, 1, [Raw [0xF800, 0x001F]])"
  have "rect_ok ?r" and "update_log window_events pixel_events c [?r] =
      window_events 3 4 2 1 @ pixel_events 0xF800 @ pixel_events 0x001F" for c
    by (simp_all add: contents_fit_def tiles_def spans.simps tile_row_def place_log_def
        place_outside_def SCREEN_WIDTH_def SCREEN_HEIGHT_def)
  with spi_update_shown [of "(vnc_boot spi_boot)\<lparr>VNCstate := VNCSTATE_WAITFORUPDATE\<rparr>" "[?r]"
      "[Arrive (take 9 (encode_update [?r])), Call, Arrive (drop 9 (encode_update [?r]))]"]
  show ?thesis
    by (fastforce simp: vnc_boot_def spi_boot_def encode_update_def encode_rect_def
        hextile_header_def encode_pixel_def)
qed

text \<open>
  C3. The same on the parallel bus, from any state its initialisation has made ready.
\<close>

theorem parallel_update_shown:
  assumes "VNCstate s \<in> {VNCSTATE_WAITFORUPDATE, VNCSTATE_CONNECTED_REFRESH}"
    and "length (hextileBuffer s) = 512" and "ready (panel s)" and "list_all rect_ok rs"
    and "length (encode_update rs) \<le> 65535" and "stream es = encode_update rs"
  shows "\<exists>i t. run parallel_display (es @ replicate i Call) ([], s) = ([], t) \<and>
    VNCstate t = VNCSTATE_CONNECTED_REFRESH \<and> same_flags s t \<and>
    bus (panel t) = bus (panel s) @ update_log par_window data_events (colours s) rs"
  using par.update_shown [OF assms(1-3) _ assms(4-6)] length_encode_update [of rs] assms(5)
  by simp

theorem parallel_update_shown_witness:
  "\<exists>i t. run parallel_display
      ([Arrive (take 9 (encode_update [(3, 4, 2, 1, [Raw [0xF800, 0x001F]])])), Call,
        Arrive (drop 9 (encode_update [(3, 4, 2, 1, [Raw [0xF800, 0x001F]])]))] @ replicate i Call)
      ([], (vnc_boot (par_LcdInit parallel_boot))\<lparr>VNCstate := VNCSTATE_WAITFORUPDATE\<rparr>) = ([], t) \<and>
    bus (panel t) = bus (par_LcdInit parallel_boot) @ par_window 3 4 2 1 @
      data_events 0xF800 @ data_events 0x001F"
proof -
  let ?r = "(3, 4, 2, 1, [Raw [0xF800, 0x001F]])"
  have "rect_ok ?r" and "update_log par_window data_events c [?r] =
      par_window 3 4 2 1 @ data_events 0xF800 @ data_events 0x001F" for c
    by (simp_all add: contents_fit_def tiles_def spans.simps tile_row_def place_log_def
        place_outside_def SCREEN_WIDTH_def SCREEN_HEIGHT_def)
  with parallel_update_shown [of "(vnc_boot (par_LcdInit parallel_boot))\<lparr>VNCstate := VNCSTATE_WAITFORUPDATE\<rparr>"
      "[?r]" "[Arrive (take 9 (encode_update [?r])), Call, Arrive (drop 9 (encode_update [?r]))]"]
  show ?thesis
    by (fastforce simp: vnc_boot_def ready_LcdInit encode_update_def encode_rect_def
        hextile_header_def encode_pixel_def)
qed

text \<open>
  C4. With the SPI panel, the outcome of the receive side depends only on the stream of
  bytes: two schedules of arrivals and calls that carry the same stream, cut and interleaved
  in any way, reach the same state (panel, connection, undecoded bytes) once enough further
  calls are made.
\<close>

theorem spi_schedules_agree:
  assumes "stream es = stream fs" and "fits spi_display es c" and "fits spi_display fs c"
  shows "\<exists>i j. run spi_display (es @ replicate i Call) c = run spi_display (fs @ replicate j Call) c"
  using assms by (rule spi.schedules_meet)

theorem spi_schedules_agree_witness:
  "\<exists>i j.
     run spi_display ([Arrive (map char8 ''RFB 003.003'' @ [10]), Call] @ replicate i Call)
       ([], vnc_boot spi_boot) =
     run spi_display ([Arrive (map char8 ''RFB 0''), Call, Arrive (map char8 ''03.003'' @ [10]), Call] @
         replicate j Call) ([], vnc_boot spi_boot)"
  by (rule spi_schedules_agree; simp add: eval_process word_le_nat_alt)

text \<open>
  The same with the panel on the parallel bus.
\<close>

theorem parallel_schedules_agree:
  assumes "stream es = stream fs" and "fits parallel_display es c"
    and "fits parallel_display fs c"
  shows "\<exists>i j. run parallel_display (es @ replicate i Call) c =
    run parallel_display (fs @ replicate j Call) c"
  using assms by (rule par.schedules_meet)

theorem parallel_schedules_agree_witness:
  "\<exists>i j.
     run parallel_display ([Arrive (map char8 ''RFB 003.003'' @ [10]), Call] @ replicate i Call)
       ([], vnc_boot parallel_boot) =
     run parallel_display ([Arrive (map char8 ''RFB 0''), Call, Arrive (map char8 ''03.003'' @ [10]), Call] @
         replicate j Call) ([], vnc_boot parallel_boot)"
  by (rule parallel_schedules_agree; simp add: eval_process word_le_nat_alt)

text \<open>
  C5. Decoding an encoded tile gives back its picture in the tile buffer, the colours it
  sets, and the position behind it, and stores nothing outside the buffer.
\<close>

theorem tile_roundtrip:
  assumes "hextileState s = HEXTILESTATE_PARSEHEADER"
    and "at_bytes s (encode_tile bg fg subs @ rest)" and "length (hextileBuffer s) = 512"
    and "tile_ok subs"
  shows "shows_tile (decoded_tile D s)
      (tile_picture (fst (tile_bg bg fg s)) (snd (tile_bg bg fg s)) subs) \<and>
    at_bytes (decoded_tile D s) rest \<and> hoob (decoded_tile D s) = hoob s \<and>
    hextileState (decoded_tile D s) = HEXTILESTATE_DONE \<and>
    (background (decoded_tile D s), foreground (decoded_tile D s)) = tile_bg bg fg s"
  using decode_tile [OF assms, of D] by simp

theorem tile_roundtrip_witness:
  "shows_tile (decoded_tile spi_display
       (feed (encode_tile (Some 5) None (Coloured [(7, 1, 2, 3, 4)]) @ [9])
         ((vnc_boot spi_boot)\<lparr>hextileState := HEXTILESTATE_PARSEHEADER\<rparr>)))
     (tile_picture 5 0 (Coloured [(7, 1, 2, 3, 4)]))"
  using tile_roundtrip [of "feed (encode_tile (Some 5) None (Coloured [(7, 1, 2, 3, 4)]) @ [9])
       ((vnc_boot spi_boot)\<lparr>hextileState := HEXTILESTATE_PARSEHEADER\<rparr>)" "Some 5" None
       "Coloured [(7, 1, 2, 3, 4)]" "[9]" spi_display]
  by (simp add: feed_simps encode_tile_def encode_pixel_def tile_ok_def tile_bg_def)

text \<open>
  C6. \<open>Vnc_ProcessVncBuffer\<close> never reads outside the buffer it is given, and the remainder
  it reports is the end of that buffer it has not decoded, unless the connection is in one of
  its final states, where it reports -1 as an unsigned value.
\<close>

theorem remainder_is_tail:
  assumes "length buffer \<le> 65535"
    and "Vnc_ProcessVncBuffer D buffer (of_nat (length buffer)) s = (r, t)"
  shows "oob (cur t) = oob (cur s) \<and>
    (unat r \<le> length buffer \<and> view (cur t) = drop (length buffer - unat r) buffer \<or>
     r = 65535 \<and> VNCstate t \<in> {VNCSTATE_DEAD, VNCSTATE_AUTHFAILED, VNCSTATE_PROCESSDONE})"
  using Vnc_ProcessVncBuffer_remainder [OF assms] by simp

theorem remainder_is_tail_witness:
  "\<not> oob (cur (snd (Vnc_ProcessVncBuffer spi_display (replicate 13 7) 13 (vnc_boot spi_boot))))"
  using remainder_is_tail [of "replicate 13 7" spi_display "vnc_boot spi_boot"
      "fst (Vnc_ProcessVncBuffer spi_display (replicate 13 7) 13 (vnc_boot spi_boot))"
      "snd (Vnc_ProcessVncBuffer spi_display (replicate 13 7) 13 (vnc_boot spi_boot))"]
  by (simp add: vnc_boot_def)

text \<open>
  C11. A subrectangle is stored outside the tile buffer exactly when it ends below row 15, or
  on row 15 beyond column 15; nothing in the decoder keeps a server from sending one.
\<close>

theorem subrect_fault_iff:
  "length (hextileBuffer s) = 512 \<Longrightarrow>
     hoob (draw_subrect c a b s) \<longleftrightarrow>
       hoob s \<or> 16 \<le> corner_y1 a b \<or> corner_y1 a b = 15 \<and> 16 \<le> corner_x1 a b"
  using draw_subrect_hoob [of s c a b] unat_u8_less [of a] unat_u8_less [of b]
  by (auto simp: corner_x1_def)

theorem subrect_fault_iff_witness: "hoob (draw_subrect 0 0x0F 0x01 (vnc_boot spi_boot))"
  using subrect_fault_iff [of "vnc_boot spi_boot" 0 "0x0F" "0x01"]
  by (simp add: vnc_boot_def corner_y1_def)

section \<open>The connection\<close>

text \<open>
  C12. The connection code refines the abstract session machine. After any calls the main loop can
  make, the bytes taken from the server lead the machine, which decides by what they are, to the state
  the client is in, and the responses put in the buffer are, byte for byte, the machine's messages.
\<close>

theorem client_refines_session:
  assumes "client D out r s"
  shows "\<exists>h. session h r (phase s) \<and> out = map message_bytes h"
  using assms by (rule client_session)

text \<open>
  A session that gets that far: the server's version, the word that no password is needed,
  and the reply.
\<close>

definition free_entry :: bytes where
  "free_entry = map char8 ''RFB 003.003'' @ [10, 0, 0, 0, 1]"

definition accepted_state :: "spi_lcd vnc" where
  "accepted_state = snd (Vnc_ProcessVncBuffer spi_display free_entry 16 (vnc_boot spi_boot))"

lemma accepted_state_conn:
  "VNCstate accepted_state = VNCSTATE_SENTCLIENTINITMESSAGE \<and>
   VNCsendState accepted_state = VNCSENDSTATE_AUTHWORDSENT \<and> view (cur accepted_state) = []"
  by (simp add: accepted_state_def free_entry_def Vnc_ProcessVncBuffer_def eval_process vnc_authtype_def
      word_le_nat_alt view_def)

definition replied_state :: "spi_lcd vnc" where
  "replied_state = snd (snd (snd (Vnc_LoadResponseBuffer 0 (replicate 50 0) accepted_state)))"

lemma replied_state_conn:
  "phase replied_state = ((VNCSTATE_SENTCLIENTINITMESSAGE, VNCSENDSTATE_CLIENTINITMESSAGESENT), 0)"
  using accepted_state_conn
  by (simp add: replied_state_def Vnc_LoadResponseBuffer_def state_order phase_def conn_def awaited_def)

lemma client_replied: "client spi_display [[0]] free_entry replied_state"
proof -
  have zero: "take (Suc 0) ((replicate 50 0)[0 := 0]) = [0 :: u8]" by (simp add: numeral_eq_Suc)
  have b: "client spi_display [] [] (vnc_boot spi_boot)"
    using client.boot [of spi_display id spi_boot] by (simp add: Vnc_Init_def VncDisplayInit_def)
  obtain n where "Vnc_ProcessVncBuffer spi_display free_entry 16 (vnc_boot spi_boot) = (n, accepted_state)"
    by (simp add: accepted_state_def prod_eq_iff)
  moreover have "length free_entry = 16" by (simp add: free_entry_def)
  ultimately have "client spi_display [] free_entry accepted_state"
    using client.process [OF b, of 16 free_entry n accepted_state] by (simp add: accepted_state_conn)
  from client.respond [OF this, of "replicate 50 0" 0] show ?thesis
    using accepted_state_conn zero
    by (simp add: replied_state_def Vnc_LoadResponseBuffer_def state_order key_values_def)
qed

theorem client_refines_session_witness:
  "\<exists>h. session h free_entry ((VNCSTATE_SENTCLIENTINITMESSAGE, VNCSENDSTATE_CLIENTINITMESSAGESENT), 0) \<and>
     map message_bytes h = [[0]]"
  using client_refines_session [OF client_replied] unfolding replied_state_conn by auto

text \<open>
  C13. What has been sent is determined, up to the opening the server asked for and the
  requests at the end, by the send state, and nothing has been sent before the server has said what
  it answers (\<open>sent_ok\<close>). What the server has said is what the receive state stands for
  (\<open>heard\<close>), and only some pairs of receive and send state occur.
\<close>

theorem client_sends_in_order:
  assumes "client D out r s"
  shows "conn_ok (conn s) \<and> heard (VNCstate s) (awaited s) r \<and>
    (\<exists>h. out = map message_bytes h \<and> sent_ok r h (VNCsendState s))"
proof -
  obtain h where h: "session h r (phase s)" "out = map message_bytes h" using client_session [OF assms] by blast
  from session_ok [OF h(1)] h(2) show ?thesis by (auto simp: phase_def conn_def)
qed

theorem client_sends_in_order_witness:
  "accepted_by free_entry \<and> (\<exists>h. [[0]] = map message_bytes h \<and> sent_ok free_entry h VNCSENDSTATE_CLIENTINITMESSAGESENT)"
proof -
  have v: "VNCsendState replied_state = VNCSENDSTATE_CLIENTINITMESSAGESENT"
    using replied_state_conn by (simp add: phase_def conn_def)
  obtain h where "[[0]] = map message_bytes h" "sent_ok free_entry h VNCSENDSTATE_CLIENTINITMESSAGESENT"
    using client_sends_in_order [OF client_replied] unfolding v by (elim conjE exE) (rule that)
  moreover from this(2) have "accepted_by free_entry" by simp
  ultimately show ?thesis by (intro conjI exI [of _ h])
qed

text \<open>
  C14. The client initialisation message (the byte 0) is not sent before the server has accepted the
  connection: the word after its version is 1, or it is 2 and the word after the challenge is 0.
\<close>

theorem init_after_acceptance:
  assumes "client D out r s" and "[0] \<in> set out"
  shows "16 \<le> length r \<and> r ! 15 = 1 \<or> 36 \<le> length r \<and> r ! 15 = 2 \<and> r ! 35 = 0"
proof -
  obtain h where h: "session h r (phase s)" "out = map message_bytes h" using client_session [OF assms(1)] by blast
  then obtain m where m: "m \<in> set h" "message_bytes m = [0]" using assms(2) by auto
  have "m = ClientInit" using m(2) by (cases m) simp_all
  with session_accepted [OF h(1)] m(1) show ?thesis by (simp add: accepted_by_def)
qed

theorem init_after_acceptance_witness:
  "16 \<le> length free_entry \<and> free_entry ! 15 = 1 \<or> 36 \<le> length free_entry \<and> free_entry ! 15 = 2 \<and> free_entry ! 35 = 0"
  using init_after_acceptance [OF client_replied] by simp

text \<open>
  A response is at most 20 bytes and stays in the response buffer, which has 50.
\<close>

theorem response_fits:
  "20 \<le> length buffer \<Longrightarrow>
     unat (fst (Vnc_LoadResponseBuffer k buffer s)) \<le> 20 \<and>
     length (fst (snd (snd (Vnc_LoadResponseBuffer k buffer s)))) = length buffer"
  using load_bounds [of k buffer s] by (cases "Vnc_LoadResponseBuffer k buffer s") auto

theorem response_fits_witness:
  "unat (fst (Vnc_LoadResponseBuffer 0 (replicate 50 0) (vnc_boot spi_boot))) \<le> 20"
  using response_fits [of "replicate 50 0" 0 "vnc_boot spi_boot"] by simp

section \<open>The program\<close>

text \<open>
  C1. The program shows a framebuffer update, end to end: from a state in which the client
  waits for one, the rounds of the main loop in which the USB port delivers the pieces of the
  update and then nothing for long enough leave an empty buffer, the next request due, no
  access outside a buffer, and on the wire to the panel the window and the pixels of every
  tile.
\<close>

theorem system_shows_update:
  assumes "main_ok s" and "vncBufferSize s = 0"
    and "VNCstate (viewer s) \<in> {VNCSTATE_WAITFORUPDATE, VNCSTATE_CONNECTED_REFRESH}"
    and "length (hextileBuffer (viewer s)) = 512" and "list_all rect_ok rs"
    and "length (encode_update rs) \<le> 65535" and "concat bss = encode_update rs"
  shows "\<exists>i. \<forall>j t. i \<le> j \<longrightarrow>
    served spi_display (teensy_GetData H polls) (teensy_SendResponse H turns) (bss @ replicate j []) s t \<longrightarrow>
    main_ok t \<and> vncBufferSize t = 0 \<and> VNCstate (viewer t) = VNCSTATE_CONNECTED_REFRESH \<and>
    hoob (viewer t) = hoob (viewer s) \<and>
    wire (panel (viewer t)) =
      wire (panel (viewer s)) @ update_log window_events pixel_events (colours (viewer s)) rs"
  using spi_usb.update_reaches_panel [OF assms(1-4) TrueI _ assms(5-7)] length_encode_update [of rs]
    assms(6) by simp

text \<open>A program that has just been told to wait for updates, on a port with these pieces on their way.\<close>

definition listening :: "bytes list \<Rightarrow> (spi_lcd, feed teensy) system" where
  "listening bss = (let s = main_boot LcdInit spi_boot (plugged bss) 0 0 0
     in s\<lparr>viewer := (viewer s)\<lparr>VNCstate := VNCSTATE_WAITFORUPDATE, VNCsendState := VNCSENDSTATE_PARTIALREFRESHSENT\<rparr>\<rparr>)"

lemma listening_ok:
  "main_ok (listening bss) \<and> vncBufferSize (listening bss) = 0 \<and> fed bss (comms (listening bss)) \<and>
   VNCstate (viewer (listening bss)) = VNCSTATE_WAITFORUPDATE \<and> length (hextileBuffer (viewer (listening bss))) = 512"
  using main_boot_ok [of LcdInit spi_boot "plugged bss" 0 0 0] fed_plugged [of bss]
  by (simp add: listening_def main_ok_def)
    (simp add: main_boot_def SetupHardware_def Vnc_Init_def vnc_boot_def Let_def)

abbreviation "two_pieces \<equiv>
  [take 9 (encode_update [(3, 4, 2, 1, [Raw [0xF800, 0x001F]])]), drop 9 (encode_update [(3, 4, 2, 1, [Raw [0xF800, 0x001F]])])]"

theorem system_shows_update_witness:
  "\<exists>i. \<forall>j. \<exists>t. served spi_display fed_get fed_send (two_pieces @ replicate (i + j) []) (listening two_pieces) t \<and>
    vncBufferSize t = 0 \<and> VNCstate (viewer t) = VNCSTATE_CONNECTED_REFRESH \<and>
    wire (panel (viewer t)) = wire (panel (viewer (listening two_pieces))) @
        window_events 3 4 2 1 @ pixel_events 0xF800 @ pixel_events 0x001F"
proof -
  let ?r = "(3, 4, 2, 1, [Raw [0xF800, 0x001F]])" and ?s = "listening two_pieces"
  have r: "list_all rect_ok [?r]" and u: "update_log window_events pixel_events c [?r] =
      window_events 3 4 2 1 @ pixel_events 0xF800 @ pixel_events 0x001F" for c
    by (simp_all add: contents_fit_def tiles_def spans.simps tile_row_def place_log_def
        place_outside_def SCREEN_WIDTH_def SCREEN_HEIGHT_def)
  have l: "length (encode_update [?r]) < 200" "length (encode_update [?r]) \<le> 65535"
    by (simp_all add: encode_update_def encode_rect_def hextile_header_def encode_pixel_def)
  have c: "concat two_pieces = encode_update [?r]" by simp
  note ok = listening_ok [of two_pieces]
  then have w: "VNCstate (viewer ?s) \<in> {VNCSTATE_WAITFORUPDATE, VNCSTATE_CONNECTED_REFRESH}" by simp
  obtain i where i: "\<And>j t. i \<le> j \<Longrightarrow> served spi_display fed_get fed_send (two_pieces @ replicate j []) ?s t \<Longrightarrow>
      main_ok t \<and> vncBufferSize t = 0 \<and> VNCstate (viewer t) = VNCSTATE_CONNECTED_REFRESH \<and>
      hoob (viewer t) = hoob (viewer ?s) \<and> wire (panel (viewer t)) =
        wire (panel (viewer ?s)) @ update_log window_events pixel_events (colours (viewer ?s)) [?r]"
    using system_shows_update [OF _ _ w _ r l(2) c, of feeder 0 "\<lambda>i. []"] ok by blast
  have "\<exists>t. served spi_display fed_get fed_send (two_pieces @ replicate j []) ?s t" for j
    using update_served [OF _ _ _ w _ r l(1) c] ok by blast
  with i show ?thesis unfolding u by (intro exI [of _ i] allI) (meson le_add1)
qed

text \<open>The same state on a USB port that never has data.\<close>

definition waiting :: "(spi_lcd, (reg \<times> u8) list teensy) system" where
  "waiting = (let s = main_boot LcdInit spi_boot (teensy_boot (usb_boot 0 []) 0 0 0) 0 0 0
     in s\<lparr>viewer := (viewer s)\<lparr>VNCstate := VNCSTATE_WAITFORUPDATE\<rparr>\<rparr>)"

lemma waiting_ok: "main_ok waiting"
  using main_boot_ok [of LcdInit spi_boot "teensy_boot (usb_boot 0 []) 0 0 0" 0 0 0]
  by (simp add: waiting_def main_ok_def Let_def)



text \<open>
  C8. Once the client is in a final state, the next round that is not a disconnection copies
  65535 bytes in a buffer of 200.
\<close>

theorem final_state_faults:
  assumes "main_ok s" and "VNCstate (viewer s) \<in> {VNCSTATE_DEAD, VNCSTATE_AUTHFAILED, VNCSTATE_PROCESSDONE}"
    and "main_round D G S pins s = Some t"
    and "G (VNC_BUFFER_MAX - vncBufferSize s) (comms s) = Some (r, bs, c)" and "0 \<le> r"
  shows "memfault t"
  using round_faults [OF assms(1) _ assms(3-5)] assms(2) by (simp add: final_def)

theorem final_state_faults_witness:
  "memfault (the (main_round spi_display (\<lambda>m c. Some (0, [], c)) (\<lambda>b n c. Some (n, c)) (\<lambda>i. 0xFF)
     (waiting\<lparr>viewer := (viewer waiting)\<lparr>VNCstate := VNCSTATE_DEAD\<rparr>\<rparr>)))"
proof -
  let ?s = "waiting\<lparr>viewer := (viewer waiting)\<lparr>VNCstate := VNCSTATE_DEAD\<rparr>\<rparr>"
  let ?r = "main_round spi_display (\<lambda>m c. Some (0, [], c)) (\<lambda>b n c. Some (n, c)) (\<lambda>i. 0xFF) ?s"
  have s: "main_ok ?s" using waiting_ok by (simp add: main_ok_def)
  have "?r \<noteq> None" by (simp add: main_round_def main_send_def split_beta Let_def)
  then obtain t where "?r = Some t" by blast
  with final_state_faults [OF s _ this, of 0 "[]" "comms ?s"] show ?thesis by simp
qed

text \<open>
  C9. In the running program the client follows the session protocol with the server: since the
  connection was lost the last time, the messages handed to the port are those of a run of the session
  machine on the bytes the port has given, up to the ones that are still in the buffer. The link is
  given a tape of what passes over it; what is sent is then what may be sent after what was received.
\<close>

theorem system_follows_session:
  assumes "main_rounds spi_display (taped_get (teensy_GetData H polls)) (taped_send (teensy_SendResponse H turns)) ps
    (main_boot lcdInit d (c, []) pullups mcusr junk) = Some t" and "\<not> memfault t"
  shows "\<exists>h r. session h r (phase (viewer t)) \<and> sent_ok r h (VNCsendState (viewer t)) \<and>
    since (snd (comms t)) = (r @ take (unat (vncBufferSize t)) (vncBuffer t), map message_bytes h)"
proof -
  obtain r where r: "client spi_display (snd (since (snd (comms t)))) r (viewer t)"
    "fst (since (snd (comms t))) = r @ take (unat (vncBufferSize t)) (vncBuffer t)"
    using taped_rounds [OF assms(1) main_boot_ok talks_boot assms(2)] by (auto simp: talks_def)
  obtain h where h: "session h r (phase (viewer t))" "snd (since (snd (comms t))) = map message_bytes h"
    using client_session [OF r(1)] by blast
  with session_ok [OF h(1)] r(2) show ?thesis by (auto simp: phase_def conn_def prod_eq_iff)
qed

theorem system_follows_session_witness:
  "\<exists>t h r. main_rounds spi_display (taped_get fed_get) (taped_send fed_send) [\<lambda>i. 0xFF]
      (main_boot id spi_boot (plugged [greeting], []) 0 0 0) = Some t \<and>
    session h r (phase (viewer t)) \<and> map message_bytes h = [greeting] \<and>
    greeting = r @ take (unat (vncBufferSize t)) (vncBuffer t)"
proof -
  obtain t where t: "main_round spi_display (taped_get fed_get) (taped_send fed_send) (\<lambda>i. 0xFF)
      (main_boot id spi_boot (plugged [greeting], []) 0 0 0) = Some t" "\<not> memfault t"
    "since (snd (comms t)) = (greeting, [greeting])" using version_round_taped by blast
  then have "main_rounds spi_display (taped_get fed_get) (taped_send fed_send) [\<lambda>i. 0xFF]
      (main_boot id spi_boot (plugged [greeting], []) 0 0 0) = Some t" by simp
  from this system_follows_session [OF this t(2)] t(3) show ?thesis by fastforce
qed

text \<open>
  C10. When the host drops the control lines, the next round of the program resets the
  client and forgets the bytes it has not decoded.
\<close>

theorem line_drop_resets:
  assumes "bRequest r = CDC_SET_CONTROL_LINE_STATE" and "bmRequestType r = 0x21" and "lo8 (wValue r) = 0"
    and "lastControlState (comms s) \<noteq> 0"
    and "u = snd (run_state (handle_setup H n r) (usb (comms s)))"
  shows "\<exists>t. main_round D (teensy_GetData H polls) S pins (s\<lparr>comms := (comms s)\<lparr>usb := u\<rparr>\<rparr>) = Some t \<and>
    conn (viewer t) = (VNCSTATE_NOTCONNECTED, VNCSENDSTATE_INIT) \<and>
    vncBufferSize t = 0 \<and> vncRemainder t = 0"
proof -
  have "usb_serial_get_control u = 0" using control_line_state [OF assms(1,2)] assms(3,5) by simp
  then obtain c where "teensy_GetData H polls (VNC_BUFFER_MAX - vncBufferSize s) ((comms s)\<lparr>usb := u\<rparr>) =
      Some (- 1, [], c)"
    using teensy_disconnect [of "(comms s)\<lparr>usb := u\<rparr>"] assms(4) by fastforce
  then show ?thesis
    by (simp add: main_round_def main_reset_def Vnc_ResetSystem_def conn_def Let_def)
qed

theorem line_drop_resets_witness:
  "\<exists>t. main_round spi_display (teensy_GetData (recorder 1) 0) (\<lambda>b n c. Some (n, c)) (\<lambda>i. 0xFF)
     (waiting\<lparr>comms := (comms waiting)\<lparr>lastControlState := 3, usb := snd (run_state (handle_setup (recorder 1) 0
        \<lparr>bmRequestType = 0x21, bRequest = 0x22, wValue = 0, wIndex = 0, wLength = 0\<rparr>)
        (usb (comms waiting)))\<rparr>\<rparr>) = Some t \<and>
     conn (viewer t) = (VNCSTATE_NOTCONNECTED, VNCSENDSTATE_INIT)"
  using line_drop_resets [of "\<lparr>bmRequestType = 0x21, bRequest = 0x22, wValue = 0, wIndex = 0, wLength = 0\<rparr>"
      "waiting\<lparr>comms := (comms waiting)\<lparr>lastControlState := 3\<rparr>\<rparr>" _ "recorder 1" 0 spi_display 0
      "\<lambda>b n c. Some (n, c)" "\<lambda>i. 0xFF"]
  by (auto simp: lo8_def)

section \<open>The USB serial port\<close>

text \<open>
  C15. The host gets the descriptor it asks for, up to the length it asks for, in packets of
  16 bytes, the last one shorter (empty if need be), and nothing else is written to the
  controller.
\<close>

theorem descriptor_in_packets:
  assumes "history H out" and "host_takes H" and "bRequest r = GET_DESCRIPTOR"
    and "find_descriptor descriptor_list (wValue r) (wIndex r) = Some (a, n)"
  shows "\<exists>h ps. run_state (handle_setup H polls r) s = (Some (), s\<lparr>hw := h\<rparr>) \<and>
    out h = out (hw s) @ concat (map packet_writes ps) \<and>
    concat ps = take (min n (min 255 (unat (wLength r)))) a \<and>
    ps \<noteq> [] \<and> length (last ps) < 16 \<and> list_all (\<lambda>p. length p = 16) (butlast ps)"
proof -
  let ?d = "take (min n (min 255 (unat (wLength r)))) a"
  obtain h where "run_state (get_descriptor H polls r) s = (Some (), s\<lparr>hw := h\<rparr>)"
    "out h = out (hw s) @ concat (map packet_writes (packets ?d))"
    using get_descriptor_out [OF assms(1,2,4)] by blast
  with packets_spec [of ?d] assms(3) show ?thesis
    by (intro exI [of _ h] exI [of _ "packets ?d"]) (simp add: handle_setup_def list_all_iff)
qed

theorem descriptor_in_packets_witness:
  "\<exists>ps. concat ps = device_descriptor \<and> length (last ps) < 16 \<and>
     hw (snd (run_state (handle_setup (recorder 1) 0
        \<lparr>bmRequestType = 0x80, bRequest = 6, wValue = 0x0100, wIndex = 0, wLength = 64\<rparr>) (usb_boot 0 []))) =
      concat (map packet_writes ps)"
proof -
  let ?r = "\<lparr>bmRequestType = 0x80, bRequest = 6, wValue = 0x0100, wIndex = 0, wLength = 64\<rparr>"
  have "host_takes (recorder 1)" by (simp add: host_takes_def recorder_def)
  moreover have "find_descriptor descriptor_list (wValue ?r) (wIndex ?r) =
      Some (device_descriptor, length device_descriptor)" by (simp add: descriptor_list_def)
  moreover have "length device_descriptor = 18" by (simp add: device_descriptor_def)
  ultimately show ?thesis
    using descriptor_in_packets [OF recorder_history, of 1 ?r device_descriptor
        "length device_descriptor" 0 "usb_boot 0 []"]
    by (fastforce simp: usb_boot_def)
qed








text \<open>
  C18. A listener that does not take the data costs one wait of 25 frames. As long as fewer have
  passed \<open>usb_serial_putchar\<close> waits, however often it has looked; it fails when the frame number has
  grown by 25, and every later call fails at once until the FIFO has room.
\<close>

theorem putchar_fails_once:
  assumes "fifo_full H" and "frame_clock H frame turns ticks" and "usb_configuration s \<noteq> 0"
    and "transmit_previous_timeout s = 0"
  shows "(count_list ticks True < 25 \<longrightarrow> fst (run_state (usb_serial_putchar H turns c) s) = None) \<and>
    (25 \<le> count_list ticks True \<longrightarrow>
      (\<exists>t. run_state (usb_serial_putchar H turns c) s = (Some (- 1), t) \<and> frame (hw t) = frame (hw s) + 25 \<and>
        (\<exists>u. run_state (usb_serial_putchar H [] d) t = (Some (- 1), u) \<and>
          transmit_previous_timeout u = 1 \<and> usb_configuration u = usb_configuration s)))"
proof (cases "count_list ticks True < 25")
  case True
  with putchar_times_out [OF assms, of c] show ?thesis by simp
next
  case False
  then obtain t where t: "run_state (usb_serial_putchar H turns c) s = (Some (- 1), t)"
    "frame (hw t) = frame (hw s) + 25" "transmit_previous_timeout t = 1" "usb_configuration t = usb_configuration s"
    using putchar_times_out [OF assms, of c] by auto
  from putchar_refused [OF assms(1), of t "[]" d] t assms(3) False show ?thesis by auto
qed

text \<open>A controller whose FIFO is full and whose state is the frame number.\<close>

definition full_fifo :: "u8 usb_hw" where
  "full_fifo = \<lparr>reg_in = (\<lambda>r h. (if r = UDFNUML then h else 0, h)), reg_out = (\<lambda>r v h. h)\<rparr>"

definition tick :: "bool \<Rightarrow> u8 turn" where
  "tick b s = (if b then s\<lparr>hw := hw s + 1\<rparr> else s)"

lemma full_fifo_facts: "fifo_full full_fifo" "frame_clock full_fifo id (map tick ticks) ticks"
  by (simp_all add: fifo_full_def frame_clock_def full_fifo_def tick_def list_all2_conv_all_nth)

theorem putchar_fails_once_witness:
  "fst (run_state (usb_serial_putchar full_fifo (map tick (concat (replicate 24 [False, True]))) 65)
      ((usb_boot 0 250)\<lparr>usb_configuration := 1\<rparr>)) = None \<and>
   (\<exists>t. run_state (usb_serial_putchar full_fifo (map tick (concat (replicate 25 [False, True]))) 65)
     ((usb_boot 0 250)\<lparr>usb_configuration := 1\<rparr>) = (Some (- 1), t) \<and> hw t = 19)"
proof -
  have c: "count_list (concat (replicate n [False, True])) True = n" for n by (induction n) simp_all
  let ?s = "(usb_boot 0 250)\<lparr>usb_configuration := 1\<rparr>"
  have s: "usb_configuration ?s \<noteq> 0" "transmit_previous_timeout ?s = 0" "hw ?s = 250" by (simp_all add: usb_boot_def)
  note f = putchar_fails_once [OF full_fifo_facts(1) full_fifo_facts(2) s(1,2), unfolded s(3) id_apply]
  obtain t where "run_state (usb_serial_putchar full_fifo (map tick (concat (replicate 25 [False, True]))) 65) ?s = (Some (- 1), t)"
      "hw t = 250 + 25"
    using f [of "concat (replicate 25 [False, True])" 65] unfolding c by auto
  moreover have "fst (run_state (usb_serial_putchar full_fifo (map tick (concat (replicate 24 [False, True]))) 65) ?s) = None"
    using f [of "concat (replicate 24 [False, True])" 65] unfolding c by simp
  ultimately show ?thesis by (intro conjI exI [of _ t]) simp_all
qed

text \<open>
  C19. A partly filled transmit buffer is released by the flush timer exactly once, in the
  frame in which the timer has run out.
\<close>

theorem flush_released_once:
  assumes "history H out" and "start_of_frame H" and "usb_configuration s \<noteq> 0"
  shows "releases out (frames H n s) = releases out s +
      (if 0 < unat (transmit_flush_timer s) \<and> unat (transmit_flush_timer s) \<le> n then 1 else 0) \<and>
    unat (transmit_flush_timer (frames H n s)) = unat (transmit_flush_timer s) - n"
  using frames_flush [OF assms] by simp

theorem flush_released_once_witness:
  "releases id (frames (recorder 4) 7 ((usb_boot 0 [])\<lparr>usb_configuration := 1, transmit_flush_timer := 5\<rparr>)) = 1"
proof -
  have "start_of_frame (recorder 4)" by (simp add: start_of_frame_def recorder_def)
  from flush_released_once [OF recorder_history this,
      of "(usb_boot 0 [])\<lparr>usb_configuration := 1, transmit_flush_timer := 5\<rparr>" 7] show ?thesis
    by (simp add: usb_boot_def releases_def)
qed

text \<open>
  The functions of the port that disable interrupts leave the status register as they
  found it, whatever their result.
\<close>

theorem usb_keeps_interrupt_flag:
  assumes "turns_ok turns" and "run_state (usb_serial_getchar H polls) s = (Some n, t)"
  shows "SREG (snd (run_state (usb_serial_putchar H turns c) s)) = SREG s \<and> SREG t = SREG s"
  using putchar_SREG [OF assms(1)] getchar_SREG [OF assms(2)] by simp

theorem usb_keeps_interrupt_flag_witness:
  "SREG (snd (run_state (usb_serial_getchar (recorder 0) 0) ((usb_boot 0x80 [])\<lparr>usb_configuration := 1\<rparr>))) = 0x80"
proof -
  let ?s = "(usb_boot 0x80 [])\<lparr>usb_configuration := 1\<rparr> :: (reg \<times> u8) list usb"
  obtain t where t: "run_state (usb_serial_getchar (recorder 0) 0) ?s = (Some (- 1), t)"
    by (simp add: usb_serial_getchar_def cli_def usb_boot_def recorder_def getchar_retry.simps restore_def)
  have "SREG t = SREG ?s" using usb_keeps_interrupt_flag [of "[]", OF _ t] by (simp add: turns_ok_def)
  then show ?thesis unfolding t by (simp add: usb_boot_def)
qed

section \<open>The serial link over the LUFA library\<close>

text \<open>
  C20. Over the LUFA library, what \<open>VncServerGetData\<close> returns followed by what is left in the
  packets of the OUT endpoint is what was in them: no byte is lost, repeated or reordered. If
  none of the packets is empty it returns as many bytes as there are, up to the size asked for.
\<close>

theorem lufa_receives_in_order:
  assumes "out_endpoint P CDC_RX_EPNUM sel pend" and "\<not> usbConnectionReset (lufa_lib s)"
    and "CDC_Device_USBTask P VirtualSerial_CDC_Interface (lufa_lib s) = Some l"
    and "USB_DeviceTask P l = Some l'" and "cdc_open l'"
  shows "\<exists>bs t. lufa_GetData P m s = Some (int (length bs), bs, t) \<and>
    bs @ concat (pend (lhw (lufa_lib t))) = concat (pend (lhw l')) \<and>
    ([] \<notin> set (pend (lhw l')) \<longrightarrow> bs = take (unat m) (concat (pend (lhw l'))))"
proof -
  have ep: "out_endpoint P (DataOUTEndpointNumber VirtualSerial_CDC_Interface) sel pend"
    using assms(1) by (simp add: VirtualSerial_CDC_Interface_def)
  obtain a h where "receive_loop (\<lambda>l. Some (CDC_Device_ReceiveByte P VirtualSerial_CDC_Interface l))
        (unat m) (activity_pulses (lact s)) l' =
      Some (fst (receive_packets (unat m) (pend (lhw l'))), a, l'\<lparr>lhw := h\<rparr>)"
      "pend h = snd (receive_packets (unat m) (pend (lhw l')))"
    using receive_loop_packets [OF ep assms(5)] by blast
  with assms(2-4) receive_packets_concat [of "unat m" "pend (lhw l')"]
    receive_packets_all [of "pend (lhw l')" "unat m"]
  show ?thesis by (simp add: lufa_GetData_def)
qed

text \<open>A link with an open port and two packets waiting.\<close>

definition lufa_link :: "sim \<Rightarrow> sim lufa_comms" where
  "lufa_link h =
     \<lparr>lufa_lib = lufa_open h, lact = activity_boot 0 0,
      USBtoUSART_Buffer = RingBuffer_InitBuffer (replicate 128 0) 128,
      USARTtoUSB_Buffer = RingBuffer_InitBuffer (replicate 128 0) 128, TCCR0B = 4\<rparr>"

theorem lufa_receives_in_order_witness:
  "\<exists>bs t. lufa_GetData (sim_platform 0) 3 (lufa_link (sim_boot\<lparr>sim_pend := [[1, 2], [3, 4]]\<rparr>)) =
      Some (int (length bs), bs, t) \<and> bs = [1, 2, 3]"
proof -
  let ?h = "sim_boot\<lparr>sim_pend := [[1, 2], [3, 4]]\<rparr>"
  show ?thesis
    using lufa_receives_in_order [OF sim_out_endpoint, of "lufa_link ?h" 0 "lufa_open (?h\<lparr>sim_ep := CDC_TX_EPNUM\<rparr>)"
        _ 3] sim_tasks
    by (auto simp: lufa_link_def cdc_open_def lufa_open_def arrived_def)
qed

text \<open>
  C21. Over the LUFA library \<open>VncServerSendResponse\<close> always returns, as the wait for the host is
  given up after 100 frames, and what has been written to the IN endpoint has grown by exactly
  the bytes its result counts, from the start of the buffer and in order.
\<close>

theorem lufa_sends_in_order:
  assumes "in_endpoint P CDC_TX_EPNUM cap sel bank given" and "lufa_clock P frame"
    and "100 < patience P" and "unat n \<le> length buf"
  shows "\<exists>k t. lufa_SendResponse P buf n s = Some (k, t) \<and> k \<le> n \<and>
    in_stream bank given (lufa_lib t) = in_stream bank given (lufa_lib s) @ take (unat k) buf"
proof -
  have ep: "in_endpoint P (DataINEndpointNumber VirtualSerial_CDC_Interface) cap sel bank given"
    using assms(1) by (simp add: VirtualSerial_CDC_Interface_def)
  obtain k l where k: "lufa_send P (take (unat n) buf) (lufa_lib s) = Some (k, l)"
    using lufa_send_returns [OF assms(2,3)] by blast
  have s: "in_stream bank given l = in_stream bank given (lufa_lib s) @ take k (take (unat n) buf)" "k \<le> unat n"
    using lufa_send_stream [OF ep k] assms(4) by simp_all
  have "unat (of_nat k :: u16) = k" using s(2) unat_u16_less [of n] by (simp add: unat_of_nat)
  with s k show ?thesis by (simp add: lufa_SendResponse_def word_le_nat_alt min_absorb1)
qed

theorem lufa_sends_in_order_witness:
  "\<exists>k t. lufa_SendResponse (sim_platform 0) [1, 2, 3] 3 (lufa_link sim_boot) = Some (k, t) \<and>
    in_stream sim_bank sim_given (lufa_lib t) = take (unat k) [1, 2, 3]"
  using lufa_sends_in_order [OF sim_in_endpoint sim_lufa_clock, of 0 3 "[1, 2, 3]" "lufa_link sim_boot"]
  by (auto simp: in_stream_def lufa_link_def lufa_open_def sim_boot_def)

lemma short_count_wraps:
  fixes k n :: u16
  assumes "k \<le> n" and "k \<noteq> n" and "unat n \<le> 20"
  shows "65516 \<le> unat (k - n)"
proof -
  have "unat (k - n) = 65536 - (unat n - unat k)"
    using assms by (simp add: unat_sub_if' word_le_nat_alt word_unat_eq_iff)
  then show ?thesis using assms(3) by simp
qed

text \<open>
  C22. Over the LUFA library the main loop leaves its response buffer exactly when the link takes
  less than the whole response: the rest is computed as what was sent minus what was to be sent,
  which wraps around. A port that the host has not opened is enough.
\<close>

theorem lufa_partial_send_faults:
  assumes "main_ok s" and "main_send (lufa_SendResponse P) s = Some t"
    and "lufa_SendResponse P (vncResponseBuffer s) (vncResponseSize s) (comms s) = Some (k, c)"
  shows "memfault t \<longleftrightarrow> k < vncResponseSize s"
proof -
  have k: "k \<le> vncResponseSize s" using lufa.sent_fits [OF assms(3)] .
  have "65516 \<le> unat (k - vncResponseSize s)" if "k \<noteq> vncResponseSize s"
    using short_count_wraps [OF k that] assms(1) by (simp add: main_ok_def)
  then show ?thesis
    using assms k by (auto simp: main_send_def main_ok_def Let_def split: if_splits)
qed

theorem lufa_partial_send_faults_witness:
  "\<exists>t. main_send (lufa_SendResponse (sim_platform 0))
      ((main_boot LcdInit spi_boot
        ((lufa_link sim_boot)\<lparr>lufa_lib := (lufa_open sim_boot)\<lparr>USB_DeviceState := DEVICE_STATE_Powered\<rparr>\<rparr>) 0 0 0)
        \<lparr>vncResponseSize := 12\<rparr>) = Some t \<and> memfault t"
proof -
  let ?c = "(lufa_link sim_boot)\<lparr>lufa_lib := (lufa_open sim_boot)\<lparr>USB_DeviceState := DEVICE_STATE_Powered\<rparr>\<rparr>"
  let ?s = "(main_boot LcdInit spi_boot ?c 0 0 0)\<lparr>vncResponseSize := 12\<rparr>"
  have ok: "main_ok ?s" using main_boot_ok [of LcdInit spi_boot ?c 0 0 0] by (simp add: main_ok_def)
  have c: "comms ?s = ?c" by (simp add: main_boot_def Let_def SetupHardware_def)
  have "lufa_send P bs (lufa_lib ?c) = Some (0, lufa_lib ?c)" for P and bs :: bytes
    by (cases bs) (simp_all add: CDC_Device_SendByte_def cdc_open_def)
  then have "lufa_SendResponse (sim_platform 0) (vncResponseBuffer ?s) (vncResponseSize ?s) (comms ?s) = Some (0, ?c)"
    unfolding c by (simp add: lufa_SendResponse_def)
  moreover from this obtain t where "main_send (lufa_SendResponse (sim_platform 0)) ?s = Some t"
    by (simp add: main_send_def Let_def)
  ultimately show ?thesis using lufa_partial_send_faults [OF ok] by fastforce
qed

text \<open>
  C23. A host that reads a descriptor of the serial link over the LUFA library gets the part of
  it that it asked for, in packets of eight bytes of which only the last may be shorter, and can
  tell where it ends: it has all it asked for or a packet that is not full.
\<close>

theorem lufa_descriptor_in_packets:
  assumes "control_host P (unat (wLength (USB_ControlRequest s))) sel bank pkts"
    and "at0 sel bank pkts [] [] s"
    and "CALLBACK_USB_GetDescriptor (wValue (USB_ControlRequest s)) (ucast (wIndex (USB_ControlRequest s))) =
      (Some obj, n)"
    and "wValue (USB_ControlRequest s) \<noteq> 0x03DC" and "wLength (USB_ControlRequest s) \<noteq> 0"
    and "8 < patience P"
  shows "\<exists>t. USB_Device_GetDescriptor P s = Some t \<and>
    concat (pkts (lhw t)) = take (min (unat n) (unat (wLength (USB_ControlRequest s)))) obj \<and>
    list_all (\<lambda>p. length p = 8) (butlast (pkts (lhw t))) \<and> length (last (pkts (lhw t))) \<le> 8 \<and>
    host_has_all (unat (wLength (USB_ControlRequest s))) (pkts (lhw t))"
  using ctl_descriptor [OF assms(1,2) refl assms(3-6)] by (auto simp: at0_def)

theorem lufa_descriptor_in_packets_witness:
  "\<exists>t. USB_Device_GetDescriptor (sim_platform 255)
      ((lufa_open sim_boot)\<lparr>USB_ControlRequest :=
        \<lparr>bmRequestType = 0x80, bRequest = 6, wValue = 0x0302, wIndex = 0x0409, wLength = 255\<rparr>\<rparr>) = Some t \<and>
    concat (sim_pkts (lhw t)) = ProductString"
proof -
  let ?s = "(lufa_open sim_boot)\<lparr>USB_ControlRequest :=
        \<lparr>bmRequestType = 0x80, bRequest = 6, wValue = 0x0302, wIndex = 0x0409, wLength = 255\<rparr>\<rparr>"
  have c: "CALLBACK_USB_GetDescriptor (wValue (USB_ControlRequest ?s)) (ucast (wIndex (USB_ControlRequest ?s))) =
      (Some ProductString, ucast (hd ProductString))"
    by (simp add: CALLBACK_USB_GetDescriptor_def)
  have a: "at0 sel0 bank0 sim_pkts [] [] ?s"
    by (simp add: at0_def sel0_def bank0_def lufa_open_def sim_boot_def)
  show ?thesis
    using lufa_descriptor_in_packets [OF _ a c, of "sim_platform 255"] sim_control_host [of 255] string_sizes
    by auto
qed

text \<open>
  C24. A host that resets the bus, gives the device an address, selects its configuration and sets
  the coding of the line gets a configured device with this coding, whatever state the device was in:
  the port is open exactly if the baud rate is not zero. The packets are served by the interrupt
  of the control endpoint, and each of its calls returns.
\<close>

theorem lufa_enumeration_opens_port:
  assumes "prompt_host P knock sel flag rest"
  shows "\<exists>t. host_enumerates P knock a e s = Some t \<and> USB_DeviceState t = DEVICE_STATE_Configured \<and>
    USB_Device_ConfigurationNumber t = 1 \<and> LineEncoding t = e \<and> (cdc_open t \<longleftrightarrow> BaudRateBPS e \<noteq> 0)"
  using enumeration [OF assms, of a e s] by (auto simp: cdc_open_def)

theorem lufa_enumeration_opens_port_witness:
  "\<exists>t. host_enumerates (sim_platform 0) sim_arrive 5
      \<lparr>BaudRateBPS = 115200, CharFormat = 0, ParityType = 0, DataBits = 8\<rparr>
      ((lufa_open sim_boot)\<lparr>USB_DeviceState := DEVICE_STATE_Powered\<rparr>) = Some t \<and>
    DataBits (LineEncoding t) = 8 \<and> cdc_open t"
  using lufa_enumeration_opens_port [OF sim_prompt_host, of 5
      "\<lparr>BaudRateBPS = 115200, CharFormat = 0, ParityType = 0, DataBits = 8\<rparr>"
      "(lufa_open sim_boot)\<lparr>USB_DeviceState := DEVICE_STATE_Powered\<rparr>"]
  by fastforce

text \<open>
  C25. A set-up packet with a request that neither the class driver nor the standard requests
  answer is refused: the endpoint is stalled, the packet released, and nothing else of the
  device's state changes.
\<close>

theorem lufa_request_refused:
  assumes "setup_packet P flag rest" and "flag (lhw s)" and "rest (lhw s) = bs" and "length bs = 8"
    and "\<not> answered (request_of bs)"
  shows "\<exists>h. USB_Device_ProcessControlRequest P s =
    Some (Endpoint_ClearSETUP P (Endpoint_StallTransaction P
      (s\<lparr>USB_ControlRequest := request_of bs, lhw := h\<rparr>)))"
  using unanswered_refused [OF assms(1,2) _ assms(4,5), of "[]"] assms(3) by simp

theorem lufa_request_refused_witness:
  "\<exists>h. USB_Device_ProcessControlRequest (sim_platform 0)
      (lufa_open (sim_boot\<lparr>sim_flag := True, sim_setup := [0x81, 0x06, 0, 0x22, 0, 0, 64, 0]\<rparr>)) =
    Some (Endpoint_ClearSETUP (sim_platform 0) (Endpoint_StallTransaction (sim_platform 0)
      ((lufa_open sim_boot)\<lparr>USB_ControlRequest := request_of [0x81, 0x06, 0, 0x22, 0, 0, 64, 0], lhw := h\<rparr>)))"
proof -
  let ?bs = "[0x81, 0x06, 0, 0x22, 0, 0, 64, 0] :: bytes"
  let ?s = "lufa_open (sim_boot\<lparr>sim_flag := True, sim_setup := ?bs\<rparr>)"
  have r: "request_of ?bs = \<lparr>bmRequestType = 0x81, bRequest = 6, wValue = 0x2200, wIndex = 0, wLength = 64\<rparr>"
    by (simp add: request_of_def be16_def)
  have "\<not> answered (request_of ?bs)"
    unfolding r answered_def CALLBACK_USB_GetDescriptor_def by simp
  then show ?thesis
    using lufa_request_refused [OF sim_setup_packet, of ?s ?bs] by (simp add: lufa_open_def sim_boot_def)
qed

text \<open>
  C26. After a reset of the bus the port of a device that was in use is closed. If the host gives
  the device a new address and suspends and resumes it before it selects a configuration, the
  device takes itself for configured: the port is open although there is no configuration.
\<close>

theorem lufa_wakes_configured:
  assumes "address_register P addr" and "on_reset P s = Some s1"
    and "USB_Device_SetAddress P (s1\<lparr>USB_ControlRequest := r\<rparr>) = Some s2"
    and "on_wakeup P (on_suspend P s2) = Some t" and "BaudRateBPS (LineEncoding s) \<noteq> 0"
  shows "\<not> cdc_open s1 \<and> \<not> cdc_open s2 \<and> cdc_open t \<and> USB_Device_ConfigurationNumber t = 0"
proof -
  note r = reset_fields [OF assms(2)]
  note a = set_address_fields [OF assms(1,3)]
  note w = wakeup_fields [OF assms(1) a(3) assms(4)]
  show ?thesis using r a w assms(5) by (simp add: cdc_open_def)
qed

theorem lufa_wakes_configured_witness:
  "\<exists>s1 s2 t. on_reset (sim_platform 0) (lufa_open sim_boot) = Some s1 \<and>
    USB_Device_SetAddress (sim_platform 0)
      (s1\<lparr>USB_ControlRequest := \<lparr>bmRequestType = 0, bRequest = 5, wValue = 7, wIndex = 0, wLength = 0\<rparr>\<rparr>) = Some s2 \<and>
    on_wakeup (sim_platform 0) (on_suspend (sim_platform 0) s2) = Some t \<and>
    cdc_open t \<and> USB_Device_ConfigurationNumber t = 0"
proof -
  let ?r = "\<lparr>bmRequestType = 0, bRequest = 5, wValue = 7, wIndex = 0, wLength = 0\<rparr> :: usb_request"
  obtain s1 where 1: "on_reset (sim_platform 0) (lufa_open sim_boot) = Some s1" "sim_ep (lhw s1) = 0"
    using sim_reset by blast
  obtain s2 where 2: "USB_Device_SetAddress (sim_platform 0) (s1\<lparr>USB_ControlRequest := ?r\<rparr>) = Some s2"
    using sim_set_address [of "s1\<lparr>USB_ControlRequest := ?r\<rparr>"] 1(2) by auto
  obtain t where 3: "on_wakeup (sim_platform 0) (on_suspend (sim_platform 0) s2) = Some t"
    using sim_wakeup by blast
  have "BaudRateBPS (LineEncoding (lufa_open sim_boot)) \<noteq> 0" by (simp add: lufa_open_def)
  from 1 2 3 lufa_wakes_configured [OF sim_address_register 1(1) 2 3 this] show ?thesis by blast
qed

section \<open>Termination\<close>

text \<open>
  C27. The receive loop returns, after at most three rounds for each byte of its buffer and
  three more. A state without bytes may still take three: the name of the server may be empty.
\<close>

theorem receive_loop_bound:
  "\<exists>n \<le> 3 * unread s + 3. loop_takes n (Vnc_StateMachine D) s (vnc_loop D s)"
proof -
  obtain n where "n \<le> 3 * unread s + vnc_rank (VNCstate s) + 1" "loop_takes n (Vnc_StateMachine D) s (vnc_loop D s)"
    using vnc_runs by blast
  with vnc_rank_le [of "VNCstate s"] show ?thesis by (intro exI [of _ n]) auto
qed

text \<open>
  C28. The hextile loop returns, after at most four rounds for each unread byte and four more.
\<close>

theorem hextile_loop_bound:
  "\<exists>n \<le> 4 * unread s + 4. loop_takes n (processHextile D) s (hextile_loop D s)"
proof -
  obtain n where "n \<le> 4 * unread s + hextile_rank (hextileState s) + 1" "loop_takes n (processHextile D) s (hextile_loop D s)"
    using hextile_runs by blast
  with hextile_rank_le [of "hextileState s"] show ?thesis by (intro exI [of _ n]) auto
qed

section \<open>Drivers\<close>

text \<open>
  C29. The receive ring of the UART is first in, first out as long as it holds fewer than
  eight bytes: what is taken and what is still in it are the bytes that came in, in order.
\<close>

theorem uart_receives_in_order:
  assumes "uart_ok s" and "rx.allowed ops s"
  shows "uart_ok (snd (rx.operate ops s)) \<and>
    fst (rx.operate ops s) @ rx_queue (snd (rx.operate ops s)) = rx_queue s @ rx.inputs ops"
  using assms by (rule rx.in_order)

theorem uart_receives_in_order_witness:
  "fst (rx.operate [Put 7, Put 8, Get] (BuffUart_Setup (uart_boot 0 0))) @
     rx_queue (snd (rx.operate [Put 7, Put 8, Get] (BuffUart_Setup (uart_boot 0 0)))) = [7, 8]"
  using uart_receives_in_order [of "BuffUart_Setup (uart_boot 0 0)" "[Put 7, Put 8, Get]"]
  by (simp add: uart_ok_boot) (simp add: rx_queue_def ring_def BuffUart_Setup_def uart_boot_def
      USART1_RX_vect_def UART_RX_BUFFER_SIZE_def Let_def)

text \<open>
  When a byte arrives at a full receive ring the whole ring is lost: it looks empty.
\<close>

theorem uart_overflow_empties:
  assumes "uart_ok s" and "\<not> length (rx_queue s) < 7"
  shows "rx_queue (USART1_RX_vect x s) = []"
  using rx_put_queue [OF assms(1), of x] assms(2) by simp

theorem uart_overflow_empties_witness:
  "rx_queue (USART1_RX_vect 8 (fold USART1_RX_vect [1, 2, 3, 4, 5, 6, 7] (BuffUart_Setup (uart_boot 0 0)))) = []"
proof -
  let ?s = "fold USART1_RX_vect [1, 2, 3, 4, 5, 6, 7] (BuffUart_Setup (uart_boot 0 0))"
  have "uart_ok ?s" by (simp add: uart_ok_boot rx_put_queue)
  moreover have "\<not> length (rx_queue ?s) < 7"
    by (simp add: rx_queue_def ring_def BuffUart_Setup_def uart_boot_def
        USART1_RX_vect_def UART_RX_BUFFER_SIZE_def Let_def)
  ultimately show ?thesis by (rule uart_overflow_empties)
qed

text \<open>
  C30. A string shorter than 256 given to the UART is sent: if the transmit interrupt runs
  in each wait, the call returns, and its characters follow everything that was to be sent
  before, in order.
\<close>

theorem uart_sends_string:
  assumes "uart_ok s" and "\<forall>k. True \<in> set (irqs k)" and "0 \<notin> set cs" and "length cs < 256"
  shows "\<exists>t. BuffUart_TransmitString irqs (cs @ 0 # rest) s = Some t \<and> uart_ok t \<and>
    UDR1_out t @ tx_queue t = UDR1_out s @ tx_queue s @ cs"
  using transmit_all_sends [OF assms(1,2), of cs] by (simp add: TransmitString_sends [OF assms(3,4)])

theorem uart_sends_string_witness:
  "\<exists>t. BuffUart_TransmitString (\<lambda>k. [True]) [73, 110, 105, 116, 0] (BuffUart_Setup (uart_boot 0 0)) = Some t \<and>
     UDR1_out t @ tx_queue t = [73, 110, 105, 116]"
proof -
  let ?s = "BuffUart_Setup (uart_boot 0 0)"
  have "UDR1_out ?s = []" "tx_queue ?s = []"
    by (simp_all add: tx_queue_def ring_def BuffUart_Setup_def uart_boot_def Let_def)
  with uart_sends_string [of ?s "\<lambda>k. [True]" "[73, 110, 105, 116]" "[]"] show ?thesis
    by (auto simp: uart_ok_boot)
qed

text \<open>
  C31. The buttons report one key for each time they go from all released to some pressed,
  and none while they are held.
\<close>

theorem buttons_report_edges:
  "keypress s = 0 \<Longrightarrow> strokes ps s = edges (oneshot s \<noteq> 0) ps"
  by (rule strokes_edges)

theorem buttons_report_edges_witness:
  "strokes [0xFF, 0xFD, 0xFD, 0xFF, 0xEF] (buttons_boot 0) = [97, 98]"
  using buttons_report_edges [of "buttons_boot 0" "[0xFF, 0xFD, 0xFD, 0xFF, 0xEF]"]
  by (simp add: buttons_boot_def any_pressed_def pressed_def key_of_def)

section \<open>The file viewer\<close>

text \<open>
  C32. If the tiles of a recorded rectangle fill the rest of its file and none is larger than
  the buffer, the part of the program that shows the file ends, whatever the pieces the file is
  handed over in, and the 8-bit panel has been given exactly the tiles of the rectangle.
\<close>

theorem file_shown:
  assumes "tiles_read lcd8_panel (drop RFBFILE_HEADER_SIZE rawData) (file_rect rawData s) ns u"
    and "sum_list ns = length rawData - RFBFILE_HEADER_SIZE"
    and "list_all (\<lambda>n. n \<le> MAX_TILE_SIZE) ns"
  shows "\<exists>t. show_file lcd8_panel rawData s = Some t \<and> rfb_panel t = rfb_panel u"
  unfolding show_file_def using assms by (rule lcd8.decode_file_reads)

theorem file_shown_witness:
  "\<exists>t. show_file lcd8_panel [0,0, 0,0, 0,1, 0,1, 0,0,0,0, 1, 0xFF] (rfb_boot 0 (lcd8_boot spi_boot)) = Some t \<and>
    rfb_panel t = lcd8_DrawRawTile 1 [0xFF] (lcd8_SetupTile 0 0 1 1 (lcd8_boot spi_boot))"
proof -
  let ?d = "lcd8_boot spi_boot"
  let ?raw = "[0,0, 0,0, 0,1, 0,1, 0,0,0,0, 1, 0xFF] :: bytes"
  let ?s = "\<lparr>rfb_x = 0, rfb_y = 0, rfb_w = 0, rfb_h = 0, rfb_rx = 0, rfb_ry = 0, rfb_rw = 1, rfb_rh = 1,
     rfb_bg = 0, rfb_fg = 0, rfb_gpio = 0, rfb_panel = ?d\<rparr>"
  let ?p = "tp_DrawRawTile lcd8_panel 1 [0xFF] (tp_SetupTile lcd8_panel 0 0 1 1 ?d)"
  let ?t = "?s\<lparr>rfb_w := 1, rfb_h := 1, rfb_panel := ?p\<rparr>"
  have s: "file_rect ?raw (rfb_boot 0 ?d) = ?s"
    by (simp add: file_rect_def file_word_def SetupHandleHextile_def rfb_boot_def Let_def)
  have "handle_tile lcd8_panel [1, 0xFF] ?s = (Some 2, False, ?t)"
    by (simp add: handle_tile_eq raw_tile_def reads_past_def setup_tile_def tile_extent_def Let_def numeral_eq_Suc)
  then have "tiles_read lcd8_panel [1, 0xFF] ?s [2] (?t\<lparr>rfb_x := 16\<rparr>\<lparr>rfb_y := 16, rfb_x := 0\<rparr>)"
    by (rule tiles_read.tile [rotated]) (simp_all add: inside_def tiles_read.row tiles_read.finish)
  moreover have "drop RFBFILE_HEADER_SIZE ?raw = [1, 0xFF]" by (simp add: RFBFILE_HEADER_SIZE_def)
  ultimately show ?thesis
    using file_shown [of ?raw "rfb_boot 0 ?d" "[2]"] unfolding s
    by (fastforce simp: MAX_TILE_SIZE_def RFBFILE_HEADER_SIZE_def lcd8_panel_def)
qed

text \<open>
  C33. A coded tile of more than 257 bytes, which the format allows, is never taken from the
  buffer: the loop over the file does not end.
\<close>

theorem large_tile_hangs:
  assumes "inside s" and "fst (handle_tile lcd8_panel (drop position rawData) s) = Some n" and "MAX_TILE_SIZE < n"
  shows "decode_file lcd8_panel rawData position s = None"
  using assms by (rule lcd8.stuck_decodes_nothing)

theorem large_tile_hangs_witness:
  "decode_file lcd8_panel (0x08 # 0xFF # replicate 510 0) 0
     (SetupHandleHextile 0 0 16 16 (rfb_boot 0 (lcd8_boot spi_boot))) = None"
proof -
  let ?raw = "0x08 # 0xFF # replicate 510 0 :: bytes"
  let ?s = "SetupHandleHextile 0 0 16 16 (rfb_boot 0 (lcd8_boot spi_boot))"
  have "inside ?s" by (simp add: inside_def SetupHandleHextile_def rfb_boot_def Let_def)
  moreover have "fst (handle_tile lcd8_panel (drop 0 ?raw) ?s) = Some 512"
    by (simp add: handle_tile_eq coded_tile_eq tile_tail_def fg_end_def bg_end_def has_bg_def has_fg_def
        read_subrects_def Let_def)
  ultimately show ?thesis by (rule large_tile_hangs) (simp add: MAX_TILE_SIZE_def)
qed

text \<open>
  C34. Of all the reads the decoder of the file viewer makes for a tile (its first byte, pixels, colours,
  the number of subrectangles, the subrectangles) only one can leave the buffer: that of the number,
  which is one byte behind the end exactly when a coded tile has subrectangles and the buffer ends where
  their number should be.
\<close>

theorem tile_overreads:
  "inside s \<Longrightarrow> fst (snd (handle_tile P rest s)) \<longleftrightarrow>
     rest \<noteq> [] \<and> rest ! 0 AND rfbHextileRaw = 0 \<and> rest ! 0 AND rfbHextileAnySubrects \<noteq> 0 \<and>
     length rest = fg_end rest"
  by (rule handle_tile_overreads)

theorem tile_overreads_witness:
  "fst (snd (handle_tile lcd8_panel [0x0C, 7] (SetupHandleHextile 0 0 16 16 (rfb_boot 0 (lcd8_boot spi_boot))))) \<and>
   \<not> fst (snd (handle_tile lcd8_panel [0x0C, 7, 1, 0] (SetupHandleHextile 0 0 16 16 (rfb_boot 0 (lcd8_boot spi_boot)))))"
proof -
  let ?s = "SetupHandleHextile 0 0 16 16 (rfb_boot 0 (lcd8_boot spi_boot))"
  have "inside ?s" by (simp add: inside_def SetupHandleHextile_def rfb_boot_def Let_def)
  then show ?thesis
    using tile_overreads [of ?s lcd8_panel "[0x0C, 7]"] tile_overreads [of ?s lcd8_panel "[0x0C, 7, 1, 0]"]
    by (simp add: fg_end_def bg_end_def has_bg_def has_fg_def)
qed

text \<open>
  C35. All that the file viewer does: at its start and in each round the e-paper panel is given its
  set-up, a RAM window and as many white bytes as the window has cells, and then a refresh.
\<close>

theorem eink_stays_white:
  "ek_wire ((eink_main_round ^^ n) (eink_main_init s)) = ek_wire s @
     map eink_event (eink_white @ eink_show @ concat (replicate n (Wait 2000 # eink_white @ eink_show)))"
  by (rule ek_wire_main)

section \<open>The frame server\<close>

text \<open>
  C36. A round in which a pixel has changed marks one rectangle and takes the picture over. The
  rectangle begins at the first changed column and row and ends two behind a changed column and a
  changed row. Every changed pixel is inside it or, as the library takes the right and lower edge as
  excluded, on one of these edges: those are not shown.
\<close>

theorem change_is_marked:
  assumes "fs_runonce s" and "changed_pixels pixelbuffer s \<noteq> {}"
  shows "\<exists>x0 y0 x1 y1. fs_marks (show_picture pixelbuffer s) = fs_marks s @ [(x0, y0, x1, y1)] \<and>
    fs_frame (show_picture pixelbuffer s) = pixelbuffer \<and>
    x0 \<in> int ` snd ` changed_pixels pixelbuffer s \<and> x1 - 2 \<in> int ` snd ` changed_pixels pixelbuffer s \<and>
    y0 \<in> int ` fst ` changed_pixels pixelbuffer s \<and> y1 - 2 \<in> int ` fst ` changed_pixels pixelbuffer s \<and>
    (\<forall>(j, i) \<in> changed_pixels pixelbuffer s. x0 \<le> int i \<and> y0 \<le> int j \<and>
      (int i < x1 \<and> int j < y1 \<or> int i = x1 \<and> int j \<le> y1 \<or> int i \<le> x1 \<and> int j = y1))"
proof -
  have edge: "a \<le> x \<and> b \<le> y \<longleftrightarrow> a < x \<and> b < y \<or> a = x \<and> b \<le> y \<or> a \<le> x \<and> b = y" for a b x y :: int
    by linarith
  from mark_tight [OF assms(2,1)] show ?thesis unfolding edge [symmetric] by fast
qed

theorem change_is_marked_witness:
  "fs_marks (show_picture [0, 0, 0, 0, 7, 0, 0, 0]
      ((fs_boot [0, 0, 0, 0, 0, 0, 0, 0])\<lparr>fs_maxx := 2, fs_maxy := 1, fs_runonce := True\<rparr>)) = [(1, 0, 3, 2)]"
proof -
  let ?s = "(fs_boot [0, 0, 0, 0, 0, 0, 0, 0])\<lparr>fs_maxx := 2, fs_maxy := 1, fs_runonce := True\<rparr>"
  have "changed_pixels [0, 0, 0, 0, 7, 0, 0, 0] ?s = {(0, 1)}"
    by (auto simp: changed_pixels_def fs_changed_def fs_boot_def bpp_def less_2_cases_iff)
  with change_is_marked [of ?s "[0, 0, 0, 0, 7, 0, 0, 0]"] show ?thesis by (simp add: fs_boot_def)
qed

text \<open>
  The library takes the right and lower edge as excluded. If the changed pixels are a block of
  \<open>w\<close> columns and \<open>h\<close> rows, its last column is left out exactly if three divides
  \<open>w\<close>, and its last row exactly if three divides \<open>h\<close>.
\<close>

theorem block_mark_misses:
  assumes "fs_runonce s" and "0 < w" and "0 < h"
    and "fs_diff pixelbuffer (fs_frame s) (fs_maxx s) (fs_maxy s) = fs_block a b w h"
  shows "\<exists>x1 y1. fs_marks (show_picture pixelbuffer s) = fs_marks s @ [(int a, int b, x1, y1)] \<and>
    (int (a + w - 1) < x1 \<longleftrightarrow> \<not> 3 dvd w) \<and> (int (b + h - 1) < y1 \<longleftrightarrow> \<not> 3 dvd h)"
  using block_rect [OF assms(2,3), of a b] reach_misses [OF assms(2), of a] reach_misses [OF assms(3), of b]
    assms(1,4)
  by (simp add: show_picture_def mod_rect_points Let_def) linarith

theorem block_mark_misses_witness:
  "\<exists>x1 y1. fs_marks (show_picture (replicate 12 1)
      ((fs_boot (replicate 12 0))\<lparr>fs_maxx := 3, fs_maxy := 1, fs_runonce := True\<rparr>)) = [(0, 0, x1, y1)] \<and>
    x1 \<le> 2 \<and> 0 < y1"
proof -
  let ?s = "(fs_boot (replicate 12 0))\<lparr>fs_maxx := 3, fs_maxy := 1, fs_runonce := True\<rparr>"
  have "fs_diff (replicate 12 1) (fs_frame ?s) (fs_maxx ?s) (fs_maxy ?s) = fs_block 0 0 3 1"
    by (simp add: fs_diff_def fs_cells_def fs_block_def fs_changed_def fs_boot_def bpp_def numeral_eq_Suc)
  from block_mark_misses [OF _ _ _ this] show ?thesis by (simp add: fs_boot_def) (metis not_less)
qed

text \<open>
  C37. The last key that was saved while its file was locked is not lost: it is in the file after
  the first round in which the file opens, whatever rounds and other keys come in between (keys that
  are not saved, as they are released, mean nothing or find the file open), if no key comes
  between the write and the line that clears the saved one. A key saved before it is replaced.
\<close>

theorem saved_key_written:
  assumes "key \<in> {XK_a, XK_b, XK_c, XK_r}" and "list_all keeps_saved es"
  shows "\<exists>t. fs_run (Press (False, True, key) # es @ [Round True [] (Some picture) stack]) s = Some t \<and>
    fs_input t = Some [ucast key] \<and> fs_saved t = 0"
proof -
  let ?s = "press_key (False, True, key) s"
  obtain t where t: "fs_run (es @ [Round True [] (Some picture) stack]) ?s = fs_run [Round True [] (Some picture) stack] t"
    "fs_saved t = fs_saved ?s" using locked_rounds [OF assms(2)] by blast
  moreover have "fs_saved ?s = ucast key" "(ucast key :: u8) \<noteq> 0" using assms(1) by (auto simp: press_key_def dokey_def)
  ultimately show ?thesis by (simp add: fs_round_def write_saved_def show_picture_frame Let_def)
qed

theorem saved_key_written_witness:
  "\<exists>t. fs_run [Press (False, True, XK_b), Round False [] (Some []) [], Press (False, False, XK_c), Press (True, True, XK_a),
      Round True [] (Some []) []] (fs_boot []) = Some t \<and>
    fs_input t = Some [98] \<and> fs_saved t = 0"
  using saved_key_written [of XK_b "[Round False [] (Some []) [], Press (False, False, XK_c), Press (True, True, XK_a)]" "[]" "[]" "fs_boot []"]
  by simp

section \<open>The test device and its host\<close>

text \<open>
  C38. The host program over a USB library that carries its transfers to the device and reports what the
  device does (\<open>bus_writes\<close>, \<open>bus_reads\<close>): if the first device that matches is this one, the
  device takes the 64 bytes to the end and answers, so that the program reports that they were sent, and
  shows as read those bytes and then what the device's buffer held behind them.
\<close>

theorem usb_test_passes:
  assumes "bus_writes crc (T h)" and "bus_reads crc N (T h)" and "29 \<le> N" and "at_rest d" and "length res0 = 230"
    and "find (device_matches 0x16C0 (Some ''Embedded Creations'') 0x05DC (Some ''libusbtest'')) (concat busses) = Some dev"
    and "sd_open dev = Some h"
  shows "fst (host_main busses T res0 d) =
    Some (Sent_successfully, Got 230 (pattern @ drop 64 (td_readWriteBuffer (vu_app d))), False)"
  using assms by (rule host_and_device)

theorem usb_test_passes_witness:
  "fst (host_main
      [[], [\<lparr>sd_idVendor = 0x16C0, sd_idProduct = 0x05DC, sd_open = Some (), sd_manufacturer = Some ''Embedded Creations'',
             sd_product = Some ''libusbtest''\<rparr>]]
      (\<lambda>h. bus_transfer (\<lambda>x. (0, 0)) 29) (replicate 230 0) (vusb_boot test_device_boot)) =
    Some (Sent_successfully, Got 230 (pattern @ drop 64 (replicate 230 0)), False)"
proof -
  let ?dev = "\<lparr>sd_idVendor = 0x16C0, sd_idProduct = 0x05DC, sd_open = Some (), sd_manufacturer = Some ''Embedded Creations'',
             sd_product = Some ''libusbtest''\<rparr>"
  have "at_rest (vusb_boot test_device_boot)"
    by (simp add: at_rest_def vusb_boot_def test_device_boot_ok)
  moreover have "td_readWriteBuffer (vu_app (vusb_boot test_device_boot)) = replicate 230 0"
    by (simp add: vusb_boot_def test_device_boot_def READ_WRITE_BUFFER_SIZE_def)
  moreover have "find (device_matches 0x16C0 (Some ''Embedded Creations'') 0x05DC (Some ''libusbtest''))
      (concat [[], [?dev]]) = Some ?dev" by (simp add: device_matches_def)
  ultimately show ?thesis
    using usb_test_passes [where T = "\<lambda>h. bus_transfer (\<lambda>x. (0, 0)) 29" and h = "()", OF bus_transfer_writes
        bus_transfer_reads order_refl, of "vusb_boot test_device_boot" "replicate 230 0" "[[], [?dev]]" ?dev] by simp
qed

text \<open>
  C39. Whatever packets arrive and whenever the host takes replies, resets and polls happen, neither the
  driver nor the device touches memory outside its objects, unless the host asks to read by the
  request to write.
\<close>

theorem usb_device_memory_safe:
  assumes "list_all polite_event es" and "s = bus_run test_app crc es (vusb_boot test_device_boot)"
  shows "\<not> vu_fault s \<and> td_ok (vu_app s)"
  using test.bus_run_ok [OF test.boot_ok [OF test_device_boot_ok] polite_events [OF assms(1)], of crc] assms(2)
  by (simp add: test.usb_ok_def test.core_ok_def)

theorem usb_device_memory_safe_witness:
  "td_ok (vu_app (bus_run test_app (\<lambda>x. (0, 0))
     [Packet 0x2d [0x40, 4, 0, 0, 0, 0, 0, 1], Poll False, Packet 0xe1 [1, 2, 3], Poll True, Sent]
     (vusb_boot test_device_boot)))"
  using usb_device_memory_safe [of "[Packet 0x2d [0x40, 4, 0, 0, 0, 0, 0, 1], Poll False, Packet 0xe1 [1, 2, 3], Poll True, Sent]"
      _ "\<lambda>x. (0, 0)"]
  by (simp add: polite_event_def td_unread_def del: bus_run_simps)

text \<open>
  C40. That request makes the driver send what is behind the reply before: nothing sets the message
  pointer, and \<open>usbFunctionRead\<close> is not used.
\<close>

theorem read_of_write_leaks:
  assumes "at_rest s" and "vu_MsgPtr s = (App k, off)" and "length (td_memory k (vu_app s)) \<le> off"
    and "0 < n" and "n < 255"
  shows "vu_fault (bus_run test_app crc
    [Packet USBPID_SETUP [0xC0, CUSTOM_RQ_TEST_WRITE, 0, 0, 0, 0, n, 0], Poll False] s)"
  using assms by (rule read_of_write_overreads)

theorem read_of_write_leaks_witness:
  "vu_fault (bus_run test_app (\<lambda>x. (0, 0)) [Packet 0x2d [0xC0, 4, 0, 0, 0, 0, 64, 0], Poll False]
     ((vusb_boot test_device_boot)\<lparr>vu_MsgPtr := (App 0, 4)\<rparr>))"
  by (rule read_of_write_leaks [where k = 0 and off = 4])
    (simp_all add: at_rest_def vusb_boot_def td_memory_def td_ok_def test_device_boot_def READ_WRITE_BUFFER_SIZE_def)

text \<open>
  Both variants of the search open the same device and close the same others, the older one bus by bus.
\<close>

theorem open_variants_agree:
  "usbOpenDevice busses vendor vendorName product productName =
    usbOpenDevice_1_0 (concat busses) vendor vendorName product productName"
  by (rule variants_agree)

text \<open>
  If the transfer of the read fails, its result of -1 is taken as an unsigned length, and the
  program shows what is behind its buffer.
\<close>

theorem failed_read_leaks:
  assumes "fst (T 0xC0 3 0 0 res0 230 d) < 0" and "length (fst (snd (T 0xC0 3 0 0 res0 230 d))) = 230"
  shows "fst (usbasp_initialize T res0 d) = Got 0xFFFFFFFF (fst (snd (T 0xC0 3 0 0 res0 230 d))) \<and>
    fst (snd (usbasp_initialize T res0 d))"
  using assms by (rule failed_read_overreads)

theorem failed_read_leaks_witness:
  "usbasp_initialize (\<lambda>ty rq v i buf n d. (- 110, buf, d)) (replicate 230 0) () =
     (Got 0xFFFFFFFF (replicate 230 0), True, ())"
  using failed_read_leaks [of "\<lambda>ty rq v i buf n d. (- 110, buf, d)" "replicate 230 0" "()"]
  by (simp add: prod_eq_iff)

end
